(* ===== verification/Prelude.thy ===== *)
theory Prelude
  imports Main "HOL-Library.List_Lexorder" "HOL-Library.Char_ord" "HOL-Library.Sublist"
    "HOL-Library.AList" "HOL-Library.Word"
begin

text \<open>
  What the components share: the string functions of Go's standard library that the sources call
  (package \<^verbatim>\<open>strings\<close>, the verb \<^verbatim>\<open>%q\<close> of package \<^verbatim>\<open>fmt\<close>), Go error values with their wrapping chain,
  Go maps, and generic lemmas on lists and options. A Go string is a byte sequence, so it is a
  \<^typ>\<open>string\<close> (a list of 8-bit characters); functions that classify characters (spaces, letter case,
  printable) do so for ASCII, bytes from 128 on are ordinary characters.
\<close>

named_theorems go_strings \<open>equations of the string functions\<close>
named_theorems go_errors \<open>equations of the error functions\<close>

subsection \<open>Package strings\<close>

definition strings_HasPrefix :: "string \<Rightarrow> string \<Rightarrow> bool" where
  [go_strings]: "strings_HasPrefix s p = prefix p s"

definition strings_HasSuffix :: "string \<Rightarrow> string \<Rightarrow> bool" where
  [go_strings]: "strings_HasSuffix s p = suffix p s"

text \<open>The position of the first and of the last occurrence; the result -1 of Go is \<^term>\<open>None\<close>.\<close>

fun strings_Index :: "string \<Rightarrow> string \<Rightarrow> nat option" where
  "strings_Index [] sub = (if sub = [] then Some 0 else None)"
| "strings_Index (c # s) sub =
     (if prefix sub (c # s) then Some 0 else map_option Suc (strings_Index s sub))"

fun strings_LastIndex :: "string \<Rightarrow> string \<Rightarrow> nat option" where
  "strings_LastIndex [] sub = (if sub = [] then Some 0 else None)"
| "strings_LastIndex (c # s) sub =
     (case strings_LastIndex s sub of
        Some i \<Rightarrow> Some (Suc i)
      | None \<Rightarrow> if prefix sub (c # s) then Some 0 else None)"

definition strings_Contains :: "string \<Rightarrow> string \<Rightarrow> bool" where
  [go_strings]: "strings_Contains s sub = (strings_Index s sub \<noteq> None)"

definition strings_TrimRight :: "string \<Rightarrow> string \<Rightarrow> string" where
  "strings_TrimRight s cutset = rev (dropWhile (\<lambda>c. c \<in> set cutset) (rev s))"

definition strings_TrimSuffix :: "string \<Rightarrow> string \<Rightarrow> string" where
  "strings_TrimSuffix s suf = (if suffix suf s then take (length s - length suf) s else s)"

definition is_space :: "char \<Rightarrow> bool" where
  "is_space c = (c \<in> {CHR '' '', CHR 0x09, CHR 0x0A, CHR 0x0B, CHR 0x0C, CHR 0x0D})"

definition strings_TrimSpace :: "string \<Rightarrow> string" where
  "strings_TrimSpace s = rev (dropWhile is_space (rev (dropWhile is_space s)))"

text \<open>\<^verbatim>\<open>strings.Split\<close> with a separator of one character, as all callers have it.\<close>

fun strings_Split :: "string \<Rightarrow> char \<Rightarrow> string list" where
  "strings_Split [] sep = [[]]"
| "strings_Split (c # s) sep =
     (if c = sep then [] # strings_Split s sep
      else case strings_Split s sep of
             [] \<Rightarrow> [[c]]
           | p # ps \<Rightarrow> (c # p) # ps)"

fun strings_Join :: "string list \<Rightarrow> string \<Rightarrow> string" where
  "strings_Join [] sep = []"
| "strings_Join [x] sep = x"
| "strings_Join (x # y # zs) sep = x @ sep @ strings_Join (y # zs) sep"

definition to_lower :: "char \<Rightarrow> char" where
  "to_lower c = (let n = of_char c :: nat in if 65 \<le> n \<and> n \<le> 90 then char_of (n + 32) else c)"

definition strings_ToLower :: "string \<Rightarrow> string" where
  "strings_ToLower = map to_lower"

text \<open>The verb \<^verbatim>\<open>%q\<close>: a double-quoted string with Go escapes.\<close>

definition hex_digit :: "nat \<Rightarrow> char" where
  "hex_digit n = (''0123456789abcdef'') ! (n mod 16)"

definition quote_char :: "char \<Rightarrow> string" where
  "quote_char c =
     (if c = CHR 0x22 then [CHR 0x5C, CHR 0x22]
      else if c = CHR 0x5C then [CHR 0x5C, CHR 0x5C]
      else if c = CHR 0x07 then [CHR 0x5C, CHR ''a'']
      else if c = CHR 0x08 then [CHR 0x5C, CHR ''b'']
      else if c = CHR 0x0C then [CHR 0x5C, CHR ''f'']
      else if c = CHR 0x0A then [CHR 0x5C, CHR ''n'']
      else if c = CHR 0x0D then [CHR 0x5C, CHR ''r'']
      else if c = CHR 0x09 then [CHR 0x5C, CHR ''t'']
      else if c = CHR 0x0B then [CHR 0x5C, CHR ''v'']
      else if (of_char c :: nat) < 32 \<or> c = CHR 0x7F
      then [CHR 0x5C, CHR ''x'', hex_digit (of_char c div 16), hex_digit (of_char c)]
      else [c])"

definition fmt_q :: "string \<Rightarrow> string" where
  "fmt_q s = [CHR 0x22] @ concat (map quote_char s) @ [CHR 0x22]"

text \<open>The verb \<^verbatim>\<open>%d\<close>: decimal digits.\<close>

fun nat_digits :: "nat \<Rightarrow> nat \<Rightarrow> string" where
  "nat_digits 0 n = []"
| "nat_digits (Suc fuel) n = (if n < 10 then [] else nat_digits fuel (n div 10)) @ [char_of (48 + n mod 10)]"

definition fmt_d :: "int \<Rightarrow> string" where
  "fmt_d i = (if i < 0 then ''-'' else []) @ nat_digits (nat \<bar>i\<bar> + 1) (nat \<bar>i\<bar>)"

subsection \<open>Package time\<close>

text \<open>A duration is a number of nanoseconds.\<close>

definition time_Second :: int where
  "time_Second = 1000000000"

subsection \<open>Errors\<close>

text \<open>
  A Go error is a chain: \<^verbatim>\<open>fmt.Errorf\<close> with \<^verbatim>\<open>%w\<close> wraps an error behind a text, and \<^verbatim>\<open>errors.As\<close> looks
  for a type along the chain. The leaves are the kinds of errors the sources tell apart: an error that
  implements \<^verbatim>\<open>net.Error\<close>, the \<^verbatim>\<open>StatusError\<close> of the Consul client with its HTTP code, the API errors of
  Kubernetes (not found, conflict, any other) and plain errors.
\<close>

datatype goerror =
    NetError string
  | StatusError int string
  | K8sNotFound string
  | K8sConflict string
  | K8sOther string
  | PlainError string
  | WrapError string goerror
  | RetryableError goerror

type_synonym 'a result = "goerror + 'a"

primrec Error :: "goerror \<Rightarrow> string" where
  "Error (NetError s) = s"
| "Error (StatusError code s) = s"
| "Error (K8sNotFound s) = s"
| "Error (K8sConflict s) = s"
| "Error (K8sOther s) = s"
| "Error (PlainError s) = s"
| "Error (WrapError ctx e) = ctx @ Error e"
| "Error (RetryableError e) = Error e"

text \<open>\<^verbatim>\<open>IsNotFound\<close> and \<^verbatim>\<open>IsConflict\<close> of Kubernetes also look along the chain.\<close>

primrec IsNotFound :: "goerror \<Rightarrow> bool" where
  "IsNotFound (NetError s) = False"
| "IsNotFound (StatusError code s) = False"
| "IsNotFound (K8sNotFound s) = True"
| "IsNotFound (K8sConflict s) = False"
| "IsNotFound (K8sOther s) = False"
| "IsNotFound (PlainError s) = False"
| "IsNotFound (WrapError ctx e) = IsNotFound e"
| "IsNotFound (RetryableError e) = IsNotFound e"

primrec IsConflict :: "goerror \<Rightarrow> bool" where
  "IsConflict (NetError s) = False"
| "IsConflict (StatusError code s) = False"
| "IsConflict (K8sNotFound s) = False"
| "IsConflict (K8sConflict s) = True"
| "IsConflict (K8sOther s) = False"
| "IsConflict (PlainError s) = False"
| "IsConflict (WrapError ctx e) = IsConflict e"
| "IsConflict (RetryableError e) = IsConflict e"

subsection \<open>Lemmas on the string functions\<close>

lemma strings_Contains_sublist: "strings_Contains s sub \<longleftrightarrow> sublist sub s"
proof (induction s)
  case Nil
  then show ?case by (simp add: strings_Contains_def)
next
  case (Cons c s)
  then show ?case
    by (auto simp: strings_Contains_def sublist_Cons_right)
qed

lemma strings_LastIndex_None: "strings_LastIndex s sub = None \<longleftrightarrow> \<not> sublist sub s"
  by (induction s) (auto simp: sublist_Cons_right split: option.splits)

lemma strings_LastIndex_Some:
  "strings_LastIndex s sub = Some i \<Longrightarrow>
     \<exists>xs ys. s = xs @ sub @ ys \<and> length xs = i \<and> (sub \<noteq> [] \<longrightarrow> \<not> sublist sub ys)"
proof (induction s arbitrary: i)
  case Nil
  then show ?case by (simp split: if_splits)
next
  case (Cons c s)
  show ?case
  proof (cases "strings_LastIndex s sub")
    case None
    with Cons.prems have "i = 0" and "prefix sub (c # s)" and no: "\<not> sublist sub s"
      by (auto simp: strings_LastIndex_None split: if_splits)
    then obtain ys where ys: "c # s = sub @ ys" by (auto simp: prefix_def)
    have "\<not> sublist sub ys" if "sub \<noteq> []"
    proof -
      from ys that have "suffix ys s" by (cases sub) (auto simp: suffix_def)
      with no show ?thesis by (meson suffix_imp_sublist sublist_order.order.trans)
    qed
    with ys \<open>i = 0\<close> show ?thesis by (metis append_Nil list.size(3))
  next
    case (Some j)
    with Cons.prems have "i = Suc j" by simp
    with Cons.IH[OF Some] show ?thesis by (metis append_Cons length_Cons)
  qed
qed

lemma strings_LastIndex_append:
  assumes "sub \<noteq> []" and "\<not> sublist sub (tl sub @ ys)"
  shows "strings_LastIndex (xs @ sub @ ys) sub = Some (length xs)"
proof (induction xs)
  case Nil
  obtain c cs where sub: "sub = c # cs" using assms(1) by (cases sub) auto
  with assms(2) have "strings_LastIndex (cs @ ys) sub = None"
    by (simp add: strings_LastIndex_None)
  with sub show ?case by simp
next
  case (Cons x xs)
  then show ?case by simp
qed

lemma sublist_sep:
  assumes "c \<notin> set sub" and "sub \<noteq> []"
  shows "sublist sub (xs @ c # ys) \<longleftrightarrow> sublist sub xs \<or> sublist sub ys"
proof
  assume "sublist sub (xs @ c # ys)"
  then show "sublist sub xs \<or> sublist sub ys"
  proof (induction xs)
    case Nil
    then show ?case
      using assms by (cases sub) (auto simp: sublist_Cons_right)
  next
    case (Cons x xs)
    then consider "prefix sub (x # xs @ c # ys)" | "sublist sub (xs @ c # ys)"
      by (auto simp: sublist_Cons_right)
    then show ?case
    proof cases
      case 1
      then have "prefix sub ((x # xs) @ c # ys)" by simp
      then have "prefix sub (x # xs)"
        using assms(1) unfolding prefix_append by (auto simp: prefix_Cons)
      then show ?thesis by auto
    next
      case 2
      then show ?thesis using Cons.IH by (auto simp: sublist_Cons_right)
    qed
  qed
next
  assume "sublist sub xs \<or> sublist sub ys"
  moreover have "suffix ys (xs @ c # ys)"
    by (auto simp: suffix_def)
  ultimately show "sublist sub (xs @ c # ys)"
    by (meson prefixI prefix_imp_sublist sublist_order.order.trans suffix_imp_sublist)
qed

lemma strings_Split_nonempty [simp]: "strings_Split s sep \<noteq> []"
  by (induction s) (auto split: list.splits)

lemma strings_Split_sep:
  "sep \<notin> set x \<Longrightarrow> strings_Split (x @ sep # s) sep = x # strings_Split s sep"
  by (induction x) auto

lemma strings_Split_single: "sep \<notin> set x \<Longrightarrow> strings_Split x sep = [x]"
  by (induction x) auto

lemma strings_Split_no_sep: "p \<in> set (strings_Split s sep) \<Longrightarrow> sep \<notin> set p"
  by (induction s arbitrary: p) (auto split: if_splits list.splits)

lemma strings_Split_sublist: "p \<in> set (strings_Split s sep) \<Longrightarrow> sublist p s"
proof -
  have "prefix (hd (strings_Split s sep)) s \<and> (\<forall>p \<in> set (tl (strings_Split s sep)). sublist p s)"
  proof (induction s)
    case Nil
    then show ?case by simp
  next
    case (Cons c s)
    then show ?case
      by (cases "strings_Split s sep")
        (auto simp: sublist_Cons_right intro: prefix_imp_sublist)
  qed
  then show "p \<in> set (strings_Split s sep) \<Longrightarrow> sublist p s"
    by (cases "strings_Split s sep") auto
qed

lemma strings_Split_Join:
  "xs \<noteq> [] \<Longrightarrow> (\<And>x. x \<in> set xs \<Longrightarrow> sep \<notin> set x) \<Longrightarrow> strings_Split (strings_Join xs [sep]) sep = xs"
  by (induction xs "[sep]" rule: strings_Join.induct)
    (auto simp: strings_Split_single strings_Split_sep)

lemma strings_Join_Split: "strings_Join (strings_Split s sep) [sep] = s"
proof (induction s)
  case Nil
  then show ?case by simp
next
  case (Cons c s)
  obtain p ps where "strings_Split s sep = p # ps"
    by (cases "strings_Split s sep") auto
  with Cons show ?case by (cases ps) auto
qed

lemma dropWhile_sublist: "sublist (dropWhile P s) s"
  by (meson suffix_dropWhile suffix_imp_sublist)

lemma rev_dropWhile_rev_sublist: "sublist (rev (dropWhile P (rev s))) s"
  by (metis dropWhile_sublist rev_rev_ident sublist_rev)

lemma strings_TrimSpace_sublist: "sublist (strings_TrimSpace s) s"
  unfolding strings_TrimSpace_def
  by (meson dropWhile_sublist rev_dropWhile_rev_sublist sublist_order.order.trans)

lemma strings_TrimSuffix_sublist: "sublist (strings_TrimSuffix s suf) s"
  by (auto simp: strings_TrimSuffix_def intro: prefix_imp_sublist take_is_prefix)

lemma strings_TrimSpace_idem [simp]: "strings_TrimSpace (strings_TrimSpace s) = strings_TrimSpace s"
proof -
  have A: "dropWhile is_space (rev (dropWhile is_space (rev t))) = rev (dropWhile is_space (rev t))"
    if "dropWhile is_space t = t" for t
  proof (cases "rev (dropWhile is_space (rev t))")
    case Nil
    then show ?thesis by (simp only: dropWhile.simps)
  next
    case (Cons c u)
    have "prefix (rev (dropWhile is_space (rev t))) t"
      by (metis rev_rev_ident suffix_dropWhile suffix_to_prefix)
    with Cons have "\<exists>v. t = c # v" by (auto simp: prefix_def)
    with that have "\<not> is_space c" by (auto simp: dropWhile_eq_Cons_conv split: if_splits)
    with Cons show ?thesis by simp
  qed
  have "dropWhile is_space (dropWhile is_space s) = dropWhile is_space s"
    by (simp add: dropWhile_idem)
  from A[OF this] show ?thesis
    by (simp add: strings_TrimSpace_def)
qed

lemma strings_TrimSpace_Cons_space [simp]: "is_space c \<Longrightarrow> strings_TrimSpace (c # s) = strings_TrimSpace s"
  by (simp add: strings_TrimSpace_def)

lemma strings_TrimSpace_ends:
  assumes "s \<noteq> []" and "\<not> is_space (hd s)" and "\<not> is_space (last s)"
  shows "strings_TrimSpace s = s"
proof -
  have "dropWhile is_space s = s" using assms(1,2) by (cases s) auto
  moreover have "dropWhile is_space (rev s) = rev s"
    using assms(1,3) by (cases "rev s") (auto simp: hd_rev[symmetric])
  ultimately show ?thesis by (simp add: strings_TrimSpace_def)
qed

lemma strings_TrimSpace_fixed_ends:
  assumes "strings_TrimSpace s = s" and "s \<noteq> []"
  shows "\<not> is_space (hd s)" and "\<not> is_space (last s)"
proof -
  have "length s = length (dropWhile is_space (rev (dropWhile is_space s)))"
    using arg_cong[OF assms(1), of length] by (simp add: strings_TrimSpace_def)
  also have "\<dots> \<le> length (dropWhile is_space s)"
    using length_dropWhile_le[of is_space "rev (dropWhile is_space s)"] by simp
  finally have "length s \<le> length (dropWhile is_space s)" .
  moreover have "length (takeWhile is_space s) + length (dropWhile is_space s) = length s"
    by (metis length_append takeWhile_dropWhile_id)
  ultimately have "length (takeWhile is_space s) = 0" by linarith
  then have "takeWhile is_space s = []" by (simp only: length_0_conv)
  then have d: "dropWhile is_space s = s"
    using takeWhile_dropWhile_id[of is_space s] by simp
  then show "\<not> is_space (hd s)" using assms(2)
    by (metis dropWhile_eq_self_iff)
  from d assms(1) have "rev (dropWhile is_space (rev s)) = s"
    by (simp add: strings_TrimSpace_def)
  then have "dropWhile is_space (rev s) = rev s" by (metis rev_rev_ident)
  then show "\<not> is_space (last s)" using assms(2)
    by (metis dropWhile_eq_self_iff hd_rev rev_is_Nil_conv)
qed

lemma strings_TrimRight_snoc:
  "strings_TrimRight (s @ [c]) cs = (if c \<in> set cs then strings_TrimRight s cs else s @ [c])"
  by (simp add: strings_TrimRight_def)

lemma strings_TrimRight_idem [simp]:
  "strings_TrimRight (strings_TrimRight s cs) cs = strings_TrimRight s cs"
  by (simp add: strings_TrimRight_def dropWhile_idem)

lemma strings_TrimSuffix_append [simp]: "strings_TrimSuffix (s @ suf) suf = s"
  by (simp add: strings_TrimSuffix_def suffix_def)

subsection \<open>Go maps\<close>

text \<open>The order in which a loop visits the keys of a map is open: any permutation of them.\<close>

definition range_ok :: "(string list \<Rightarrow> string list) \<Rightarrow> bool" where
  "range_ok rng \<longleftrightarrow> (\<forall>ks. distinct ks \<longrightarrow> distinct (rng ks) \<and> set (rng ks) = set ks)"

subsection \<open>JSON values\<close>

text \<open>A value of \<^verbatim>\<open>interface{}\<close> as the JSON decoder makes it; a number is its literal, an object an association list.\<close>

datatype configValue =
    NullVal
  | BoolVal bool
  | NumVal string
  | StrVal string
  | ListVal "configValue list"
  | MapVal "(string \<times> configValue) list"

subsection \<open>Effects\<close>

text \<open>
  A call with an effect takes the world to a result and a new world. \<open>and_then\<close> is the early return of an error, \<open>for_each\<close>
  the loop that stops at the first error.
\<close>

fun and_then :: "goerror option \<times> 'w \<Rightarrow> ('w \<Rightarrow> goerror option \<times> 'w) \<Rightarrow> goerror option \<times> 'w" where
  "and_then (Some err, w) f = (Some err, w)"
| "and_then (None, w) f = f w"

fun for_each :: "('a \<Rightarrow> 'w \<Rightarrow> goerror option \<times> 'w) \<Rightarrow> 'a list \<Rightarrow> 'w \<Rightarrow> goerror option \<times> 'w" where
  "for_each f [] w = (None, w)"
| "for_each f (x # xs) w = and_then (f x w) (for_each f xs)"

text \<open>An operation keeps a property of the world, whatever it returns.\<close>

definition keeps :: "('w \<Rightarrow> bool) \<Rightarrow> ('w \<Rightarrow> 'r \<times> 'w) \<Rightarrow> bool" where
  "keeps I f \<longleftrightarrow> (\<forall>w. I w \<longrightarrow> I (snd (f w)))"

lemma keepsI [intro?]: "(\<And>w r w'. I w \<Longrightarrow> f w = (r, w') \<Longrightarrow> I w') \<Longrightarrow> keeps I f"
  unfolding keeps_def by (metis prod.collapse)

lemma keepsD: "keeps I f \<Longrightarrow> I w \<Longrightarrow> f w = (r, w') \<Longrightarrow> I w'"
  unfolding keeps_def by (metis snd_conv)

lemma keeps_snd: "keeps I f \<Longrightarrow> I w \<Longrightarrow> I (snd (f w))"
  by (simp add: keeps_def)

lemma and_then_None: "and_then x f = (None, w2) \<longleftrightarrow> (\<exists>w1. x = (None, w1) \<and> f w1 = (None, w2))"
  by (cases "(x, f)" rule: and_then.cases) auto

lemma keeps_and_then: "I (snd x) \<Longrightarrow> keeps I f \<Longrightarrow> I (snd (and_then x f))"
  by (cases "(x, f)" rule: and_then.cases) (auto simp: keeps_def)

lemma keeps_for_each:
  assumes "\<And>x. x \<in> set xs \<Longrightarrow> keeps I (f x)"
  shows "keeps I (for_each f xs)"
  using assms
proof (induction xs)
  case Nil
  then show ?case by (simp add: keeps_def)
next
  case (Cons x xs)
  then have "keeps I (for_each f xs)" "keeps I (f x)" by auto
  then show ?case unfolding keeps_def using keeps_and_then[of I _ "for_each f xs"] by (auto simp: keeps_def)
qed

lemma for_each_None:
  "for_each f xs w = (None, w') \<Longrightarrow> x \<in> set xs \<Longrightarrow> \<exists>w1 w2. f x w1 = (None, w2)"
proof (induction xs arbitrary: w)
  case Nil
  then show ?case by simp
next
  case (Cons y ys)
  obtain r w1 where y: "f y w = (r, w1)" by fastforce
  with Cons.prems(1) have "r = None" "for_each f ys w1 = (None, w')" by (cases r; auto)+
  with Cons.IH Cons.prems(2) y show ?case by auto
qed

end
