(* ===== verification/Owners.thy ===== *)
theory Owners
  imports Prelude
begin

text \<open>
  The owner list that the operator keeps at the end of the description of a policy, role or binding
  rule (\<^verbatim>\<open>controllers/consulacl_controller.go\<close>, lines 75-84 and 824-889): the codec between a description
  and its base text and owners, and the operations that add and remove a namespace. The interface
  \<open>owner_codec\<close> states the round trip of the codec, \<open>owner_registry\<close> what the other components rely on;
  both are interpreted on the operator's functions.
\<close>

subsection \<open>Definitions\<close>

definition splitList :: "string \<Rightarrow> string list" where
  "splitList value = filter (\<lambda>item. item \<noteq> []) (map strings_TrimSpace (strings_Split value CHR '',''))"

definition ownersMarker :: string where
  "ownersMarker = ''[consul-acl-owners:''"

abbreviation trim_base :: "string \<Rightarrow> string" where
  "trim_base s \<equiv> strings_TrimRight s [CHR '' '', CHR 0x0A]"

definition parseOwners :: "string \<Rightarrow> string \<times> string list" where
  "parseOwners description =
     (case strings_LastIndex description ownersMarker of
        None \<Rightarrow> (trim_base description, [])
      | Some idx \<Rightarrow>
          (let baseDesc = trim_base (take idx description);
               raw = strings_TrimSuffix
                       (strings_TrimSpace (drop (idx + length ownersMarker) description)) '']''
           in (baseDesc, filter (\<lambda>o'. o' \<noteq> []) (map strings_TrimSpace (strings_Split raw CHR '','')))))"

definition buildDescription :: "string \<Rightarrow> string list \<Rightarrow> string" where
  "buildDescription baseDesc owners =
     (if owners = [] then baseDesc
      else let suffix' = ownersMarker @ '' '' @ strings_Join (sort owners) '', '' @ '']''
           in if baseDesc = [] then suffix' else baseDesc @ [CHR 0x0A] @ suffix')"

definition withOwnerRemoved :: "string \<Rightarrow> string \<Rightarrow> string \<times> bool" where
  "withOwnerRemoved description namespace =
     (let (base, owners) = parseOwners description;
          remaining = filter (\<lambda>o'. o' \<noteq> namespace) owners
      in (buildDescription base remaining, remaining = []))"

definition hasOwner :: "string \<Rightarrow> string \<Rightarrow> bool" where
  "hasOwner description namespace = (namespace \<in> set (snd (parseOwners description)))"

definition withOwnerAdded :: "string \<Rightarrow> string \<Rightarrow> string \<Rightarrow> string" where
  "withOwnerAdded specDescription existingDescription namespace =
     (let specBase = fst (parseOwners specDescription);
          owners = snd (parseOwners existingDescription);
          owners' = (if \<not> hasOwner existingDescription namespace then owners @ [namespace] else owners)
      in buildDescription specBase owners')"

subsection \<open>The codec\<close>

text \<open>The owners a description can hold: what splitting the list at commas can give.\<close>

definition owner_ok :: "string \<Rightarrow> bool" where
  "owner_ok n \<longleftrightarrow> n \<noteq> [] \<and> strings_TrimSpace n = n \<and> CHR '','' \<notin> set n \<and> \<not> sublist ownersMarker n"

text \<open>The namespaces of Kubernetes are DNS labels: letters, digits and hyphens.\<close>

definition dns_label_char :: "char \<Rightarrow> bool" where
  "dns_label_char c \<longleftrightarrow> (let n = of_char c :: nat in
     (97 \<le> n \<and> n \<le> 122) \<or> (48 \<le> n \<and> n \<le> 57) \<or> n = 45)"

definition dns_label :: "string \<Rightarrow> bool" where
  "dns_label s \<longleftrightarrow> s \<noteq> [] \<and> list_all dns_label_char s"

lemma dns_label_char_simps [simp]:
  "\<not> dns_label_char CHR '',''" "\<not> dns_label_char CHR ''[''" "\<not> dns_label_char CHR ''_''"
  by (simp_all add: dns_label_char_def)

lemma dns_label_char_no_space: "dns_label_char c \<Longrightarrow> \<not> is_space c"
  by (auto simp: dns_label_char_def is_space_def)

lemma ownersMarker_nonempty [simp]: "ownersMarker \<noteq> []"
  by (simp add: ownersMarker_def)

lemma dns_label_owner_ok: "dns_label n \<Longrightarrow> owner_ok n"
proof -
  assume d: "dns_label n"
  then have all: "\<And>c. c \<in> set n \<Longrightarrow> dns_label_char c" and ne: "n \<noteq> []"
    by (auto simp: dns_label_def list_all_iff)
  have "strings_TrimSpace n = n"
    using ne all[of "hd n"] all[of "last n"]
    by (intro strings_TrimSpace_ends) (auto dest: dns_label_char_no_space)
  moreover have "\<not> sublist ownersMarker n"
  proof
    assume "sublist ownersMarker n"
    then have "CHR ''['' \<in> set n" by (auto simp: ownersMarker_def sublist_def)
    with all show False by fastforce
  qed
  ultimately show ?thesis using ne all by (fastforce simp: owner_ok_def)
qed

lemma parseOwners_owner_ok:
  assumes "n \<in> set (snd (parseOwners d))"
  shows "owner_ok n"
proof -
  from assms obtain idx where idx: "strings_LastIndex d ownersMarker = Some idx"
    by (auto simp: parseOwners_def split: option.splits)
  define raw where "raw = strings_TrimSuffix
    (strings_TrimSpace (drop (idx + length ownersMarker) d)) '']''"
  from assms idx obtain p where p: "p \<in> set (strings_Split raw CHR '','')"
    and n: "n = strings_TrimSpace p" "n \<noteq> []"
    by (auto simp: parseOwners_def raw_def)
  obtain xs ys where d: "d = xs @ ownersMarker @ ys" "length xs = idx"
      and ys: "\<not> sublist ownersMarker ys"
    using strings_LastIndex_Some[OF idx] by auto
  have "sublist n p" using n strings_TrimSpace_sublist by simp
  also have "sublist p raw" using p by (rule strings_Split_sublist)
  also have "sublist raw ys"
    unfolding raw_def using d
    by simp (meson strings_TrimSpace_sublist strings_TrimSuffix_sublist sublist_order.order.trans)
  finally have "sublist n ys" .
  with ys have "\<not> sublist ownersMarker n" by (meson sublist_order.order.trans)
  moreover have "CHR '','' \<notin> set n"
    using strings_Split_no_sep[OF p] n set_mono_sublist[OF strings_TrimSpace_sublist] by auto
  ultimately show ?thesis using n by (simp add: owner_ok_def)
qed

lemma strings_Join_comma_sublist:
  assumes "sublist sub (strings_Join xs '', '')" and "sub \<noteq> []"
    and "CHR '','' \<notin> set sub" and "CHR '' '' \<notin> set sub"
  shows "\<exists>x \<in> set xs. sublist sub x"
  using assms
proof (induction xs "'', ''" rule: strings_Join.induct)
  case (3 x y zs)
  then have "sublist sub (x @ CHR '','' # CHR '' '' # strings_Join (y # zs) '', '')" by simp
  then have "sublist sub x \<or> sublist sub ([] @ CHR '' '' # strings_Join (y # zs) '', '')"
    using sublist_sep[OF 3(4,3)] by simp
  then have "sublist sub x \<or> sublist sub (strings_Join (y # zs) '', '')"
    using sublist_sep[OF 3(5,3), of "[]"] 3(3) by auto
  with 3 show ?case by auto
qed auto

lemma split_join_owners:
  assumes "\<forall>o' \<in> set os. owner_ok o'"
  shows "filter (\<lambda>o'. o' \<noteq> []) (map strings_TrimSpace (strings_Split (strings_Join os '', '') CHR '','')) = os"
  using assms
proof (induction os "'', ''" rule: strings_Join.induct)
  case 1
  then show ?case by (simp add: strings_TrimSpace_def)
next
  case (2 x)
  then show ?case by (simp add: owner_ok_def strings_Split_single)
next
  case (3 x y zs)
  obtain p ps where s: "strings_Split (strings_Join (y # zs) '', '') CHR '','' = p # ps"
    by (cases "strings_Split (strings_Join (y # zs) '', '') CHR '',''") auto
  have "CHR '','' \<notin> set x" using 3 by (simp add: owner_ok_def)
  then have "strings_Split (strings_Join (x # y # zs) '', '') CHR '','' = x # (CHR '' '' # p) # ps"
    using s strings_Split_sep[of "CHR '',''" x "CHR '' '' # strings_Join (y # zs) '', ''"] by simp
  moreover have "strings_TrimSpace (CHR '' '' # p) = strings_TrimSpace p"
    by (rule strings_TrimSpace_Cons_space) (simp add: is_space_def)
  ultimately show ?case using 3 s by (simp add: owner_ok_def)
qed

lemma strings_Join_hd:
  "x \<noteq> [] \<Longrightarrow> hd (strings_Join (x # xs) sep) = hd x \<and> strings_Join (x # xs) sep \<noteq> []"
  by (cases xs) auto

lemma marker_not_in_tail:
  assumes "\<forall>o' \<in> set os. owner_ok o'"
  shows "\<not> sublist ownersMarker (tl ownersMarker @ '' '' @ strings_Join os '', '' @ '']'')"
proof
  let ?j = "strings_Join os '', ''"
  assume "sublist ownersMarker (tl ownersMarker @ '' '' @ ?j @ '']'')"
  then have "sublist ownersMarker (tl ownersMarker @ CHR '' '' # ?j @ '']'')" by simp
  then have "sublist ownersMarker (tl ownersMarker) \<or> sublist ownersMarker (?j @ CHR '']'' # [])"
    by (subst (asm) sublist_sep) (auto simp: ownersMarker_def)
  moreover have "\<not> sublist ownersMarker (tl ownersMarker)"
    by (metis length_tl diff_less length_greater_0_conv less_numeral_extra(1) not_le
        ownersMarker_nonempty sublist_length_le)
  ultimately have "sublist ownersMarker (?j @ CHR '']'' # [])" by blast
  then have "sublist ownersMarker ?j \<or> sublist ownersMarker []"
    by (subst (asm) sublist_sep) (auto simp: ownersMarker_def)
  then have "sublist ownersMarker ?j" by simp
  then obtain o' where "o' \<in> set os" "sublist ownersMarker o'"
    using strings_Join_comma_sublist[of ownersMarker os] by (auto simp: ownersMarker_def)
  with assms show False by (auto simp: owner_ok_def)
qed

theorem parse_build:
  assumes os: "\<forall>o' \<in> set os. owner_ok o'" and ne: "os \<noteq> []"
  shows "parseOwners (buildDescription b os) = (trim_base b, sort os)"
proof -
  let ?os = "sort os"
  let ?j = "strings_Join ?os '', ''"
  define pre where "pre = (if b = [] then [] else b @ [CHR 0x0A])"
  have ok: "\<forall>o' \<in> set ?os. owner_ok o'" using os by simp
  have bd: "buildDescription b os = pre @ ownersMarker @ ('' '' @ ?j @ '']'')"
    using ne by (simp add: buildDescription_def pre_def)
  have idx: "strings_LastIndex (buildDescription b os) ownersMarker = Some (length pre)"
    unfolding bd by (rule strings_LastIndex_append) (use marker_not_in_tail[OF ok] in simp_all)
  have base: "trim_base pre = trim_base b"
    by (simp add: pre_def strings_TrimRight_snoc)
  have jn: "?j \<noteq> []" and jh: "\<not> is_space (hd ?j)"
  proof -
    obtain x xs where x: "?os = x # xs"
      using ne by (cases ?os) (metis sort_key_simps(1) length_0_conv length_sort, blast)
    with ok have xok: "owner_ok x" by simp
    with x strings_Join_hd[of x xs "'', ''"]
    show "?j \<noteq> []" and "\<not> is_space (hd ?j)"
      using strings_TrimSpace_fixed_ends(1)[of x] by (auto simp: owner_ok_def)
  qed
  have "strings_TrimSpace ('' '' @ ?j @ '']'') = strings_TrimSpace (?j @ '']'')"
    using strings_TrimSpace_Cons_space[of "CHR '' ''"] by (simp add: is_space_def)
  also have "\<dots> = ?j @ '']''"
    by (rule strings_TrimSpace_ends) (use jn jh in \<open>auto simp: is_space_def\<close>)
  finally have "strings_TrimSuffix (strings_TrimSpace ('' '' @ ?j @ '']'')) '']'' = ?j"
    by simp
  then show ?thesis
    using idx base split_join_owners[OF ok] by (simp add: parseOwners_def Let_def bd)
qed

lemma buildDescription_sort: "buildDescription b (sort os) = buildDescription b os"
proof -
  have "sort os = [] \<longleftrightarrow> os = []" by (metis length_0_conv length_sort)
  then show ?thesis by (simp add: buildDescription_def Let_def sorted_sort_id)
qed

subsection \<open>The interface of the codec\<close>

locale owner_codec =
  fixes parse :: "'d \<Rightarrow> 'b \<times> ('o::linorder) list"
    and build :: "'b \<Rightarrow> 'o list \<Rightarrow> 'd"
    and ok :: "'o \<Rightarrow> bool"
    and norm :: "'b \<Rightarrow> 'b"
  assumes parse_ok: "n \<in> set (snd (parse d)) \<Longrightarrow> ok n"
    and round_trip: "\<forall>n \<in> set os. ok n \<Longrightarrow> os \<noteq> [] \<Longrightarrow> parse (build b os) = (norm b, sort os)"
begin

lemma rebuild_filtered:
  assumes "filter P (snd (parse d)) \<noteq> []"
  shows "parse (build b (filter P (snd (parse d)))) = (norm b, sort (filter P (snd (parse d))))"
  by (rule round_trip) (use assms parse_ok in auto)

lemma rebuild_extended:
  assumes "ok n"
  shows "parse (build b (snd (parse d) @ [n])) = (norm b, sort (snd (parse d) @ [n]))"
  by (rule round_trip) (use assms parse_ok in auto)

lemma rebuild_same:
  assumes "snd (parse d) \<noteq> []"
  shows "parse (build b (snd (parse d))) = (norm b, sort (snd (parse d)))"
  by (rule round_trip) (use assms parse_ok in auto)

end

interpretation acl_codec: owner_codec parseOwners buildDescription owner_ok trim_base
  by unfold_locales (auto intro: parseOwners_owner_ok parse_build)

abbreviation owners_of :: "string \<Rightarrow> string set" where
  "owners_of d \<equiv> set (snd (parseOwners d))"

lemma hasOwner_iff [simp]: "hasOwner d n \<longleftrightarrow> n \<in> owners_of d"
  by (simp add: hasOwner_def)

lemma parseOwners_empty [simp]: "parseOwners [] = ([], [])"
  by (simp add: parseOwners_def strings_TrimRight_def)

lemma withOwnerRemoved_last: "snd (withOwnerRemoved d n) \<longleftrightarrow> owners_of d \<subseteq> {n}"
  by (auto simp: withOwnerRemoved_def split_beta filter_empty_conv Let_def)

lemma withOwnerRemoved_parse:
  assumes "\<not> snd (withOwnerRemoved d n)"
  shows "parseOwners (fst (withOwnerRemoved d n)) =
    (trim_base (fst (parseOwners d)), sort (filter (\<lambda>o'. o' \<noteq> n) (snd (parseOwners d))))"
  using assms acl_codec.rebuild_filtered[of "\<lambda>o'. o' \<noteq> n" d]
  by (simp add: withOwnerRemoved_def split_beta Let_def)

lemma withOwnerAdded_parse:
  assumes "owner_ok n"
  shows "parseOwners (withOwnerAdded spec d n) = (trim_base (fst (parseOwners spec)),
    sort (if n \<in> owners_of d then snd (parseOwners d) else snd (parseOwners d) @ [n]))"
proof (cases "n \<in> owners_of d")
  case True
  then have "snd (parseOwners d) \<noteq> []" by auto
  then show ?thesis
    using True acl_codec.rebuild_same by (simp add: withOwnerAdded_def)
next
  case False
  then show ?thesis
    using acl_codec.rebuild_extended[OF assms] by (simp add: withOwnerAdded_def)
qed

subsection \<open>The registry of the owners of a shared entity\<close>

text \<open>
  Several custom resources may declare one entity. \<open>Declare\<close> is what a successful reconcile does to the
  description of the entity, \<open>Release\<close> what the deletion of a resource or its stale clean-up does; the
  entity is absent before the first declaration and again after its last owner has released it.
\<close>

datatype ('d, 'o) shared_op = Declare 'd 'o | Release 'o

fun shared_step ::
  "('d \<Rightarrow> 'd \<Rightarrow> 'o \<Rightarrow> 'd) \<Rightarrow> ('d \<Rightarrow> 'o \<Rightarrow> 'd \<times> bool) \<Rightarrow> 'd \<Rightarrow> ('d, 'o) shared_op \<Rightarrow> 'd option \<Rightarrow> 'd option"
where
  "shared_step add rem none (Declare spec n) st =
     Some (add spec (case st of None \<Rightarrow> none | Some d \<Rightarrow> d) n)"
| "shared_step add rem none (Release n) None = None"
| "shared_step add rem none (Release n) (Some d) =
     (let (d', isLast) = rem d n in if isLast then None else Some d')"

text \<open>The abstract specification: the set of namespaces that hold the entity.\<close>

fun holders_step :: "('d, 'o) shared_op \<Rightarrow> 'o set \<Rightarrow> 'o set" where
  "holders_step (Declare spec n) H = insert n H"
| "holders_step (Release n) H = H - {n}"

fun op_owner :: "('d, 'o) shared_op \<Rightarrow> 'o" where
  "op_owner (Declare spec n) = n"
| "op_owner (Release n) = n"

text \<open>The owners recorded for an entity, if it exists, are exactly the holders, of whom there is then at least one.\<close>

definition registered :: "('d \<Rightarrow> 'o set) \<Rightarrow> 'd option \<Rightarrow> 'o set \<Rightarrow> bool" where
  "registered owners st H \<longleftrightarrow> (case st of None \<Rightarrow> H = {} | Some d \<Rightarrow> H \<noteq> {} \<and> owners d = H)"

locale owner_registry =
  fixes owners :: "'d \<Rightarrow> 'o set"
    and add :: "'d \<Rightarrow> 'd \<Rightarrow> 'o \<Rightarrow> 'd"
    and rem :: "'d \<Rightarrow> 'o \<Rightarrow> 'd \<times> bool"
    and none :: 'd
    and ok :: "'o \<Rightarrow> bool"
  assumes none_owners: "owners none = {}"
    and add_owners: "ok n \<Longrightarrow> owners (add spec d n) = insert n (owners d)"
    and rem_last: "snd (rem d n) \<longleftrightarrow> owners d \<subseteq> {n}"
    and rem_owners: "\<not> snd (rem d n) \<Longrightarrow> owners (fst (rem d n)) = owners d - {n}"
begin

lemma step_refines:
  assumes "ok (op_owner p)"
  shows "(case shared_step add rem none p st of None \<Rightarrow> {} | Some d \<Rightarrow> owners d) =
    holders_step p (case st of None \<Rightarrow> {} | Some d \<Rightarrow> owners d)"
proof (cases p)
  case (Declare spec n)
  with assms show ?thesis by (auto simp: add_owners none_owners split: option.splits)
next
  case (Release n)
  then show ?thesis
    using rem_last[of _ n] rem_owners[of _ n]
    by (cases st) (auto simp: split_beta Let_def split: if_splits)
qed

lemma step_present:
  assumes "ok (op_owner p)" and "\<And>d. st = Some d \<Longrightarrow> owners d \<noteq> {}"
    and "shared_step add rem none p st = Some d"
  shows "owners d \<noteq> {}"
proof (cases p)
  case (Declare spec n)
  with assms show ?thesis by (auto simp: add_owners)
next
  case (Release n)
  with assms(3) obtain a where "st = Some a" and nl: "\<not> snd (rem a n)" and "d = fst (rem a n)"
    by (cases st) (auto simp: split_beta Let_def split: if_splits)
  with rem_owners[OF nl] rem_last[of a n] show ?thesis by auto
qed

lemma step_registered:
  assumes "ok (op_owner p)" and "registered owners st H"
  shows "registered owners (shared_step add rem none p st) (holders_step p H)"
  using step_refines[OF assms(1), of st] step_present[OF assms(1), of st] assms(2)
  by (fastforce simp: registered_def split: option.splits)

end

interpretation acl_registry: owner_registry owners_of withOwnerAdded withOwnerRemoved "[]" owner_ok
proof unfold_locales
  show "owner_ok n \<Longrightarrow> owners_of (withOwnerAdded spec d n) = insert n (owners_of d)" for n spec d
    by (auto simp: withOwnerAdded_parse)
  show "\<not> snd (withOwnerRemoved d n) \<Longrightarrow> owners_of (fst (withOwnerRemoved d n)) = owners_of d - {n}" for d n
    by (auto simp: withOwnerRemoved_parse)
qed (simp_all add: withOwnerRemoved_last)

subsection \<open>Properties\<close>

text \<open>
  C20. Reading back a description that the operator wrote gives the base text of the configuration and
  the recorded owners of the existing entity together with the namespace, sorted; this holds whatever
  the existing description is.
\<close>

theorem withOwnerAdded_round_trip:
  assumes "dns_label n"
  shows "parseOwners (withOwnerAdded spec existing n) =
    (strings_TrimRight (fst (parseOwners spec)) [CHR '' '', CHR 0x0A],
     sort (if hasOwner existing n then snd (parseOwners existing)
           else snd (parseOwners existing) @ [n]))"
  using withOwnerAdded_parse[OF dns_label_owner_ok[OF assms]] by simp

theorem withOwnerAdded_round_trip_witness:
  "dns_label ''ns1'' \<and>
   parseOwners (withOwnerAdded ''reader'' ''old [consul-acl-owners: ns2]'' ''ns1'') =
    (''reader'', [''ns1'', ''ns2''])"
proof -
  have h: "dns_label ''ns1''" by (simp add: dns_label_def dns_label_char_def)
  have p: "parseOwners ''reader'' = (''reader'', [])" by code_simp
  have e: "parseOwners ''old [consul-acl-owners: ns2]'' = (''old'', [''ns2''])" by code_simp
  have t: "strings_TrimRight ''reader'' [CHR '' '', CHR 0x0A] = ''reader''" by code_simp
  have s: "sort [''ns2'', ''ns1''] = [''ns1'', ''ns2'']" by code_simp
  show ?thesis
    using h withOwnerAdded_round_trip[OF h, of "''reader''" "''old [consul-acl-owners: ns2]''"]
    by (simp add: p e t s)
qed

text \<open>
  Applying a resource again does not change the description: adding a namespace to a description
  that the same reconcile wrote is the identity.
\<close>

theorem withOwnerAdded_idempotent:
  assumes "dns_label n"
  shows "withOwnerAdded spec (withOwnerAdded spec existing n) n = withOwnerAdded spec existing n"
proof -
  define os where
    "os = (if n \<in> owners_of existing then snd (parseOwners existing) else snd (parseOwners existing) @ [n])"
  have d: "withOwnerAdded spec existing n = buildDescription (fst (parseOwners spec)) os"
    by (simp add: withOwnerAdded_def os_def Let_def)
  have p: "snd (parseOwners (withOwnerAdded spec existing n)) = sort os"
    using withOwnerAdded_parse[OF dns_label_owner_ok[OF assms]] by (simp add: os_def)
  have "n \<in> set (sort os)" by (simp add: os_def)
  with p have "withOwnerAdded spec (withOwnerAdded spec existing n) n =
      buildDescription (fst (parseOwners spec)) (sort os)"
    by (simp add: withOwnerAdded_def[of spec "withOwnerAdded spec existing n"] Let_def)
  then show ?thesis by (simp add: d buildDescription_sort)
qed

theorem withOwnerAdded_idempotent_witness:
  "dns_label ''ns1'' \<and>
   withOwnerAdded ''d'' (withOwnerAdded ''d'' ''x'' ''ns1'') ''ns1'' = withOwnerAdded ''d'' ''x'' ''ns1''"
proof -
  have h: "dns_label ''ns1''" by (simp add: dns_label_def dns_label_char_def)
  show ?thesis using h withOwnerAdded_idempotent[OF h] by simp
qed

text \<open>
  Removing a namespace reports the last owner exactly when no other namespace is recorded, and
  otherwise keeps every other owner: the recorded owners become the old ones without the namespace.
\<close>

theorem withOwnerRemoved_correct:
  "(snd (withOwnerRemoved d n) \<longleftrightarrow> set (snd (parseOwners d)) \<subseteq> {n}) \<and>
   (\<not> snd (withOwnerRemoved d n) \<longrightarrow>
      snd (parseOwners (fst (withOwnerRemoved d n))) =
        sort (filter (\<lambda>o'. o' \<noteq> n) (snd (parseOwners d))))"
  by (simp add: withOwnerRemoved_last withOwnerRemoved_parse)

theorem withOwnerRemoved_correct_witness:
  "\<not> snd (withOwnerRemoved ''d [consul-acl-owners: ns1, ns2]'' ''ns1'') \<and>
   snd (parseOwners (fst (withOwnerRemoved ''d [consul-acl-owners: ns1, ns2]'' ''ns1''))) = [''ns2'']"
proof -
  have e: "parseOwners ''d [consul-acl-owners: ns1, ns2]'' = (''d'', [''ns1'', ''ns2''])" by code_simp
  have s: "sort [''ns2''] = [''ns2'']" by code_simp
  show ?thesis
    using withOwnerRemoved_correct[of "''d [consul-acl-owners: ns1, ns2]''" "''ns1''"]
    by (simp add: e s)
qed

end
