(* ===== verification/Kubernetes.thy ===== *)
theory Kubernetes
  imports Prelude
begin

text \<open>
  What both controllers use of Kubernetes and the parts of the operator around them:
  \<^verbatim>\<open>controllers/ownership.go\<close>, \<^verbatim>\<open>util/util.go\<close>, \<^verbatim>\<open>util/cr_updater.go\<close>, the status condition of
  \<^verbatim>\<open>consulacl_controller.go\<close> (lines 174-191), and the configuration of the manager in \<^verbatim>\<open>main.go\<close>. The API server is
  a client over a world \<^typ>\<open>'w\<close>; the functions of client-go and controller-runtime that the code calls
  are the fields of \<open>k8sLib\<close>, with their documented behaviour as the predicate \<open>k8s_lib_ok\<close>.
\<close>

subsection \<open>Objects and clients\<close>

record ObjectMeta =
  meta_Name :: string
  meta_Namespace :: string
  meta_Generation :: int
  meta_Finalizers :: "string list"
  meta_DeletionTimestamp :: "int option"

text \<open>The deletion timestamp is zero when it is not set.\<close>

definition IsZero :: "int option \<Rightarrow> bool" where
  "IsZero t \<longleftrightarrow> t = None"

record Condition =
  cond_Type :: string
  cond_Status :: string
  cond_ObservedGeneration :: int
  cond_LastTransitionTime :: int
  cond_Reason :: string
  cond_Message :: string

record ('o, 'w) kubeClient =
  kube_Get :: "string \<Rightarrow> string \<Rightarrow> 'w \<Rightarrow> 'o result \<times> 'w"
  kube_List :: "string \<Rightarrow> 'w \<Rightarrow> 'o list result \<times> 'w"
  kube_Update :: "'o \<Rightarrow> 'w \<Rightarrow> goerror option \<times> 'w"
  kube_StatusUpdate :: "'o \<Rightarrow> 'w \<Rightarrow> goerror option \<times> 'w"

text \<open>Functions of client-go, controller-runtime and apimachinery.\<close>

record 'w k8sLib =
  lib_RetryOnConflict :: "('w \<Rightarrow> goerror option \<times> 'w) \<Rightarrow> 'w \<Rightarrow> goerror option \<times> 'w"
  lib_AddFinalizer :: "string \<Rightarrow> string list \<Rightarrow> string list"
  lib_RemoveFinalizer :: "string \<Rightarrow> string list \<Rightarrow> string list"
  lib_SetStatusCondition :: "Condition \<Rightarrow> Condition list \<Rightarrow> Condition list"
  lib_Now :: "'w \<Rightarrow> int"

text \<open>\<^verbatim>\<open>time.Second * time.Duration(n)\<close>, in nanoseconds and with the wrap-around of 64 bits.\<close>

definition time_seconds :: "int \<Rightarrow> int" where
  "time_seconds n = (1000000000 * n + 2 ^ 63) mod 2 ^ 64 - 2 ^ 63"

definition period_ok :: "int \<Rightarrow> bool" where
  "period_ok n \<longleftrightarrow> 0 < n \<and> n \<le> 9223372036"

lemma time_seconds_ok: "period_ok n \<Longrightarrow> time_seconds n = 1000000000 * n"
  by (simp add: period_ok_def time_seconds_def mod_pos_pos_trivial)

text \<open>\<^verbatim>\<open>ctrl.Result\<close> of a reconcile; it is requeued when the time is positive.\<close>

record Result =
  res_RequeueAfter :: int

definition noRequeue :: Result where
  "noRequeue = \<lparr>res_RequeueAfter = 0\<rparr>"

text \<open>Events of the watch on a kind; the flag of a deletion says that the final state is unknown.\<close>

datatype 'o event =
    CreateEvent 'o
  | UpdateEvent 'o 'o
  | DeleteEvent 'o bool
  | GenericEvent 'o

fun event_object :: "'o event \<Rightarrow> 'o" where
  "event_object (CreateEvent x) = x"
| "event_object (UpdateEvent old new) = new"
| "event_object (DeleteEvent x b) = x"
| "event_object (GenericEvent x) = x"

subsection \<open>Utilities\<close>

fun Contains :: "string \<Rightarrow> string list \<Rightarrow> bool" where
  "Contains value [] = False"
| "Contains value (element # list) = (if value = element then True else Contains value list)"

type_synonym environ = "string \<rightharpoonup> string"

definition os_Getenv :: "environ \<Rightarrow> string \<Rightarrow> string" where
  "os_Getenv env k = (case env k of None \<Rightarrow> [] | Some v \<Rightarrow> v)"

definition getEnv :: "environ \<Rightarrow> string \<Rightarrow> string \<Rightarrow> string" where
  "getEnv env envKey defaultValue =
     (let value = os_Getenv env envKey in if value \<noteq> [] then value else defaultValue)"

definition GetSecretFromFileOrEnv :: "(string \<Rightarrow> string result) \<Rightarrow> environ \<Rightarrow> string \<Rightarrow> string \<Rightarrow> string" where
  "GetSecretFromFileOrEnv os_ReadFile env filePath envKey =
     (case os_ReadFile filePath of
        Inr secretBytes \<Rightarrow> strings_TrimSpace secretBytes
      | Inl err \<Rightarrow> getEnv env envKey [])"

definition isOwnedByOperator :: "string \<Rightarrow> string \<Rightarrow> string \<Rightarrow> bool \<Rightarrow> bool" where
  "isOwnedByOperator operatorNamespace resourceNamespace ownNamespace strict =
     (if operatorNamespace \<noteq> [] then operatorNamespace = ownNamespace
      else \<not> strict \<or> resourceNamespace = ownNamespace)"

text \<open>\<^verbatim>\<open>setSuccessfulCondition\<close>.\<close>

definition setSuccessfulCondition ::
  "'w k8sLib \<Rightarrow> 'w \<Rightarrow> goerror option \<Rightarrow> int \<Rightarrow> Condition list \<Rightarrow> Condition list"
where
  "setSuccessfulCondition lib w err generation conditions =
     (let c = \<lparr>cond_Type = ''Successful'', cond_Status = [], cond_ObservedGeneration = generation,
               cond_LastTransitionTime = lib_Now lib w, cond_Reason = [], cond_Message = []\<rparr>;
          c = (case err of
                 None \<Rightarrow> c\<lparr>cond_Status := ''True'', cond_Reason := ''Reconciled'', cond_Message := []\<rparr>
               | Some e \<Rightarrow> c\<lparr>cond_Status := ''False'', cond_Reason := ''Failed'', cond_Message := Error e\<rparr>)
      in lib_SetStatusCondition lib c conditions)"

text \<open>
  \<^verbatim>\<open>CustomResourceUpdater.updateWithRetry\<close>: the object is read again for every attempt, and an object that is gone is
  not an error. The update function may read the clock of the world.
\<close>

definition cru_attempt ::
  "('o, 'w) kubeClient \<Rightarrow> string \<Rightarrow> string \<Rightarrow> ('w \<Rightarrow> 'o \<Rightarrow> 'o) \<Rightarrow>
   ('o \<Rightarrow> 'w \<Rightarrow> goerror option \<times> 'w) \<Rightarrow> 'w \<Rightarrow> goerror option \<times> 'w"
where
  "cru_attempt client name namespace updateFunc doUpdate w =
     (case kube_Get client namespace name w of
        (Inl err, w1) \<Rightarrow> if IsNotFound err then (None, w1) else (Some err, w1)
      | (Inr instance, w1) \<Rightarrow>
          (case doUpdate (updateFunc w1 instance) w1 of
             (Some err, w2) \<Rightarrow> if IsNotFound err then (None, w2) else (Some err, w2)
           | (None, w2) \<Rightarrow> (None, w2)))"

definition cru_updateWithRetry ::
  "'w k8sLib \<Rightarrow> ('o, 'w) kubeClient \<Rightarrow> string \<Rightarrow> string \<Rightarrow> ('w \<Rightarrow> 'o \<Rightarrow> 'o) \<Rightarrow>
   ('o \<Rightarrow> 'w \<Rightarrow> goerror option \<times> 'w) \<Rightarrow> 'w \<Rightarrow> goerror option \<times> 'w"
where
  "cru_updateWithRetry lib client name namespace updateFunc doUpdate =
     lib_RetryOnConflict lib (cru_attempt client name namespace updateFunc doUpdate)"

definition UpdateWithRetry ::
  "'w k8sLib \<Rightarrow> ('o, 'w) kubeClient \<Rightarrow> string \<Rightarrow> string \<Rightarrow> ('w \<Rightarrow> 'o \<Rightarrow> 'o) \<Rightarrow> 'w \<Rightarrow> goerror option \<times> 'w"
where
  "UpdateWithRetry lib client name namespace updateFunc =
     cru_updateWithRetry lib client name namespace updateFunc (kube_Update client)"

definition UpdateStatusWithRetry ::
  "'w k8sLib \<Rightarrow> ('o, 'w) kubeClient \<Rightarrow> string \<Rightarrow> string \<Rightarrow> ('w \<Rightarrow> 'o \<Rightarrow> 'o) \<Rightarrow> 'w \<Rightarrow> goerror option \<times> 'w"
where
  "UpdateStatusWithRetry lib client name namespace statusUpdateFunc =
     cru_updateWithRetry lib client name namespace statusUpdateFunc (kube_StatusUpdate client)"

subsection \<open>The manager\<close>

definition getWatchNamespace :: "environ \<Rightarrow> string result" where
  "getWatchNamespace env =
     (case env ''WATCH_NAMESPACE'' of
        None \<Rightarrow> Inl (PlainError ''WATCH_NAMESPACE must be set'')
      | Some ns \<Rightarrow> Inr ns)"

text \<open>\<^verbatim>\<open>strconv.ParseBool\<close>.\<close>

definition strconv_ParseBool :: "string \<Rightarrow> bool result" where
  "strconv_ParseBool s =
     (if s \<in> {''1'', ''t'', ''T'', ''TRUE'', ''true'', ''True''} then Inr True
      else if s \<in> {''0'', ''f'', ''F'', ''FALSE'', ''false'', ''False''} then Inr False
      else Inl (PlainError (''strconv.ParseBool: parsing '' @ fmt_q s @ '': invalid syntax'')))"

definition getStrictNamespaceValidation :: "environ \<Rightarrow> bool result" where
  "getStrictNamespaceValidation env =
     (case env ''STRICT_NAMESPACE_VALIDATION'' of
        None \<Rightarrow> Inr False
      | Some value \<Rightarrow>
          if strings_TrimSpace value = [] then Inr False else strconv_ParseBool (strings_TrimSpace value))"

text \<open>
  The cache part of the manager options: for a kind the namespaces that are cached, each with an
  optional field selector, and the namespaces of every other kind. The name of all namespaces is empty.
\<close>

datatype crKind = ConsulACL_kind | ConsulKV_kind

type_synonym cacheConfig = "(string \<times> string) option"

record mgrOptions =
  cache_ByObject :: "(crKind \<rightharpoonup> (string \<rightharpoonup> cacheConfig)) option"
  cache_DefaultNamespaces :: "(string \<rightharpoonup> cacheConfig) option"

definition nsMap :: "string list \<Rightarrow> string list \<times> (string \<rightharpoonup> cacheConfig)" where
  "nsMap namespaces =
     (let kept = filter (\<lambda>ns. ns \<noteq> []) (map strings_TrimSpace namespaces)
      in (kept, \<lambda>ns. if ns \<in> set kept then Some None else None))"

definition configureMgrNamespaces :: "mgrOptions \<Rightarrow> string \<Rightarrow> string \<Rightarrow> bool \<Rightarrow> mgrOptions" where
  "configureMgrNamespaces opts namespace ownNamespace strict =
     (if strings_TrimSpace namespace = ''*'' then
        (if \<not> strict then opts
         else let cfg = Map.empty(ownNamespace \<mapsto> None, [] \<mapsto> Some (''spec.operatorNamespace'', ownNamespace))
              in opts\<lparr>cache_ByObject := Some (Map.empty(ConsulACL_kind \<mapsto> cfg, ConsulKV_kind \<mapsto> cfg))\<rparr>)
      else
        (let namespaces = strings_Split namespace CHR '','';
             namespaces = (if Contains ownNamespace namespaces then namespaces else namespaces @ [ownNamespace])
         in if fst (nsMap namespaces) = [] then opts
            else opts\<lparr>cache_DefaultNamespaces := Some (snd (nsMap namespaces))\<rparr>))"

subsection \<open>Documented behaviour of the libraries\<close>

text \<open>
  \<^verbatim>\<open>RetryOnConflict\<close> runs the function, again after every conflict as long as it has attempts left, and returns the
  result of the last attempt.
\<close>

inductive retry_runs :: "('w \<Rightarrow> goerror option \<times> 'w) \<Rightarrow> 'w \<Rightarrow> goerror option \<Rightarrow> 'w \<Rightarrow> bool" for f where
  retry_last: "f w = (r, w') \<Longrightarrow> retry_runs f w r w'"
| retry_again: "f w = (Some e, w1) \<Longrightarrow> IsConflict e \<Longrightarrow> retry_runs f w1 r w' \<Longrightarrow> retry_runs f w r w'"

definition k8s_lib_ok :: "'w k8sLib \<Rightarrow> bool" where
  "k8s_lib_ok lib \<longleftrightarrow>
     (\<forall>f w r w'. lib_RetryOnConflict lib f w = (r, w') \<longrightarrow> retry_runs f w r w') \<and>
     (\<forall>f fs. set (lib_AddFinalizer lib f fs) = insert f (set fs)) \<and>
     (\<forall>f fs. set (lib_RemoveFinalizer lib f fs) = set fs - {f})"

text \<open>An implementation of them with a bounded number of attempts.\<close>

fun retry_n :: "nat \<Rightarrow> ('w \<Rightarrow> goerror option \<times> 'w) \<Rightarrow> 'w \<Rightarrow> goerror option \<times> 'w" where
  "retry_n 0 f w = f w"
| "retry_n (Suc n) f w =
     (case f w of
        (Some e, w1) \<Rightarrow> if IsConflict e then retry_n n f w1 else (Some e, w1)
      | (None, w1) \<Rightarrow> (None, w1))"

fun set_condition :: "Condition \<Rightarrow> Condition list \<Rightarrow> Condition list" where
  "set_condition c [] = [c]"
| "set_condition c (d # ds) = (if cond_Type d = cond_Type c then c # ds else d # set_condition c ds)"

definition demo_lib :: "'w k8sLib" where
  "demo_lib =
     \<lparr>lib_RetryOnConflict = retry_n 4,
      lib_AddFinalizer = (\<lambda>f fs. if f \<in> set fs then fs else fs @ [f]),
      lib_RemoveFinalizer = (\<lambda>f fs. filter (\<lambda>x. x \<noteq> f) fs),
      lib_SetStatusCondition = set_condition, lib_Now = (\<lambda>_. 0)\<rparr>"

lemma retry_n_runs: "retry_n n f w = (r, w') \<Longrightarrow> retry_runs f w r w'"
proof (induction n arbitrary: w)
  case 0
  then show ?case by (auto intro: retry_last)
next
  case (Suc n)
  then show ?case by (auto intro: retry_last retry_again split: prod.splits option.splits if_splits)
qed

lemma demo_lib_ok: "k8s_lib_ok demo_lib"
  by (auto simp: k8s_lib_ok_def demo_lib_def intro: retry_n_runs)

lemma k8s_lib_retry: "k8s_lib_ok lib \<Longrightarrow> lib_RetryOnConflict lib f w = (r, w') \<Longrightarrow> retry_runs f w r w'"
  by (simp add: k8s_lib_ok_def)

text \<open>Rules for a retried function: what every attempt keeps, and what the last attempt did.\<close>

lemma retry_runs_invariant:
  assumes "retry_runs f w r w'" and "I w" and "\<And>w r w'. I w \<Longrightarrow> f w = (r, w') \<Longrightarrow> I w'"
  shows "I w'"
  using assms(1,2) by (induction rule: retry_runs.induct) (auto intro: assms(3))

lemma retry_runs_final:
  assumes "retry_runs f w r w'" and "I w" and "\<And>w r w'. I w \<Longrightarrow> f w = (r, w') \<Longrightarrow> I w'"
  shows "\<exists>w1. I w1 \<and> f w1 = (r, w')"
  using assms(1,2) by (induction rule: retry_runs.induct) (auto intro: assms(3))

lemma Contains_set [simp]: "Contains v xs \<longleftrightarrow> v \<in> set xs"
  by (induction xs) auto

subsection \<open>Properties\<close>

text \<open>
  In strict mode every resource has exactly one operator: for any \<open>operatorNamespace\<close> and any namespace of the
  resource there is one and only one own namespace for which \<open>isOwnedByOperator\<close> holds, so no two operators write
  the same resource; without strict mode that operator is still among the owners.
\<close>

theorem strict_unique_operator:
  "(\<exists>!own. isOwnedByOperator operatorNamespace resourceNamespace own True) \<and>
   (isOwnedByOperator operatorNamespace resourceNamespace own True \<longrightarrow>
    isOwnedByOperator operatorNamespace resourceNamespace own False)"
  by (auto simp: isOwnedByOperator_def)

theorem strict_unique_operator_witness:
  "isOwnedByOperator [] ''app'' ''app'' True \<and> isOwnedByOperator [] ''app'' ''app'' False \<and>
   (\<forall>own. isOwnedByOperator ''consul'' ''app'' own True = (own = ''consul''))"
proof -
  have "isOwnedByOperator [] ''app'' ''app'' True" by (simp add: isOwnedByOperator_def)
  with strict_unique_operator[of "[]" "''app''" "''app''"] have "isOwnedByOperator [] ''app'' ''app'' False" by blast
  moreover have "isOwnedByOperator ''consul'' ''app'' ''consul'' True" by (simp add: isOwnedByOperator_def)
  with strict_unique_operator[of "''consul''" "''app''"]
  have "\<forall>own. isOwnedByOperator ''consul'' ''app'' own True = (own = ''consul'')" by auto
  ultimately show ?thesis by (simp add: isOwnedByOperator_def)
qed

text \<open>
  With a list of namespaces to watch, the manager caches exactly the listed namespaces, trimmed and
  without empty items, and always the own namespace of the operator.
\<close>

theorem watched_namespaces_exact:
  assumes "strings_TrimSpace namespace \<noteq> ''*''" and "strings_TrimSpace own = own" and "own \<noteq> []"
  shows "\<exists>m. cache_DefaultNamespaces (configureMgrNamespaces opts namespace own strict) = Some m \<and>
    dom m = insert own (strings_TrimSpace ` set (strings_Split namespace CHR '','') - {[]}) \<and>
    (\<forall>ns c. m ns = Some c \<longrightarrow> c = None)"
proof -
  define nss where "nss = (if Contains own (strings_Split namespace CHR '','') then strings_Split namespace CHR '',''
    else strings_Split namespace CHR '','' @ [own])"
  have kept: "set (fst (nsMap nss)) =
      insert own (strings_TrimSpace ` set (strings_Split namespace CHR '','') - {[]})"
    using assms(2,3) by (auto simp: nsMap_def nss_def intro: rev_image_eqI)
  then have "fst (nsMap nss) \<noteq> []" by auto
  then have "cache_DefaultNamespaces (configureMgrNamespaces opts namespace own strict) = Some (snd (nsMap nss))"
    using assms(1) by (simp add: configureMgrNamespaces_def nss_def Let_def)
  moreover have "dom (snd (nsMap nss)) = set (fst (nsMap nss))"
    by (auto simp: nsMap_def Let_def dom_def)
  moreover have "\<forall>ns c. snd (nsMap nss) ns = Some c \<longrightarrow> c = None"
    by (simp add: nsMap_def Let_def)
  ultimately show ?thesis using kept by auto
qed

theorem watched_namespaces_exact_witness:
  "\<exists>m. cache_DefaultNamespaces (configureMgrNamespaces
       \<lparr>cache_ByObject = None, cache_DefaultNamespaces = None\<rparr> ''a, b,'' ''consul'' True) = Some m \<and>
     dom m = {''a'', ''b'', ''consul''}"
proof -
  have s: "strings_Split ''a, b,'' CHR '','' = [''a'', '' b'', '''']" by code_simp
  have t: "strings_TrimSpace ''a'' = ''a''" "strings_TrimSpace '' b'' = ''b''" "strings_TrimSpace '''' = ''''" by code_simp+
  have "strings_TrimSpace ''a, b,'' \<noteq> ''*''" "strings_TrimSpace ''consul'' = ''consul''" by code_simp+
  from watched_namespaces_exact[OF this, of "\<lparr>cache_ByObject = None, cache_DefaultNamespaces = None\<rparr>" True]
  obtain m where m: "cache_DefaultNamespaces (configureMgrNamespaces
       \<lparr>cache_ByObject = None, cache_DefaultNamespaces = None\<rparr> ''a, b,'' ''consul'' True) = Some m"
    and d: "dom m = insert ''consul'' (strings_TrimSpace ` set [''a'', '' b'', ''''] - {[]})"
    unfolding s by auto
  have "strings_TrimSpace ` set [''a'', '' b'', ''''] - {[]} = {''a'', ''b''}"
    using t by auto
  with m d show ?thesis by auto
qed

end
