(* ===== verification/ACL_Types.thy ===== *)
theory ACL_Types
  imports Owners Kubernetes
begin

text \<open>
  The data of the ConsulACL controller (\<^verbatim>\<open>controllers/acl_api_provider.go\<close>, \<^verbatim>\<open>api/v1/consulacl_types.go\<close>), the Consul ACL interface it calls,
  the names of entities and the sets of declared entities (\<^verbatim>\<open>controllers/consulacl_controller.go\<close>, lines 524-603). Of the
  entities of the Consul API the records have the fields that the controller reads or sets. Consul
  is a client over a world \<^typ>\<open>'w\<close>, as for the key-value store.
\<close>

subsection \<open>Entities\<close>

record ACLPolicy =
  pol_ID :: string
  pol_Name :: string
  pol_Description :: string
  pol_Rules :: string
  pol_Datacenters :: "string list"

record ACLRolePolicyLink =
  link_ID :: string
  link_Name :: string

record ACLRole =
  role_ID :: string
  role_Name :: string
  role_Description :: string
  role_Policies :: "ACLRolePolicyLink list"

record ACLBindingRule =
  br_ID :: string
  br_Description :: string
  br_AuthMethod :: string
  br_Selector :: string
  br_BindType :: string
  br_BindName :: string

record ACLRoleAdapter =
  ra_ID :: string
  ra_Name :: string
  ra_Description :: string
  ra_PolicyNames :: "string list"

record ACLBindingRuleAdapter =
  bra_ID :: string
  bra_Description :: string
  bra_ServiceAccountName :: string
  bra_BindName :: string
  bra_AuthMethod :: string
  bra_Selector :: string

record ACLConfig =
  cfg_Policies :: "ACLPolicy list"
  cfg_Roles :: "ACLRoleAdapter list"
  cfg_BindRules :: "ACLBindingRuleAdapter list"

text \<open>The configuration is a Go map, as an association list with distinct keys.\<close>

record ACLAuthMethod =
  am_Name :: string
  am_Type :: string
  am_Description :: string
  am_MaxTokenTTL :: int
  am_Config :: "(string \<times> configValue) list"

subsection \<open>Client interface\<close>

text \<open>
  A list entry of a policy has no rules: \<open>acl_PolicyList\<close> returns names, descriptions and IDs. A token is its accessor
  ID, and the filter of the token list is the ID of a role.
\<close>

record ACLPolicyListEntry =
  ple_ID :: string
  ple_Name :: string
  ple_Description :: string

record 'w consulACLClient =
  acl_PolicyCreate :: "ACLPolicy \<Rightarrow> 'w \<Rightarrow> ACLPolicy result \<times> 'w"
  acl_PolicyUpdate :: "ACLPolicy \<Rightarrow> 'w \<Rightarrow> ACLPolicy result \<times> 'w"
  acl_PolicyReadByName :: "string \<Rightarrow> 'w \<Rightarrow> ACLPolicy option result \<times> 'w"
  acl_PolicyDelete :: "string \<Rightarrow> 'w \<Rightarrow> unit result \<times> 'w"
  acl_RoleCreate :: "ACLRole \<Rightarrow> 'w \<Rightarrow> ACLRole result \<times> 'w"
  acl_RoleUpdate :: "ACLRole \<Rightarrow> 'w \<Rightarrow> ACLRole result \<times> 'w"
  acl_RoleReadByName :: "string \<Rightarrow> 'w \<Rightarrow> ACLRole option result \<times> 'w"
  acl_RoleList :: "'w \<Rightarrow> ACLRole list result \<times> 'w"
  acl_RoleDelete :: "string \<Rightarrow> 'w \<Rightarrow> unit result \<times> 'w"
  acl_PolicyList :: "'w \<Rightarrow> ACLPolicyListEntry list result \<times> 'w"
  acl_BindingRuleCreate :: "ACLBindingRule \<Rightarrow> 'w \<Rightarrow> ACLBindingRule result \<times> 'w"
  acl_BindingRuleUpdate :: "ACLBindingRule \<Rightarrow> 'w \<Rightarrow> ACLBindingRule result \<times> 'w"
  acl_BindingRuleList :: "string \<Rightarrow> 'w \<Rightarrow> ACLBindingRule list result \<times> 'w"
  acl_BindingRuleDelete :: "string \<Rightarrow> 'w \<Rightarrow> unit result \<times> 'w"
  acl_AuthMethodCreate :: "ACLAuthMethod \<Rightarrow> 'w \<Rightarrow> ACLAuthMethod result \<times> 'w"
  acl_AuthMethodUpdate :: "ACLAuthMethod \<Rightarrow> 'w \<Rightarrow> ACLAuthMethod result \<times> 'w"
  acl_AuthMethodRead :: "string \<Rightarrow> 'w \<Rightarrow> ACLAuthMethod option result \<times> 'w"
  acl_TokenListFiltered :: "string \<Rightarrow> 'w \<Rightarrow> string list result \<times> 'w"
  acl_TokenDelete :: "string \<Rightarrow> 'w \<Rightarrow> unit result \<times> 'w"

text \<open>
  The settings of the controller. \<open>ac_range\<close> is the order in which a loop visits the keys of a Go map, which the
  language leaves open.
\<close>

record 'w aclSettings =
  ac_client :: "'w consulACLClient"
  ac_authMethod :: string
  ac_legacyAuthMethods :: "string list"
  ac_range :: "string list \<Rightarrow> string list"

subsection \<open>Status maps\<close>

text \<open>\<^verbatim>\<open>StatusHolder\<close>: the entries in the order of their first assignment.\<close>

type_synonym StatusHolder = "(string \<times> string) list"

definition innerErrorHandlingItem :: string where
  "innerErrorHandlingItem = ''innerErrorHandlingItem''"

fun GetStatus_from :: "StatusHolder \<Rightarrow> string list \<Rightarrow> string \<Rightarrow> string" where
  "GetStatus_from sh [] resString = resString"
| "GetStatus_from sh (key # keys) resString =
     (let value = (case map_of sh key of None \<Rightarrow> [] | Some v \<Rightarrow> v);
          resString = (if resString \<noteq> [] then resString @ '', '' else resString)
      in if key = innerErrorHandlingItem then GetStatus_from sh keys (resString @ value)
         else GetStatus_from sh keys (resString @ key @ '': '' @ value))"

definition GetStatus :: "(string list \<Rightarrow> string list) \<Rightarrow> StatusHolder \<Rightarrow> string" where
  "GetStatus rng sh =
     (if sh = [] then ''No action was taken''
      else GetStatus_from sh (rng (map fst sh)) [])"

subsection \<open>Names\<close>

definition convertEntityName :: "string \<Rightarrow> string \<Rightarrow> string \<Rightarrow> string" where
  "convertEntityName entityName name namespace = name @ ''_'' @ namespace @ ''_'' @ entityName"

definition resolveEntityName :: "string \<Rightarrow> string \<Rightarrow> string \<Rightarrow> bool \<Rightarrow> string" where
  "resolveEntityName entityName name namespace explicitName =
     (if explicitName then entityName else convertEntityName entityName name namespace)"

definition entityPrefix :: "string \<Rightarrow> string \<Rightarrow> string" where
  "entityPrefix name namespace = name @ ''_'' @ namespace @ ''_''"

subsection \<open>Declared entities\<close>

record declaredEntities =
  de_policies :: "string set"
  de_roles :: "string set"
  de_bindRules :: "string set"
  de_all :: bool

definition newDeclaredEntities :: declaredEntities where
  "newDeclaredEntities = \<lparr>de_policies = {}, de_roles = {}, de_bindRules = {}, de_all = False\<rparr>"

definition de_add :: "ACLConfig \<Rightarrow> string \<Rightarrow> string \<Rightarrow> bool \<Rightarrow> declaredEntities \<Rightarrow> declaredEntities" where
  "de_add aclConfig name namespace explicitName d =
     d\<lparr>de_policies := de_policies d \<union>
         set (map (\<lambda>p. resolveEntityName (pol_Name p) name namespace explicitName)
           (filter (\<lambda>p. pol_Name p \<noteq> []) (cfg_Policies aclConfig))),
       de_roles := de_roles d \<union>
         set (map (\<lambda>r. resolveEntityName (ra_Name r) name namespace explicitName)
           (filter (\<lambda>r. ra_Name r \<noteq> []) (cfg_Roles aclConfig))),
       de_bindRules := de_bindRules d \<union>
         set (map (\<lambda>b. resolveEntityName (bra_BindName b) name namespace explicitName)
           (filter (\<lambda>b. bra_BindName b \<noteq> []) (cfg_BindRules aclConfig)))\<rparr>"

text \<open>A nil pointer is the empty set.\<close>

definition hasPolicy :: "declaredEntities option \<Rightarrow> string \<Rightarrow> bool" where
  "hasPolicy d name = (case d of None \<Rightarrow> False | Some d \<Rightarrow> if de_all d then True else name \<in> de_policies d)"

definition hasRole :: "declaredEntities option \<Rightarrow> string \<Rightarrow> bool" where
  "hasRole d name = (case d of None \<Rightarrow> False | Some d \<Rightarrow> if de_all d then True else name \<in> de_roles d)"

definition hasBindRule :: "declaredEntities option \<Rightarrow> string \<Rightarrow> bool" where
  "hasBindRule d name = (case d of None \<Rightarrow> False | Some d \<Rightarrow> if de_all d then True else name \<in> de_bindRules d)"

subsection \<open>Auth methods of the binding rules\<close>

definition bindRuleAuthMethod :: "string \<Rightarrow> ACLBindingRuleAdapter \<Rightarrow> string" where
  "bindRuleAuthMethod authMethod bindRuleAdapter =
     (if bra_AuthMethod bindRuleAdapter \<noteq> [] then bra_AuthMethod bindRuleAdapter else authMethod)"

text \<open>The distinct auth methods of a configuration; the loops over them use \<open>ac_range\<close>.\<close>

definition bindRuleAuthMethods :: "string \<Rightarrow> ACLConfig \<Rightarrow> string list" where
  "bindRuleAuthMethods authMethod aclConfig =
     remdups (authMethod # filter (\<lambda>m. m \<noteq> []) (map bra_AuthMethod (cfg_BindRules aclConfig)))"

subsection \<open>Reading entities\<close>

definition errNotFound :: string where
  "errNotFound = ''ACL not found''"

definition isErrNotFound :: "goerror \<Rightarrow> bool" where
  "isErrNotFound err = strings_Contains (Error err) errNotFound"

text \<open>A read that reports the entity as not found is the value none.\<close>

definition readRole :: "'w aclSettings \<Rightarrow> string \<Rightarrow> 'w \<Rightarrow> ACLRole option result \<times> 'w" where
  "readRole E roleName w =
     (case acl_RoleReadByName (ac_client E) roleName w of
        (Inl err, w1) \<Rightarrow> if \<not> isErrNotFound err then (Inl err, w1) else (Inr None, w1)
      | (Inr role, w1) \<Rightarrow> (Inr role, w1))"

definition readPolicy :: "'w aclSettings \<Rightarrow> string \<Rightarrow> 'w \<Rightarrow> ACLPolicy option result \<times> 'w" where
  "readPolicy E policyName w =
     (case acl_PolicyReadByName (ac_client E) policyName w of
        (Inl err, w1) \<Rightarrow> if \<not> isErrNotFound err then (Inl err, w1) else (Inr None, w1)
      | (Inr policy, w1) \<Rightarrow> (Inr policy, w1))"

end
