(* ===== verification/ACL_Trace.thy ===== *)
theory ACL_Trace
  imports ACL_Types
begin

text \<open>
  Observing the calls to Consul. \<open>logged\<close> turns any ACL client into one that also keeps the list of the calls: the
  requests that write, and the answers of the reads that succeeded. A property of the log holds for
  any answers of Consul, errors included. \<open>entity_release\<close> is the contract of the operations that release an entity.
\<close>

datatype aclCall =
    PolicyCreated ACLPolicy
  | PolicyUpdated ACLPolicy
  | PolicyWasRead string "ACLPolicy option"
  | PolicyDeleted string
  | PoliciesListed "ACLPolicyListEntry list"
  | RoleCreated ACLRole
  | RoleUpdated ACLRole
  | RoleWasRead string "ACLRole option"
  | RoleDeleted string
  | RolesListed "ACLRole list"
  | RuleCreated ACLBindingRule
  | RuleUpdated ACLBindingRule
  | RuleDeleted string
  | RulesListed string "ACLBindingRule list"
  | MethodCreated ACLAuthMethod
  | MethodUpdated ACLAuthMethod
  | MethodWasRead string "ACLAuthMethod option"
  | TokensListed string "string list"
  | TokenDeleted string

definition log_write :: "aclCall \<Rightarrow> ('w \<Rightarrow> 'a result \<times> 'w) \<Rightarrow> 'w \<times> aclCall list \<Rightarrow> 'a result \<times> ('w \<times> aclCall list)" where
  "log_write c f x = (case f (fst x) of (r, w) \<Rightarrow> (r, (w, snd x @ [c])))"

definition log_read :: "('a \<Rightarrow> aclCall) \<Rightarrow> ('w \<Rightarrow> 'a result \<times> 'w) \<Rightarrow> 'w \<times> aclCall list \<Rightarrow> 'a result \<times> ('w \<times> aclCall list)" where
  "log_read c f x = (case f (fst x) of
     (Inl err, w) \<Rightarrow> (Inl err, (w, snd x))
   | (Inr a, w) \<Rightarrow> (Inr a, (w, snd x @ [c a])))"

definition logged :: "'w consulACLClient \<Rightarrow> ('w \<times> aclCall list) consulACLClient" where
  "logged c =
     \<lparr>acl_PolicyCreate = (\<lambda>p. log_write (PolicyCreated p) (acl_PolicyCreate c p)),
      acl_PolicyUpdate = (\<lambda>p. log_write (PolicyUpdated p) (acl_PolicyUpdate c p)),
      acl_PolicyReadByName = (\<lambda>n. log_read (PolicyWasRead n) (acl_PolicyReadByName c n)),
      acl_PolicyDelete = (\<lambda>i. log_write (PolicyDeleted i) (acl_PolicyDelete c i)),
      acl_RoleCreate = (\<lambda>r. log_write (RoleCreated r) (acl_RoleCreate c r)),
      acl_RoleUpdate = (\<lambda>r. log_write (RoleUpdated r) (acl_RoleUpdate c r)),
      acl_RoleReadByName = (\<lambda>n. log_read (RoleWasRead n) (acl_RoleReadByName c n)),
      acl_RoleList = log_read RolesListed (acl_RoleList c),
      acl_RoleDelete = (\<lambda>i. log_write (RoleDeleted i) (acl_RoleDelete c i)),
      acl_PolicyList = log_read PoliciesListed (acl_PolicyList c),
      acl_BindingRuleCreate = (\<lambda>b. log_write (RuleCreated b) (acl_BindingRuleCreate c b)),
      acl_BindingRuleUpdate = (\<lambda>b. log_write (RuleUpdated b) (acl_BindingRuleUpdate c b)),
      acl_BindingRuleList = (\<lambda>m. log_read (RulesListed m) (acl_BindingRuleList c m)),
      acl_BindingRuleDelete = (\<lambda>i. log_write (RuleDeleted i) (acl_BindingRuleDelete c i)),
      acl_AuthMethodCreate = (\<lambda>m. log_write (MethodCreated m) (acl_AuthMethodCreate c m)),
      acl_AuthMethodUpdate = (\<lambda>m. log_write (MethodUpdated m) (acl_AuthMethodUpdate c m)),
      acl_AuthMethodRead = (\<lambda>n. log_read (MethodWasRead n) (acl_AuthMethodRead c n)),
      acl_TokenListFiltered = (\<lambda>r. log_read (TokensListed r) (acl_TokenListFiltered c r)),
      acl_TokenDelete = (\<lambda>t. log_write (TokenDeleted t) (acl_TokenDelete c t))\<rparr>"

text \<open>The settings with the client of \<open>E\<close> logged.\<close>

definition logged_settings :: "'w aclSettings \<Rightarrow> ('w \<times> aclCall list) aclSettings" where
  "logged_settings E =
     \<lparr>ac_client = logged (ac_client E), ac_authMethod = ac_authMethod E,
      ac_legacyAuthMethods = ac_legacyAuthMethods E, ac_range = ac_range E\<rparr>"

lemma logged_settings_simps [simp]:
  "ac_client (logged_settings E) = logged (ac_client E)"
  "ac_authMethod (logged_settings E) = ac_authMethod E"
  "ac_legacyAuthMethods (logged_settings E) = ac_legacyAuthMethods E"
  "ac_range (logged_settings E) = ac_range E"
  by (simp_all add: logged_settings_def)

text \<open>
  A justification of the calls by the log so far: \<open>J\<close> says which calls may be sent after which answers, and it stays
  true when the log grows.
\<close>

definition calls_ok :: "(aclCall set \<Rightarrow> aclCall \<Rightarrow> bool) \<Rightarrow> 'w \<times> aclCall list \<Rightarrow> bool" where
  "calls_ok J x \<longleftrightarrow> (\<forall>c \<in> set (snd x). J (set (snd x)) c)"

definition grows :: "(aclCall set \<Rightarrow> aclCall \<Rightarrow> bool) \<Rightarrow> bool" where
  "grows J \<longleftrightarrow> (\<forall>L L' c. L \<subseteq> L' \<longrightarrow> J L c \<longrightarrow> J L' c)"

lemma calls_ok_snoc:
  assumes "grows J" and "calls_ok J x" and "J (insert c (set (snd x))) c"
  shows "calls_ok J (w, snd x @ [c])"
proof -
  have up: "J L c' \<Longrightarrow> J (insert c L) c'" for L c' using assms(1) unfolding grows_def by blast
  show ?thesis using assms(2,3) up by (auto simp: calls_ok_def)
qed

lemma log_write_log [simp]: "snd (snd (log_write c f x)) = snd x @ [c]"
  by (simp add: log_write_def split: prod.splits)

lemma log_write_ok:
  assumes "grows J" and "calls_ok J x" and "J (insert c (set (snd x))) c"
  shows "calls_ok J (snd (log_write c f x))"
  using calls_ok_snoc[OF assms] by (auto simp: log_write_def split: prod.splits)

lemma log_read_ok:
  assumes "grows J" and "calls_ok J x" and "\<And>a. J (insert (c a) (set (snd x))) (c a)"
  shows "calls_ok J (snd (log_read c f x))"
  using calls_ok_snoc[OF assms(1,2,3)] assms(2)
  by (auto simp: log_read_def calls_ok_def split: prod.splits sum.splits)

lemma log_read_result:
  assumes "log_read c f x = (Inr a, y)"
  shows "c a \<in> set (snd y) \<and> set (snd x) \<subseteq> set (snd y)"
  using assms by (auto simp: log_read_def split: prod.splits sum.splits)

subsection \<open>The contract of a release\<close>

text \<open>The error of a call whose value is not used.\<close>

definition err_of :: "'a result \<times> 'w \<Rightarrow> goerror option \<times> 'w" where
  "err_of x = (case x of (Inl err, w) \<Rightarrow> (Some err, w) | (Inr _, w) \<Rightarrow> (None, w))"

lemma err_of_simps [simp]: "err_of (Inl e, w) = (Some e, w)" "err_of (Inr a, w) = (None, w)"
  by (simp_all add: err_of_def)

lemma snd_err_of [simp]: "snd (err_of x) = snd x"
  by (simp add: err_of_def split: prod.splits sum.splits)

locale entity_release =
  fixes ident :: "'e \<Rightarrow> string" and descr :: "'e \<Rightarrow> string" and set_descr :: "string \<Rightarrow> 'e \<Rightarrow> 'e"
    and upd :: "'e \<Rightarrow> 'w \<Rightarrow> 'e result \<times> 'w" and del :: "string \<Rightarrow> 'w \<Rightarrow> unit result \<times> 'w"
    and before :: "'e \<Rightarrow> 'w \<Rightarrow> 'w" and release :: "string \<Rightarrow> 'e \<Rightarrow> 'w \<Rightarrow> goerror option \<times> 'w"
  assumes release_shared: "\<not> snd (withOwnerRemoved (descr e) ns) \<Longrightarrow>
      release ns e w = err_of (upd (set_descr (fst (withOwnerRemoved (descr e) ns)) e) w)"
    and release_last: "snd (withOwnerRemoved (descr e) ns) \<Longrightarrow>
      release ns e w = err_of (del (ident e) (before e w))"
    and set_descr_laws: "descr (set_descr d e) = d" "ident (set_descr d e) = ident e"
begin

text \<open>The rule for a release: an entity with other owners is only updated and keeps them; without other owners it is deleted.\<close>

lemma release_keeps:
  assumes shared: "owners_of (descr e) - {ns} \<noteq> {} \<Longrightarrow>
      (\<And>e'. ident e' = ident e \<Longrightarrow> e' = set_descr (descr e') e \<Longrightarrow> owners_of (descr e') = owners_of (descr e) - {ns} \<Longrightarrow> keeps I (upd e'))"
    and last: "owners_of (descr e) \<subseteq> {ns} \<Longrightarrow> (\<forall>w. I w \<longrightarrow> I (before e w)) \<and> keeps I (del (ident e))"
  shows "keeps I (release ns e)"
proof (cases "snd (withOwnerRemoved (descr e) ns)")
  case True
  then have "owners_of (descr e) \<subseteq> {ns}" by (simp add: withOwnerRemoved_last)
  from last[OF this] show ?thesis
    unfolding keeps_def by (simp add: release_last[OF True])
next
  case False
  let ?e = "set_descr (fst (withOwnerRemoved (descr e) ns)) e"
  have "owners_of (descr e) - {ns} \<noteq> {}" using False by (auto simp: withOwnerRemoved_last)
  moreover have "owners_of (descr ?e) = owners_of (descr e) - {ns}"
    using withOwnerRemoved_parse[OF False] by (auto simp: set_descr_laws)
  ultimately have "keeps I (upd ?e)" using shared[of ?e] by (simp add: set_descr_laws)
  then show ?thesis unfolding keeps_def by (simp add: release_shared[OF False])
qed

end

subsection \<open>An in-memory Consul\<close>

text \<open>A small ACL server, for the witnesses: lists of entities, and a counter for new IDs.\<close>

record aclWorld =
  aw_policies :: "ACLPolicy list"
  aw_roles :: "ACLRole list"
  aw_rules :: "ACLBindingRule list"
  aw_methods :: "ACLAuthMethod list"
  aw_tokens :: "(string \<times> string) list"
  aw_next :: nat

definition mem_world :: aclWorld where
  "mem_world = \<lparr>aw_policies = [], aw_roles = [], aw_rules = [], aw_methods = [], aw_tokens = [], aw_next = 1\<rparr>"

definition new_id :: "aclWorld \<Rightarrow> string" where
  "new_id w = replicate (aw_next w) CHR ''i''"

definition mem_acl :: "aclWorld consulACLClient" where
  "mem_acl =
     \<lparr>acl_PolicyCreate = (\<lambda>p w. let q = p\<lparr>pol_ID := new_id w\<rparr> in
        (Inr q, w\<lparr>aw_policies := aw_policies w @ [q], aw_next := aw_next w + 1\<rparr>)),
      acl_PolicyUpdate = (\<lambda>p w. (Inr p, w\<lparr>aw_policies := map (\<lambda>q. if pol_ID q = pol_ID p then p else q) (aw_policies w)\<rparr>)),
      acl_PolicyReadByName = (\<lambda>n w. (Inr (find (\<lambda>p. pol_Name p = n) (aw_policies w)), w)),
      acl_PolicyDelete = (\<lambda>i w. (Inr (), w\<lparr>aw_policies := filter (\<lambda>p. pol_ID p \<noteq> i) (aw_policies w)\<rparr>)),
      acl_RoleCreate = (\<lambda>p w. let q = p\<lparr>role_ID := new_id w\<rparr> in
        (Inr q, w\<lparr>aw_roles := aw_roles w @ [q], aw_next := aw_next w + 1\<rparr>)),
      acl_RoleUpdate = (\<lambda>p w. (Inr p, w\<lparr>aw_roles := map (\<lambda>q. if role_ID q = role_ID p then p else q) (aw_roles w)\<rparr>)),
      acl_RoleReadByName = (\<lambda>n w. (Inr (find (\<lambda>p. role_Name p = n) (aw_roles w)), w)),
      acl_RoleList = (\<lambda>w. (Inr (aw_roles w), w)),
      acl_RoleDelete = (\<lambda>i w. (Inr (), w\<lparr>aw_roles := filter (\<lambda>p. role_ID p \<noteq> i) (aw_roles w)\<rparr>)),
      acl_PolicyList = (\<lambda>w. (Inr (map (\<lambda>p. \<lparr>ple_ID = pol_ID p, ple_Name = pol_Name p, ple_Description = pol_Description p\<rparr>)
        (aw_policies w)), w)),
      acl_BindingRuleCreate = (\<lambda>p w. let q = p\<lparr>br_ID := new_id w\<rparr> in
        (Inr q, w\<lparr>aw_rules := aw_rules w @ [q], aw_next := aw_next w + 1\<rparr>)),
      acl_BindingRuleUpdate = (\<lambda>p w. (Inr p, w\<lparr>aw_rules := map (\<lambda>q. if br_ID q = br_ID p then p else q) (aw_rules w)\<rparr>)),
      acl_BindingRuleList = (\<lambda>m w. (Inr (filter (\<lambda>r. br_AuthMethod r = m) (aw_rules w)), w)),
      acl_BindingRuleDelete = (\<lambda>i w. (Inr (), w\<lparr>aw_rules := filter (\<lambda>p. br_ID p \<noteq> i) (aw_rules w)\<rparr>)),
      acl_AuthMethodCreate = (\<lambda>m w. (Inr m, w\<lparr>aw_methods := aw_methods w @ [m]\<rparr>)),
      acl_AuthMethodUpdate = (\<lambda>m w. (Inr m, w\<lparr>aw_methods := map (\<lambda>q. if am_Name q = am_Name m then m else q) (aw_methods w)\<rparr>)),
      acl_AuthMethodRead = (\<lambda>n w. (Inr (find (\<lambda>m. am_Name m = n) (aw_methods w)), w)),
      acl_TokenListFiltered = (\<lambda>r w. (Inr (map fst (filter (\<lambda>(t, q). q = r) (aw_tokens w))), w)),
      acl_TokenDelete = (\<lambda>t w. (Inr (), w\<lparr>aw_tokens := filter (\<lambda>(u, q). u \<noteq> t) (aw_tokens w)\<rparr>))\<rparr>"

definition mem_settings :: "string \<Rightarrow> aclWorld aclSettings" where
  "mem_settings authMethod =
     \<lparr>ac_client = mem_acl, ac_authMethod = authMethod, ac_legacyAuthMethods = [], ac_range = (\<lambda>ks. ks)\<rparr>"

end
