(* ===== verification/ACL_Release.thy ===== *)
theory ACL_Release
  imports ACL_Trace
begin

text \<open>
  Releasing ACL entities (\<^verbatim>\<open>controllers/consulacl_controller.go\<close>, lines 282-522, 657-742 and 755-822): the deletion of a
  resource, the clean-up of entities that are no longer declared, and the migration from legacy auth
  methods. The three release operations share the contract \<open>entity_release\<close>. The safety lemmas are about the calls
  that are sent to Consul, for any answers.
\<close>

subsection \<open>Releasing one entity\<close>

definition revokeRoleTokens :: "'w aclSettings \<Rightarrow> ACLRole \<Rightarrow> 'w \<Rightarrow> 'w" where
  "revokeRoleTokens E role w =
     (case acl_TokenListFiltered (ac_client E) (role_ID role) w of
        (Inl err, w1) \<Rightarrow> w1
      | (Inr tokens, w1) \<Rightarrow> fold (\<lambda>token w. snd (acl_TokenDelete (ac_client E) token w)) tokens w1)"

definition releaseBindingRule :: "'w aclSettings \<Rightarrow> string \<Rightarrow> ACLBindingRule \<Rightarrow> 'w \<Rightarrow> goerror option \<times> 'w" where
  "releaseBindingRule E namespace rule w =
     (let (newDesc, isLast) = withOwnerRemoved (br_Description rule) namespace in
      if \<not> isLast then err_of (acl_BindingRuleUpdate (ac_client E) (rule\<lparr>br_Description := newDesc\<rparr>) w)
      else err_of (acl_BindingRuleDelete (ac_client E) (br_ID rule) w))"

definition releaseRole :: "'w aclSettings \<Rightarrow> string \<Rightarrow> ACLRole \<Rightarrow> 'w \<Rightarrow> goerror option \<times> 'w" where
  "releaseRole E namespace role w =
     (let (newDesc, isLast) = withOwnerRemoved (role_Description role) namespace in
      if \<not> isLast then err_of (acl_RoleUpdate (ac_client E) (role\<lparr>role_Description := newDesc\<rparr>) w)
      else err_of (acl_RoleDelete (ac_client E) (role_ID role) (revokeRoleTokens E role w)))"

definition releasePolicy :: "'w aclSettings \<Rightarrow> string \<Rightarrow> ACLPolicy \<Rightarrow> 'w \<Rightarrow> goerror option \<times> 'w" where
  "releasePolicy E namespace policy w =
     (let (newDesc, isLast) = withOwnerRemoved (pol_Description policy) namespace in
      if \<not> isLast then err_of (acl_PolicyUpdate (ac_client E) (policy\<lparr>pol_Description := newDesc\<rparr>) w)
      else err_of (acl_PolicyDelete (ac_client E) (pol_ID policy) w))"

subsection \<open>Legacy auth methods\<close>

definition failedEntities :: "StatusHolder \<Rightarrow> string set" where
  "failedEntities status = set (map fst (filter (\<lambda>(name, value). strings_HasPrefix value ''error:'') status))"

definition legacy_declared :: "ACLConfig \<Rightarrow> string \<Rightarrow> string \<Rightarrow> bool \<Rightarrow> string \<Rightarrow> string set" where
  "legacy_declared aclConfig name namespace keepDeclared legacy =
     (if keepDeclared
      then set (concat (map (\<lambda>br. [convertEntityName (bra_BindName br) name namespace, bra_BindName br])
             (filter (\<lambda>br. bra_AuthMethod br = legacy \<and> bra_BindName br \<noteq> []) (cfg_BindRules aclConfig))))
      else {})"

definition removeLegacyRule ::
  "'w aclSettings \<Rightarrow> string \<Rightarrow> string set \<Rightarrow> string set \<Rightarrow> ACLBindingRule \<Rightarrow> 'w \<Rightarrow> goerror option \<times> 'w"
where
  "removeLegacyRule E pre declared failed rule w =
     (if br_BindType rule \<noteq> ''role'' \<or> \<not> strings_HasPrefix (br_BindName rule) pre then (None, w)
      else if br_BindName rule \<in> declared \<or> br_BindName rule \<in> failed then (None, w)
      else err_of (acl_BindingRuleDelete (ac_client E) (br_ID rule) w))"

definition removeLegacyMethod ::
  "'w aclSettings \<Rightarrow> ACLConfig \<Rightarrow> string \<Rightarrow> string \<Rightarrow> bool \<Rightarrow> string set \<Rightarrow> string \<Rightarrow> 'w \<Rightarrow> goerror option \<times> 'w"
where
  "removeLegacyMethod E aclConfig name namespace keepDeclared failed legacy w =
     (if legacy = ac_authMethod E then (None, w)
      else case acl_AuthMethodRead (ac_client E) legacy w of
             (Inl err, w1) \<Rightarrow> if \<not> isErrNotFound err then (Some err, w1) else (None, w1)
           | (Inr None, w1) \<Rightarrow> (None, w1)
           | (Inr (Some method), w1) \<Rightarrow>
               (case acl_BindingRuleList (ac_client E) legacy w1 of
                  (Inl err, w2) \<Rightarrow> (Some err, w2)
                | (Inr rules, w2) \<Rightarrow>
                    for_each (removeLegacyRule E (entityPrefix name namespace)
                      (legacy_declared aclConfig name namespace keepDeclared legacy) failed) rules w2))"

definition removeLegacyBindingRules ::
  "'w aclSettings \<Rightarrow> ACLConfig \<Rightarrow> string \<Rightarrow> string \<Rightarrow> bool \<Rightarrow> string set \<Rightarrow> 'w \<Rightarrow> goerror option \<times> 'w"
where
  "removeLegacyBindingRules E aclConfig name namespace keepDeclared failed =
     for_each (removeLegacyMethod E aclConfig name namespace keepDeclared failed) (ac_legacyAuthMethods E)"

subsection \<open>Deletion of a resource\<close>

text \<open>The loop over the auth methods of a configuration and the rules below each.\<close>

definition for_each_rule ::
  "'w aclSettings \<Rightarrow> ACLConfig \<Rightarrow> (ACLBindingRule \<Rightarrow> 'w \<Rightarrow> goerror option \<times> 'w) \<Rightarrow> 'w \<Rightarrow> goerror option \<times> 'w"
where
  "for_each_rule E aclConfig f =
     for_each (\<lambda>am w.
       case acl_BindingRuleList (ac_client E) am w of
         (Inl err, w1) \<Rightarrow> (Some err, w1)
       | (Inr existingRules, w1) \<Rightarrow> for_each f existingRules w1)
     (ac_range E (bindRuleAuthMethods (ac_authMethod E) aclConfig))"

definition deleteBindingRules ::
  "'w aclSettings \<Rightarrow> ACLConfig \<Rightarrow> string \<Rightarrow> string \<Rightarrow> bool \<Rightarrow> declaredEntities option \<Rightarrow> 'w \<Rightarrow> goerror option \<times> 'w"
where
  "deleteBindingRules E aclConfig name namespace explicitName siblings =
     (let declared = de_add aclConfig name namespace explicitName newDeclaredEntities in
      for_each_rule E aclConfig (\<lambda>ebr w.
        if \<not> hasBindRule (Some declared) (br_BindName ebr) then (None, w)
        else if hasBindRule siblings (br_BindName ebr) then (None, w)
        else releaseBindingRule E namespace ebr w))"

definition deleteRole ::
  "'w aclSettings \<Rightarrow> string \<Rightarrow> string \<Rightarrow> bool \<Rightarrow> declaredEntities option \<Rightarrow> ACLRoleAdapter \<Rightarrow> 'w \<Rightarrow> goerror option \<times> 'w"
where
  "deleteRole E name namespace explicitName siblings role w =
     (if ra_Name role = [] then (None, w)
      else let roleName = resolveEntityName (ra_Name role) name namespace explicitName in
           if hasRole siblings roleName then (None, w)
           else case readRole E roleName w of
                  (Inl err, w1) \<Rightarrow> (Some err, w1)
                | (Inr None, w1) \<Rightarrow> (None, w1)
                | (Inr (Some existingRole), w1) \<Rightarrow> releaseRole E namespace existingRole w1)"

definition deleteRoles ::
  "'w aclSettings \<Rightarrow> ACLConfig \<Rightarrow> string \<Rightarrow> string \<Rightarrow> bool \<Rightarrow> declaredEntities option \<Rightarrow> 'w \<Rightarrow> goerror option \<times> 'w"
where
  "deleteRoles E aclConfig name namespace explicitName siblings =
     for_each (deleteRole E name namespace explicitName siblings) (cfg_Roles aclConfig)"

definition deletePolicy ::
  "'w aclSettings \<Rightarrow> string \<Rightarrow> string \<Rightarrow> bool \<Rightarrow> declaredEntities option \<Rightarrow> ACLPolicy \<Rightarrow> 'w \<Rightarrow> goerror option \<times> 'w"
where
  "deletePolicy E name namespace explicitName siblings policy w =
     (if pol_Name policy = [] then (None, w)
      else let policyName = resolveEntityName (pol_Name policy) name namespace explicitName in
           if hasPolicy siblings policyName then (None, w)
           else case readPolicy E policyName w of
                  (Inl err, w1) \<Rightarrow> (Some err, w1)
                | (Inr None, w1) \<Rightarrow> (None, w1)
                | (Inr (Some existingPolicy), w1) \<Rightarrow> releasePolicy E namespace existingPolicy w1)"

definition deletePolicies ::
  "'w aclSettings \<Rightarrow> ACLConfig \<Rightarrow> string \<Rightarrow> string \<Rightarrow> bool \<Rightarrow> declaredEntities option \<Rightarrow> 'w \<Rightarrow> goerror option \<times> 'w"
where
  "deletePolicies E aclConfig name namespace explicitName siblings =
     for_each (deletePolicy E name namespace explicitName siblings) (cfg_Policies aclConfig)"

definition deleteAclEntities ::
  "'w aclSettings \<Rightarrow> ACLConfig \<Rightarrow> string \<Rightarrow> string \<Rightarrow> bool \<Rightarrow> declaredEntities option \<Rightarrow> 'w \<Rightarrow> goerror option \<times> 'w"
where
  "deleteAclEntities E aclConfig name namespace explicitName siblings w =
     and_then (deleteBindingRules E aclConfig name namespace explicitName siblings w) (\<lambda>w.
     and_then (removeLegacyBindingRules E aclConfig name namespace False {} w) (\<lambda>w.
     and_then (deleteRoles E aclConfig name namespace explicitName siblings w) (\<lambda>w.
     deletePolicies E aclConfig name namespace explicitName siblings w)))"

subsection \<open>Clean-up of entities that are no longer declared\<close>

definition removeStaleRule :: "'w aclSettings \<Rightarrow> ACLConfig \<Rightarrow> string \<Rightarrow> string \<Rightarrow> ACLBindingRule \<Rightarrow> 'w \<Rightarrow> goerror option \<times> 'w" where
  "removeStaleRule E aclConfig name namespace ebr w =
     (if \<not> strings_HasPrefix (br_BindName ebr) (entityPrefix name namespace) then (None, w)
      else if br_BindName ebr \<in> set (map (\<lambda>b. convertEntityName (bra_BindName b) name namespace) (cfg_BindRules aclConfig))
      then (None, w)
      else err_of (acl_BindingRuleDelete (ac_client E) (br_ID ebr) w))"

definition removeStaleRole :: "'w aclSettings \<Rightarrow> ACLConfig \<Rightarrow> string \<Rightarrow> string \<Rightarrow> ACLRole \<Rightarrow> 'w \<Rightarrow> goerror option \<times> 'w" where
  "removeStaleRole E aclConfig name namespace er w =
     (if \<not> strings_HasPrefix (role_Name er) (entityPrefix name namespace) then (None, w)
      else if role_Name er \<in> set (map (\<lambda>r. convertEntityName (ra_Name r) name namespace) (cfg_Roles aclConfig))
      then (None, w)
      else err_of (acl_RoleDelete (ac_client E) (role_ID er) w))"

definition removeStalePolicy ::
  "'w aclSettings \<Rightarrow> ACLConfig \<Rightarrow> string \<Rightarrow> string \<Rightarrow> ACLPolicyListEntry \<Rightarrow> 'w \<Rightarrow> goerror option \<times> 'w"
where
  "removeStalePolicy E aclConfig name namespace ep w =
     (if \<not> strings_HasPrefix (ple_Name ep) (entityPrefix name namespace) then (None, w)
      else if ple_Name ep \<in> set (map (\<lambda>p. convertEntityName (pol_Name p) name namespace) (cfg_Policies aclConfig))
      then (None, w)
      else err_of (acl_PolicyDelete (ac_client E) (ple_ID ep) w))"

text \<open>Listing all roles or policies and going through them.\<close>

definition for_each_role :: "'w aclSettings \<Rightarrow> (ACLRole \<Rightarrow> 'w \<Rightarrow> goerror option \<times> 'w) \<Rightarrow> 'w \<Rightarrow> goerror option \<times> 'w" where
  "for_each_role E f w =
     (case acl_RoleList (ac_client E) w of
        (Inl err, w1) \<Rightarrow> (Some err, w1)
      | (Inr existingRoles, w1) \<Rightarrow> for_each f existingRoles w1)"

definition for_each_policy ::
  "'w aclSettings \<Rightarrow> (ACLPolicyListEntry \<Rightarrow> 'w \<Rightarrow> goerror option \<times> 'w) \<Rightarrow> 'w \<Rightarrow> goerror option \<times> 'w"
where
  "for_each_policy E f w =
     (case acl_PolicyList (ac_client E) w of
        (Inl err, w1) \<Rightarrow> (Some err, w1)
      | (Inr existingPolicies, w1) \<Rightarrow> for_each f existingPolicies w1)"

definition releaseStaleExplicitPolicy ::
  "'w aclSettings \<Rightarrow> string \<Rightarrow> declaredEntities \<Rightarrow> declaredEntities option \<Rightarrow> ACLPolicyListEntry \<Rightarrow> 'w \<Rightarrow> goerror option \<times> 'w"
where
  "releaseStaleExplicitPolicy E namespace declared siblings ep w =
     (if \<not> hasOwner (ple_Description ep) namespace \<or> hasPolicy (Some declared) (ple_Name ep) \<or> hasPolicy siblings (ple_Name ep)
      then (None, w)
      else case readPolicy E (ple_Name ep) w of
             (Inl err, w1) \<Rightarrow> (Some err, w1)
           | (Inr None, w1) \<Rightarrow> (None, w1)
           | (Inr (Some existingPolicy), w1) \<Rightarrow> releasePolicy E namespace existingPolicy w1)"

definition removeStaleExplicitEntities ::
  "'w aclSettings \<Rightarrow> ACLConfig \<Rightarrow> string \<Rightarrow> string \<Rightarrow> declaredEntities option \<Rightarrow> 'w \<Rightarrow> goerror option \<times> 'w"
where
  "removeStaleExplicitEntities E aclConfig name namespace siblings w =
     (let declared = de_add aclConfig name namespace True newDeclaredEntities in
      and_then (for_each_rule E aclConfig (\<lambda>ebr w.
        if \<not> hasOwner (br_Description ebr) namespace \<or> hasBindRule (Some declared) (br_BindName ebr) \<or>
           hasBindRule siblings (br_BindName ebr)
        then (None, w) else releaseBindingRule E namespace ebr w) w) (\<lambda>w.
      and_then (for_each_role E (\<lambda>er w.
        if \<not> hasOwner (role_Description er) namespace \<or> hasRole (Some declared) (role_Name er) \<or>
           hasRole siblings (role_Name er)
        then (None, w) else releaseRole E namespace er w) w) (\<lambda>w.
      for_each_policy E (releaseStaleExplicitPolicy E namespace declared siblings) w)))"

definition removeStaleEntities ::
  "'w aclSettings \<Rightarrow> ACLConfig \<Rightarrow> string \<Rightarrow> string \<Rightarrow> bool \<Rightarrow> declaredEntities option \<Rightarrow> 'w \<Rightarrow> goerror option \<times> 'w"
where
  "removeStaleEntities E aclConfig name namespace explicitName siblings w =
     (if explicitName then removeStaleExplicitEntities E aclConfig name namespace siblings w
      else
        and_then (for_each_rule E aclConfig (removeStaleRule E aclConfig name namespace) w) (\<lambda>w.
        and_then (for_each_role E (removeStaleRole E aclConfig name namespace) w) (\<lambda>w.
        for_each_policy E (removeStalePolicy E aclConfig name namespace) w)))"

subsection \<open>The release operations meet the contract\<close>

interpretation rule_release: entity_release br_ID br_Description "\<lambda>d r. r\<lparr>br_Description := d\<rparr>"
  "acl_BindingRuleUpdate (ac_client E)" "acl_BindingRuleDelete (ac_client E)" "\<lambda>_ w. w" "releaseBindingRule E"
  for E
  by unfold_locales (simp_all add: releaseBindingRule_def split_beta Let_def)

interpretation role_release: entity_release role_ID role_Description "\<lambda>d r. r\<lparr>role_Description := d\<rparr>"
  "acl_RoleUpdate (ac_client E)" "acl_RoleDelete (ac_client E)" "revokeRoleTokens E" "releaseRole E"
  for E
  by unfold_locales (simp_all add: releaseRole_def split_beta Let_def)

interpretation policy_release: entity_release pol_ID pol_Description "\<lambda>d r. r\<lparr>pol_Description := d\<rparr>"
  "acl_PolicyUpdate (ac_client E)" "acl_PolicyDelete (ac_client E)" "\<lambda>_ w. w" "releasePolicy E"
  for E
  by unfold_locales (simp_all add: releasePolicy_def split_beta Let_def)

end
