(* ===== verification/ACL_Safety.thy ===== *)
theory ACL_Safety
  imports ACL_Release
begin

text \<open>
  What the clean-up and the deletion of ConsulACL resources may do to Consul, as properties of the calls
  they send: nothing of another resource, nothing that is still declared, and no entity with other
  owners is deleted. They hold for any answers of Consul.
\<close>

subsection \<open>Names of different resources\<close>

lemma prefix_until_sep:
  assumes "prefix (a @ [s]) (b @ [s] @ c)" and "s \<notin> set a" and "s \<notin> set b"
  shows "a = b"
  using assms
proof (induction a arbitrary: b)
  case Nil
  then show ?case by (cases b) auto
next
  case (Cons x a)
  then show ?case by (cases b) auto
qed

lemma entityPrefix_HasPrefix:
  assumes "CHR ''_'' \<notin> set name" "CHR ''_'' \<notin> set namespace" "CHR ''_'' \<notin> set name'" "CHR ''_'' \<notin> set namespace'"
  shows "strings_HasPrefix (convertEntityName entity name' namespace') (entityPrefix name namespace) \<longleftrightarrow>
    name' = name \<and> namespace' = namespace"
proof
  assume "strings_HasPrefix (convertEntityName entity name' namespace') (entityPrefix name namespace)"
  then have p: "prefix (name @ ''_'' @ namespace @ ''_'') (name' @ ''_'' @ namespace' @ ''_'' @ entity)"
    by (simp add: strings_HasPrefix_def convertEntityName_def entityPrefix_def)
  then have "prefix (name @ ''_'') (name' @ ''_'' @ (namespace' @ ''_'' @ entity))"
    by (metis append.assoc append_prefixD)
  then have n: "name = name'" using assms(1,3) by (intro prefix_until_sep[of name "CHR ''_''"]) auto
  with p have "prefix (namespace @ ''_'') (namespace' @ ''_'' @ entity)" by simp
  then have "namespace = namespace'" using assms(2,4) by (intro prefix_until_sep[of namespace "CHR ''_''"]) auto
  with n show "name' = name \<and> namespace' = namespace" by simp
qed (auto simp: strings_HasPrefix_def convertEntityName_def entityPrefix_def)

text \<open>
  Kubernetes names have no underscore, so the prefixed names of two resources never clash: a name that a
  resource gives to an entity starts with the prefix of a resource iff it is the same one, and equal
  names come from the same resource and entity.
\<close>

theorem entity_names_isolated:
  assumes "CHR ''_'' \<notin> set name" "CHR ''_'' \<notin> set namespace" "CHR ''_'' \<notin> set name'" "CHR ''_'' \<notin> set namespace'"
  shows "(strings_HasPrefix (convertEntityName entity name' namespace') (entityPrefix name namespace) \<longleftrightarrow>
      name' = name \<and> namespace' = namespace) \<and>
    (convertEntityName entity' name' namespace' = convertEntityName entity name namespace \<longleftrightarrow>
      entity' = entity \<and> name' = name \<and> namespace' = namespace)"
proof -
  have "strings_HasPrefix (convertEntityName entity name namespace) (entityPrefix name namespace)"
    by (simp add: strings_HasPrefix_def convertEntityName_def entityPrefix_def)
  then have "convertEntityName entity' name' namespace' = convertEntityName entity name namespace \<Longrightarrow>
      name' = name \<and> namespace' = namespace"
    using entityPrefix_HasPrefix[OF assms, of entity'] by simp
  then show ?thesis
    using entityPrefix_HasPrefix[OF assms] by (auto simp: convertEntityName_def)
qed

theorem entity_names_isolated_witness:
  "\<not> strings_HasPrefix (convertEntityName ''p'' ''app-2'' ''ns'') (entityPrefix ''app'' ''ns'')"
  using entity_names_isolated[of "''app''" "''ns''" "''app-2''" "''ns''"] by simp

subsection \<open>Loops over listed entities\<close>

lemma listed_calls:
  assumes g: "grows J" and list: "\<And>L xs. J L (c xs)"
    and f: "\<And>xs e. e \<in> set xs \<Longrightarrow> keeps (\<lambda>x. calls_ok J x \<and> c xs \<in> set (snd x)) (f e)"
  shows "keeps (calls_ok J) (\<lambda>x. case log_read c h x of
    (Inl err, w1) \<Rightarrow> (Some err, w1) | (Inr xs, w1) \<Rightarrow> for_each f xs w1)"
proof (rule keepsI)
  fix x r y
  assume x: "calls_ok J x"
    and run: "(case log_read c h x of (Inl err, w1) \<Rightarrow> (Some err, w1) | (Inr xs, w1) \<Rightarrow> for_each f xs w1) = (r, y)"
  obtain a x1 where l: "log_read c h x = (a, x1)" by (rule prod.exhaust)
  have x1: "calls_ok J x1" using log_read_ok[OF g x, of c h] list l by simp
  show "calls_ok J y"
  proof (cases a)
    case (Inl e)
    with run l x1 show ?thesis by simp
  next
    case (Inr xs)
    have K: "keeps (\<lambda>x. calls_ok J x \<and> c xs \<in> set (snd x)) (for_each f xs)"
      by (rule keeps_for_each) (rule f)
    have "for_each f xs x1 = (r, y)" using run l Inr by simp
    from keepsD[OF K _ this] x1 log_read_result[OF l[unfolded Inr]] show ?thesis by simp
  qed
qed

lemma for_each_rule_calls:
  assumes "grows J" and "\<And>L am rs. J L (RulesListed am rs)"
    and "\<And>am rs r. r \<in> set rs \<Longrightarrow> keeps (\<lambda>x. calls_ok J x \<and> RulesListed am rs \<in> set (snd x)) (f r)"
  shows "keeps (calls_ok J) (for_each_rule (logged_settings E) cfg f)"
  unfolding for_each_rule_def
  by (rule keeps_for_each) (simp add: logged_def, rule listed_calls; rule assms; assumption)

lemma for_each_role_calls:
  assumes "grows J" and "\<And>L rs. J L (RolesListed rs)"
    and "\<And>rs r. r \<in> set rs \<Longrightarrow> keeps (\<lambda>x. calls_ok J x \<and> RolesListed rs \<in> set (snd x)) (f r)"
  shows "keeps (calls_ok J) (for_each_role (logged_settings E) f)"
  unfolding for_each_role_def by (simp add: logged_def, rule listed_calls; rule assms; assumption)

lemma for_each_policy_calls:
  assumes "grows J" and "\<And>L rs. J L (PoliciesListed rs)"
    and "\<And>rs r. r \<in> set rs \<Longrightarrow> keeps (\<lambda>x. calls_ok J x \<and> PoliciesListed rs \<in> set (snd x)) (f r)"
  shows "keeps (calls_ok J) (for_each_policy (logged_settings E) f)"
  unfolding for_each_policy_def by (simp add: logged_def, rule listed_calls; rule assms; assumption)

lemma log_write_keeps:
  assumes "grows J" and "\<And>L. Q L \<Longrightarrow> J (insert c L) c" and "\<And>L L'. Q L \<Longrightarrow> L \<subseteq> L' \<Longrightarrow> Q L'"
  shows "keeps (\<lambda>x. calls_ok J x \<and> Q (set (snd x))) (log_write c f)"
proof (rule keepsI)
  fix x r y
  assume x: "calls_ok J x \<and> Q (set (snd x))" and run: "log_write c f x = (r, y)"
  have "calls_ok J (snd (log_write c f x))"
    using log_write_ok[OF assms(1) conjunct1[OF x]] assms(2) x by blast
  moreover have "Q (set (snd (snd (log_write c f x))))" using assms(3)[OF conjunct2[OF x]] by (simp add: subset_insertI)
  ultimately show "calls_ok J y \<and> Q (set (snd y))" using run by simp
qed

lemma keeps_skip: "keeps I (\<lambda>w. (a, w))"
  by (simp add: keeps_def)

lemma keeps_err_of: "keeps I f \<Longrightarrow> keeps I (\<lambda>w. err_of (f w))"
  by (simp add: keeps_def)

lemma keeps_if: "(b \<Longrightarrow> keeps I f) \<Longrightarrow> (\<not> b \<Longrightarrow> keeps I g) \<Longrightarrow> keeps I (\<lambda>w. if b then f w else g w)"
  by (simp add: keeps_def)

lemma calls_ok_start [simp]: "calls_ok J (w, [])"
  by (simp add: calls_ok_def)

lemma calls_ok_and_then:
  assumes "calls_ok J (snd x)" and "keeps (calls_ok J) f"
  shows "calls_ok J (snd (and_then x f))"
  by (rule keeps_and_then) (rule assms)+

subsection \<open>Clean-up of prefixed entities\<close>

text \<open>
  The calls that the clean-up of a resource with prefixed names may send: it lists, and it deletes
  entities it has listed whose name has the prefix of the resource and is not declared.
\<close>

fun stale_call :: "ACLConfig \<Rightarrow> string \<Rightarrow> string \<Rightarrow> aclCall set \<Rightarrow> aclCall \<Rightarrow> bool" where
  "stale_call cfg name ns L (RuleDeleted i) =
     (\<exists>am rs r. RulesListed am rs \<in> L \<and> r \<in> set rs \<and> br_ID r = i \<and>
        strings_HasPrefix (br_BindName r) (entityPrefix name ns) \<and>
        br_BindName r \<notin> (\<lambda>b. convertEntityName (bra_BindName b) name ns) ` set (cfg_BindRules cfg))"
| "stale_call cfg name ns L (RoleDeleted i) =
     (\<exists>rs r. RolesListed rs \<in> L \<and> r \<in> set rs \<and> role_ID r = i \<and>
        strings_HasPrefix (role_Name r) (entityPrefix name ns) \<and>
        role_Name r \<notin> (\<lambda>b. convertEntityName (ra_Name b) name ns) ` set (cfg_Roles cfg))"
| "stale_call cfg name ns L (PolicyDeleted i) =
     (\<exists>ps p. PoliciesListed ps \<in> L \<and> p \<in> set ps \<and> ple_ID p = i \<and>
        strings_HasPrefix (ple_Name p) (entityPrefix name ns) \<and>
        ple_Name p \<notin> (\<lambda>b. convertEntityName (pol_Name b) name ns) ` set (cfg_Policies cfg))"
| "stale_call cfg name ns L (RulesListed am rs) = True"
| "stale_call cfg name ns L (RolesListed rs) = True"
| "stale_call cfg name ns L (PoliciesListed ps) = True"
| "stale_call cfg name ns L c = False"

lemma grows_stale_call: "grows (stale_call cfg name ns)"
  unfolding grows_def
proof (intro allI impI)
  fix L L' c
  assume "L \<subseteq> L'" and "stale_call cfg name ns L c"
  then show "stale_call cfg name ns L' c" by (cases c) (simp_all, blast+)
qed

lemma removeStaleRule_calls:
  assumes "r \<in> set rs"
  shows "keeps (\<lambda>x. calls_ok (stale_call cfg name ns) x \<and> RulesListed am rs \<in> set (snd x))
    (removeStaleRule (logged_settings E) cfg name ns r)"
  unfolding removeStaleRule_def logged_settings_simps logged_def consulACLClient.simps
  by (intro keeps_if keeps_skip keeps_err_of log_write_keeps[OF grows_stale_call]) (use assms in auto)

lemma removeStaleRole_calls:
  assumes "r \<in> set rs"
  shows "keeps (\<lambda>x. calls_ok (stale_call cfg name ns) x \<and> RolesListed rs \<in> set (snd x))
    (removeStaleRole (logged_settings E) cfg name ns r)"
  unfolding removeStaleRole_def logged_settings_simps logged_def consulACLClient.simps
  by (intro keeps_if keeps_skip keeps_err_of log_write_keeps[OF grows_stale_call]) (use assms in auto)

lemma removeStalePolicy_calls:
  assumes "r \<in> set rs"
  shows "keeps (\<lambda>x. calls_ok (stale_call cfg name ns) x \<and> PoliciesListed rs \<in> set (snd x))
    (removeStalePolicy (logged_settings E) cfg name ns r)"
  unfolding removeStalePolicy_def logged_settings_simps logged_def consulACLClient.simps
  by (intro keeps_if keeps_skip keeps_err_of log_write_keeps[OF grows_stale_call]) (use assms in auto)

text \<open>
  C23. The clean-up of a resource with prefixed names sends, besides lists, only deletions of entities that
  a list returned, whose name has the prefix of this resource and which its configuration does not
  declare; it never updates or creates anything.
\<close>

theorem stale_cleanup_calls:
  "calls_ok (stale_call cfg name ns)
     (snd (removeStaleEntities (logged_settings E) cfg name ns False siblings (w, [])))"
proof -
  have "keeps (calls_ok (stale_call cfg name ns))
      (\<lambda>w. and_then (for_each_role (logged_settings E) (removeStaleRole (logged_settings E) cfg name ns) w)
         (for_each_policy (logged_settings E) (removeStalePolicy (logged_settings E) cfg name ns)))"
    unfolding keeps_def
    by (intro allI impI calls_ok_and_then keeps_snd[where I = "calls_ok (stale_call cfg name ns)"]
        for_each_role_calls for_each_policy_calls grows_stale_call removeStaleRole_calls removeStalePolicy_calls) auto
  then show ?thesis
    unfolding removeStaleEntities_def if_False
    by (intro calls_ok_and_then keeps_snd[where I = "calls_ok (stale_call cfg name ns)"]
        for_each_rule_calls grows_stale_call removeStaleRule_calls) auto
qed

subsection \<open>Clean-up of shared entities\<close>

text \<open>
  A call that releases an entity: with other owners the description is updated and names exactly the
  others, without other owners the entity is deleted, a role after its tokens were listed.
\<close>

fun releases_rule :: "string \<Rightarrow> ACLBindingRule \<Rightarrow> aclCall \<Rightarrow> bool" where
  "releases_rule ns r (RuleUpdated r') =
     (r' = r\<lparr>br_Description := br_Description r'\<rparr> \<and> owners_of (br_Description r) - {ns} \<noteq> {} \<and>
      owners_of (br_Description r') = owners_of (br_Description r) - {ns})"
| "releases_rule ns r (RuleDeleted i) = (i = br_ID r \<and> owners_of (br_Description r) \<subseteq> {ns})"
| "releases_rule ns r c = False"

fun releases_role :: "string \<Rightarrow> ACLRole \<Rightarrow> aclCall set \<Rightarrow> aclCall \<Rightarrow> bool" where
  "releases_role ns r L (RoleUpdated r') =
     (r' = r\<lparr>role_Description := role_Description r'\<rparr> \<and> owners_of (role_Description r) - {ns} \<noteq> {} \<and>
      owners_of (role_Description r') = owners_of (role_Description r) - {ns})"
| "releases_role ns r L (RoleDeleted i) = (i = role_ID r \<and> owners_of (role_Description r) \<subseteq> {ns})"
| "releases_role ns r L (TokensListed i ts) = (i = role_ID r \<and> owners_of (role_Description r) \<subseteq> {ns})"
| "releases_role ns r L (TokenDeleted t) =
     (owners_of (role_Description r) \<subseteq> {ns} \<and> (\<exists>ts. TokensListed (role_ID r) ts \<in> L \<and> t \<in> set ts))"
| "releases_role ns r L c = False"

fun releases_policy :: "string \<Rightarrow> ACLPolicy \<Rightarrow> aclCall \<Rightarrow> bool" where
  "releases_policy ns r (PolicyUpdated r') =
     (r' = r\<lparr>pol_Description := pol_Description r'\<rparr> \<and> owners_of (pol_Description r) - {ns} \<noteq> {} \<and>
      owners_of (pol_Description r') = owners_of (pol_Description r) - {ns})"
| "releases_policy ns r (PolicyDeleted i) = (i = pol_ID r \<and> owners_of (pol_Description r) \<subseteq> {ns})"
| "releases_policy ns r c = False"

lemma releases_role_grows: "releases_role ns r L c \<Longrightarrow> L \<subseteq> L' \<Longrightarrow> releases_role ns r L' c"
  by (cases c) auto

lemma revokeRoleTokens_calls:
  assumes g: "grows J" and mono: "\<And>L L'. Q L \<Longrightarrow> L \<subseteq> L' \<Longrightarrow> Q L'"
    and J: "\<And>L c. Q L \<Longrightarrow> releases_role ns r L c \<Longrightarrow> J L c"
    and last: "owners_of (role_Description r) \<subseteq> {ns}"
    and x: "calls_ok J x \<and> Q (set (snd x))"
  shows "calls_ok J (revokeRoleTokens (logged_settings E) r x) \<and> Q (set (snd (revokeRoleTokens (logged_settings E) r x)))"
proof -
  let ?h = "acl_TokenListFiltered (ac_client E) (role_ID r)"
  obtain a y where l: "log_read (TokensListed (role_ID r)) ?h x = (a, y)" by (rule prod.exhaust)
  have grow: "set (snd x) \<subseteq> set (snd y)" using l by (auto simp: log_read_def split: prod.splits sum.splits)
  have "J (insert (TokensListed (role_ID r) ts) (set (snd x))) (TokensListed (role_ID r) ts)" for ts
    using J[OF mono[OF conjunct2[OF x] subset_insertI]] last by simp
  then have y: "calls_ok J y \<and> Q (set (snd y))"
    using log_read_ok[OF g conjunct1[OF x], of "TokensListed (role_ID r)" ?h] l mono[OF conjunct2[OF x] grow] by simp
  show ?thesis
  proof (cases a)
    case (Inl e)
    with l y show ?thesis by (simp add: revokeRoleTokens_def logged_def)
  next
    case (Inr ts)
    have inv: "calls_ok J z \<and> Q (set (snd z)) \<and> TokensListed (role_ID r) ts \<in> set (snd z) \<Longrightarrow> set us \<subseteq> set ts \<Longrightarrow>
        calls_ok J (fold (\<lambda>t w. snd (log_write (TokenDeleted t) (acl_TokenDelete (ac_client E) t) w)) us z) \<and>
        Q (set (snd (fold (\<lambda>t w. snd (log_write (TokenDeleted t) (acl_TokenDelete (ac_client E) t) w)) us z)))" for us z
    proof (induction us arbitrary: z)
      case Nil
      then show ?case by simp
    next
      case (Cons t us)
      let ?z = "snd (log_write (TokenDeleted t) (acl_TokenDelete (ac_client E) t) z)"
      have "Q (insert (TokenDeleted t) (set (snd z)))"
        using Cons.prems(1) mono[OF _ subset_insertI] by simp
      moreover have "t \<in> set ts" "TokensListed (role_ID r) ts \<in> set (snd z)" using Cons.prems by simp_all
      then have "releases_role ns r (insert (TokenDeleted t) (set (snd z))) (TokenDeleted t)"
        using last by auto
      ultimately have "J (insert (TokenDeleted t) (set (snd z))) (TokenDeleted t)" by (rule J)
      then have "calls_ok J ?z" using log_write_ok[OF g] Cons.prems(1) by blast
      moreover have "Q (set (snd ?z))" using Cons.prems(1) mono[of "set (snd z)"] by (simp add: subset_insertI)
      ultimately show ?case using Cons.IH[of ?z] Cons.prems by simp
    qed
    have "TokensListed (role_ID r) ts \<in> set (snd y)" using log_read_result[OF l[unfolded Inr]] by simp
    with inv[of y ts] y l Inr show ?thesis by (simp add: revokeRoleTokens_def logged_def)
  qed
qed

lemma releaseBindingRule_calls:
  assumes g: "grows J" and mono: "\<And>L L'. Q L \<Longrightarrow> L \<subseteq> L' \<Longrightarrow> Q L'"
    and J: "\<And>L c. Q L \<Longrightarrow> releases_rule ns r c \<Longrightarrow> J L c"
  shows "keeps (\<lambda>x. calls_ok J x \<and> Q (set (snd x))) (releaseBindingRule (logged_settings E) ns r)"
proof (rule rule_release.release_keeps)
  fix r'
  assume "owners_of (br_Description r) - {ns} \<noteq> {}" "r' = r\<lparr>br_Description := br_Description r'\<rparr>"
    "owners_of (br_Description r') = owners_of (br_Description r) - {ns}"
  then have "J (insert (RuleUpdated r') L) (RuleUpdated r')" if "Q L" for L
    using J[OF mono[OF that subset_insertI]] by simp
  then show "keeps (\<lambda>x. calls_ok J x \<and> Q (set (snd x))) (acl_BindingRuleUpdate (ac_client (logged_settings E)) r')"
    by (simp add: logged_def) (rule log_write_keeps[OF g]; (assumption | rule mono))
next
  assume "owners_of (br_Description r) \<subseteq> {ns}"
  then have "J (insert (RuleDeleted (br_ID r)) L) (RuleDeleted (br_ID r))" if "Q L" for L
    using J[OF mono[OF that subset_insertI]] by simp
  then have "keeps (\<lambda>x. calls_ok J x \<and> Q (set (snd x))) (acl_BindingRuleDelete (ac_client (logged_settings E)) (br_ID r))"
    by (simp add: logged_def) (rule log_write_keeps[OF g]; (assumption | rule mono))
  then show "(\<forall>w. calls_ok J w \<and> Q (set (snd w)) \<longrightarrow> calls_ok J w \<and> Q (set (snd w))) \<and>
    keeps (\<lambda>x. calls_ok J x \<and> Q (set (snd x))) (acl_BindingRuleDelete (ac_client (logged_settings E)) (br_ID r))"
    by blast
qed

lemma releaseRole_calls:
  assumes g: "grows J" and mono: "\<And>L L'. Q L \<Longrightarrow> L \<subseteq> L' \<Longrightarrow> Q L'"
    and J: "\<And>L c. Q L \<Longrightarrow> releases_role ns r L c \<Longrightarrow> J L c"
  shows "keeps (\<lambda>x. calls_ok J x \<and> Q (set (snd x))) (releaseRole (logged_settings E) ns r)"
proof (rule role_release.release_keeps)
  fix r'
  assume "owners_of (role_Description r) - {ns} \<noteq> {}" "r' = r\<lparr>role_Description := role_Description r'\<rparr>"
    "owners_of (role_Description r') = owners_of (role_Description r) - {ns}"
  then have "J (insert (RoleUpdated r') L) (RoleUpdated r')" if "Q L" for L
    using J[OF mono[OF that subset_insertI]] by simp
  then show "keeps (\<lambda>x. calls_ok J x \<and> Q (set (snd x))) (acl_RoleUpdate (ac_client (logged_settings E)) r')"
    by (simp add: logged_def) (rule log_write_keeps[OF g]; (assumption | rule mono))
next
  assume last: "owners_of (role_Description r) \<subseteq> {ns}"
  then have "J (insert (RoleDeleted (role_ID r)) L) (RoleDeleted (role_ID r))" if "Q L" for L
    using J[OF mono[OF that subset_insertI]] by simp
  then have "keeps (\<lambda>x. calls_ok J x \<and> Q (set (snd x))) (acl_RoleDelete (ac_client (logged_settings E)) (role_ID r))"
    by (simp add: logged_def) (rule log_write_keeps[OF g]; (assumption | rule mono))
  moreover have rev: "calls_ok J (revokeRoleTokens (logged_settings E) r x) \<and>
      Q (set (snd (revokeRoleTokens (logged_settings E) r x)))" if x: "calls_ok J x \<and> Q (set (snd x))" for x
    by (rule revokeRoleTokens_calls[where Q = Q, OF g _ _ last x]) (fact mono, fact J)
  ultimately show "(\<forall>w. calls_ok J w \<and> Q (set (snd w)) \<longrightarrow>
      calls_ok J (revokeRoleTokens (logged_settings E) r w) \<and> Q (set (snd (revokeRoleTokens (logged_settings E) r w)))) \<and>
    keeps (\<lambda>x. calls_ok J x \<and> Q (set (snd x))) (acl_RoleDelete (ac_client (logged_settings E)) (role_ID r))"
    using rev by blast
qed

lemma releasePolicy_calls:
  assumes g: "grows J" and mono: "\<And>L L'. Q L \<Longrightarrow> L \<subseteq> L' \<Longrightarrow> Q L'"
    and J: "\<And>L c. Q L \<Longrightarrow> releases_policy ns r c \<Longrightarrow> J L c"
  shows "keeps (\<lambda>x. calls_ok J x \<and> Q (set (snd x))) (releasePolicy (logged_settings E) ns r)"
proof (rule policy_release.release_keeps)
  fix r'
  assume "owners_of (pol_Description r) - {ns} \<noteq> {}" "r' = r\<lparr>pol_Description := pol_Description r'\<rparr>"
    "owners_of (pol_Description r') = owners_of (pol_Description r) - {ns}"
  then have "J (insert (PolicyUpdated r') L) (PolicyUpdated r')" if "Q L" for L
    using J[OF mono[OF that subset_insertI]] by simp
  then show "keeps (\<lambda>x. calls_ok J x \<and> Q (set (snd x))) (acl_PolicyUpdate (ac_client (logged_settings E)) r')"
    by (simp add: logged_def) (rule log_write_keeps[OF g]; (assumption | rule mono))
next
  assume "owners_of (pol_Description r) \<subseteq> {ns}"
  then have "J (insert (PolicyDeleted (pol_ID r)) L) (PolicyDeleted (pol_ID r))" if "Q L" for L
    using J[OF mono[OF that subset_insertI]] by simp
  then have "keeps (\<lambda>x. calls_ok J x \<and> Q (set (snd x))) (acl_PolicyDelete (ac_client (logged_settings E)) (pol_ID r))"
    by (simp add: logged_def) (rule log_write_keeps[OF g]; (assumption | rule mono))
  then show "(\<forall>w. calls_ok J w \<and> Q (set (snd w)) \<longrightarrow> calls_ok J w \<and> Q (set (snd w))) \<and>
    keeps (\<lambda>x. calls_ok J x \<and> Q (set (snd x))) (acl_PolicyDelete (ac_client (logged_settings E)) (pol_ID r))"
    by blast
qed

text \<open>Reading an entity by its name before it is released.\<close>

lemma read_then_calls:
  assumes g: "grows J" and read: "\<And>L a. J L (c a)" and mono: "\<And>L L'. Q L \<Longrightarrow> L \<subseteq> L' \<Longrightarrow> Q L'"
    and f: "\<And>e x. calls_ok J x \<and> Q (set (snd x)) \<and> c (Some e) \<in> set (snd x) \<Longrightarrow>
      calls_ok J (snd (f e x)) \<and> Q (set (snd (snd (f e x))))"
  shows "keeps (\<lambda>x. calls_ok J x \<and> Q (set (snd x))) (\<lambda>x. case log_read c h x of
    (Inl err, w1) \<Rightarrow> (if skip err then (None, w1) else (Some err, w1))
  | (Inr None, w1) \<Rightarrow> (None, w1) | (Inr (Some e), w1) \<Rightarrow> f e w1)"
proof (rule keepsI)
  fix x r y
  assume x: "calls_ok J x \<and> Q (set (snd x))"
    and run: "(case log_read c h x of (Inl err, w1) \<Rightarrow> (if skip err then (None, w1) else (Some err, w1))
      | (Inr None, w1) \<Rightarrow> (None, w1) | (Inr (Some e), w1) \<Rightarrow> f e w1) = (r, y)"
  obtain a x1 where l: "log_read c h x = (a, x1)" by (rule prod.exhaust)
  have x1: "calls_ok J x1" using log_read_ok[OF g conjunct1[OF x], of c h] read l by simp
  have "set (snd x) \<subseteq> set (snd x1)" using l by (auto simp: log_read_def split: prod.splits sum.splits)
  with mono x have Q1: "Q (set (snd x1))" by blast
  show "calls_ok J y \<and> Q (set (snd y))"
  proof (cases a)
    case (Inl e)
    with run l x1 Q1 show ?thesis by (auto split: if_splits)
  next
    case (Inr o')
    show ?thesis
    proof (cases o')
      case None
      with run l x1 Q1 Inr show ?thesis by simp
    next
      case (Some e)
      with run l Inr have "f e x1 = (r, y)" by simp
      moreover have "c (Some e) \<in> set (snd x1)" using log_read_result[OF l[unfolded Inr Some]] by simp
      ultimately show ?thesis using f[of x1 e] x1 Q1 by simp
    qed
  qed
qed

text \<open>
  The calls that the clean-up of a resource with explicit names may send: it lists and reads, and it
  releases entities whose owner list names the namespace and that neither the resource nor a sibling
  declares.
\<close>

definition stale_explicit_call ::
  "ACLConfig \<Rightarrow> string \<Rightarrow> string \<Rightarrow> declaredEntities option \<Rightarrow> aclCall set \<Rightarrow> aclCall \<Rightarrow> bool"
where
  "stale_explicit_call cfg name ns siblings L c \<longleftrightarrow>
     (\<exists>am rs. c = RulesListed am rs) \<or> (\<exists>rs. c = RolesListed rs) \<or> (\<exists>ps. c = PoliciesListed ps) \<or>
     (\<exists>n p. c = PolicyWasRead n p) \<or>
     (\<exists>am rs r. RulesListed am rs \<in> L \<and> r \<in> set rs \<and> ns \<in> owners_of (br_Description r) \<and>
        \<not> hasBindRule (Some (de_add cfg name ns True newDeclaredEntities)) (br_BindName r) \<and>
        \<not> hasBindRule siblings (br_BindName r) \<and> releases_rule ns r c) \<or>
     (\<exists>rs r. RolesListed rs \<in> L \<and> r \<in> set rs \<and> ns \<in> owners_of (role_Description r) \<and>
        \<not> hasRole (Some (de_add cfg name ns True newDeclaredEntities)) (role_Name r) \<and>
        \<not> hasRole siblings (role_Name r) \<and> releases_role ns r L c) \<or>
     (\<exists>ps e p. PoliciesListed ps \<in> L \<and> e \<in> set ps \<and> ns \<in> owners_of (ple_Description e) \<and>
        \<not> hasPolicy (Some (de_add cfg name ns True newDeclaredEntities)) (ple_Name e) \<and>
        \<not> hasPolicy siblings (ple_Name e) \<and> PolicyWasRead (ple_Name e) (Some p) \<in> L \<and> releases_policy ns p c)"

lemma grows_stale_explicit_call: "grows (stale_explicit_call cfg name ns siblings)"
  unfolding grows_def
proof (intro allI impI)
  fix L L' c
  assume L: "L \<subseteq> L'" and c: "stale_explicit_call cfg name ns siblings L c"
  have up: "\<And>a. a \<in> L \<Longrightarrow> a \<in> L'" "\<And>r. releases_role ns r L c \<Longrightarrow> releases_role ns r L' c"
    using L releases_role_grows by blast+
  show "stale_explicit_call cfg name ns siblings L' c"
    using c unfolding stale_explicit_call_def by (elim disjE exE conjE) (use up in blast)+
qed

lemma readPolicy_calls:
  assumes "grows J" and "\<And>L a. J L (PolicyWasRead n a)" and "\<And>L L'. Q L \<Longrightarrow> L \<subseteq> L' \<Longrightarrow> Q L'"
    and "\<And>e. keeps (\<lambda>x. calls_ok J x \<and> Q (set (snd x)) \<and> PolicyWasRead n (Some e) \<in> set (snd x)) (f e)"
  shows "keeps (\<lambda>x. calls_ok J x \<and> Q (set (snd x))) (\<lambda>x. case readPolicy (logged_settings E) n x of
    (Inl err, w1) \<Rightarrow> (Some err, w1) | (Inr None, w1) \<Rightarrow> (None, w1) | (Inr (Some e), w1) \<Rightarrow> f e w1)"
proof -
  have eq: "(case readPolicy (logged_settings E) n x of
      (Inl err, w1) \<Rightarrow> (Some err, w1) | (Inr None, w1) \<Rightarrow> (None, w1) | (Inr (Some e), w1) \<Rightarrow> f e w1) =
    (case log_read (PolicyWasRead n) (acl_PolicyReadByName (ac_client E) n) x of
      (Inl err, w1) \<Rightarrow> (if isErrNotFound err then (None, w1) else (Some err, w1))
    | (Inr None, w1) \<Rightarrow> (None, w1) | (Inr (Some e), w1) \<Rightarrow> f e w1)" for x
    by (auto simp: readPolicy_def logged_def split: prod.splits sum.splits option.splits)
  show ?thesis unfolding eq
    by (rule read_then_calls[OF assms(1-3)]) (use keeps_snd[OF assms(4)] in auto)
qed

lemma readRole_calls:
  assumes "grows J" and "\<And>L a. J L (RoleWasRead n a)" and "\<And>L L'. Q L \<Longrightarrow> L \<subseteq> L' \<Longrightarrow> Q L'"
    and "\<And>e. keeps (\<lambda>x. calls_ok J x \<and> Q (set (snd x)) \<and> RoleWasRead n (Some e) \<in> set (snd x)) (f e)"
  shows "keeps (\<lambda>x. calls_ok J x \<and> Q (set (snd x))) (\<lambda>x. case readRole (logged_settings E) n x of
    (Inl err, w1) \<Rightarrow> (Some err, w1) | (Inr None, w1) \<Rightarrow> (None, w1) | (Inr (Some e), w1) \<Rightarrow> f e w1)"
proof -
  have eq: "(case readRole (logged_settings E) n x of
      (Inl err, w1) \<Rightarrow> (Some err, w1) | (Inr None, w1) \<Rightarrow> (None, w1) | (Inr (Some e), w1) \<Rightarrow> f e w1) =
    (case log_read (RoleWasRead n) (acl_RoleReadByName (ac_client E) n) x of
      (Inl err, w1) \<Rightarrow> (if isErrNotFound err then (None, w1) else (Some err, w1))
    | (Inr None, w1) \<Rightarrow> (None, w1) | (Inr (Some e), w1) \<Rightarrow> f e w1)" for x
    by (auto simp: readRole_def logged_def split: prod.splits sum.splits option.splits)
  show ?thesis unfolding eq
    by (rule read_then_calls[OF assms(1-3)]) (use keeps_snd[OF assms(4)] in auto)
qed

lemma stale_explicit_rule:
  assumes "r \<in> set rs"
  shows "keeps (\<lambda>x. calls_ok (stale_explicit_call cfg name ns siblings) x \<and> RulesListed am rs \<in> set (snd x))
    (\<lambda>w. if \<not> hasOwner (br_Description r) ns \<or>
            hasBindRule (Some (de_add cfg name ns True newDeclaredEntities)) (br_BindName r) \<or>
            hasBindRule siblings (br_BindName r)
         then (None, w) else releaseBindingRule (logged_settings E) ns r w)"
proof (rule keeps_if[OF keeps_skip], rule releaseBindingRule_calls[OF grows_stale_explicit_call])
  fix L c
  assume "\<not> (\<not> hasOwner (br_Description r) ns \<or>
      hasBindRule (Some (de_add cfg name ns True newDeclaredEntities)) (br_BindName r) \<or> hasBindRule siblings (br_BindName r))"
    "RulesListed am rs \<in> L" "releases_rule ns r c"
  with assms show "stale_explicit_call cfg name ns siblings L c"
    unfolding stale_explicit_call_def hasOwner_iff by blast
qed auto

lemma stale_explicit_role:
  assumes "r \<in> set rs"
  shows "keeps (\<lambda>x. calls_ok (stale_explicit_call cfg name ns siblings) x \<and> RolesListed rs \<in> set (snd x))
    (\<lambda>w. if \<not> hasOwner (role_Description r) ns \<or>
            hasRole (Some (de_add cfg name ns True newDeclaredEntities)) (role_Name r) \<or>
            hasRole siblings (role_Name r)
         then (None, w) else releaseRole (logged_settings E) ns r w)"
proof (rule keeps_if[OF keeps_skip], rule releaseRole_calls[OF grows_stale_explicit_call])
  fix L c
  assume "\<not> (\<not> hasOwner (role_Description r) ns \<or>
      hasRole (Some (de_add cfg name ns True newDeclaredEntities)) (role_Name r) \<or> hasRole siblings (role_Name r))"
    "RolesListed rs \<in> L" "releases_role ns r L c"
  with assms show "stale_explicit_call cfg name ns siblings L c"
    unfolding stale_explicit_call_def hasOwner_iff by blast
qed auto

lemma stale_explicit_policy:
  assumes "e \<in> set ps"
  shows "keeps (\<lambda>x. calls_ok (stale_explicit_call cfg name ns siblings) x \<and> PoliciesListed ps \<in> set (snd x))
    (releaseStaleExplicitPolicy (logged_settings E) ns (de_add cfg name ns True newDeclaredEntities) siblings e)"
  unfolding releaseStaleExplicitPolicy_def
proof (rule keeps_if[OF keeps_skip], rule readPolicy_calls[OF grows_stale_explicit_call])
  fix p
  assume stale: "\<not> (\<not> hasOwner (ple_Description e) ns \<or>
      hasPolicy (Some (de_add cfg name ns True newDeclaredEntities)) (ple_Name e) \<or> hasPolicy siblings (ple_Name e))"
  show "keeps (\<lambda>x. calls_ok (stale_explicit_call cfg name ns siblings) x \<and> PoliciesListed ps \<in> set (snd x) \<and>
      PolicyWasRead (ple_Name e) (Some p) \<in> set (snd x)) (releasePolicy (logged_settings E) ns p)"
  proof (rule releasePolicy_calls[where Q = "\<lambda>L. PoliciesListed ps \<in> L \<and> PolicyWasRead (ple_Name e) (Some p) \<in> L",
        OF grows_stale_explicit_call])
    fix L c
    assume "PoliciesListed ps \<in> L \<and> PolicyWasRead (ple_Name e) (Some p) \<in> L" "releases_policy ns p c"
    with assms stale show "stale_explicit_call cfg name ns siblings L c"
      unfolding stale_explicit_call_def hasOwner_iff by blast
  qed auto
qed (auto simp: stale_explicit_call_def)

text \<open>
  C21. The clean-up of a resource with explicit names releases only shared entities whose owner list names
  the namespace of the resource and that neither the resource nor another resource of the namespace
  declares. An entity with other owners is only updated, and its description then names exactly the
  other owners; an entity is deleted, and the tokens of a role revoked, only when it has no other owner.
\<close>

theorem stale_explicit_cleanup_calls:
  "calls_ok (stale_explicit_call cfg name ns siblings)
     (snd (removeStaleEntities (logged_settings E) cfg name ns True siblings (w, [])))"
proof -
  let ?J = "stale_explicit_call cfg name ns siblings"
  let ?d = "de_add cfg name ns True newDeclaredEntities"
  have pol: "keeps (calls_ok ?J) (for_each_policy (logged_settings E)
      (releaseStaleExplicitPolicy (logged_settings E) ns ?d siblings))"
    by (rule for_each_policy_calls[OF grows_stale_explicit_call])
      (auto simp: stale_explicit_call_def intro: stale_explicit_policy)
  have role: "keeps (calls_ok ?J) (for_each_role (logged_settings E) (\<lambda>er w.
        if \<not> hasOwner (role_Description er) ns \<or> hasRole (Some ?d) (role_Name er) \<or> hasRole siblings (role_Name er)
        then (None, w) else releaseRole (logged_settings E) ns er w))"
    by (rule for_each_role_calls[OF grows_stale_explicit_call])
      (simp add: stale_explicit_call_def, erule stale_explicit_role)
  have rule: "keeps (calls_ok ?J) (for_each_rule (logged_settings E) cfg (\<lambda>ebr w.
        if \<not> hasOwner (br_Description ebr) ns \<or> hasBindRule (Some ?d) (br_BindName ebr) \<or>
           hasBindRule siblings (br_BindName ebr)
        then (None, w) else releaseBindingRule (logged_settings E) ns ebr w))"
    by (rule for_each_rule_calls[OF grows_stale_explicit_call])
      (simp add: stale_explicit_call_def, erule stale_explicit_rule)
  have "keeps (calls_ok ?J) (\<lambda>w. and_then (for_each_role (logged_settings E) (\<lambda>er w.
        if \<not> hasOwner (role_Description er) ns \<or> hasRole (Some ?d) (role_Name er) \<or> hasRole siblings (role_Name er)
        then (None, w) else releaseRole (logged_settings E) ns er w) w)
      (for_each_policy (logged_settings E) (releaseStaleExplicitPolicy (logged_settings E) ns ?d siblings)))"
    unfolding keeps_def using calls_ok_and_then[OF _ pol] keeps_snd[OF role] by blast
  then show ?thesis
    unfolding removeStaleEntities_def removeStaleExplicitEntities_def if_True Let_def
    by (rule calls_ok_and_then[rotated]) (rule keeps_snd[OF rule calls_ok_start])
qed

subsection \<open>Legacy auth methods\<close>

text \<open>
  A rule that the migration may delete: a rule of type role under a legacy method other than the
  current one, with the prefix of the resource, neither declared for that method nor failed.
\<close>

definition legacy_rule ::
  "'w aclSettings \<Rightarrow> ACLConfig \<Rightarrow> string \<Rightarrow> string \<Rightarrow> bool \<Rightarrow> string set \<Rightarrow> string \<Rightarrow> ACLBindingRule \<Rightarrow> bool"
where
  "legacy_rule E cfg name ns keepDeclared failed am r \<longleftrightarrow>
     am \<in> set (ac_legacyAuthMethods E) \<and> am \<noteq> ac_authMethod E \<and> br_BindType r = ''role'' \<and>
     strings_HasPrefix (br_BindName r) (entityPrefix name ns) \<and> br_BindName r \<notin> failed \<and>
     (keepDeclared \<longrightarrow> (\<forall>b \<in> set (cfg_BindRules cfg). bra_AuthMethod b = am \<longrightarrow> bra_BindName b \<noteq> [] \<longrightarrow>
        br_BindName r \<notin> {convertEntityName (bra_BindName b) name ns, bra_BindName b}))"

lemma legacy_calls:
  assumes g: "grows J" and read: "\<And>L n m. J L (MethodWasRead n m)" and list: "\<And>L am rs. J L (RulesListed am rs)"
    and del: "\<And>L am rs r. RulesListed am rs \<in> L \<Longrightarrow> r \<in> set rs \<Longrightarrow>
      legacy_rule E cfg name ns keepDeclared failed am r \<Longrightarrow> J L (RuleDeleted (br_ID r))"
  shows "keeps (calls_ok J) (removeLegacyBindingRules (logged_settings E) cfg name ns keepDeclared failed)"
  unfolding removeLegacyBindingRules_def
proof (rule keeps_for_each)
  fix am
  assume am: "am \<in> set (ac_legacyAuthMethods (logged_settings E))"
  let ?f = "removeLegacyRule (logged_settings E) (entityPrefix name ns) (legacy_declared cfg name ns keepDeclared am) failed"
  have rule: "keeps (\<lambda>x. calls_ok J x \<and> RulesListed am rs \<in> set (snd x)) (?f r)"
    if r: "r \<in> set rs" and neq: "am \<noteq> ac_authMethod E" for rs r
    unfolding removeLegacyRule_def
  proof (intro keeps_if keeps_skip keeps_err_of)
    assume "\<not> (br_BindType r \<noteq> ''role'' \<or> \<not> strings_HasPrefix (br_BindName r) (entityPrefix name ns))"
      "\<not> (br_BindName r \<in> legacy_declared cfg name ns keepDeclared am \<or> br_BindName r \<in> failed)"
    then have "legacy_rule E cfg name ns keepDeclared failed am r"
      using am neq by (auto simp: legacy_rule_def legacy_declared_def)
    then have "J (insert (RuleDeleted (br_ID r)) L) (RuleDeleted (br_ID r))" if "RulesListed am rs \<in> L" for L
      using del[of am rs "insert (RuleDeleted (br_ID r)) L" r] r that by simp
    then show "keeps (\<lambda>x. calls_ok J x \<and> RulesListed am rs \<in> set (snd x))
        (acl_BindingRuleDelete (ac_client (logged_settings E)) (br_ID r))"
      by (simp add: logged_def) (rule log_write_keeps[OF g], auto)
  qed
  have inner: "keeps (calls_ok J) (\<lambda>w. case log_read (RulesListed am) (acl_BindingRuleList (ac_client E) am) w of
      (Inl err, w1) \<Rightarrow> (Some err, w1) | (Inr rs, w1) \<Rightarrow> for_each ?f rs w1)" if "am \<noteq> ac_authMethod E"
    by (rule listed_calls[OF g]) (rule list, rule rule, assumption, rule that)
  have "keeps (\<lambda>x. calls_ok J x \<and> True) (\<lambda>x. case log_read (MethodWasRead am) (acl_AuthMethodRead (ac_client E) am) x of
      (Inl err, w1) \<Rightarrow> (if isErrNotFound err then (None, w1) else (Some err, w1))
    | (Inr None, w1) \<Rightarrow> (None, w1)
    | (Inr (Some m), w1) \<Rightarrow> (case log_read (RulesListed am) (acl_BindingRuleList (ac_client E) am) w1 of
        (Inl err, w1) \<Rightarrow> (Some err, w1) | (Inr rs, w1) \<Rightarrow> for_each ?f rs w1))" if neq: "am \<noteq> ac_authMethod E"
    by (rule read_then_calls[where Q = "\<lambda>_. True", OF g read]) (use keeps_snd[OF inner[OF neq]] in auto)
  moreover have "removeLegacyMethod (logged_settings E) cfg name ns keepDeclared failed am =
      (\<lambda>x. if am = ac_authMethod E then (None, x)
        else case log_read (MethodWasRead am) (acl_AuthMethodRead (ac_client E) am) x of
          (Inl err, w1) \<Rightarrow> (if isErrNotFound err then (None, w1) else (Some err, w1))
        | (Inr None, w1) \<Rightarrow> (None, w1)
        | (Inr (Some m), w1) \<Rightarrow> (case log_read (RulesListed am) (acl_BindingRuleList (ac_client E) am) w1 of
            (Inl err, w1) \<Rightarrow> (Some err, w1) | (Inr rs, w1) \<Rightarrow> for_each ?f rs w1))"
    by (rule ext) (simp add: removeLegacyMethod_def logged_def split: prod.splits sum.splits)
  ultimately show "keeps (calls_ok J) (removeLegacyMethod (logged_settings E) cfg name ns keepDeclared failed am)"
    by (simp only: simp_thms) (rule keeps_if[OF keeps_skip])
qed

text \<open>The calls of the migration.\<close>

fun legacy_call ::
  "'w aclSettings \<Rightarrow> ACLConfig \<Rightarrow> string \<Rightarrow> string \<Rightarrow> bool \<Rightarrow> string set \<Rightarrow> aclCall set \<Rightarrow> aclCall \<Rightarrow> bool"
where
  "legacy_call E cfg name ns keepDeclared failed L (RuleDeleted i) =
     (\<exists>am rs r. RulesListed am rs \<in> L \<and> r \<in> set rs \<and> br_ID r = i \<and>
        legacy_rule E cfg name ns keepDeclared failed am r)"
| "legacy_call E cfg name ns keepDeclared failed L (MethodWasRead n m) = True"
| "legacy_call E cfg name ns keepDeclared failed L (RulesListed am rs) = True"
| "legacy_call E cfg name ns keepDeclared failed L c = False"

lemma grows_legacy_call: "grows (legacy_call E cfg name ns keepDeclared failed)"
  unfolding grows_def
proof (intro allI impI)
  fix L L' c
  assume "L \<subseteq> L'" and "legacy_call E cfg name ns keepDeclared failed L c"
  then show "legacy_call E cfg name ns keepDeclared failed L' c" by (cases c) (simp_all, blast)
qed

text \<open>
  C24. The migration from legacy auth methods deletes only rules that it listed under a legacy method other
  than the current one, of type role, with the prefix of the resource, and keeps every rule that the
  configuration declares for that method and every rule whose replacement was not written.
\<close>

theorem legacy_migration_calls:
  "calls_ok (legacy_call E cfg name ns keepDeclared failed)
     (snd (removeLegacyBindingRules (logged_settings E) cfg name ns keepDeclared failed (w, [])))"
  by (rule keeps_snd[OF legacy_calls calls_ok_start]) (auto intro: grows_legacy_call)

subsection \<open>Deletion of a resource\<close>

text \<open>
  The calls that the deletion of a resource may send: reads and lists, releases of entities that the
  resource declares and no sibling declares, and the deletion of its rules under legacy methods.
\<close>

definition delete_call ::
  "'w aclSettings \<Rightarrow> ACLConfig \<Rightarrow> string \<Rightarrow> string \<Rightarrow> bool \<Rightarrow> declaredEntities option \<Rightarrow> aclCall set \<Rightarrow> aclCall \<Rightarrow> bool"
where
  "delete_call E cfg name ns explicitName siblings L c \<longleftrightarrow>
     (\<exists>am rs. c = RulesListed am rs) \<or> (\<exists>n m. c = MethodWasRead n m) \<or> (\<exists>n r. c = RoleWasRead n r) \<or>
     (\<exists>n p. c = PolicyWasRead n p) \<or>
     (\<exists>am rs r. RulesListed am rs \<in> L \<and> r \<in> set rs \<and>
        hasBindRule (Some (de_add cfg name ns explicitName newDeclaredEntities)) (br_BindName r) \<and>
        \<not> hasBindRule siblings (br_BindName r) \<and> releases_rule ns r c) \<or>
     (\<exists>am rs r. RulesListed am rs \<in> L \<and> r \<in> set rs \<and> legacy_rule E cfg name ns False {} am r \<and> c = RuleDeleted (br_ID r)) \<or>
     (\<exists>n r. RoleWasRead n (Some r) \<in> L \<and> hasRole (Some (de_add cfg name ns explicitName newDeclaredEntities)) n \<and>
        \<not> hasRole siblings n \<and> releases_role ns r L c) \<or>
     (\<exists>n p. PolicyWasRead n (Some p) \<in> L \<and> hasPolicy (Some (de_add cfg name ns explicitName newDeclaredEntities)) n \<and>
        \<not> hasPolicy siblings n \<and> releases_policy ns p c)"

lemma grows_delete_call: "grows (delete_call E cfg name ns explicitName siblings)"
  unfolding grows_def
proof (intro allI impI)
  fix L L' c
  assume L: "L \<subseteq> L'" and c: "delete_call E cfg name ns explicitName siblings L c"
  have up: "\<And>a. a \<in> L \<Longrightarrow> a \<in> L'" "\<And>r. releases_role ns r L c \<Longrightarrow> releases_role ns r L' c"
    using L releases_role_grows by blast+
  show "delete_call E cfg name ns explicitName siblings L' c"
    using c unfolding delete_call_def by (elim disjE exE conjE) (use up in blast)+
qed

lemma deleteBindingRules_calls:
  "keeps (calls_ok (delete_call E cfg name ns explicitName siblings))
     (deleteBindingRules (logged_settings E) cfg name ns explicitName siblings)"
  unfolding deleteBindingRules_def Let_def
proof (rule for_each_rule_calls[OF grows_delete_call])
  fix am rs r
  assume r: "r \<in> set (rs :: ACLBindingRule list)"
  let ?d = "de_add cfg name ns explicitName newDeclaredEntities"
  show "keeps (\<lambda>x. calls_ok (delete_call E cfg name ns explicitName siblings) x \<and> RulesListed am rs \<in> set (snd x))
      (\<lambda>w. if \<not> hasBindRule (Some ?d) (br_BindName r) then (None, w)
           else if hasBindRule siblings (br_BindName r) then (None, w)
           else releaseBindingRule (logged_settings E) ns r w)"
  proof (intro keeps_if keeps_skip releaseBindingRule_calls[OF grows_delete_call])
    fix L c
    assume "\<not> \<not> hasBindRule (Some ?d) (br_BindName r)" "\<not> hasBindRule siblings (br_BindName r)"
      "RulesListed am rs \<in> L" "releases_rule ns r c"
    with r show "delete_call E cfg name ns explicitName siblings L c" unfolding delete_call_def by blast
  qed auto
qed (simp add: delete_call_def)

lemma deleteRole_calls:
  assumes "ra \<in> set (cfg_Roles cfg)"
  shows "keeps (calls_ok (delete_call E cfg name ns explicitName siblings))
    (deleteRole (logged_settings E) name ns explicitName siblings ra)"
proof -
  let ?J = "delete_call E cfg name ns explicitName siblings"
  let ?n = "resolveEntityName (ra_Name ra) name ns explicitName"
  have "keeps (\<lambda>x. calls_ok ?J x \<and> True) (\<lambda>x. case readRole (logged_settings E) ?n x of
      (Inl err, w1) \<Rightarrow> (Some err, w1) | (Inr None, w1) \<Rightarrow> (None, w1)
    | (Inr (Some r), w1) \<Rightarrow> releaseRole (logged_settings E) ns r w1)"
    if ne: "ra_Name ra \<noteq> []" and sib: "\<not> hasRole siblings ?n"
  proof (rule readRole_calls[where Q = "\<lambda>_. True", OF grows_delete_call])
    fix r
    have "keeps (\<lambda>x. calls_ok ?J x \<and> RoleWasRead ?n (Some r) \<in> set (snd x)) (releaseRole (logged_settings E) ns r)"
    proof (rule releaseRole_calls[OF grows_delete_call])
      fix L c
      assume "RoleWasRead ?n (Some r) \<in> L" "releases_role ns r L c"
      moreover have "hasRole (Some (de_add cfg name ns explicitName newDeclaredEntities)) ?n"
        using assms ne by (auto simp: hasRole_def de_add_def newDeclaredEntities_def)
      ultimately show "?J L c" using sib unfolding delete_call_def by blast
    qed auto
    then show "keeps (\<lambda>x. calls_ok ?J x \<and> True \<and> RoleWasRead ?n (Some r) \<in> set (snd x)) (releaseRole (logged_settings E) ns r)"
      by simp
  qed (auto simp: delete_call_def)
  then show ?thesis
    unfolding deleteRole_def Let_def by (intro keeps_if keeps_skip) simp_all
qed

lemma deletePolicy_calls:
  assumes "pd \<in> set (cfg_Policies cfg)"
  shows "keeps (calls_ok (delete_call E cfg name ns explicitName siblings))
    (deletePolicy (logged_settings E) name ns explicitName siblings pd)"
proof -
  let ?J = "delete_call E cfg name ns explicitName siblings"
  let ?n = "resolveEntityName (pol_Name pd) name ns explicitName"
  have "keeps (\<lambda>x. calls_ok ?J x \<and> True) (\<lambda>x. case readPolicy (logged_settings E) ?n x of
      (Inl err, w1) \<Rightarrow> (Some err, w1) | (Inr None, w1) \<Rightarrow> (None, w1)
    | (Inr (Some p), w1) \<Rightarrow> releasePolicy (logged_settings E) ns p w1)"
    if ne: "pol_Name pd \<noteq> []" and sib: "\<not> hasPolicy siblings ?n"
  proof (rule readPolicy_calls[where Q = "\<lambda>_. True", OF grows_delete_call])
    fix p
    have "keeps (\<lambda>x. calls_ok ?J x \<and> PolicyWasRead ?n (Some p) \<in> set (snd x)) (releasePolicy (logged_settings E) ns p)"
    proof (rule releasePolicy_calls[OF grows_delete_call])
      fix L c
      assume "PolicyWasRead ?n (Some p) \<in> L" "releases_policy ns p c"
      moreover have "hasPolicy (Some (de_add cfg name ns explicitName newDeclaredEntities)) ?n"
        using assms ne by (auto simp: hasPolicy_def de_add_def newDeclaredEntities_def)
      ultimately show "?J L c" using sib unfolding delete_call_def by blast
    qed auto
    then show "keeps (\<lambda>x. calls_ok ?J x \<and> True \<and> PolicyWasRead ?n (Some p) \<in> set (snd x)) (releasePolicy (logged_settings E) ns p)"
      by simp
  qed (auto simp: delete_call_def)
  then show ?thesis
    unfolding deletePolicy_def Let_def by (intro keeps_if keeps_skip) simp_all
qed

text \<open>
  C22. Deleting a resource releases only entities that its configuration declares and that no other resource
  of the namespace declares (none at all when the configuration of a sibling can not be parsed), and its
  rules under legacy methods; an entity with other owners is updated to exactly those owners, one
  without is deleted.
\<close>

theorem delete_entities_calls:
  "calls_ok (delete_call E cfg name ns explicitName siblings)
     (snd (deleteAclEntities (logged_settings E) cfg name ns explicitName siblings (w, [])))"
proof -
  let ?J = "delete_call E cfg name ns explicitName siblings"
  have roles: "keeps (calls_ok ?J) (deleteRoles (logged_settings E) cfg name ns explicitName siblings)"
    unfolding deleteRoles_def by (rule keeps_for_each) (rule deleteRole_calls)
  have pols: "keeps (calls_ok ?J) (deletePolicies (logged_settings E) cfg name ns explicitName siblings)"
    unfolding deletePolicies_def by (rule keeps_for_each) (rule deletePolicy_calls)
  have legacy: "keeps (calls_ok ?J) (removeLegacyBindingRules (logged_settings E) cfg name ns False {})"
    by (rule legacy_calls[OF grows_delete_call]) (unfold delete_call_def, blast+)
  have r: "keeps (calls_ok ?J) (\<lambda>w. and_then (deleteRoles (logged_settings E) cfg name ns explicitName siblings w)
      (deletePolicies (logged_settings E) cfg name ns explicitName siblings))"
    unfolding keeps_def using calls_ok_and_then[OF _ pols] keeps_snd[OF roles] by blast
  have l: "keeps (calls_ok ?J) (\<lambda>w. and_then (removeLegacyBindingRules (logged_settings E) cfg name ns False {} w)
      (\<lambda>w. and_then (deleteRoles (logged_settings E) cfg name ns explicitName siblings w)
      (deletePolicies (logged_settings E) cfg name ns explicitName siblings)))"
    unfolding keeps_def using calls_ok_and_then[OF _ r] keeps_snd[OF legacy] by blast
  show ?thesis
    unfolding deleteAclEntities_def
    by (rule calls_ok_and_then[OF keeps_snd[OF deleteBindingRules_calls calls_ok_start] l])
qed

lemma fold_TokenDeleted:
  "snd (fold (\<lambda>t w. snd (log_write (TokenDeleted t) (f t) w)) ts x) = snd x @ map TokenDeleted ts"
  by (induction ts arbitrary: x) simp_all

text \<open>
  A role is deleted only after its tokens: when the last owner releases a role and Consul lists its
  tokens, the calls are the list, the revocation of every listed token and then the deletion of the role.
\<close>

theorem release_role_revokes_tokens:
  assumes "owners_of (role_Description role) \<subseteq> {ns}"
    and "acl_TokenListFiltered (ac_client E) (role_ID role) w = (Inr tokens, w1)"
  shows "snd (snd (releaseRole (logged_settings E) ns role (w, log))) =
    log @ TokensListed (role_ID role) tokens # map TokenDeleted tokens @ [RoleDeleted (role_ID role)]"
proof -
  have "snd (withOwnerRemoved (role_Description role) ns)" using assms(1) by (simp add: withOwnerRemoved_last)
  moreover have "snd (revokeRoleTokens (logged_settings E) role (w, log)) =
      log @ TokensListed (role_ID role) tokens # map TokenDeleted tokens"
    using assms(2) by (simp add: revokeRoleTokens_def logged_def log_read_def fold_TokenDeleted)
  ultimately show ?thesis
    by (simp add: releaseRole_def logged_def split_beta Let_def)
qed

theorem release_role_revokes_tokens_witness:
  "snd (snd (releaseRole (logged_settings (mem_settings ''m2m'')) ''ns1''
      \<lparr>role_ID = ''r1'', role_Name = ''reader'', role_Description = ''d [consul-acl-owners: ns1]'', role_Policies = []\<rparr>
      (mem_world\<lparr>aw_tokens := [(''t1'', ''r1''), (''t2'', ''r2'')]\<rparr>, []))) =
    [TokensListed ''r1'' [''t1''], TokenDeleted ''t1'', RoleDeleted ''r1'']"
proof -
  let ?role = "\<lparr>role_ID = ''r1'', role_Name = ''reader'', role_Description = ''d [consul-acl-owners: ns1]'', role_Policies = []\<rparr>"
  let ?w = "mem_world\<lparr>aw_tokens := [(''t1'', ''r1''), (''t2'', ''r2'')]\<rparr>"
  have "parseOwners ''d [consul-acl-owners: ns1]'' = (''d'', [''ns1''])" by code_simp
  then have "owners_of (role_Description ?role) \<subseteq> {''ns1''}" by simp
  moreover have "acl_TokenListFiltered (ac_client (mem_settings ''m2m'')) (role_ID ?role) ?w = (Inr [''t1''], ?w)"
    by (simp add: mem_settings_def mem_acl_def)
  ultimately show ?thesis
    using release_role_revokes_tokens[of ?role "''ns1''" "mem_settings ''m2m''" ?w "[''t1'']" ?w "[]"] by simp
qed

end
