(* ===== verification/ACL_Apply.thy ===== *)
theory ACL_Apply
  imports ACL_Safety
begin

text \<open>
  Applying the configuration of a ConsulACL resource (\<^verbatim>\<open>controllers/consulacl_controller.go\<close>, lines 891-1206): policies, roles
  and binding rules are created or updated one by one, their owners are kept, each outcome goes to a
  status map, and the first transient error is returned.
\<close>

subsection \<open>Transient errors\<close>

text \<open>\<^verbatim>\<open>errors.As\<close> for a network error, for the status error of Consul and for \<^verbatim>\<open>retryableError\<close>.\<close>

fun as_net :: "goerror \<Rightarrow> bool" where
  "as_net (NetError s) = True"
| "as_net (WrapError ctx e) = as_net e"
| "as_net (RetryableError e) = as_net e"
| "as_net _ = False"

fun as_status :: "goerror \<Rightarrow> int option" where
  "as_status (StatusError code s) = Some code"
| "as_status (WrapError ctx e) = as_status e"
| "as_status (RetryableError e) = as_status e"
| "as_status _ = None"

fun as_retryable :: "goerror \<Rightarrow> bool" where
  "as_retryable (RetryableError e) = True"
| "as_retryable (WrapError ctx e) = as_retryable e"
| "as_retryable _ = False"

definition isRetryable :: "goerror option \<Rightarrow> bool" where
  "isRetryable err =
     (case err of
        None \<Rightarrow> False
      | Some e \<Rightarrow>
          if as_net e then True
          else case as_status e of
                 Some code \<Rightarrow> code \<ge> 500 \<or> code = 429
               | None \<Rightarrow> as_retryable e)"

definition firstRetryableError :: "goerror option \<Rightarrow> goerror \<Rightarrow> goerror option" where
  "firstRetryableError current err =
     (case current of
        Some c \<Rightarrow> Some c
      | None \<Rightarrow> if isRetryable (Some err) then Some err else None)"

subsection \<open>Policies\<close>

definition mergeOwnerIntoPolicy :: "ACLPolicy \<Rightarrow> ACLPolicy option \<Rightarrow> string \<Rightarrow> ACLPolicy" where
  "mergeOwnerIntoPolicy demand existing namespace =
     (let existingDescription = (case existing of None \<Rightarrow> [] | Some e \<Rightarrow> pol_Description e)
      in demand\<lparr>pol_Description := withOwnerAdded (pol_Description demand) existingDescription namespace\<rparr>)"

definition status_error :: "goerror \<Rightarrow> string" where
  "status_error err = ''error: '' @ Error err"

text \<open>
  The state of the loop over the policies is the status map, the IDs of the processed policies and the
  first transient error. First the write of one policy, once it is known whether it exists.
\<close>

definition writePolicy ::
  "'w aclSettings \<Rightarrow> string \<Rightarrow> ACLPolicy \<Rightarrow> ACLPolicy option \<Rightarrow>
   StatusHolder \<times> (string \<rightharpoonup> string) \<times> goerror option \<Rightarrow> 'w \<Rightarrow>
   (StatusHolder \<times> (string \<rightharpoonup> string) \<times> goerror option) \<times> 'w"
where
  "writePolicy E namespace demand existing acc w =
     (case acc of (statusMap, processed, retryErr) \<Rightarrow>
      let demand = mergeOwnerIntoPolicy demand existing namespace;
          action = (if pol_ID demand = [] then ''create'' else ''update'')
      in case (if pol_ID demand = [] then acl_PolicyCreate (ac_client E) demand w
               else acl_PolicyUpdate (ac_client E) demand w) of
           (Inl err, w1) \<Rightarrow>
             ((AList.update (pol_Name demand) (status_error err) statusMap, processed, firstRetryableError retryErr err), w1)
         | (Inr resPolicy, w1) \<Rightarrow>
             ((AList.update (pol_Name demand) (action @ ''d'') statusMap,
               processed(pol_Name demand \<mapsto> pol_ID resPolicy), retryErr), w1))"

definition processPolicy ::
  "'w aclSettings \<Rightarrow> string \<Rightarrow> string \<Rightarrow> bool \<Rightarrow> ACLPolicy \<Rightarrow>
   StatusHolder \<times> (string \<rightharpoonup> string) \<times> goerror option \<Rightarrow> 'w \<Rightarrow>
   (StatusHolder \<times> (string \<rightharpoonup> string) \<times> goerror option) \<times> 'w"
where
  "processPolicy E name namespace explicitName policyDemand acc w =
     (case acc of (statusMap, processed, retryErr) \<Rightarrow>
      if pol_Name policyDemand = []
      then ((AList.update innerErrorHandlingItem ''Some policies have not got a name'' statusMap, processed, retryErr), w)
      else
        let demand = (if \<not> explicitName
              then policyDemand\<lparr>pol_Name := convertEntityName (pol_Name policyDemand) name namespace\<rparr>
              else policyDemand)
        in if pol_ID demand = [] then
             (case readPolicy E (pol_Name demand) w of
                (Inl err, w1) \<Rightarrow>
                  ((AList.update (pol_Name demand) (status_error err) statusMap, processed,
                    firstRetryableError retryErr err), w1)
              | (Inr None, w1) \<Rightarrow> writePolicy E namespace demand None acc w1
              | (Inr (Some existing), w1) \<Rightarrow>
                  writePolicy E namespace (demand\<lparr>pol_ID := pol_ID existing\<rparr>) (Some existing) acc w1)
           else writePolicy E namespace demand None acc w)"

text \<open>The same with the resolved name, for a policy that has one.\<close>

lemma processPolicy_named:
  assumes "pol_Name p \<noteq> []" and "d = p\<lparr>pol_Name := resolveEntityName (pol_Name p) name ns b\<rparr>"
  shows "processPolicy E name ns b p (st, pr, er) w =
    (if pol_ID p = [] then
       (case readPolicy E (pol_Name d) w of
          (Inl err, w1) \<Rightarrow> ((AList.update (pol_Name d) (status_error err) st, pr, firstRetryableError er err), w1)
        | (Inr x, w1) \<Rightarrow> writePolicy E ns (case x of None \<Rightarrow> d | Some q \<Rightarrow> d\<lparr>pol_ID := pol_ID q\<rparr>) x (st, pr, er) w1)
     else writePolicy E ns d None (st, pr, er) w)"
proof -
  have "(if \<not> b then p\<lparr>pol_Name := convertEntityName (pol_Name p) name ns\<rparr> else p) = d"
    by (simp add: assms(2) resolveEntityName_def)
  moreover have "pol_ID d = pol_ID p" by (simp add: assms(2))
  ultimately show ?thesis
    using assms(1) by (auto simp: processPolicy_def Let_def split: prod.split sum.split option.split)
qed

text \<open>A loop that goes through all elements and threads an accumulator and the world.\<close>

fun loop_all :: "('a \<Rightarrow> 'acc \<Rightarrow> 'w \<Rightarrow> 'acc \<times> 'w) \<Rightarrow> 'a list \<Rightarrow> 'acc \<Rightarrow> 'w \<Rightarrow> 'acc \<times> 'w" where
  "loop_all f [] acc w = (acc, w)"
| "loop_all f (x # xs) acc w = (case f x acc w of (acc1, w1) \<Rightarrow> loop_all f xs acc1 w1)"

definition processPolicies ::
  "'w aclSettings \<Rightarrow> ACLPolicy list \<Rightarrow> string \<Rightarrow> string \<Rightarrow> bool \<Rightarrow> 'w \<Rightarrow>
   (StatusHolder \<times> (string \<rightharpoonup> string) \<times> goerror option) \<times> 'w"
where
  "processPolicies E policies name namespace explicitName w =
     loop_all (processPolicy E name namespace explicitName) policies ([], Map.empty, None) w"

subsection \<open>Roles\<close>

text \<open>The resolved name and ID of one policy of a role.\<close>

definition resolvePolicyLink ::
  "'w aclSettings \<Rightarrow> (string \<rightharpoonup> string) \<Rightarrow> string \<Rightarrow> string \<Rightarrow> bool \<Rightarrow> string \<Rightarrow> 'w \<Rightarrow> (string \<times> string) \<times> 'w"
where
  "resolvePolicyLink E policies name namespace explicitName policyName w =
     (if explicitName then
        (case policies policyName of
           Some i \<Rightarrow> ((policyName, i), w)
         | None \<Rightarrow>
             (case readPolicy E policyName w of
                (Inr (Some p), w1) \<Rightarrow> ((policyName, pol_ID p), w1)
              | (_, w1) \<Rightarrow> ((policyName, []), w1)))
      else let resolvedName = convertEntityName policyName name namespace
           in ((resolvedName, case policies resolvedName of None \<Rightarrow> [] | Some i \<Rightarrow> i), w))"

fun getPolicyLinks_from ::
  "'w aclSettings \<Rightarrow> (string \<rightharpoonup> string) \<Rightarrow> string \<Rightarrow> string \<Rightarrow> bool \<Rightarrow> string list \<Rightarrow> 'w \<Rightarrow> ACLRolePolicyLink list \<times> 'w"
where
  "getPolicyLinks_from E policies name namespace explicitName [] w = ([], w)"
| "getPolicyLinks_from E policies name namespace explicitName (policyName # rest) w =
     (case resolvePolicyLink E policies name namespace explicitName policyName w of
        ((resolvedName, resolvedID), w1) \<Rightarrow>
          (case getPolicyLinks_from E policies name namespace explicitName rest w1 of
             (links, w2) \<Rightarrow>
               ((if resolvedID \<noteq> [] then \<lparr>link_ID = resolvedID, link_Name = resolvedName\<rparr> # links else links), w2)))"

definition getPolicyLinks ::
  "'w aclSettings \<Rightarrow> ACLRoleAdapter \<Rightarrow> (string \<rightharpoonup> string) \<Rightarrow> string \<Rightarrow> string \<Rightarrow> bool \<Rightarrow> 'w \<Rightarrow> ACLRolePolicyLink list \<times> 'w"
where
  "getPolicyLinks E roleAdapter policies name namespace explicitName w =
     getPolicyLinks_from E policies name namespace explicitName (ra_PolicyNames roleAdapter) w"

definition convertRoleAdapterToRole ::
  "'w aclSettings \<Rightarrow> ACLRoleAdapter \<Rightarrow> (string \<rightharpoonup> string) \<Rightarrow> string \<Rightarrow> string \<Rightarrow> bool \<Rightarrow> 'w \<Rightarrow> ACLRole \<times> 'w"
where
  "convertRoleAdapterToRole E roleAdapter policies name namespace explicitName w =
     (case getPolicyLinks E roleAdapter policies name namespace explicitName w of
        (links, w1) \<Rightarrow>
          (\<lparr>role_ID = ra_ID roleAdapter,
            role_Name = (if explicitName then ra_Name roleAdapter
                         else convertEntityName (ra_Name roleAdapter) name namespace),
            role_Description = ra_Description roleAdapter, role_Policies = links\<rparr>, w1))"

definition writeRole ::
  "'w aclSettings \<Rightarrow> string \<Rightarrow> ACLRole \<Rightarrow> ACLRole option \<Rightarrow> StatusHolder \<times> goerror option \<Rightarrow> 'w \<Rightarrow>
   (StatusHolder \<times> goerror option) \<times> 'w"
where
  "writeRole E namespace role existingRole acc w =
     (case acc of (statusMap, retryErr) \<Rightarrow>
      let existingDescription = (case existingRole of None \<Rightarrow> [] | Some e \<Rightarrow> role_Description e);
          role = role\<lparr>role_Description := withOwnerAdded (role_Description role) existingDescription namespace\<rparr>;
          action = (if role_ID role = [] then ''create'' else ''update'')
      in case (if role_ID role = [] then acl_RoleCreate (ac_client E) role w
               else acl_RoleUpdate (ac_client E) role w) of
           (Inl err, w1) \<Rightarrow>
             ((AList.update (role_Name role) (status_error err) statusMap, firstRetryableError retryErr err), w1)
         | (Inr _, w1) \<Rightarrow> ((AList.update (role_Name role) (action @ ''d'') statusMap, retryErr), w1))"

definition processRole ::
  "'w aclSettings \<Rightarrow> (string \<rightharpoonup> string) \<Rightarrow> string \<Rightarrow> string \<Rightarrow> bool \<Rightarrow> ACLRoleAdapter \<Rightarrow>
   StatusHolder \<times> goerror option \<Rightarrow> 'w \<Rightarrow> (StatusHolder \<times> goerror option) \<times> 'w"
where
  "processRole E policies name namespace explicitName roleAdapter acc w =
     (case acc of (statusMap, retryErr) \<Rightarrow>
      if ra_Name roleAdapter = []
      then ((AList.update innerErrorHandlingItem ''Some roles have not got a name'' statusMap, retryErr), w)
      else case convertRoleAdapterToRole E roleAdapter policies name namespace explicitName w of
        (role, w1) \<Rightarrow>
          (case readRole E (role_Name role) w1 of
             (Inl err, w2) \<Rightarrow>
               ((AList.update (role_Name role) (status_error err) statusMap, firstRetryableError retryErr err), w2)
           | (Inr None, w2) \<Rightarrow> writeRole E namespace role None acc w2
           | (Inr (Some e), w2) \<Rightarrow>
               writeRole E namespace (if role_ID role = [] then role\<lparr>role_ID := role_ID e\<rparr> else role) (Some e) acc w2))"

definition processRoles ::
  "'w aclSettings \<Rightarrow> ACLRoleAdapter list \<Rightarrow> (string \<rightharpoonup> string) \<Rightarrow> string \<Rightarrow> string \<Rightarrow> bool \<Rightarrow> 'w \<Rightarrow>
   (StatusHolder \<times> goerror option) \<times> 'w"
where
  "processRoles E roles policies name namespace explicitName w =
     loop_all (processRole E policies name namespace explicitName) roles ([], None) w"

subsection \<open>Binding rules\<close>

text \<open>The types of auth methods, each read once; the cache maps a name to the type and whether it exists.\<close>

definition authMethodTypeResolver ::
  "'w aclSettings \<Rightarrow> string \<Rightarrow> (string \<rightharpoonup> string \<times> bool) \<Rightarrow> 'w \<Rightarrow>
   (string \<times> bool) result \<times> (string \<rightharpoonup> string \<times> bool) \<times> 'w"
where
  "authMethodTypeResolver E name methods w =
     (case methods name of
        Some m \<Rightarrow> (Inr m, methods, w)
      | None \<Rightarrow>
          (case acl_AuthMethodRead (ac_client E) name w of
             (Inl err, w1) \<Rightarrow>
               if \<not> isErrNotFound err then (Inl err, methods, w1)
               else (Inr ([], False), methods(name \<mapsto> ([], False)), w1)
           | (Inr am, w1) \<Rightarrow>
               let m = (case am of None \<Rightarrow> ([], False) | Some a \<Rightarrow> (am_Type a, True))
               in (Inr m, methods(name \<mapsto> m), w1)))"

definition convertBindRuleAdapterToBindRule ::
  "string \<Rightarrow> ACLBindingRuleAdapter \<Rightarrow> string \<Rightarrow> string \<Rightarrow> bool \<Rightarrow> string \<Rightarrow> ACLBindingRule"
where
  "convertBindRuleAdapterToBindRule authMethod bindRuleAdapter name namespace explicitName authMethodType =
     \<lparr>br_ID = bra_ID bindRuleAdapter,
      br_Description = bra_Description bindRuleAdapter,
      br_AuthMethod = bindRuleAuthMethod authMethod bindRuleAdapter,
      br_Selector =
        (if bra_Selector bindRuleAdapter \<noteq> [] then bra_Selector bindRuleAdapter
         else if bra_ServiceAccountName bindRuleAdapter \<noteq> [] then
           (if strings_Contains (bra_ServiceAccountName bindRuleAdapter) ''${'' then []
            else if authMethodType = ''kubernetes'' then
              ''serviceaccount.namespace == '' @ [CHR 0x22] @ namespace @ [CHR 0x22] @
              '' and serviceaccount.name == '' @ [CHR 0x22] @ bra_ServiceAccountName bindRuleAdapter @ [CHR 0x22]
            else
              ''value.namespace == '' @ [CHR 0x22] @ namespace @ [CHR 0x22] @
              '' and value.serviceaccount == '' @ [CHR 0x22] @ bra_ServiceAccountName bindRuleAdapter @ [CHR 0x22])
         else []),
      br_BindType = ''role'',
      br_BindName = (if explicitName then bra_BindName bindRuleAdapter
                     else convertEntityName (bra_BindName bindRuleAdapter) name namespace)\<rparr>"

text \<open>The update or creation of one rule whose method exists; the right value is the early return of a failed list.\<close>

definition applyBindRule ::
  "'w aclSettings \<Rightarrow> string \<Rightarrow> ACLBindingRule \<Rightarrow> StatusHolder \<Rightarrow> goerror option \<Rightarrow> 'w \<Rightarrow>
   (StatusHolder \<times> goerror option + goerror) \<times> 'w"
where
  "applyBindRule E namespace demand statusMap retryErr w =
     (case acl_BindingRuleList (ac_client E) (br_AuthMethod demand) w of
        (Inl err, w1) \<Rightarrow> (Inr err, w1)
      | (Inr existingRules, w1) \<Rightarrow>
          let existing = find (\<lambda>r. br_BindName r = br_BindName demand) existingRules;
              demand = (case existing of None \<Rightarrow> demand | Some r \<Rightarrow> demand\<lparr>br_ID := br_ID r\<rparr>);
              existingDescription = (case existing of None \<Rightarrow> [] | Some r \<Rightarrow> br_Description r);
              demand = demand\<lparr>br_Description := withOwnerAdded (br_Description demand) existingDescription namespace\<rparr>;
              action = (if br_ID demand = [] then ''create'' else ''update'')
          in case (if br_ID demand = [] then acl_BindingRuleCreate (ac_client E) demand w1
                   else acl_BindingRuleUpdate (ac_client E) demand w1) of
               (Inl err, w2) \<Rightarrow>
                 (Inl (AList.update (br_BindName demand) (status_error err) statusMap,
                       firstRetryableError retryErr err), w2)
             | (Inr _, w2) \<Rightarrow>
                 (Inl (AList.update (''Bind rule for '' @ br_BindType demand @ '' with name '' @ br_BindName demand)
                         (action @ ''d'') statusMap, retryErr), w2))"

fun processBindRules_from ::
  "'w aclSettings \<Rightarrow> string \<Rightarrow> string \<Rightarrow> bool \<Rightarrow> ACLBindingRuleAdapter list \<Rightarrow> (string \<rightharpoonup> string \<times> bool) \<Rightarrow>
   StatusHolder \<Rightarrow> goerror option \<Rightarrow> 'w \<Rightarrow> (StatusHolder \<times> goerror option) \<times> 'w"
where
  "processBindRules_from E name namespace explicitName [] methods statusMap retryErr w = ((statusMap, retryErr), w)"
| "processBindRules_from E name namespace explicitName (bindRuleAdapter # rest) methods statusMap retryErr w =
     (if bra_BindName bindRuleAdapter = [] then
        processBindRules_from E name namespace explicitName rest methods
          (AList.update innerErrorHandlingItem ''Some binding rules have not got a name'' statusMap) retryErr w
      else
        let applicableAuthMethod = bindRuleAuthMethod (ac_authMethod E) bindRuleAdapter in
        case authMethodTypeResolver E applicableAuthMethod methods w of
          (Inl typeErr, methods, w1) \<Rightarrow> ((statusMap, Some typeErr), w1)
        | (Inr (methodType, found), methods, w1) \<Rightarrow>
            if \<not> found then
              let missingErr = RetryableError
                    (PlainError (''auth method '' @ fmt_q applicableAuthMethod @ '' does not exist''))
              in processBindRules_from E name namespace explicitName rest methods
                   (AList.update (resolveEntityName (bra_BindName bindRuleAdapter) name namespace explicitName)
                      (status_error missingErr) statusMap)
                   (firstRetryableError retryErr missingErr) w1
            else
              (case applyBindRule E namespace
                      (convertBindRuleAdapterToBindRule (ac_authMethod E) bindRuleAdapter name namespace explicitName methodType)
                      statusMap retryErr w1 of
                 (Inr err, w2) \<Rightarrow> ((statusMap, Some err), w2)
               | (Inl (statusMap, retryErr), w2) \<Rightarrow>
                   processBindRules_from E name namespace explicitName rest methods statusMap retryErr w2))"

definition processBindRules ::
  "'w aclSettings \<Rightarrow> ACLBindingRuleAdapter list \<Rightarrow> string \<Rightarrow> string \<Rightarrow> bool \<Rightarrow> 'w \<Rightarrow> (StatusHolder \<times> goerror option) \<times> 'w"
where
  "processBindRules E bindRules name namespace explicitName w =
     processBindRules_from E name namespace explicitName bindRules Map.empty [] None w"

subsection \<open>Rules for the loops\<close>

lemma loop_all_rule:
  assumes "\<And>d x acc w acc1 w1. R d acc \<Longrightarrow> x \<in> set xs \<Longrightarrow> f x acc w = (acc1, w1) \<Longrightarrow> R (d @ [x]) acc1"
  shows "loop_all f ys acc w = (acc', w') \<Longrightarrow> set ys \<subseteq> set xs \<Longrightarrow> R d acc \<Longrightarrow> R (d @ ys) acc'"
proof (induction ys arbitrary: d acc w)
  case Nil
  then show ?case by simp
next
  case (Cons y ys)
  obtain acc1 w1 where y: "f y acc w = (acc1, w1)" by fastforce
  with Cons.prems have "R (d @ [y]) acc1" "loop_all f ys acc1 w1 = (acc', w')" using assms by auto
  from Cons.IH[OF this(2) _ this(1)] Cons.prems(2) show ?case by simp
qed

lemma loop_all_keeps:
  assumes "\<And>x acc. x \<in> set xs \<Longrightarrow> keeps I (f x acc)"
  shows "keeps I (loop_all f xs acc)"
  using assms
proof (induction xs arbitrary: acc)
  case Nil
  then show ?case by (simp add: keeps_def)
next
  case (Cons x xs)
  show ?case
  proof (rule keepsI)
    fix w r w'
    assume "I w" and run: "loop_all f (x # xs) acc w = (r, w')"
    obtain acc1 w1 where x: "f x acc w = (acc1, w1)" by (rule prod.exhaust)
    have "keeps I (f x acc)" by (simp add: Cons.prems)
    from keepsD[where I = I and f = "f x acc", OF this \<open>I w\<close> x] have "I w1" .
    moreover have "loop_all f xs acc1 w1 = (r, w')" using run x by simp
    moreover have "keeps I (loop_all f xs acc1)" by (rule Cons.IH) (simp add: Cons.prems)
    ultimately show "I w'" using keepsD[where I = I and f = "loop_all f xs acc1"] by blast
  qed
qed

subsection \<open>What is reported\<close>

text \<open>A name with an error; an error that is worth a retry is also returned.\<close>

definition failed_status :: "StatusHolder \<Rightarrow> goerror option \<Rightarrow> string \<Rightarrow> bool" where
  "failed_status st err n \<longleftrightarrow> (\<exists>e. map_of st n = Some (status_error e) \<and> (isRetryable (Some e) \<longrightarrow> err \<noteq> None))"

definition done_status :: "StatusHolder \<Rightarrow> string \<Rightarrow> bool" where
  "done_status st n \<longleftrightarrow> map_of st n = Some ''created'' \<or> map_of st n = Some ''updated''"

lemma failed_status_update:
  "failed_status (AList.update k v st) err n \<longleftrightarrow>
     (if n = k then \<exists>e. v = status_error e \<and> (isRetryable (Some e) \<longrightarrow> err \<noteq> None) else failed_status st err n)"
  by (simp add: failed_status_def update_conv')

lemma done_status_update:
  "done_status (AList.update k v st) n \<longleftrightarrow> (if n = k then v = ''created'' \<or> v = ''updated'' else done_status st n)"
  by (simp add: done_status_def update_conv')

lemma failed_status_mono: "failed_status st err n \<Longrightarrow> failed_status st (firstRetryableError err e) n"
  by (auto simp: failed_status_def firstRetryableError_def split: option.splits)

lemma firstRetryable_ok:
  "(err = None \<or> isRetryable err) \<Longrightarrow> firstRetryableError err e = None \<or> isRetryable (firstRetryableError err e)"
  by (auto simp: firstRetryableError_def split: option.splits)

lemma firstRetryable_Some: "isRetryable (Some e) \<Longrightarrow> firstRetryableError err e \<noteq> None"
  by (auto simp: firstRetryableError_def split: option.splits)

lemma failed_status_new: "failed_status (AList.update n (status_error e) st) (firstRetryableError err e) n"
  using firstRetryable_Some by (auto simp: failed_status_update)

lemmas status_simps = failed_status_update done_status_update firstRetryable_Some

text \<open>
  What an operation of the controller reports of the entities \<open>ns\<close>: every name has an outcome, an error that is
  worth a retry is returned, and only such errors are.
\<close>

definition all_reported :: "string list \<Rightarrow> StatusHolder \<Rightarrow> goerror option \<Rightarrow> bool" where
  "all_reported names st err \<longleftrightarrow>
     (err = None \<or> isRetryable err) \<and>
     list_all (\<lambda>n. n \<noteq> innerErrorHandlingItem \<longrightarrow> failed_status st err n \<or> done_status st n) names"

lemma all_reported_failed:
  "all_reported names st err \<Longrightarrow>
     all_reported (names @ [n]) (AList.update n (status_error e) st) (firstRetryableError err e)"
  using failed_status_new[of n e st err] failed_status_mono[of st err _ e]
  by (auto simp: all_reported_def list_all_iff firstRetryable_ok failed_status_update done_status_update)

lemma all_reported_done:
  "all_reported names st err \<Longrightarrow> a = ''created'' \<or> a = ''updated'' \<Longrightarrow> all_reported (names @ [n]) (AList.update n a st) err"
  by (auto simp: all_reported_def list_all_iff status_simps)

lemma all_reported_noname:
  "all_reported names st err \<Longrightarrow> all_reported names (AList.update innerErrorHandlingItem v st) err"
  by (auto simp: all_reported_def list_all_iff status_simps)

text \<open>The names that a list of policies or roles resolves to.\<close>

definition policy_names :: "string \<Rightarrow> string \<Rightarrow> bool \<Rightarrow> ACLPolicy list \<Rightarrow> string list" where
  "policy_names name ns explicitName ps =
     map (\<lambda>p. resolveEntityName (pol_Name p) name ns explicitName) (filter (\<lambda>p. pol_Name p \<noteq> []) ps)"

definition role_names :: "string \<Rightarrow> string \<Rightarrow> bool \<Rightarrow> ACLRoleAdapter list \<Rightarrow> string list" where
  "role_names name ns explicitName rs =
     map (\<lambda>r. resolveEntityName (ra_Name r) name ns explicitName) (filter (\<lambda>r. ra_Name r \<noteq> []) rs)"

lemma processPolicy_report:
  assumes "all_reported (policy_names name ns explicitName d) st err"
    and "processPolicy E name ns explicitName p (st, processed, err) w = ((st', processed', err'), w')"
  shows "all_reported (policy_names name ns explicitName (d @ [p])) st' err'"
  using assms
  by (auto simp: processPolicy_def writePolicy_def policy_names_def resolveEntityName_def mergeOwnerIntoPolicy_def Let_def
      intro!: all_reported_failed all_reported_done all_reported_noname
      split: if_splits prod.splits sum.splits option.splits)

lemma processRole_report:
  assumes "all_reported (role_names name ns explicitName d) st err"
    and "processRole E policies name ns explicitName r (st, err) w = ((st', err'), w')"
  shows "all_reported (role_names name ns explicitName (d @ [r])) st' err'"
  using assms
  by (auto simp: processRole_def writeRole_def role_names_def resolveEntityName_def convertRoleAdapterToRole_def Let_def
      intro!: all_reported_failed all_reported_done all_reported_noname
      split: if_splits prod.splits sum.splits option.splits)

lemma processPolicies_reported:
  "case fst (processPolicies E policies name ns explicitName w) of
     (st, processed, err) \<Rightarrow> all_reported (policy_names name ns explicitName policies) st err"
proof -
  let ?R = "\<lambda>d acc. case acc of (st, processed, err) \<Rightarrow> all_reported (policy_names name ns explicitName d) st err"
  obtain acc w' where run: "loop_all (processPolicy E name ns explicitName) policies ([], Map.empty, None) w = (acc, w')"
    by (rule prod.exhaust)
  have "?R ([] @ policies) acc"
  proof (rule loop_all_rule[where R = ?R, OF _ run])
    show "?R [] ([], Map.empty, None)" by (simp add: all_reported_def policy_names_def)
  qed (auto simp: processPolicy_report split: prod.splits)
  then show ?thesis by (simp add: processPolicies_def run)
qed

lemma processRoles_reported:
  "case fst (processRoles E roles policies name ns explicitName w) of
     (st, err) \<Rightarrow> all_reported (role_names name ns explicitName roles) st err"
proof -
  let ?R = "\<lambda>d acc. case acc of (st, err) \<Rightarrow> all_reported (role_names name ns explicitName d) st err"
  obtain acc w' where run: "loop_all (processRole E policies name ns explicitName) roles ([], None) w = (acc, w')"
    by (rule prod.exhaust)
  have "?R ([] @ roles) acc"
  proof (rule loop_all_rule[where R = ?R, OF _ run])
    show "?R [] ([], None)" by (simp add: all_reported_def role_names_def)
  qed (auto simp: processRole_report split: prod.splits)
  then show ?thesis by (simp add: processRoles_def run)
qed

text \<open>
  Whatever Consul answers, every named policy of the configuration gets an outcome in the status: created,
  updated or an error. Only transient errors are returned, and when a policy failed with a transient
  error one is returned, so that the request is repeated.
\<close>

theorem process_policies_report:
  "case fst (processPolicies E policies name ns explicitName w) of
     (st, processed, err) \<Rightarrow> all_reported (policy_names name ns explicitName policies) st err"
  by (rule processPolicies_reported)

text \<open>
  The same for the roles of the configuration.
\<close>

theorem process_roles_report:
  "case fst (processRoles E roles policies name ns explicitName w) of
     (st, err) \<Rightarrow> all_reported (role_names name ns explicitName roles) st err"
  by (rule processRoles_reported)

end
