(* ===== verification/ACL_Writes.thy ===== *)
theory ACL_Writes
  imports ACL_Apply
begin

text \<open>
  The outcomes that applying a ConsulACL resource reports for binding rules. What it sends to Consul is in the theory \<^verbatim>\<open>ACL_Calls\<close>.
\<close>

subsection \<open>Outcomes of binding rules\<close>

definition rule_key :: "string \<Rightarrow> string" where
  "rule_key n = ''Bind rule for '' @ ''role'' @ '' with name '' @ n"

definition rule_names :: "string \<Rightarrow> string \<Rightarrow> bool \<Rightarrow> ACLBindingRuleAdapter list \<Rightarrow> string list" where
  "rule_names name ns explicitName bs =
     map (\<lambda>b. resolveEntityName (bra_BindName b) name ns explicitName) (filter (\<lambda>b. bra_BindName b \<noteq> []) bs)"

text \<open>Names that do not clash with the other keys of the status map.\<close>

definition plain_name :: "string \<Rightarrow> bool" where
  "plain_name n \<longleftrightarrow> n \<noteq> innerErrorHandlingItem \<and> \<not> strings_HasPrefix n ''Bind rule for ''"

definition rules_reported :: "string list \<Rightarrow> StatusHolder \<Rightarrow> goerror option \<Rightarrow> bool" where
  "rules_reported names st err \<longleftrightarrow> list_all (\<lambda>n. failed_status st err n \<or> done_status st (rule_key n)) names"

lemma rule_key_inj [simp]: "rule_key m = rule_key n \<longleftrightarrow> m = n"
  by (simp add: rule_key_def)

lemma plain_name_keys: "plain_name n \<Longrightarrow> n \<noteq> innerErrorHandlingItem \<and> n \<noteq> rule_key m"
  by (auto simp: plain_name_def rule_key_def strings_HasPrefix_def)

lemma rule_key_not_inner [simp]: "rule_key n \<noteq> innerErrorHandlingItem" "innerErrorHandlingItem \<noteq> rule_key n"
  by (simp_all add: rule_key_def innerErrorHandlingItem_def)

lemma rules_reported_failed:
  assumes "rules_reported names st err" and "list_all plain_name (n # names)"
  shows "rules_reported (names @ [n]) (AList.update n (status_error e) st) (firstRetryableError err e)"
proof -
  have "rule_key m \<noteq> n" for m using assms(2) plain_name_keys[of n m] by auto
  then show ?thesis using assms(1) failed_status_new[of n e st err] failed_status_mono[of st err _ e]
    by (auto simp: rules_reported_def list_all_iff failed_status_update done_status_update)
qed

lemma rules_reported_done:
  assumes "rules_reported names st err" and "list_all plain_name (n # names)" and "a = ''created'' \<or> a = ''updated''"
  shows "rules_reported (names @ [n]) (AList.update (rule_key n) a st) err"
proof -
  have "m \<noteq> rule_key n" if "m \<in> set names" for m
    using assms(2) that plain_name_keys[of m n] by (auto simp: list_all_iff)
  then show ?thesis using assms(1,3)
    by (auto simp: rules_reported_def list_all_iff failed_status_update done_status_update)
qed

lemma rules_reported_noname:
  assumes "rules_reported names st err" and "list_all plain_name names"
  shows "rules_reported names (AList.update innerErrorHandlingItem v st) err"
  using assms plain_name_keys
  by (fastforce simp: rules_reported_def list_all_iff failed_status_update done_status_update)

lemma applyBindRule_report:
  assumes "applyBindRule E ns demand st err w = (Inl (st', err'), w')" and "br_BindType demand = ''role''"
    and "rules_reported names st err" and "list_all plain_name (br_BindName demand # names)"
  shows "rules_reported (names @ [br_BindName demand]) st' err'"
  using assms rules_reported_failed[OF assms(3,4)] rules_reported_done[OF assms(3,4)]
  by (auto simp: applyBindRule_def Let_def rule_key_def split: prod.splits sum.splits if_splits option.splits)

lemma convert_rule_simps [simp]:
  "br_BindType (convertBindRuleAdapterToBindRule am b name ns explicitName t) = ''role''"
  "br_BindName (convertBindRuleAdapterToBindRule am b name ns explicitName t) = resolveEntityName (bra_BindName b) name ns explicitName"
  "br_AuthMethod (convertBindRuleAdapterToBindRule am b name ns explicitName t) = bindRuleAuthMethod am b"
  "br_ID (convertBindRuleAdapterToBindRule am b name ns explicitName t) = bra_ID b"
  "br_Description (convertBindRuleAdapterToBindRule am b name ns explicitName t) = bra_Description b"
  by (simp_all add: convertBindRuleAdapterToBindRule_def resolveEntityName_def)

lemma rule_names_Cons:
  "rule_names name ns explicitName (b # bs) =
     (if bra_BindName b = [] then [] else [resolveEntityName (bra_BindName b) name ns explicitName]) @ rule_names name ns explicitName bs"
  by (simp add: rule_names_def)

lemma processBindRules_from_report:
  assumes "processBindRules_from E name ns explicitName bs methods st err w = ((st', None), w')"
    and "list_all plain_name (d @ rule_names name ns explicitName bs)" and "rules_reported d st err"
  shows "rules_reported (d @ rule_names name ns explicitName bs) st' None"
  using assms
proof (induction bs arbitrary: methods st err w d)
  case Nil
  then show ?case by (simp add: rule_names_def)
next
  case (Cons b bs)
  let ?n = "resolveEntityName (bra_BindName b) name ns explicitName"
  show ?case
  proof (cases "bra_BindName b = []")
    case True
    with Cons show ?thesis by (simp add: rule_names_Cons rules_reported_noname)
  next
    case False
    then have names: "d @ rule_names name ns explicitName (b # bs) = (d @ [?n]) @ rule_names name ns explicitName bs"
      by (simp add: rule_names_Cons)
    have plain: "list_all plain_name (?n # d)" and plain': "list_all plain_name ((d @ [?n]) @ rule_names name ns explicitName bs)"
      using Cons.prems(2) names by simp_all
    obtain t ms w1 where res: "authMethodTypeResolver E (bindRuleAuthMethod (ac_authMethod E) b) methods w = (t, ms, w1)"
      by (rule prod_cases3)
    show ?thesis
    proof (cases t)
      case (Inl e)
      with Cons.prems(1) False res show ?thesis by simp
    next
      case (Inr r)
      obtain ty found where r: "r = (ty, found)" by (rule prod.exhaust)
      show ?thesis
      proof (cases found)
        case True
        obtain a w2 where app: "applyBindRule E ns (convertBindRuleAdapterToBindRule (ac_authMethod E) b name ns explicitName ty) st err w1 = (a, w2)"
          by (rule prod.exhaust)
        with Cons.prems(1) False res Inr r True obtain st1 err1 where a: "a = Inl (st1, err1)"
          and rest: "processBindRules_from E name ns explicitName bs ms st1 err1 w2 = ((st', None), w')"
          by (cases a) auto
        have "rules_reported (d @ [?n]) st1 err1"
          using applyBindRule_report[OF app[unfolded a] _ Cons.prems(3)] plain by simp
        from Cons.IH[OF rest plain' this] show ?thesis by (simp add: names)
      next
        case nf: False
        let ?e = "RetryableError (PlainError (''auth method '' @ fmt_q (bindRuleAuthMethod (ac_authMethod E) b) @ '' does not exist''))"
        have "processBindRules_from E name ns explicitName bs ms (AList.update ?n (status_error ?e) st) (firstRetryableError err ?e) w1 = ((st', None), w')"
          using Cons.prems(1) False res Inr r nf by (simp add: Let_def)
        from Cons.IH[OF this plain' rules_reported_failed[OF Cons.prems(3) plain]] show ?thesis by (simp add: names)
      qed
    qed
  qed
qed

lemma processBindRules_reported:
  assumes "list_all plain_name (rule_names name ns explicitName bs)"
    and "processBindRules E bs name ns explicitName w = ((st, None), w')"
  shows "rules_reported (rule_names name ns explicitName bs) st None"
  using processBindRules_from_report[of E name ns explicitName bs Map.empty "[]" None w st w' "[]"] assms
  by (simp add: processBindRules_def rules_reported_def)

text \<open>
  When processing the binding rules returns no error, every named rule has an outcome: it was created or
  updated, or it failed with an error that a retry does not cure. In particular a rule whose auth
  method does not exist yet is never reported as a success.
\<close>

theorem process_bind_rules_report:
  assumes "list_all plain_name (rule_names name ns explicitName bs)"
    and "processBindRules E bs name ns explicitName w = ((st, None), w')"
  shows "rules_reported (rule_names name ns explicitName bs) st None"
  using processBindRules_reported[OF assms] .

definition demo_bind_rule :: ACLBindingRuleAdapter where
  "demo_bind_rule = \<lparr>bra_ID = [], bra_Description = ''d'', bra_ServiceAccountName = ''sa'', bra_BindName = ''reader'',
     bra_AuthMethod = [], bra_Selector = []\<rparr>"

definition demo_method :: ACLAuthMethod where
  "demo_method = \<lparr>am_Name = ''m2m'', am_Type = ''jwt'', am_Description = [], am_MaxTokenTTL = 0, am_Config = []\<rparr>"

theorem process_bind_rules_report_witness:
  "rules_reported [''app_ns1_reader''] [(rule_key ''app_ns1_reader'', ''created'')] None"
proof -
  let ?w = "mem_world\<lparr>aw_methods := [demo_method]\<rparr>"
  have "\<exists>w'. processBindRules (mem_settings ''m2m'') [demo_bind_rule] ''app'' ''ns1'' False ?w =
      (([(rule_key ''app_ns1_reader'', ''created'')], None), w')"
    by (simp add: processBindRules_def demo_bind_rule_def demo_method_def mem_settings_def mem_acl_def mem_world_def
        authMethodTypeResolver_def bindRuleAuthMethod_def applyBindRule_def rule_key_def convertBindRuleAdapterToBindRule_def
        convertEntityName_def Let_def)
  moreover have "rule_names ''app'' ''ns1'' False [demo_bind_rule] = [''app_ns1_reader'']"
    by (simp add: rule_names_def demo_bind_rule_def resolveEntityName_def convertEntityName_def)
  moreover have "plain_name ''app_ns1_reader''"
    by (simp add: plain_name_def innerErrorHandlingItem_def strings_HasPrefix_def)
  ultimately show ?thesis
    using process_bind_rules_report[of "''app''" "''ns1''" False "[demo_bind_rule]" "mem_settings ''m2m''" ?w] by auto
qed

subsection \<open>Entities of the examples\<close>

definition demo_policy :: "string \<Rightarrow> string \<Rightarrow> ACLPolicy" where
  "demo_policy i d = \<lparr>pol_ID = i, pol_Name = ''shared'', pol_Description = d, pol_Rules = ''key_prefix'', pol_Datacenters = []\<rparr>"

lemma dns_label_ns1 [simp]: "dns_label ''ns1''"
  by (simp add: dns_label_def dns_label_char_def)

end
