(* ===== verification/ACL_Reconcile.thy ===== *)
theory ACL_Reconcile
  imports ACL_Writes
begin

text \<open>
  The ConsulACL reconciler (\<^verbatim>\<open>controllers/consulacl_controller.go\<close>, lines 89-280, 605-655 and 744-753, with the types of
  \<^verbatim>\<open>api/v1/consulacl_types.go\<close>): the reconcile loop with its finalizer and deletion branches, the siblings of a resource,
  and the application of a configuration in stages. The decoder of the JSON configuration is a
  parameter. A nil pointer that is followed is the value \<open>None\<close> of a whole operation.
\<close>

subsection \<open>The resource\<close>

record ACL =
  acl_Json :: string
  acl_Name :: string
  acl_CommonReconcile :: string
  acl_ExplicitName :: bool

record ConsulACLSpec =
  aspec_OperatorNamespace :: string
  aspec_ACL :: "ACL option"

record ConsulACLStatus =
  ast_PoliciesStatus :: string
  ast_RolesStatus :: string
  ast_BindRulesStatus :: string
  ast_GeneralStatus :: string
  ast_Conditions :: "Condition list"

record ConsulACL =
  acr_Meta :: ObjectMeta
  acr_Spec :: ConsulACLSpec
  acr_Status :: ConsulACLStatus

record 'w ConsulACLReconciler =
  ar_lib :: "'w k8sLib"
  ar_Client :: "(ConsulACL, 'w) kubeClient"
  ar_acl :: "'w aclSettings"
  ar_Unmarshal :: "string \<Rightarrow> ACLConfig result"
  ar_OwnNamespace :: string
  ar_Strict :: bool
  ar_Group :: string
  ar_periodTime :: int

definition consulAclFinalizer :: "'w ConsulACLReconciler \<Rightarrow> string" where
  "consulAclFinalizer r = ar_Group r @ ''/consulaclconfigurator-controller''"

definition isManaged :: "'w ConsulACLReconciler \<Rightarrow> ConsulACL \<Rightarrow> bool" where
  "isManaged r cr =
     isOwnedByOperator (aspec_OperatorNamespace (acr_Spec cr)) (meta_Namespace (acr_Meta cr)) (ar_OwnNamespace r) (ar_Strict r)"

subsection \<open>The configuration and the siblings\<close>

definition getAclConfig :: "'w ConsulACLReconciler \<Rightarrow> ConsulACL \<Rightarrow> ACLConfig result option" where
  "getAclConfig r cr = map_option (\<lambda>acl. ar_Unmarshal r (acl_Json acl)) (aspec_ACL (acr_Spec cr))"

text \<open>One resource of the list: skipped, or its entities are added.\<close>

definition addSibling :: "'w ConsulACLReconciler \<Rightarrow> ConsulACL \<Rightarrow> ConsulACL \<Rightarrow> declaredEntities \<Rightarrow> declaredEntities" where
  "addSibling r cr sibling siblings =
     (if meta_Name (acr_Meta sibling) = meta_Name (acr_Meta cr) \<or> \<not> IsZero (meta_DeletionTimestamp (acr_Meta sibling)) \<or>
         aspec_ACL (acr_Spec sibling) = None \<or> \<not> isManaged r sibling
      then siblings
      else case getAclConfig r sibling of
             Some (Inr siblingConfig) \<Rightarrow>
               de_add siblingConfig (meta_Name (acr_Meta sibling)) (meta_Namespace (acr_Meta sibling))
                 (case aspec_ACL (acr_Spec sibling) of None \<Rightarrow> False | Some acl \<Rightarrow> acl_ExplicitName acl) siblings
           | _ \<Rightarrow> siblings\<lparr>de_all := True\<rparr>)"

definition siblingEntities :: "'w ConsulACLReconciler \<Rightarrow> ConsulACL \<Rightarrow> 'w \<Rightarrow> declaredEntities result \<times> 'w" where
  "siblingEntities r cr w =
     (case kube_List (ar_Client r) (meta_Namespace (acr_Meta cr)) w of
        (Inl err, w1) \<Rightarrow> (Inl err, w1)
      | (Inr items, w1) \<Rightarrow> (Inr (fold (addSibling r cr) items newDeclaredEntities), w1))"

text \<open>The siblings are needed for explicit names only.\<close>

definition siblings_if :: "bool \<Rightarrow> 'w ConsulACLReconciler \<Rightarrow> ConsulACL \<Rightarrow> 'w \<Rightarrow> declaredEntities option result \<times> 'w" where
  "siblings_if explicitName r cr w =
     (if explicitName then
        (case siblingEntities r cr w of (Inl err, w1) \<Rightarrow> (Inl err, w1) | (Inr s, w1) \<Rightarrow> (Inr (Some s), w1))
      else (Inr None, w))"

subsection \<open>Deletion\<close>

definition acl_map_Finalizers :: "(string list \<Rightarrow> string list) \<Rightarrow> ConsulACL \<Rightarrow> ConsulACL" where
  "acl_map_Finalizers f cr = cr\<lparr>acr_Meta := (acr_Meta cr)\<lparr>meta_Finalizers := f (meta_Finalizers (acr_Meta cr))\<rparr>\<rparr>"

definition acl_UpdateWithRetry ::
  "'w ConsulACLReconciler \<Rightarrow> ConsulACL \<Rightarrow> ('w \<Rightarrow> ConsulACL \<Rightarrow> ConsulACL) \<Rightarrow> 'w \<Rightarrow> goerror option \<times> 'w"
where
  "acl_UpdateWithRetry r cr = UpdateWithRetry (ar_lib r) (ar_Client r) (meta_Name (acr_Meta cr)) (meta_Namespace (acr_Meta cr))"

definition deleteACL ::
  "'w ConsulACLReconciler \<Rightarrow> ConsulACL \<Rightarrow> 'w \<Rightarrow> ((Result \<times> goerror option) \<times> 'w) option"
where
  "deleteACL r inst w =
     (case aspec_ACL (acr_Spec inst) of
        None \<Rightarrow> None
      | Some acl \<Rightarrow>
          Some (case ar_Unmarshal r (acl_Json acl) of
             Inl err \<Rightarrow> ((noRequeue, Some err), w)
           | Inr aclConfig \<Rightarrow>
               (case siblings_if (acl_ExplicitName acl) r inst w of
                  (Inl err, w1) \<Rightarrow> ((noRequeue, Some err), w1)
                | (Inr siblings, w1) \<Rightarrow>
                    (case deleteAclEntities (ar_acl r) aclConfig (meta_Name (acr_Meta inst)) (meta_Namespace (acr_Meta inst))
                            (acl_ExplicitName acl) siblings w1 of
                       (Some err, w2) \<Rightarrow> ((noRequeue, Some err), w2)
                     | (None, w2) \<Rightarrow>
                         (case acl_UpdateWithRetry r inst
                                 (\<lambda>_. acl_map_Finalizers (lib_RemoveFinalizer (ar_lib r) (consulAclFinalizer r))) w2 of
                            (err, w3) \<Rightarrow> ((noRequeue, err), w3))))))"

subsection \<open>Application\<close>

text \<open>The status strings of one reconcile; a stage that was not reached has none.\<close>

record aclStatus =
  as_policies :: "string option"
  as_roles :: "string option"
  as_bindRules :: "string option"

definition statusString :: "'w ConsulACLReconciler \<Rightarrow> StatusHolder \<Rightarrow> string option" where
  "statusString r status = Some (GetStatus (ac_range (ar_acl r)) status)"

text \<open>The stages after the binding rules: the migration and the clean-up.\<close>

definition applyACL_cleanup ::
  "'w ConsulACLReconciler \<Rightarrow> ConsulACL \<Rightarrow> ACLConfig \<Rightarrow> bool \<Rightarrow> StatusHolder \<Rightarrow> 'w \<Rightarrow> goerror option \<times> 'w"
where
  "applyACL_cleanup r cr aclConfig explicitName bindRulesStatus w =
     (let name = meta_Name (acr_Meta cr); namespace = meta_Namespace (acr_Meta cr) in
      and_then (removeLegacyBindingRules (ar_acl r) aclConfig name namespace True (failedEntities bindRulesStatus) w) (\<lambda>w1.
        case siblings_if explicitName r cr w1 of
          (Inl err, w2) \<Rightarrow> (Some err, w2)
        | (Inr siblings, w2) \<Rightarrow> removeStaleEntities (ar_acl r) aclConfig name namespace explicitName siblings w2))"

definition applyACL_config ::
  "'w ConsulACLReconciler \<Rightarrow> ConsulACL \<Rightarrow> ACLConfig \<Rightarrow> bool \<Rightarrow> 'w \<Rightarrow> (aclStatus \<times> goerror option) \<times> 'w"
where
  "applyACL_config r cr aclConfig explicitName w =
     (let name = meta_Name (acr_Meta cr); namespace = meta_Namespace (acr_Meta cr);
          status = \<lparr>as_policies = None, as_roles = None, as_bindRules = None\<rparr> in
      case processPolicies (ar_acl r) (cfg_Policies aclConfig) name namespace explicitName w of
        ((policiesStatus, processedPolicies, err), w1) \<Rightarrow>
          let status = status\<lparr>as_policies := statusString r policiesStatus\<rparr> in
          if err \<noteq> None then ((status, err), w1)
          else case processRoles (ar_acl r) (cfg_Roles aclConfig) processedPolicies name namespace explicitName w1 of
            ((rolesStatus, err), w2) \<Rightarrow>
              let status = status\<lparr>as_roles := statusString r rolesStatus\<rparr> in
              if err \<noteq> None then ((status, err), w2)
              else case processBindRules (ar_acl r) (cfg_BindRules aclConfig) name namespace explicitName w2 of
                ((bindRulesStatus, err), w3) \<Rightarrow>
                  let status = status\<lparr>as_bindRules := statusString r bindRulesStatus\<rparr> in
                  if err \<noteq> None then ((status, err), w3)
                  else case applyACL_cleanup r cr aclConfig explicitName bindRulesStatus w3 of
                    (err, w4) \<Rightarrow> ((status, err), w4))"

definition applyACL :: "'w ConsulACLReconciler \<Rightarrow> ConsulACL \<Rightarrow> 'w \<Rightarrow> ((aclStatus \<times> goerror option) \<times> 'w) option" where
  "applyACL r cr w =
     (case aspec_ACL (acr_Spec cr) of
        None \<Rightarrow> None
      | Some acl \<Rightarrow>
          Some (case ar_Unmarshal r (acl_Json acl) of
             Inl err \<Rightarrow> ((\<lparr>as_policies = None, as_roles = None, as_bindRules = None\<rparr>, Some err), w)
           | Inr aclConfig \<Rightarrow> applyACL_config r cr aclConfig (acl_ExplicitName acl) w))"

subsection \<open>The reconcile loop\<close>

definition acl_requeue :: "'w ConsulACLReconciler \<Rightarrow> Result" where
  "acl_requeue r = \<lparr>res_RequeueAfter = time_seconds (ar_periodTime r)\<rparr>"

text \<open>The status that a reconcile writes; the error goes to the condition.\<close>

definition acl_new_status ::
  "'w ConsulACLReconciler \<Rightarrow> aclStatus \<Rightarrow> goerror option \<Rightarrow> 'w \<Rightarrow> ConsulACL \<Rightarrow> ConsulACL"
where
  "acl_new_status r status applyErr w cr =
     (let st = acr_Status cr;
          st = (case as_policies status of None \<Rightarrow> st | Some s \<Rightarrow> st\<lparr>ast_PoliciesStatus := s\<rparr>);
          st = (case as_roles status of None \<Rightarrow> st | Some s \<Rightarrow> st\<lparr>ast_RolesStatus := s\<rparr>);
          st = (case as_bindRules status of None \<Rightarrow> st | Some s \<Rightarrow> st\<lparr>ast_BindRulesStatus := s\<rparr>)
      in cr\<lparr>acr_Status := st\<lparr>ast_Conditions :=
           setSuccessfulCondition (ar_lib r) w applyErr (meta_Generation (acr_Meta cr)) (ast_Conditions st)\<rparr>\<rparr>)"

definition acl_sync :: "'w ConsulACLReconciler \<Rightarrow> ConsulACL \<Rightarrow> 'w \<Rightarrow> ((Result \<times> goerror option) \<times> 'w) option" where
  "acl_sync r inst w =
     (case applyACL r inst w of
        None \<Rightarrow> None
      | Some ((status, applyErr), w1) \<Rightarrow>
          Some (case UpdateStatusWithRetry (ar_lib r) (ar_Client r) (meta_Name (acr_Meta inst)) (meta_Namespace (acr_Meta inst))
                       (acl_new_status r status applyErr) w1 of
             (Some statusErr, w2) \<Rightarrow> ((acl_requeue r, None), w2)
           | (None, w2) \<Rightarrow> if applyErr \<noteq> None then ((acl_requeue r, None), w2) else ((noRequeue, None), w2)))"

definition acl_ensure_finalizer :: "'w ConsulACLReconciler \<Rightarrow> ConsulACL \<Rightarrow> 'w \<Rightarrow> goerror option \<times> 'w" where
  "acl_ensure_finalizer r inst w =
     (if \<not> Contains (consulAclFinalizer r) (meta_Finalizers (acr_Meta inst))
      then acl_UpdateWithRetry r inst (\<lambda>_. acl_map_Finalizers (lib_AddFinalizer (ar_lib r) (consulAclFinalizer r))) w
      else (None, w))"

definition ACL_Reconcile ::
  "'w ConsulACLReconciler \<Rightarrow> string \<Rightarrow> string \<Rightarrow> 'w \<Rightarrow> ((Result \<times> goerror option) \<times> 'w) option"
where
  "ACL_Reconcile r namespace name w =
     (case kube_Get (ar_Client r) namespace name w of
        (Inl err, w1) \<Rightarrow> Some (if IsNotFound err then ((noRequeue, None), w1) else ((noRequeue, Some err), w1))
      | (Inr inst, w1) \<Rightarrow>
          if IsZero (meta_DeletionTimestamp (acr_Meta inst)) then
            (case acl_ensure_finalizer r inst w1 of
               (Some err, w2) \<Rightarrow> Some ((noRequeue, Some err), w2)
             | (None, w2) \<Rightarrow> acl_sync r inst w2)
          else if Contains (consulAclFinalizer r) (meta_Finalizers (acr_Meta inst)) then deleteACL r inst w1
          else Some ((noRequeue, None), w1))"

subsection \<open>The events\<close>

fun acl_statusPredicate :: "ConsulACL event \<Rightarrow> bool" where
  "acl_statusPredicate (UpdateEvent old new) =
     (meta_Generation (acr_Meta old) \<noteq> meta_Generation (acr_Meta new))"
| "acl_statusPredicate (DeleteEvent obj deleteStateUnknown) = (\<not> deleteStateUnknown)"
| "acl_statusPredicate _ = True"

definition acl_event_handled :: "'w ConsulACLReconciler \<Rightarrow> ConsulACL event \<Rightarrow> bool" where
  "acl_event_handled r e \<longleftrightarrow> acl_statusPredicate e \<and> isManaged r (event_object e)"

end
