(* ===== verification/ACL_Keeps.thy ===== *)
theory ACL_Keeps
  imports ACL_Reconcile
begin

text \<open>
  Properties of the world that the operations of the ConsulACL reconciler keep. The calls to Consul are grouped as the
  operations use them: the reads, and the writes of policies, of roles and their tokens, and of binding rules. Each
  operation keeps what the calls of its groups keep, so that a property of the policies needs
  an argument only for the operations that write policies; the last section composes the whole reconcile.
\<close>

subsection \<open>What the calls to Consul keep\<close>

definition client_reads :: "('w \<Rightarrow> bool) \<Rightarrow> 'w consulACLClient \<Rightarrow> bool" where
  "client_reads I c \<longleftrightarrow>
     (\<forall>n. keeps I (acl_PolicyReadByName c n)) \<and> keeps I (acl_PolicyList c) \<and>
     (\<forall>n. keeps I (acl_RoleReadByName c n)) \<and> keeps I (acl_RoleList c) \<and>
     (\<forall>m. keeps I (acl_BindingRuleList c m)) \<and> (\<forall>n. keeps I (acl_AuthMethodRead c n)) \<and>
     (\<forall>r. keeps I (acl_TokenListFiltered c r))"

definition policy_writes :: "('w \<Rightarrow> bool) \<Rightarrow> 'w consulACLClient \<Rightarrow> bool" where
  "policy_writes I c \<longleftrightarrow>
     (\<forall>p. keeps I (acl_PolicyCreate c p)) \<and> (\<forall>p. keeps I (acl_PolicyUpdate c p)) \<and> (\<forall>i. keeps I (acl_PolicyDelete c i))"

definition role_writes :: "('w \<Rightarrow> bool) \<Rightarrow> 'w consulACLClient \<Rightarrow> bool" where
  "role_writes I c \<longleftrightarrow>
     (\<forall>r. keeps I (acl_RoleCreate c r)) \<and> (\<forall>r. keeps I (acl_RoleUpdate c r)) \<and> (\<forall>i. keeps I (acl_RoleDelete c i)) \<and>
     (\<forall>t. keeps I (acl_TokenDelete c t))"

definition rule_writes :: "('w \<Rightarrow> bool) \<Rightarrow> 'w consulACLClient \<Rightarrow> bool" where
  "rule_writes I c \<longleftrightarrow>
     (\<forall>b. keeps I (acl_BindingRuleCreate c b)) \<and> (\<forall>b. keeps I (acl_BindingRuleUpdate c b)) \<and>
     (\<forall>i. keeps I (acl_BindingRuleDelete c i))"

text \<open>A property of the world that no call to Consul changes, for example the requests the API server received.\<close>

definition client_keeps :: "('w \<Rightarrow> bool) \<Rightarrow> 'w consulACLClient \<Rightarrow> bool" where
  "client_keeps I c \<longleftrightarrow> client_reads I c \<and> policy_writes I c \<and> role_writes I c \<and> rule_writes I c"

lemma client_readsD:
  assumes "client_reads I c"
  shows "keeps I (acl_PolicyReadByName c n)" "keeps I (acl_PolicyList c)" "keeps I (acl_RoleReadByName c n)"
    "keeps I (acl_RoleList c)" "keeps I (acl_BindingRuleList c n)" "keeps I (acl_AuthMethodRead c n)"
    "keeps I (acl_TokenListFiltered c n)"
  using assms unfolding client_reads_def by blast+

lemma policy_writesD:
  assumes "policy_writes I c"
  shows "keeps I (acl_PolicyCreate c p)" "keeps I (acl_PolicyUpdate c p)" "keeps I (acl_PolicyDelete c i)"
  using assms unfolding policy_writes_def by blast+

lemma role_writesD:
  assumes "role_writes I c"
  shows "keeps I (acl_RoleCreate c r)" "keeps I (acl_RoleUpdate c r)" "keeps I (acl_RoleDelete c i)"
    "keeps I (acl_TokenDelete c i)"
  using assms unfolding role_writes_def by blast+

lemma rule_writesD:
  assumes "rule_writes I c"
  shows "keeps I (acl_BindingRuleCreate c b)" "keeps I (acl_BindingRuleUpdate c b)" "keeps I (acl_BindingRuleDelete c i)"
  using assms unfolding rule_writes_def by blast+

lemma client_keepsD:
  assumes "client_keeps I c"
  shows "client_reads I c" "policy_writes I c" "role_writes I c" "rule_writes I c"
  using assms by (simp_all add: client_keeps_def)

text \<open>A call followed by an operation that depends on its answer.\<close>

lemma keeps_bind: "keeps I f \<Longrightarrow> (\<And>a. keeps I (g a)) \<Longrightarrow> keeps I (\<lambda>w. case f w of (a, w1) \<Rightarrow> g a w1)"
  unfolding keeps_def by (auto split: prod.splits)

lemma keeps_result:
  assumes "keeps I f" "\<And>e. keeps I (g e)" "\<And>a. keeps I (h a)"
  shows "keeps I (\<lambda>w. case f w of (Inl e, w1) \<Rightarrow> g e w1 | (Inr a, w1) \<Rightarrow> h a w1)"
  using assms unfolding keeps_def by (auto split: prod.splits sum.splits)

lemma keeps_result_option:
  assumes "keeps I f" "\<And>e. keeps I (g e)" "keeps I h" "\<And>a. keeps I (k a)"
  shows "keeps I (\<lambda>w. case f w of (Inl e, w1) \<Rightarrow> g e w1 | (Inr None, w1) \<Rightarrow> h w1 | (Inr (Some a), w1) \<Rightarrow> k a w1)"
  using assms unfolding keeps_def by (auto split: prod.splits sum.splits option.splits)

lemma keeps_seq: "keeps I f \<Longrightarrow> keeps I g \<Longrightarrow> keeps I (\<lambda>w. and_then (f w) g)"
  using keeps_and_then[of I _ g] unfolding keeps_def by blast

lemma keeps_fold: "(\<And>x. keeps I (f x)) \<Longrightarrow> I w \<Longrightarrow> I (fold (\<lambda>x w. snd (f x w)) xs w)"
  by (induction xs arbitrary: w) (auto simp: keeps_def)

lemmas keeps_rules = keeps_skip keeps_if keeps_err_of keeps_for_each keeps_result keeps_result_option keeps_seq

lemma reads_keep:
  assumes "client_reads I (ac_client E)"
  shows "keeps I (readPolicy E n)" "keeps I (readRole E n)"
  using client_readsD(1,3)[OF assms, of n] unfolding keeps_def readPolicy_def readRole_def
  by (auto split: prod.splits sum.splits)

subsection \<open>Releases\<close>

lemma releaseBindingRule_keeps:
  "rule_writes I (ac_client E) \<Longrightarrow> keeps I (releaseBindingRule E ns r)"
  by (rule rule_release.release_keeps) (auto dest: rule_writesD)

lemma releasePolicy_keeps: "policy_writes I (ac_client E) \<Longrightarrow> keeps I (releasePolicy E ns p)"
  by (rule policy_release.release_keeps) (auto dest: policy_writesD)

lemma revokeRoleTokens_keeps:
  assumes c: "client_reads I (ac_client E)" "\<And>t. keeps I (acl_TokenDelete (ac_client E) t)" and w: "I w"
  shows "I (revokeRoleTokens E q w)"
proof (cases "acl_TokenListFiltered (ac_client E) (role_ID q) w")
  case (Pair r w1)
  have "I w1" by (rule keepsD[OF client_readsD(7)[OF c(1)] w Pair])
  then show ?thesis
    using keeps_fold[of I "acl_TokenDelete (ac_client E)", OF c(2)] by (cases r) (simp_all add: revokeRoleTokens_def Pair)
qed

lemma releaseRole_keeps:
  "client_reads I (ac_client E) \<Longrightarrow> role_writes I (ac_client E) \<Longrightarrow> keeps I (releaseRole E ns q)"
  by (rule role_release.release_keeps) (auto dest: role_writesD intro: revokeRoleTokens_keeps)

lemma for_each_lists_keep:
  assumes c: "client_reads I (ac_client E)"
  shows "(\<And>r. keeps I (f r)) \<Longrightarrow> keeps I (for_each_rule E cfg f)"
    and "(\<And>r. keeps I (g r)) \<Longrightarrow> keeps I (for_each_role E g)"
    and "(\<And>r. keeps I (h r)) \<Longrightarrow> keeps I (for_each_policy E h)"
  unfolding for_each_rule_def for_each_role_def for_each_policy_def
  by (intro keeps_rules client_readsD[OF c]; assumption)+

lemma removeLegacy_units:
  assumes c: "client_reads I (ac_client E)" "\<And>i. keeps I (acl_BindingRuleDelete (ac_client E) i)"
  shows "keeps I (removeLegacyBindingRules E cfg name ns keepDeclared failed)"
  unfolding removeLegacyBindingRules_def removeLegacyMethod_def removeLegacyRule_def
  by (intro keeps_rules client_readsD[OF c(1)] c(2))

lemmas removeLegacy_keeps = removeLegacy_units[OF _ rule_writesD(3)]

lemma deletes_keep:
  assumes c: "client_reads I (ac_client E)"
  shows "(\<And>r. keeps I (releaseBindingRule E ns r)) \<Longrightarrow> keeps I (deleteBindingRules E cfg name ns explicitName siblings)"
    and "(\<And>r. keeps I (releaseRole E ns r)) \<Longrightarrow> keeps I (deleteRoles E cfg name ns explicitName siblings)"
    and "(\<And>p. keeps I (releasePolicy E ns p)) \<Longrightarrow> keeps I (deletePolicies E cfg name ns explicitName siblings)"
  unfolding deleteBindingRules_def deleteRoles_def deleteRole_def deletePolicies_def deletePolicy_def Let_def
  by (intro keeps_rules for_each_lists_keep[OF c] reads_keep[OF c]; assumption)+

lemmas deleteBindingRules_keeps = deletes_keep(1)[OF _ releaseBindingRule_keeps]
lemmas deleteRoles_keeps = deletes_keep(2)[OF _ releaseRole_keeps]
lemmas deletePolicies_keeps = deletes_keep(3)[OF _ releasePolicy_keeps]

lemma deleteAclEntities_stages:
  assumes "keeps I (deleteBindingRules E cfg name ns explicitName siblings)"
    and "keeps I (removeLegacyBindingRules E cfg name ns False {})"
    and "keeps I (deleteRoles E cfg name ns explicitName siblings)"
    and "keeps I (deletePolicies E cfg name ns explicitName siblings)"
  shows "keeps I (deleteAclEntities E cfg name ns explicitName siblings)"
  unfolding deleteAclEntities_def by (intro keeps_seq assms)

lemma deleteAclEntities_keeps:
  assumes c: "client_keeps I (ac_client E)"
  shows "keeps I (deleteAclEntities E cfg name ns explicitName siblings)"
  by (intro deleteAclEntities_stages deleteBindingRules_keeps removeLegacy_keeps deleteRoles_keeps deletePolicies_keeps
      client_keepsD[OF c])

text \<open>The clean-up goes through the rules, the roles and the policies; each pass depends on the kind of names.\<close>

definition stale_rule :: "'w aclSettings \<Rightarrow> ACLConfig \<Rightarrow> string \<Rightarrow> string \<Rightarrow> bool \<Rightarrow> declaredEntities option \<Rightarrow> ACLBindingRule \<Rightarrow> 'w \<Rightarrow> goerror option \<times> 'w" where
  "stale_rule E cfg name ns explicitName siblings ebr w =
     (if explicitName then
        (if \<not> hasOwner (br_Description ebr) ns \<or> hasBindRule (Some (de_add cfg name ns True newDeclaredEntities)) (br_BindName ebr) \<or>
            hasBindRule siblings (br_BindName ebr)
         then (None, w) else releaseBindingRule E ns ebr w)
      else removeStaleRule E cfg name ns ebr w)"

definition stale_role :: "'w aclSettings \<Rightarrow> ACLConfig \<Rightarrow> string \<Rightarrow> string \<Rightarrow> bool \<Rightarrow> declaredEntities option \<Rightarrow> ACLRole \<Rightarrow> 'w \<Rightarrow> goerror option \<times> 'w" where
  "stale_role E cfg name ns explicitName siblings er w =
     (if explicitName then
        (if \<not> hasOwner (role_Description er) ns \<or> hasRole (Some (de_add cfg name ns True newDeclaredEntities)) (role_Name er) \<or>
            hasRole siblings (role_Name er)
         then (None, w) else releaseRole E ns er w)
      else removeStaleRole E cfg name ns er w)"

definition stale_policy :: "'w aclSettings \<Rightarrow> ACLConfig \<Rightarrow> string \<Rightarrow> string \<Rightarrow> bool \<Rightarrow> declaredEntities option \<Rightarrow> ACLPolicyListEntry \<Rightarrow> 'w \<Rightarrow> goerror option \<times> 'w" where
  "stale_policy E cfg name ns explicitName siblings ep w =
     (if explicitName then releaseStaleExplicitPolicy E ns (de_add cfg name ns True newDeclaredEntities) siblings ep w
      else removeStalePolicy E cfg name ns ep w)"

lemma removeStaleEntities_passes:
  "removeStaleEntities E cfg name ns explicitName siblings w =
     and_then (for_each_rule E cfg (stale_rule E cfg name ns explicitName siblings) w) (\<lambda>w.
     and_then (for_each_role E (stale_role E cfg name ns explicitName siblings) w) (\<lambda>w.
     for_each_policy E (stale_policy E cfg name ns explicitName siblings) w))"
  by (cases explicitName)
    (simp_all add: removeStaleEntities_def removeStaleExplicitEntities_def Let_def stale_rule_def [abs_def]
      stale_role_def [abs_def] stale_policy_def [abs_def])

lemma removeStaleEntities_stages:
  assumes "keeps I (for_each_rule E cfg (stale_rule E cfg name ns explicitName siblings))"
    and "keeps I (for_each_role E (stale_role E cfg name ns explicitName siblings))"
    and "keeps I (for_each_policy E (stale_policy E cfg name ns explicitName siblings))"
  shows "keeps I (removeStaleEntities E cfg name ns explicitName siblings)"
  unfolding removeStaleEntities_passes by (intro keeps_seq assms)

lemma stale_rules_units:
  assumes c: "client_reads I (ac_client E)" "\<And>r. keeps I (releaseBindingRule E ns r)" "\<And>i. keeps I (acl_BindingRuleDelete (ac_client E) i)"
  shows "keeps I (for_each_rule E cfg (stale_rule E cfg name ns explicitName siblings))"
  unfolding stale_rule_def removeStaleRule_def by (intro for_each_lists_keep[OF c(1)] keeps_rules c(2,3))

lemma stale_roles_units:
  assumes c: "client_reads I (ac_client E)" "\<And>r. keeps I (releaseRole E ns r)" "\<And>i. keeps I (acl_RoleDelete (ac_client E) i)"
  shows "keeps I (for_each_role E (stale_role E cfg name ns explicitName siblings))"
  unfolding stale_role_def removeStaleRole_def by (intro for_each_lists_keep[OF c(1)] keeps_rules c(2,3))

lemma stale_policies_units:
  assumes c: "client_reads I (ac_client E)" "\<And>p. keeps I (releasePolicy E ns p)" "\<And>i. keeps I (acl_PolicyDelete (ac_client E) i)"
  shows "keeps I (for_each_policy E (stale_policy E cfg name ns explicitName siblings))"
  unfolding stale_policy_def removeStalePolicy_def releaseStaleExplicitPolicy_def
  by (intro for_each_lists_keep[OF c(1)] keeps_rules reads_keep[OF c(1)] c(2,3))

lemma stale_rules_keep:
  assumes c: "client_reads I (ac_client E)" "rule_writes I (ac_client E)"
  shows "keeps I (for_each_rule E cfg (stale_rule E cfg name ns explicitName siblings))"
  by (intro stale_rules_units c(1) releaseBindingRule_keeps[OF c(2)] rule_writesD[OF c(2)])

lemma stale_roles_keep:
  assumes c: "client_reads I (ac_client E)" "role_writes I (ac_client E)"
  shows "keeps I (for_each_role E (stale_role E cfg name ns explicitName siblings))"
  by (intro stale_roles_units c(1) releaseRole_keeps[OF c] role_writesD[OF c(2)])

lemma stale_policies_keep:
  assumes c: "client_reads I (ac_client E)" "policy_writes I (ac_client E)"
  shows "keeps I (for_each_policy E (stale_policy E cfg name ns explicitName siblings))"
  by (intro stale_policies_units c(1) releasePolicy_keeps[OF c(2)] policy_writesD[OF c(2)])

lemma removeStaleEntities_keeps:
  assumes c: "client_keeps I (ac_client E)"
  shows "keeps I (removeStaleEntities E cfg name ns explicitName siblings)"
  by (intro removeStaleEntities_stages stale_rules_keep stale_roles_keep stale_policies_keep client_keepsD[OF c])

subsection \<open>Applications\<close>

lemma processPolicies_units:
  assumes c: "client_reads I (ac_client E)" and wr: "\<And>d e acc. keeps I (writePolicy E ns d e acc)"
  shows "keeps I (processPolicies E ps name ns explicitName)"
proof -
  have "keeps I (processPolicy E name ns explicitName p acc)" for p acc
    unfolding processPolicy_def Let_def
    by (cases acc) (auto intro!: keeps_result_option keeps_skip keeps_if wr reads_keep[OF c])
  then show ?thesis unfolding processPolicies_def by (intro loop_all_keeps)
qed

lemma processPolicies_keeps:
  assumes c: "client_reads I (ac_client E)" "policy_writes I (ac_client E)"
  shows "keeps I (processPolicies E ps name ns explicitName)"
proof (rule processPolicies_units[OF c(1)])
  show "keeps I (writePolicy E ns d e acc)" for d e acc
    unfolding writePolicy_def Let_def
    by (cases acc) (auto intro!: keeps_result keeps_skip keeps_if policy_writesD[OF c(2)])
qed

lemma getPolicyLinks_keeps:
  assumes c: "client_reads I (ac_client E)"
  shows "keeps I (getPolicyLinks_from E policies name ns explicitName pns)"
proof (induction pns)
  case (Cons pn pns)
  have "keeps I (resolvePolicyLink E policies name ns explicitName pn)"
    using reads_keep(1)[OF c, of pn] unfolding keeps_def resolvePolicyLink_def Let_def
    by (auto split: prod.splits sum.splits option.splits)
  with Cons show ?case unfolding keeps_def by (auto split: prod.splits)
qed (simp add: keeps_def)

lemma convertRoleAdapterToRole_keeps:
  "client_reads I (ac_client E) \<Longrightarrow> keeps I (convertRoleAdapterToRole E r policies name ns explicitName)"
  unfolding convertRoleAdapterToRole_def getPolicyLinks_def
  by (intro keeps_bind getPolicyLinks_keeps keeps_skip)

lemma processRoles_units:
  assumes c: "client_reads I (ac_client E)" and wr: "\<And>d e acc. keeps I (writeRole E ns d e acc)"
  shows "keeps I (processRoles E rs policies name ns explicitName)"
proof -
  have "keeps I (processRole E policies name ns explicitName r acc)" for r acc
    unfolding processRole_def
    by (cases acc) (auto intro!: keeps_bind[OF convertRoleAdapterToRole_keeps[OF c]] keeps_result_option keeps_skip keeps_if wr
        reads_keep[OF c])
  then show ?thesis unfolding processRoles_def by (intro loop_all_keeps)
qed

lemma processRoles_keeps:
  assumes c: "client_reads I (ac_client E)" "role_writes I (ac_client E)"
  shows "keeps I (processRoles E rs policies name ns explicitName)"
proof (rule processRoles_units[OF c(1)])
  show "keeps I (writeRole E ns d e acc)" for d e acc
    unfolding writeRole_def Let_def
    by (cases acc) (auto intro!: keeps_result keeps_skip keeps_if role_writesD[OF c(2)])
qed

lemma processBindRules_units:
  assumes c: "client_reads I (ac_client E)" and rule': "\<And>d st err. keeps I (applyBindRule E ns d st err)"
  shows "keeps I (processBindRules E bs name ns explicitName)"
proof -
  note rule = keepsD[OF rule']
  have resolve: "I w \<Longrightarrow> authMethodTypeResolver E am ms w = (r, ms', w') \<Longrightarrow> I w'" for am ms w r ms' w'
    using client_readsD(6)[OF c, of am] unfolding keeps_def authMethodTypeResolver_def Let_def
    by (auto split: option.splits prod.splits sum.splits if_splits)
  have "I w \<Longrightarrow> processBindRules_from E name ns explicitName bs ms st err w = (r, w') \<Longrightarrow> I w'" for ms st err w r w'
  proof (induction bs arbitrary: ms st err w)
    case (Cons b bs)
    obtain t ms1 w1 where res: "authMethodTypeResolver E (bindRuleAuthMethod (ac_authMethod E) b) ms w = (t, ms1, w1)"
      by (rule prod_cases3)
    have w1: "I w1" by (rule resolve[OF Cons.prems(1) res])
    show ?case
    proof (cases "bra_BindName b = [] \<or> (\<forall>ty. t \<noteq> Inr (ty, True))")
      case True
      then show ?thesis using Cons.prems Cons.IH res w1 by (cases t) (auto simp: Let_def split: if_splits)
    next
      case False
      then obtain ty where ty: "bra_BindName b \<noteq> []" "t = Inr (ty, True)" by blast
      obtain a w2 where app: "applyBindRule E ns
          (convertBindRuleAdapterToBindRule (ac_authMethod E) b name ns explicitName ty) st err w1 = (a, w2)" by (rule prod.exhaust)
      have "I w2" by (rule rule[OF w1 app])
      then show ?thesis using Cons.prems(2) Cons.IH res ty app by (cases a) (auto simp: Let_def)
    qed
  qed simp
  then show ?thesis unfolding processBindRules_def by (intro keepsI)
qed

lemma applyBindRule_keeps:
  assumes c: "client_reads I (ac_client E)"
    and "\<And>d spec ex. keeps I (acl_BindingRuleCreate (ac_client E) (d\<lparr>br_Description := withOwnerAdded spec ex ns\<rparr>))"
    and "\<And>d spec ex. keeps I (acl_BindingRuleUpdate (ac_client E) (d\<lparr>br_Description := withOwnerAdded spec ex ns\<rparr>))"
  shows "keeps I (applyBindRule E ns d st err)"
  unfolding applyBindRule_def Let_def
  by (intro keeps_result keeps_skip client_readsD[OF c]) (auto intro!: keeps_result keeps_skip keeps_if assms(2,3))

lemma processBindRules_keeps:
  assumes c: "client_reads I (ac_client E)" "rule_writes I (ac_client E)"
  shows "keeps I (processBindRules E bs name ns explicitName)"
  by (intro processBindRules_units applyBindRule_keeps c(1) rule_writesD[OF c(2)])

subsection \<open>The whole reconcile\<close>

definition kube_keeps :: "('w \<Rightarrow> bool) \<Rightarrow> ('o, 'w) kubeClient \<Rightarrow> bool" where
  "kube_keeps I k \<longleftrightarrow>
     (\<forall>ns n. keeps I (kube_Get k ns n)) \<and> (\<forall>ns. keeps I (kube_List k ns)) \<and>
     (\<forall>x. keeps I (kube_Update k x)) \<and> (\<forall>x. keeps I (kube_StatusUpdate k x))"

lemma kube_keepsD:
  assumes "kube_keeps I k"
  shows "keeps I (kube_Get k ns n)" "keeps I (kube_List k ns)" "keeps I (kube_Update k x)" "keeps I (kube_StatusUpdate k x)"
  using assms unfolding kube_keeps_def by blast+

lemma cru_attempt_keeps:
  assumes "kube_keeps I k" "\<And>x. keeps I (doUpdate x)"
  shows "keeps I (cru_attempt k n ns fn doUpdate)"
  using kube_keepsD(1)[OF assms(1), of ns n] assms(2) unfolding keeps_def cru_attempt_def
  by (auto split: prod.splits sum.splits option.splits) (metis snd_conv)+

lemma cru_keeps:
  assumes lib: "k8s_lib_ok lib" and k: "kube_keeps I k"
  shows "keeps I (UpdateWithRetry lib k n ns fn)" "keeps I (UpdateStatusWithRetry lib k n ns fn)"
proof -
  have "keeps I (cru_updateWithRetry lib k n ns fn doUpdate)" if u: "\<And>x. keeps I (doUpdate x)" for doUpdate
  proof (rule keepsI)
    fix w r w'
    assume w: "I w" and run: "cru_updateWithRetry lib k n ns fn doUpdate w = (r, w')"
    show "I w'"
      by (rule retry_runs_invariant[OF k8s_lib_retry[OF lib run[unfolded cru_updateWithRetry_def]]])
        (use w keepsD[OF cru_attempt_keeps[OF k u]] in auto)
  qed
  then show "keeps I (UpdateWithRetry lib k n ns fn)" "keeps I (UpdateStatusWithRetry lib k n ns fn)"
    unfolding UpdateWithRetry_def UpdateStatusWithRetry_def using kube_keepsD[OF k] by simp_all
qed

lemma siblings_if_keeps:
  assumes "kube_keeps I (ar_Client r)"
  shows "keeps I (siblings_if explicitName r cr)"
  using kube_keepsD(2)[OF assms] unfolding keeps_def siblings_if_def siblingEntities_def
  by (auto split: prod.splits sum.splits) (metis snd_conv)+

text \<open>The operations of a reconcile on Consul, for a configuration of the resource with this name and namespace.\<close>

definition acl_ops_keep :: "('w \<Rightarrow> bool) \<Rightarrow> 'w aclSettings \<Rightarrow> ACLConfig \<Rightarrow> string \<Rightarrow> string \<Rightarrow> bool" where
  "acl_ops_keep I E cfg name ns \<longleftrightarrow>
     (\<forall>b. keeps I (processPolicies E (cfg_Policies cfg) name ns b)) \<and>
     (\<forall>b P. keeps I (processRoles E (cfg_Roles cfg) P name ns b)) \<and>
     (\<forall>b. keeps I (processBindRules E (cfg_BindRules cfg) name ns b)) \<and>
     (\<forall>k f. keeps I (removeLegacyBindingRules E cfg name ns k f)) \<and>
     (\<forall>b sib. keeps I (deleteAclEntities E cfg name ns b sib)) \<and>
     (\<forall>b sib. keeps I (removeStaleEntities E cfg name ns b sib))"

lemma acl_ops_keepD:
  assumes "acl_ops_keep I E cfg name ns"
  shows "keeps I (processPolicies E (cfg_Policies cfg) name ns b)" "keeps I (processRoles E (cfg_Roles cfg) P name ns b)"
    "keeps I (processBindRules E (cfg_BindRules cfg) name ns b)" "keeps I (removeLegacyBindingRules E cfg name ns k f)"
    "keeps I (deleteAclEntities E cfg name ns b sib)" "keeps I (removeStaleEntities E cfg name ns b sib)"
  using assms unfolding acl_ops_keep_def by blast+

lemma applyACL_config_keeps:
  assumes k: "kube_keeps I (ar_Client r)"
    and ops: "acl_ops_keep I (ar_acl r) cfg (meta_Name (acr_Meta cr)) (meta_Namespace (acr_Meta cr))"
  shows "keeps I (applyACL_config r cr cfg b)"
proof -
  note op = acl_ops_keepD[OF ops]
  have cleanup: "keeps I (applyACL_cleanup r cr cfg b st)" for st
    unfolding applyACL_cleanup_def Let_def
    by (intro keeps_seq op keeps_result keeps_skip siblings_if_keeps[OF k])
  show ?thesis
    unfolding applyACL_config_def Let_def
    using op(1)[of b] op(2)[where b = b] op(3)[of b] cleanup
    unfolding keeps_def by (auto split: prod.splits) (metis snd_conv)+
qed

lemma acl_ensure_finalizer_keeps:
  assumes "k8s_lib_ok (ar_lib r)" "kube_keeps I (ar_Client r)"
  shows "keeps I (acl_ensure_finalizer r inst)"
  unfolding acl_ensure_finalizer_def acl_UpdateWithRetry_def
  by (intro keeps_if keeps_skip cru_keeps[OF assms])

text \<open>The operations on Consul for every configuration that a resource may have.\<close>

definition acl_all_ops_keep :: "('w \<Rightarrow> bool) \<Rightarrow> 'w ConsulACLReconciler \<Rightarrow> string \<Rightarrow> string \<Rightarrow> bool" where
  "acl_all_ops_keep I r name ns \<longleftrightarrow>
     (\<forall>json cfg. ar_Unmarshal r json = Inr cfg \<longrightarrow> acl_ops_keep I (ar_acl r) cfg name ns)"

lemma acl_sync_keeps:
  assumes lib: "k8s_lib_ok (ar_lib r)" and k: "kube_keeps I (ar_Client r)"
    and ops: "acl_all_ops_keep I r (meta_Name (acr_Meta inst)) (meta_Namespace (acr_Meta inst))"
    and w: "I w" and run: "acl_sync r inst w = Some (x, w')"
  shows "I w'"
proof -
  obtain st e u where a: "applyACL r inst w = Some ((st, e), u)"
    using run by (auto simp: acl_sync_def split: option.splits)
  then have "I u"
    using w ops
    by (auto simp: applyACL_def acl_all_ops_keep_def split: option.splits sum.splits
        intro: keepsD[OF applyACL_config_keeps[OF k] w])
  then show ?thesis
    using run a keepsD[OF cru_keeps(2)[OF lib k]]
    by (auto simp: acl_sync_def split: prod.splits option.splits if_splits)
qed

lemma deleteACL_keeps:
  assumes lib: "k8s_lib_ok (ar_lib r)" and k: "kube_keeps I (ar_Client r)"
    and ops: "acl_all_ops_keep I r (meta_Name (acr_Meta inst)) (meta_Namespace (acr_Meta inst))"
    and w: "I w" and run: "deleteACL r inst w = Some (x, w')"
  shows "I w'"
proof -
  obtain acl where acl: "aspec_ACL (acr_Spec inst) = Some acl" using run by (auto simp: deleteACL_def split: option.splits)
  obtain s w1 where s: "siblings_if (acl_ExplicitName acl) r inst w = (s, w1)" by (rule prod.exhaust)
  have w1: "I w1" by (rule keepsD[OF siblings_if_keeps[OF k] w s])
  show ?thesis
  proof (cases "\<exists>cfg sib. ar_Unmarshal r (acl_Json acl) = Inr cfg \<and> s = Inr sib")
    case False
    then show ?thesis
      using run acl s w w1 by (cases "ar_Unmarshal r (acl_Json acl)"; cases s) (auto simp: deleteACL_def)
  next
    case True
    then obtain cfg sib where cfg: "ar_Unmarshal r (acl_Json acl) = Inr cfg" "s = Inr sib" by blast
    obtain e w2 where d: "deleteAclEntities (ar_acl r) cfg (meta_Name (acr_Meta inst)) (meta_Namespace (acr_Meta inst))
        (acl_ExplicitName acl) sib w1 = (e, w2)" by (rule prod.exhaust)
    have ops': "acl_ops_keep I (ar_acl r) cfg (meta_Name (acr_Meta inst)) (meta_Namespace (acr_Meta inst))"
      using ops cfg(1) by (simp add: acl_all_ops_keep_def)
    have w2: "I w2" by (rule keepsD[OF acl_ops_keepD(5)[OF ops'] w1 d])
    then show ?thesis
      using run acl cfg s d keepsD[OF cru_keeps(1)[OF lib k] w2]
      by (cases e) (auto simp: deleteACL_def acl_UpdateWithRetry_def split: prod.splits)
  qed
qed

text \<open>The object that the API server returns is the one that was asked for.\<close>

definition kube_names :: "(ConsulACL, 'w) kubeClient \<Rightarrow> bool" where
  "kube_names k \<longleftrightarrow> (\<forall>ns n w inst w1. kube_Get k ns n w = (Inr inst, w1) \<longrightarrow>
     meta_Name (acr_Meta inst) = n \<and> meta_Namespace (acr_Meta inst) = ns)"

lemma ACL_Reconcile_keeps:
  assumes lib: "k8s_lib_ok (ar_lib r)" and k: "kube_keeps I (ar_Client r)" and names: "kube_names (ar_Client r)"
    and ops: "acl_all_ops_keep I r name namespace"
    and w: "I w" and run: "ACL_Reconcile r namespace name w = Some (x, w')"
  shows "I w'"
proof -
  obtain g w1 where g: "kube_Get (ar_Client r) namespace name w = (g, w1)" by (rule prod.exhaust)
  have w1: "I w1" by (rule keepsD[OF kube_keepsD(1)[OF k] w g])
  show ?thesis
  proof (cases g)
    case (Inl err)
    then show ?thesis using run g w1 by (auto simp: ACL_Reconcile_def split: if_splits)
  next
    case (Inr inst)
    have "meta_Name (acr_Meta inst) = name \<and> meta_Namespace (acr_Meta inst) = namespace"
      using names g Inr unfolding kube_names_def by blast
    then have ops': "acl_all_ops_keep I r (meta_Name (acr_Meta inst)) (meta_Namespace (acr_Meta inst))"
      using ops by simp
    show ?thesis
      using run g Inr w1
      by (auto simp: ACL_Reconcile_def split: if_splits prod.splits option.splits
          intro: keepsD[OF acl_ensure_finalizer_keeps[OF lib k] w1] acl_sync_keeps[OF lib k ops']
          deleteACL_keeps[OF lib k ops' w1])
  qed
qed

end
