(* ===== verification/ACL_Properties.thy ===== *)
theory ACL_Properties
  imports ACL_Keeps
begin

text \<open>
  Properties of the ConsulACL reconciler as a whole: the entities of siblings are protected, the finalizer
  stays until every entity was released, and a reconcile that reports success has done all stages.
\<close>

subsection \<open>Siblings\<close>

lemma addSibling_mono:
  "de_policies s \<subseteq> de_policies (addSibling r cr x s) \<and> de_roles s \<subseteq> de_roles (addSibling r cr x s) \<and>
   de_bindRules s \<subseteq> de_bindRules (addSibling r cr x s) \<and> (de_all s \<longrightarrow> de_all (addSibling r cr x s))"
  by (auto simp: addSibling_def de_add_def split: option.splits sum.splits)

lemma siblings_mono:
  "de_policies s \<subseteq> de_policies (fold (addSibling r cr) xs s) \<and> de_roles s \<subseteq> de_roles (fold (addSibling r cr) xs s) \<and>
   de_bindRules s \<subseteq> de_bindRules (fold (addSibling r cr) xs s) \<and> (de_all s \<longrightarrow> de_all (fold (addSibling r cr) xs s))"
proof (induction xs arbitrary: s)
  case (Cons x xs)
  then show ?case using addSibling_mono[of s r cr x] by (simp, meson subset_trans)
qed simp

text \<open>A resource that counts as a sibling of \<open>cr\<close>.\<close>

definition live_sibling :: "'w ConsulACLReconciler \<Rightarrow> ConsulACL \<Rightarrow> ConsulACL \<Rightarrow> ACL \<Rightarrow> bool" where
  "live_sibling r cr sib acl \<longleftrightarrow>
     meta_Name (acr_Meta sib) \<noteq> meta_Name (acr_Meta cr) \<and> IsZero (meta_DeletionTimestamp (acr_Meta sib)) \<and>
     aspec_ACL (acr_Spec sib) = Some acl \<and> isManaged r sib"

text \<open>All the names that a configuration declares are in a set of declared entities.\<close>

definition declares_all :: "declaredEntities \<Rightarrow> ACLConfig \<Rightarrow> string \<Rightarrow> string \<Rightarrow> bool \<Rightarrow> bool" where
  "declares_all s cfg name ns explicitName \<longleftrightarrow>
     list_all (hasPolicy (Some s)) (policy_names name ns explicitName (cfg_Policies cfg)) \<and>
     list_all (hasRole (Some s)) (role_names name ns explicitName (cfg_Roles cfg)) \<and>
     list_all (hasBindRule (Some s)) (rule_names name ns explicitName (cfg_BindRules cfg))"

definition declares_everything :: "declaredEntities \<Rightarrow> bool" where
  "declares_everything s \<longleftrightarrow> (\<forall>n. hasPolicy (Some s) n \<and> hasRole (Some s) n \<and> hasBindRule (Some s) n)"

lemma sibling_added:
  assumes "live_sibling r cr sib acl"
  shows "case ar_Unmarshal r (acl_Json acl) of
      Inl e \<Rightarrow> de_all (addSibling r cr sib s)
    | Inr cfg \<Rightarrow> addSibling r cr sib s =
        de_add cfg (meta_Name (acr_Meta sib)) (meta_Namespace (acr_Meta sib)) (acl_ExplicitName acl) s"
  using assms by (auto simp: live_sibling_def addSibling_def getAclConfig_def split: sum.splits)

lemma declares_all_mono:
  assumes "de_policies s \<subseteq> de_policies t" "de_roles s \<subseteq> de_roles t" "de_bindRules s \<subseteq> de_bindRules t" "de_all s \<longrightarrow> de_all t"
    and "declares_all s cfg name ns explicitName"
  shows "declares_all t cfg name ns explicitName"
  using assms by (auto simp: declares_all_def list_all_iff hasPolicy_def hasRole_def hasBindRule_def split: if_splits)

lemma declares_all_add: "declares_all (de_add cfg name ns explicitName s) cfg name ns explicitName"
  by (auto simp: declares_all_def list_all_iff hasPolicy_def hasRole_def hasBindRule_def de_add_def policy_names_def
      role_names_def rule_names_def)

text \<open>
  C9. The set of sibling entities that the clean-up and the deletion spare contains every name that a live
  managed resource of the namespace declares, and all names when the configuration of such a resource
  can not be parsed.
\<close>

theorem sibling_entities_protected:
  assumes "kube_List (ar_Client r) (meta_Namespace (acr_Meta cr)) w = (Inr items, w1)"
    and "sib \<in> set items" and "live_sibling r cr sib acl"
  shows "\<exists>s. siblingEntities r cr w = (Inr s, w1) \<and>
    (case ar_Unmarshal r (acl_Json acl) of
       Inl e \<Rightarrow> declares_everything s
     | Inr cfg \<Rightarrow> declares_all s cfg (meta_Name (acr_Meta sib)) (meta_Namespace (acr_Meta sib)) (acl_ExplicitName acl))"
proof -
  from assms(2) obtain as bs where items: "items = as @ sib # bs" by (auto simp: in_set_conv_decomp)
  define s0 where "s0 = fold (addSibling r cr) as newDeclaredEntities"
  define s where "s = fold (addSibling r cr) bs (addSibling r cr sib s0)"
  have run: "siblingEntities r cr w = (Inr s, w1)"
    using assms(1) by (simp add: siblingEntities_def items s_def s0_def)
  note mono = siblings_mono[of "addSibling r cr sib s0" r cr bs, folded s_def]
  have "case ar_Unmarshal r (acl_Json acl) of
       Inl e \<Rightarrow> declares_everything s
     | Inr cfg \<Rightarrow> declares_all s cfg (meta_Name (acr_Meta sib)) (meta_Namespace (acr_Meta sib)) (acl_ExplicitName acl)"
  proof (cases "ar_Unmarshal r (acl_Json acl)")
    case (Inl e)
    with sibling_added[OF assms(3), of s0] mono show ?thesis
      by (simp add: declares_everything_def hasPolicy_def hasRole_def hasBindRule_def)
  next
    case (Inr cfg)
    with sibling_added[OF assms(3), of s0]
    have "declares_all (addSibling r cr sib s0) cfg (meta_Name (acr_Meta sib)) (meta_Namespace (acr_Meta sib)) (acl_ExplicitName acl)"
      by (simp add: declares_all_add)
    with Inr declares_all_mono mono show ?thesis by fastforce
  qed
  with run show ?thesis by blast
qed

subsection \<open>A small cluster\<close>

text \<open>
  A world with an in-memory Consul, a list of ConsulACL resources and the list of the updates they received. The decoder
  knows one configuration.
\<close>

record acl_cluster =
  cl_consul :: aclWorld
  cl_crs :: "ConsulACL list"
  cl_updates :: "ConsulACL list"

definition on_consul :: "(aclWorld \<Rightarrow> 'a \<times> aclWorld) \<Rightarrow> acl_cluster \<Rightarrow> 'a \<times> acl_cluster" where
  "on_consul f w = (case f (cl_consul w) of (a, c) \<Rightarrow> (a, w\<lparr>cl_consul := c\<rparr>))"

definition cluster_acl :: "acl_cluster consulACLClient" where
  "cluster_acl =
     \<lparr>acl_PolicyCreate = (\<lambda>p. on_consul (acl_PolicyCreate mem_acl p)),
      acl_PolicyUpdate = (\<lambda>p. on_consul (acl_PolicyUpdate mem_acl p)),
      acl_PolicyReadByName = (\<lambda>n. on_consul (acl_PolicyReadByName mem_acl n)),
      acl_PolicyDelete = (\<lambda>i. on_consul (acl_PolicyDelete mem_acl i)),
      acl_RoleCreate = (\<lambda>p. on_consul (acl_RoleCreate mem_acl p)),
      acl_RoleUpdate = (\<lambda>p. on_consul (acl_RoleUpdate mem_acl p)),
      acl_RoleReadByName = (\<lambda>n. on_consul (acl_RoleReadByName mem_acl n)),
      acl_RoleList = on_consul (acl_RoleList mem_acl),
      acl_RoleDelete = (\<lambda>i. on_consul (acl_RoleDelete mem_acl i)),
      acl_PolicyList = on_consul (acl_PolicyList mem_acl),
      acl_BindingRuleCreate = (\<lambda>p. on_consul (acl_BindingRuleCreate mem_acl p)),
      acl_BindingRuleUpdate = (\<lambda>p. on_consul (acl_BindingRuleUpdate mem_acl p)),
      acl_BindingRuleList = (\<lambda>m. on_consul (acl_BindingRuleList mem_acl m)),
      acl_BindingRuleDelete = (\<lambda>i. on_consul (acl_BindingRuleDelete mem_acl i)),
      acl_AuthMethodCreate = (\<lambda>m. on_consul (acl_AuthMethodCreate mem_acl m)),
      acl_AuthMethodUpdate = (\<lambda>m. on_consul (acl_AuthMethodUpdate mem_acl m)),
      acl_AuthMethodRead = (\<lambda>n. on_consul (acl_AuthMethodRead mem_acl n)),
      acl_TokenListFiltered = (\<lambda>r. on_consul (acl_TokenListFiltered mem_acl r)),
      acl_TokenDelete = (\<lambda>t. on_consul (acl_TokenDelete mem_acl t))\<rparr>"

definition acl_cluster_kube :: "(ConsulACL, acl_cluster) kubeClient" where
  "acl_cluster_kube =
     \<lparr>kube_Get = (\<lambda>ns n w. case find (\<lambda>x. meta_Name (acr_Meta x) = n) (cl_crs w) of
        None \<Rightarrow> (Inl (K8sNotFound n), w) | Some x \<Rightarrow> (Inr x, w)),
      kube_List = (\<lambda>ns w. (Inr (cl_crs w), w)),
      kube_Update = (\<lambda>x w. (None, w\<lparr>cl_crs := map (\<lambda>y. if meta_Name (acr_Meta y) = meta_Name (acr_Meta x) then x else y) (cl_crs w),
        cl_updates := cl_updates w @ [x]\<rparr>)),
      kube_StatusUpdate = (\<lambda>x w. (None, w\<lparr>cl_crs := map (\<lambda>y. if meta_Name (acr_Meta y) = meta_Name (acr_Meta x) then x else y) (cl_crs w)\<rparr>))\<rparr>"

definition demo_config :: ACLConfig where
  "demo_config = \<lparr>cfg_Policies = [demo_policy [] ''d''], cfg_Roles = [], cfg_BindRules = []\<rparr>"

definition acl_demo :: "acl_cluster ConsulACLReconciler" where
  "acl_demo =
     \<lparr>ar_lib = demo_lib, ar_Client = acl_cluster_kube,
      ar_acl = \<lparr>ac_client = cluster_acl, ac_authMethod = ''m2m'', ac_legacyAuthMethods = [], ac_range = (\<lambda>ks. ks)\<rparr>,
      ar_Unmarshal = (\<lambda>s. if s = ''ok'' then Inr demo_config else Inl (PlainError ''invalid character'')),
      ar_OwnNamespace = ''consul'', ar_Strict = False, ar_Group = ''netcracker.com'', ar_periodTime = 60\<rparr>"

definition demo_cr :: "string \<Rightarrow> string \<Rightarrow> int option \<Rightarrow> ConsulACL" where
  "demo_cr name json deletion =
     \<lparr>acr_Meta = \<lparr>meta_Name = name, meta_Namespace = ''ns1'', meta_Generation = 1,
        meta_Finalizers = [''netcracker.com/consulaclconfigurator-controller''], meta_DeletionTimestamp = deletion\<rparr>,
      acr_Spec = \<lparr>aspec_OperatorNamespace = [],
        aspec_ACL = Some \<lparr>acl_Json = json, acl_Name = name, acl_CommonReconcile = [], acl_ExplicitName = True\<rparr>\<rparr>,
      acr_Status = \<lparr>ast_PoliciesStatus = [], ast_RolesStatus = [], ast_BindRulesStatus = [], ast_GeneralStatus = [], ast_Conditions = []\<rparr>\<rparr>"

definition demo_cluster :: "int option \<Rightarrow> acl_cluster" where
  "demo_cluster deletion =
     \<lparr>cl_consul = mem_world\<lparr>aw_policies := [demo_policy ''p1'' ''d [consul-acl-owners: ns1]'']\<rparr>,
      cl_crs = [demo_cr ''app'' ''ok'' deletion, demo_cr ''other'' ''ok'' None], cl_updates = []\<rparr>"

theorem sibling_entities_protected_witness:
  "\<exists>s. siblingEntities acl_demo (demo_cr ''app'' ''ok'' (Some 5)) (demo_cluster (Some 5)) = (Inr s, demo_cluster (Some 5)) \<and>
    declares_all s demo_config ''other'' ''ns1'' True"
proof -
  let ?w = "demo_cluster (Some 5)" and ?sib = "demo_cr ''other'' ''ok'' None"
  have "kube_List (ar_Client acl_demo) (meta_Namespace (acr_Meta (demo_cr ''app'' ''ok'' (Some 5)))) ?w = (Inr (cl_crs ?w), ?w)"
    by (simp add: acl_demo_def acl_cluster_kube_def)
  moreover have "?sib \<in> set (cl_crs ?w)" by (simp add: demo_cluster_def)
  moreover have "live_sibling acl_demo (demo_cr ''app'' ''ok'' (Some 5)) ?sib
      \<lparr>acl_Json = ''ok'', acl_Name = ''other'', acl_CommonReconcile = [], acl_ExplicitName = True\<rparr>"
    by (simp add: live_sibling_def demo_cr_def IsZero_def isManaged_def isOwnedByOperator_def acl_demo_def)
  ultimately show ?thesis
    using sibling_entities_protected[of acl_demo "demo_cr ''app'' ''ok'' (Some 5)" ?w "cl_crs ?w" ?w ?sib]
    by (fastforce simp: acl_demo_def demo_cr_def)
qed

subsection \<open>The finalizer\<close>

text \<open>The requests to update a resource, as the API server has received them.\<close>

definition acl_update_observer :: "'w ConsulACLReconciler \<Rightarrow> ('w \<Rightarrow> ConsulACL list) \<Rightarrow> bool" where
  "acl_update_observer r updates \<longleftrightarrow>
     (\<forall>us. client_keeps (\<lambda>w. updates w = us) (ac_client (ar_acl r))) \<and>
     (\<forall>ns n w. updates (snd (kube_Get (ar_Client r) ns n w)) = updates w) \<and>
     (\<forall>ns w. updates (snd (kube_List (ar_Client r) ns w)) = updates w) \<and>
     (\<forall>x w. updates (snd (kube_StatusUpdate (ar_Client r) x w)) = updates w) \<and>
     (\<forall>x w. updates (snd (kube_Update (ar_Client r) x w)) = updates w @ [x])"

lemma observerD:
  assumes "acl_update_observer r updates"
  shows "client_keeps (\<lambda>w. updates w = us) (ac_client (ar_acl r))"
    and "kube_Get (ar_Client r) ns n w = (g, w') \<Longrightarrow> updates w' = updates w"
    and "kube_List (ar_Client r) ns w = (l, w') \<Longrightarrow> updates w' = updates w"
    and "kube_StatusUpdate (ar_Client r) x w = (e, w') \<Longrightarrow> updates w' = updates w"
    and "kube_Update (ar_Client r) x w = (e, w') \<Longrightarrow> updates w' = updates w @ [x]"
  using assms unfolding acl_update_observer_def by (blast, (metis snd_conv)+)

lemma siblings_if_updates:
  assumes "acl_update_observer r updates" and "siblings_if explicitName r cr w = (x, w')"
  shows "updates w' = updates w"
  using assms(2) observerD(3)[OF assms(1)]
  by (auto simp: siblings_if_def siblingEntities_def split: if_splits prod.splits sum.splits)

lemma applyACL_updates:
  assumes obs: "acl_update_observer r updates" and run: "applyACL r cr w = Some (x, w')"
  shows "updates w' = updates w"
proof -
  let ?I = "\<lambda>v. updates v = updates w"
  note c = client_keepsD[OF observerD(1)[OF obs, of "updates w"]]
  have cleanup: "keeps ?I (applyACL_cleanup r cr cfg explicitName st)" for cfg explicitName st
    unfolding applyACL_cleanup_def Let_def
  proof (intro keeps_seq removeLegacy_keeps[OF c(1,4)] keeps_result keeps_skip
      removeStaleEntities_keeps[OF observerD(1)[OF obs]])
    show "keeps ?I (siblings_if explicitName r cr)"
      using siblings_if_updates[OF obs] by (intro keepsI) metis
  qed
  have "keeps ?I (applyACL_config r cr cfg explicitName)" for cfg explicitName
    unfolding applyACL_config_def Let_def
    using processPolicies_keeps[OF c(1,2)] processRoles_keeps[OF c(1,3)] processBindRules_keeps[OF c(1,4)] cleanup
    unfolding keeps_def by (auto split: prod.splits) (metis snd_conv)+
  then show ?thesis
    using run unfolding keeps_def by (auto simp: applyACL_def split: option.splits sum.splits) (metis snd_conv)
qed

lemma cru_attempt_updates:
  assumes obs: "acl_update_observer r updates" and run: "cru_attempt (ar_Client r) n ns fn (kube_Update (ar_Client r)) w = (e, w')"
  shows "updates w' = updates w \<or> (\<exists>v cr. updates w' = updates w @ [fn v cr])"
  using run by (auto simp: cru_attempt_def split: prod.splits sum.splits option.splits if_splits
      dest!: observerD(2)[OF obs] observerD(5)[OF obs]) blast+

lemma acl_Update_updates:
  assumes lib: "k8s_lib_ok (ar_lib r)" and obs: "acl_update_observer r updates"
    and run: "acl_UpdateWithRetry r inst fn w = (res, w')" and P: "\<And>w cr. P (fn w cr)"
  shows "\<exists>new. updates w' = updates w @ new \<and> (\<forall>x \<in> set new. P x)"
proof (rule retry_runs_invariant[where I = "\<lambda>x. \<exists>new. updates x = updates w @ new \<and> (\<forall>x \<in> set new. P x)",
      OF k8s_lib_retry[OF lib run[unfolded acl_UpdateWithRetry_def UpdateWithRetry_def cru_updateWithRetry_def]]])
  fix w1 r1 w2
  assume I: "\<exists>new. updates w1 = updates w @ new \<and> (\<forall>x \<in> set new. P x)"
    and f: "cru_attempt (ar_Client r) (meta_Name (acr_Meta inst)) (meta_Namespace (acr_Meta inst)) fn (kube_Update (ar_Client r)) w1 = (r1, w2)"
  from I obtain new where new: "updates w1 = updates w @ new" "\<forall>x \<in> set new. P x" by blast
  from cru_attempt_updates[OF obs f] show "\<exists>new. updates w2 = updates w @ new \<and> (\<forall>x \<in> set new. P x)"
  proof (elim disjE exE)
    fix v cr
    assume "updates w2 = updates w1 @ [fn v cr]"
    then have "updates w2 = updates w @ (new @ [fn v cr])" "\<forall>x \<in> set (new @ [fn v cr]). P x" using new P by simp_all
    then show ?thesis by blast
  qed (use new in auto)
qed simp

lemma acl_Status_updates:
  assumes lib: "k8s_lib_ok (ar_lib r)" and obs: "acl_update_observer r updates"
    and run: "UpdateStatusWithRetry (ar_lib r) (ar_Client r) n ns fn w = (res, w')"
  shows "updates w' = updates w"
proof (rule retry_runs_invariant[where I = "\<lambda>x. updates x = updates w",
      OF k8s_lib_retry[OF lib run[unfolded UpdateStatusWithRetry_def cru_updateWithRetry_def]]])
  fix w1 r1 w2
  assume "updates w1 = updates w" and "cru_attempt (ar_Client r) n ns fn (kube_StatusUpdate (ar_Client r)) w1 = (r1, w2)"
  then show "updates w2 = updates w"
    by (auto simp: cru_attempt_def split: prod.splits sum.splits option.splits if_splits
        dest!: observerD(2)[OF obs] observerD(4)[OF obs])
qed simp

lemma acl_ensure_finalizer_updates:
  assumes lib: "k8s_lib_ok (ar_lib r)" and obs: "acl_update_observer r updates" and fin: "acl_ensure_finalizer r inst w1 = (e, w2)"
  shows "\<exists>new. updates w2 = updates w1 @ new \<and> (\<forall>x \<in> set new. consulAclFinalizer r \<in> set (meta_Finalizers (acr_Meta x)))"
proof (cases "Contains (consulAclFinalizer r) (meta_Finalizers (acr_Meta inst))")
  case True
  with fin show ?thesis by (simp add: acl_ensure_finalizer_def)
next
  case False
  with fin have "acl_UpdateWithRetry r inst (\<lambda>_. acl_map_Finalizers (lib_AddFinalizer (ar_lib r) (consulAclFinalizer r))) w1 = (e, w2)"
    by (simp add: acl_ensure_finalizer_def)
  then show ?thesis
    by (rule acl_Update_updates[OF lib obs]) (use lib in \<open>simp add: acl_map_Finalizers_def k8s_lib_ok_def\<close>)
qed

lemma acl_sync_updates:
  assumes "k8s_lib_ok (ar_lib r)" and "acl_update_observer r updates" and "acl_sync r inst w = Some (x, w')"
  shows "updates w' = updates w"
  using assms(3) by (auto simp: acl_sync_def split: option.splits prod.splits if_splits
    dest!: applyACL_updates[OF assms(2)] acl_Status_updates[OF assms(1,2)])

text \<open>
  C10. Every update that a reconcile sends without the finalizer comes after a complete release: the resource
  was being deleted, its configuration and its siblings were read, and the release of all its entities
  ended without an error. A live resource, and a deletion that failed, never loses the finalizer.
\<close>

theorem acl_finalizer_kept_until_released:
  assumes lib: "k8s_lib_ok (ar_lib r)" and obs: "acl_update_observer r updates"
    and run: "ACL_Reconcile r namespace name w = Some (x, w')"
    and sent: "updates w' = updates w @ new" "cr \<in> set new"
    and nofin: "consulAclFinalizer r \<notin> set (meta_Finalizers (acr_Meta cr))"
  shows "\<exists>inst w1 acl cfg sib w2 w3.
    kube_Get (ar_Client r) namespace name w = (Inr inst, w1) \<and>
    \<not> IsZero (meta_DeletionTimestamp (acr_Meta inst)) \<and> aspec_ACL (acr_Spec inst) = Some acl \<and>
    ar_Unmarshal r (acl_Json acl) = Inr cfg \<and> siblings_if (acl_ExplicitName acl) r inst w1 = (Inr sib, w2) \<and>
    deleteAclEntities (ar_acl r) cfg (meta_Name (acr_Meta inst)) (meta_Namespace (acr_Meta inst))
      (acl_ExplicitName acl) sib w2 = (None, w3)"
proof -
  have sent': "updates w' \<noteq> updates w" using sent by auto
  obtain g w1 where get: "kube_Get (ar_Client r) namespace name w = (g, w1)" by (rule prod.exhaust)
  have w1: "updates w1 = updates w" by (rule observerD(2)[OF obs get])
  from run get sent' w1 obtain inst where g: "g = Inr inst" by (cases g) (auto simp: ACL_Reconcile_def split: if_splits)
  show ?thesis
  proof (cases "IsZero (meta_DeletionTimestamp (acr_Meta inst))")
    case True
    obtain e w2 where fin: "acl_ensure_finalizer r inst w1 = (e, w2)" by (rule prod.exhaust)
    have "updates w' = updates w2"
      using run get g True fin acl_sync_updates[OF lib obs] by (cases e) (auto simp: ACL_Reconcile_def)
    moreover note acl_ensure_finalizer_updates[OF lib obs fin]
    ultimately show ?thesis using sent w1 nofin by auto
  next
    case False
    with run get g sent' w1 have "deleteACL r inst w1 = Some (x, w')"
      by (auto simp: ACL_Reconcile_def split: if_splits)
    then obtain acl where acl: "aspec_ACL (acr_Spec inst) = Some acl"
      and del: "deleteACL r inst w1 = Some (x, w')" by (auto simp: deleteACL_def split: option.splits)
    have "\<exists>cfg sib w2 w3. ar_Unmarshal r (acl_Json acl) = Inr cfg \<and> siblings_if (acl_ExplicitName acl) r inst w1 = (Inr sib, w2) \<and>
      deleteAclEntities (ar_acl r) cfg (meta_Name (acr_Meta inst)) (meta_Namespace (acr_Meta inst))
        (acl_ExplicitName acl) sib w2 = (None, w3)"
      using del acl sent' w1 siblings_if_updates[OF obs] deleteAclEntities_keeps[OF observerD(1)[OF obs]]
      unfolding keeps_def deleteACL_def
      by (auto split: sum.splits prod.splits option.splits) (metis snd_conv)+
    with get g False acl show ?thesis by blast
  qed
qed

lemma acl_demo_observer: "acl_update_observer acl_demo cl_updates"
  by (auto simp: acl_update_observer_def client_keeps_def client_reads_def policy_writes_def
      role_writes_def rule_writes_def keeps_def acl_demo_def cluster_acl_def acl_cluster_kube_def
      on_consul_def split: prod.splits option.splits)

theorem acl_finalizer_kept_until_released_witness:
  "\<exists>w1 sib w2 w3.
    siblings_if True acl_demo (demo_cr ''app'' ''ok'' (Some 5)) w1 = (Inr sib, w2) \<and>
    deleteAclEntities (ar_acl acl_demo) demo_config ''app'' ''ns1'' True sib w2 = (None, w3)"
proof -
  let ?w = "demo_cluster (Some 5)"
  have "map_option (\<lambda>y. map (\<lambda>c. meta_Finalizers (acr_Meta c)) (cl_updates (snd y))) (ACL_Reconcile acl_demo ''ns1'' ''app'' ?w) = Some [[]]"
    by code_simp
  then obtain x w' where run: "ACL_Reconcile acl_demo ''ns1'' ''app'' ?w = Some (x, w')"
    and fins: "map (\<lambda>c. meta_Finalizers (acr_Meta c)) (cl_updates w') = [[]]"
    by (cases "ACL_Reconcile acl_demo ''ns1'' ''app'' ?w") auto
  from fins obtain cr where cr: "cl_updates w' = [cr]" "meta_Finalizers (acr_Meta cr) = []" by auto
  have "k8s_lib_ok (ar_lib acl_demo)" by (simp add: acl_demo_def demo_lib_ok)
  moreover have "cl_updates w' = cl_updates ?w @ [cr]" using cr(1) by (simp add: demo_cluster_def)
  ultimately obtain inst w1 acl cfg sib w2 w3 where
    get: "kube_Get (ar_Client acl_demo) ''ns1'' ''app'' ?w = (Inr inst, w1)"
    and acl: "aspec_ACL (acr_Spec inst) = Some acl" and cfg: "ar_Unmarshal acl_demo (acl_Json acl) = Inr cfg"
    and del: "siblings_if (acl_ExplicitName acl) acl_demo inst w1 = (Inr sib, w2)"
      "deleteAclEntities (ar_acl acl_demo) cfg (meta_Name (acr_Meta inst)) (meta_Namespace (acr_Meta inst))
        (acl_ExplicitName acl) sib w2 = (None, w3)"
    using acl_finalizer_kept_until_released[OF _ acl_demo_observer run, of "[cr]" cr] cr(2) by auto
  have inst: "inst = demo_cr ''app'' ''ok'' (Some 5)"
    using get by (simp add: acl_demo_def acl_cluster_kube_def demo_cluster_def demo_cr_def)
  then have "cfg = demo_config" "acl_ExplicitName acl = True" using acl cfg by (auto simp: acl_demo_def demo_cr_def)
  then show ?thesis using del inst by (auto simp: demo_cr_def)
qed

subsection \<open>A reconcile that reports success\<close>

lemma applyACL_success:
  assumes run: "applyACL r cr w = Some ((status, None), w')" and acl: "aspec_ACL (acr_Spec cr) = Some acl"
  defines "name \<equiv> meta_Name (acr_Meta cr)" and "ns \<equiv> meta_Namespace (acr_Meta cr)"
  shows "\<exists>cfg sp sr sb w1. ar_Unmarshal r (acl_Json acl) = Inr cfg \<and>
    all_reported (policy_names name ns (acl_ExplicitName acl) (cfg_Policies cfg)) sp None \<and>
    all_reported (role_names name ns (acl_ExplicitName acl) (cfg_Roles cfg)) sr None \<and>
    (list_all plain_name (rule_names name ns (acl_ExplicitName acl) (cfg_BindRules cfg)) \<longrightarrow>
       rules_reported (rule_names name ns (acl_ExplicitName acl) (cfg_BindRules cfg)) sb None) \<and>
    status = \<lparr>as_policies = statusString r sp, as_roles = statusString r sr, as_bindRules = statusString r sb\<rparr> \<and>
    applyACL_cleanup r cr cfg (acl_ExplicitName acl) sb w1 = (None, w')"
proof -
  let ?ex = "acl_ExplicitName acl"
  from run acl obtain cfg where cfg: "ar_Unmarshal r (acl_Json acl) = Inr cfg"
    and run': "applyACL_config r cr cfg ?ex w = ((status, None), w')"
    by (auto simp: applyACL_def split: sum.splits)
  then obtain sp pr w1 sr w2 sb w3 where
    p: "processPolicies (ar_acl r) (cfg_Policies cfg) name ns ?ex w = ((sp, pr, None), w1)"
    and q: "processRoles (ar_acl r) (cfg_Roles cfg) pr name ns ?ex w1 = ((sr, None), w2)"
    and b: "processBindRules (ar_acl r) (cfg_BindRules cfg) name ns ?ex w2 = ((sb, None), w3)"
    and c: "applyACL_cleanup r cr cfg ?ex sb w3 = (None, w')"
    and st: "status = \<lparr>as_policies = statusString r sp, as_roles = statusString r sr, as_bindRules = statusString r sb\<rparr>"
    by (auto simp: applyACL_config_def Let_def name_def ns_def split: prod.splits if_splits)
  have "all_reported (policy_names name ns ?ex (cfg_Policies cfg)) sp None"
    using processPolicies_reported[where E = "ar_acl r" and policies = "cfg_Policies cfg" and name = name and ns = ns and explicitName = ?ex and w = w] p by simp
  moreover have "all_reported (role_names name ns ?ex (cfg_Roles cfg)) sr None"
    using processRoles_reported[where E = "ar_acl r" and roles = "cfg_Roles cfg" and policies = pr and name = name and ns = ns and explicitName = ?ex and w = w1] q by simp
  ultimately show ?thesis using cfg c st processBindRules_reported[OF _ b] by blast
qed

text \<open>
  C12. With a period of 1 to 9223372036 seconds, a reconcile of a live resource that returns without an error and without a requeue has gone through all
  stages: every named policy and role was written or failed with an error that a retry does not cure,
  so were the binding rules, the migration and the clean-up ended without an error, and the last
  attempt of the status update stored the outcomes with the condition Successful (or found the resource gone).
\<close>

theorem acl_reconcile_no_silent_failure:
  assumes lib: "k8s_lib_ok (ar_lib r)" and "period_ok (ar_periodTime r)"
    and get: "kube_Get (ar_Client r) namespace name w = (Inr inst, w1)"
    and live: "IsZero (meta_DeletionTimestamp (acr_Meta inst))"
    and run: "ACL_Reconcile r namespace name w = Some ((res, None), w')" and "res_RequeueAfter res \<le> 0"
  shows "\<exists>acl cfg sp sr sb w2 w3 w4.
    aspec_ACL (acr_Spec inst) = Some acl \<and> ar_Unmarshal r (acl_Json acl) = Inr cfg \<and>
    all_reported (policy_names (meta_Name (acr_Meta inst)) (meta_Namespace (acr_Meta inst)) (acl_ExplicitName acl) (cfg_Policies cfg)) sp None \<and>
    all_reported (role_names (meta_Name (acr_Meta inst)) (meta_Namespace (acr_Meta inst)) (acl_ExplicitName acl) (cfg_Roles cfg)) sr None \<and>
    (list_all plain_name (rule_names (meta_Name (acr_Meta inst)) (meta_Namespace (acr_Meta inst)) (acl_ExplicitName acl) (cfg_BindRules cfg)) \<longrightarrow>
       rules_reported (rule_names (meta_Name (acr_Meta inst)) (meta_Namespace (acr_Meta inst)) (acl_ExplicitName acl) (cfg_BindRules cfg)) sb None) \<and>
    applyACL_cleanup r inst cfg (acl_ExplicitName acl) sb w2 = (None, w3) \<and>
    cru_attempt (ar_Client r) (meta_Name (acr_Meta inst)) (meta_Namespace (acr_Meta inst))
      (acl_new_status r \<lparr>as_policies = statusString r sp, as_roles = statusString r sr, as_bindRules = statusString r sb\<rparr> None)
      (kube_StatusUpdate (ar_Client r)) w4 = (None, w')"
proof -
  have period: "acl_requeue r \<noteq> res" using assms(2,6) time_seconds_ok[OF assms(2)] by (auto simp: acl_requeue_def period_ok_def)
  from run get live obtain wa where "acl_sync r inst wa = Some ((res, None), w')"
    by (auto simp: ACL_Reconcile_def split: option.splits prod.splits)
  then obtain status wb where ap: "applyACL r inst wa = Some ((status, None), wb)"
    and upd: "UpdateStatusWithRetry (ar_lib r) (ar_Client r) (meta_Name (acr_Meta inst)) (meta_Namespace (acr_Meta inst))
      (acl_new_status r status None) wb = (None, w')"
    using period by (auto simp: acl_sync_def split: option.splits prod.splits if_splits)
  obtain w4 where last: "cru_attempt (ar_Client r) (meta_Name (acr_Meta inst)) (meta_Namespace (acr_Meta inst))
      (acl_new_status r status None) (kube_StatusUpdate (ar_Client r)) w4 = (None, w')"
    using retry_runs_final[OF k8s_lib_retry[OF lib upd[unfolded UpdateStatusWithRetry_def cru_updateWithRetry_def]], of "\<lambda>_. True"]
    by auto
  from ap obtain acl where acl: "aspec_ACL (acr_Spec inst) = Some acl" by (auto simp: applyACL_def split: option.splits)
  from applyACL_success[OF ap acl] last acl show ?thesis by blast
qed

theorem acl_reconcile_no_silent_failure_witness:
  "\<exists>sp sr sb w2 w3.
    all_reported [''shared''] sp None \<and> applyACL_cleanup acl_demo (demo_cr ''app'' ''ok'' None) demo_config True sb w2 = (None, w3) \<and>
    (\<exists>w4 w'. cru_attempt acl_cluster_kube ''app'' ''ns1''
      (acl_new_status acl_demo \<lparr>as_policies = statusString acl_demo sp, as_roles = statusString acl_demo sr,
        as_bindRules = statusString acl_demo sb\<rparr> None) (kube_StatusUpdate acl_cluster_kube) w4 = (None, w'))"
proof -
  let ?w = "demo_cluster None" and ?cr = "demo_cr ''app'' ''ok'' None"
  have "map_option fst (ACL_Reconcile acl_demo ''ns1'' ''app'' ?w) = Some (noRequeue, None)" by code_simp
  then obtain w' where run: "ACL_Reconcile acl_demo ''ns1'' ''app'' ?w = Some ((noRequeue, None), w')"
    by (cases "ACL_Reconcile acl_demo ''ns1'' ''app'' ?w") auto
  have lib: "k8s_lib_ok (ar_lib acl_demo)" by (simp add: acl_demo_def demo_lib_ok)
  have get: "kube_Get (ar_Client acl_demo) ''ns1'' ''app'' ?w = (Inr ?cr, ?w)"
    by (simp add: acl_demo_def acl_cluster_kube_def demo_cluster_def demo_cr_def)
  have names: "policy_names ''app'' ''ns1'' True (cfg_Policies demo_config) = [''shared'']"
    by (simp add: policy_names_def demo_config_def demo_policy_def resolveEntityName_def)
  have cr: "meta_Name (acr_Meta ?cr) = ''app''" "meta_Namespace (acr_Meta ?cr) = ''ns1''" "ar_Client acl_demo = acl_cluster_kube"
    by (simp_all add: demo_cr_def acl_demo_def)
  have acl: "acl_ExplicitName acl \<and> cfg = demo_config"
    if "aspec_ACL (acr_Spec ?cr) = Some acl" "ar_Unmarshal acl_demo (acl_Json acl) = Inr cfg" for acl cfg
    using that by (auto simp: demo_cr_def acl_demo_def)
  have "period_ok (ar_periodTime acl_demo)" "IsZero (meta_DeletionTimestamp (acr_Meta ?cr))" "res_RequeueAfter noRequeue \<le> 0"
    by (simp_all add: acl_demo_def demo_cr_def IsZero_def noRequeue_def period_ok_def)
  from acl_reconcile_no_silent_failure[OF lib this(1) get this(2) run this(3), unfolded cr]
  obtain acl cfg sp sr sb w2 w3 w4 where "aspec_ACL (acr_Spec ?cr) = Some acl" "ar_Unmarshal acl_demo (acl_Json acl) = Inr cfg"
    and res: "all_reported (policy_names ''app'' ''ns1'' (acl_ExplicitName acl) (cfg_Policies cfg)) sp None"
      "applyACL_cleanup acl_demo ?cr cfg (acl_ExplicitName acl) sb w2 = (None, w3)"
      "cru_attempt acl_cluster_kube ''app'' ''ns1''
        (acl_new_status acl_demo \<lparr>as_policies = statusString acl_demo sp, as_roles = statusString acl_demo sr,
          as_bindRules = statusString acl_demo sb\<rparr> None) (kube_StatusUpdate acl_cluster_kube) w4 = (None, w')" by blast
  with acl have "acl_ExplicitName acl = True" "cfg = demo_config" by simp_all
  with res names show ?thesis by metis
qed

end
