(* ===== verification/ACL_Ownership.thy ===== *)
theory ACL_Ownership
  imports ACL_Keeps
begin

text \<open>
  Shared ACL entities over whole reconciles. A policy or role that a namespace owns is not taken away from it by the
  reconciles of other namespaces: what they apply, clean up and delete leaves the entity with its ID
  in Consul and the namespace among its owners. Consul is any server that keeps policies and
  roles by name and ID as \<open>consul_acl_ok\<close> says; its calls may fail, and a call that fails may still have had its effect.
\<close>

subsection \<open>What the operator relies on\<close>

text \<open>
  A store of named entities: a name belongs to one entity, an ID to one name. A write has its effect or none,
  whatever it answers: a creation takes a free name, an update replaces the entity with the same ID and may
  rename it to a free name, a deletion removes the entity with the ID.
\<close>

definition store_wf :: "('e \<Rightarrow> string) \<Rightarrow> ('e \<Rightarrow> string) \<Rightarrow> (string \<rightharpoonup> 'e) \<Rightarrow> bool" where
  "store_wf ident ename s \<longleftrightarrow>
     (\<forall>n e. s n = Some e \<longrightarrow> ename e = n \<and> ident e \<noteq> []) \<and>
     (\<forall>n m e f. s n = Some e \<longrightarrow> s m = Some f \<longrightarrow> ident e = ident f \<longrightarrow> n = m)"

definition entity_store ::
  "('w \<Rightarrow> bool) \<Rightarrow> ('w \<Rightarrow> string \<rightharpoonup> 'e) \<Rightarrow> ('e \<Rightarrow> string) \<Rightarrow> ('e \<Rightarrow> string) \<Rightarrow> (string \<Rightarrow> 'e \<Rightarrow> 'e) \<Rightarrow>
   ('e \<Rightarrow> 'w \<Rightarrow> 'e result \<times> 'w) \<Rightarrow> ('e \<Rightarrow> 'w \<Rightarrow> 'e result \<times> 'w) \<Rightarrow> (string \<Rightarrow> 'w \<Rightarrow> unit result \<times> 'w) \<Rightarrow> bool"
where
  "entity_store V view ident ename set_ident create upd del \<longleftrightarrow>
     (\<forall>w. V w \<longrightarrow> store_wf ident ename (view w)) \<and>
     (\<forall>e w w'. V w \<longrightarrow> snd (create e w) = w' \<longrightarrow> V w' \<and>
        (view w' = view w \<or> view w (ename e) = None \<and> (\<exists>i. view w' = (view w)(ename e \<mapsto> set_ident i e)))) \<and>
     (\<forall>e w w'. V w \<longrightarrow> snd (upd e w) = w' \<longrightarrow> V w' \<and>
        (view w' = view w \<or> (\<exists>m q. view w m = Some q \<and> ident q = ident e \<and> (ename e = m \<or> view w (ename e) = None) \<and>
           view w' = (view w)(m := None, ename e := Some e)))) \<and>
     (\<forall>i w w'. V w \<longrightarrow> snd (del i w) = w' \<longrightarrow> V w' \<and>
        (view w' = view w \<or> (\<exists>m q. view w m = Some q \<and> ident q = i \<and> view w' = (view w)(m := None))))"

text \<open>An entity with this name and ID exists and a namespace is one of its owners.\<close>

definition held ::
  "('w \<Rightarrow> bool) \<Rightarrow> ('w \<Rightarrow> string \<rightharpoonup> 'e) \<Rightarrow> ('e \<Rightarrow> string) \<Rightarrow> ('e \<Rightarrow> string) \<Rightarrow> string \<Rightarrow> string \<Rightarrow> string \<Rightarrow> 'w \<Rightarrow> bool"
where
  "held V view ident descr n i ns w \<longleftrightarrow>
     V w \<and> (\<exists>e. view w n = Some e \<and> ident e = i \<and> ns \<in> owners_of (descr e))"

text \<open>An entity that may be written back: if it is the one that is held, it has the name and the owner.\<close>

definition harmless :: "('e \<Rightarrow> string) \<Rightarrow> ('e \<Rightarrow> string) \<Rightarrow> ('e \<Rightarrow> string) \<Rightarrow> string \<Rightarrow> string \<Rightarrow> string \<Rightarrow> 'e \<Rightarrow> bool" where
  "harmless ident ename descr n i ns e \<longleftrightarrow> (ident e = i \<longrightarrow> ename e = n \<and> ns \<in> owners_of (descr e))"

lemma held_create:
  assumes "entity_store V view ident ename si create upd del"
  shows "keeps (held V view ident descr n i ns) (create e)"
proof (rule keepsI)
  fix w r w'
  assume w: "held V view ident descr n i ns w" and run: "create e w = (r, w')"
  then have "V w" "snd (create e w) = w'" by (simp_all add: held_def)
  then have "V w' \<and> (view w' = view w \<or> view w (ename e) = None \<and> (\<exists>i. view w' = (view w)(ename e \<mapsto> si i e)))"
    using assms unfolding entity_store_def by blast
  then show "held V view ident descr n i ns w'" using w by (auto simp: held_def)
qed

lemma held_update:
  assumes st: "entity_store V view ident ename si create upd del" and e: "harmless ident ename descr n i ns e"
  shows "keeps (held V view ident descr n i ns) (upd e)"
proof (rule keepsI)
  fix w r w'
  assume w: "held V view ident descr n i ns w" and run: "upd e w = (r, w')"
  then obtain h where h: "V w" "view w n = Some h" "ident h = i" "ns \<in> owners_of (descr h)" by (auto simp: held_def)
  have "snd (upd e w) = w'" using run by simp
  then have V: "V w'" and w': "view w' = view w \<or> (\<exists>m q. view w m = Some q \<and> ident q = ident e \<and>
      (ename e = m \<or> view w (ename e) = None) \<and> view w' = (view w)(m := None, ename e := Some e))"
    using st h(1) unfolding entity_store_def by blast+
  then consider "view w' = view w" | m q where "view w m = Some q" "ident q = ident e"
      "ename e = m \<or> view w (ename e) = None" "view w' = (view w)(m := None, ename e := Some e)"
    by blast
  then show "held V view ident descr n i ns w'"
  proof cases
    case 1
    then show ?thesis using V h by (simp add: held_def)
  next
    case (2 m q)
    show ?thesis
    proof (cases "ident e = i")
      case True
      then have "ename e = n" "ns \<in> owners_of (descr e)" using e by (auto simp: harmless_def)
      then show ?thesis using V 2(4) True by (simp add: held_def)
    next
      case False
      then have "m \<noteq> n" using 2 h by auto
      then show ?thesis using V 2(3,4) h by (auto simp: held_def)
    qed
  qed
qed

lemma held_delete:
  assumes st: "entity_store V view ident ename si create upd del" and j: "j \<noteq> i"
  shows "keeps (held V view ident descr n i ns) (del j)"
proof (rule keepsI)
  fix w r w'
  assume w: "held V view ident descr n i ns w" and run: "del j w = (r, w')"
  then have "V w" "snd (del j w) = w'" by (simp_all add: held_def)
  then have "V w' \<and> (view w' = view w \<or> (\<exists>m q. view w m = Some q \<and> ident q = j \<and> view w' = (view w)(m := None)))"
    using st unfolding entity_store_def by blast
  then show "held V view ident descr n i ns w'" using w j by (auto simp: held_def)
qed

text \<open>An entity read from the store under its name is harmless.\<close>

lemma held_harmless:
  assumes st: "entity_store V view ident ename si create upd del" and w: "held V view ident descr n i ns w"
    and e: "view w m = Some e"
  shows "harmless ident ename descr n i ns e" "ename e = m" "m \<noteq> n \<Longrightarrow> ident e \<noteq> i" "ident e \<noteq> []"
proof -
  have "store_wf ident ename (view w)" using st w unfolding entity_store_def held_def by blast
  then have wf: "\<And>n e. view w n = Some e \<Longrightarrow> ename e = n \<and> ident e \<noteq> []"
    "\<And>n m e f. view w n = Some e \<Longrightarrow> view w m = Some f \<Longrightarrow> ident e = ident f \<Longrightarrow> n = m"
    unfolding store_wf_def by blast+
  obtain h where h: "view w n = Some h" "ident h = i" "ns \<in> owners_of (descr h)" using w by (auto simp: held_def)
  show "m \<noteq> n \<Longrightarrow> ident e \<noteq> i" using wf(2)[OF h(1) e] h(2) by auto
  show "ename e = m" "ident e \<noteq> []" using wf(1)[OF e] by auto
  show "harmless ident ename descr n i ns e"
    using wf(2)[OF h(1) e] h e wf(1)[OF e] by (auto simp: harmless_def)
qed

text \<open>A call that keeps the store keeps what is held.\<close>

lemma held_frame:
  assumes "\<And>s. keeps (\<lambda>w. V w \<and> view w = s) f"
  shows "keeps (held V view ident descr n i ns) f"
proof (rule keepsI)
  fix w r w'
  assume w: "held V view ident descr n i ns w" and run: "f w = (r, w')"
  have "V w' \<and> view w' = view w"
    by (rule keepsD[OF assms[of "view w"] _ run]) (use w in \<open>simp add: held_def\<close>)
  then show "held V view ident descr n i ns w'" using w by (simp add: held_def)
qed

text \<open>
  The ACL system of Consul: a store of policies and a store of roles, reads by name and lists that return what is
  stored, and calls for one kind of entity that leave the others alone.
\<close>

definition reads_by_name :: "('w \<Rightarrow> bool) \<Rightarrow> ('w \<Rightarrow> string \<rightharpoonup> 'e) \<Rightarrow> (string \<Rightarrow> 'w \<Rightarrow> 'e option result \<times> 'w) \<Rightarrow> bool" where
  "reads_by_name V view read \<longleftrightarrow>
     (\<forall>n w x w'. V w \<longrightarrow> read n w = (Inr x, w') \<longrightarrow> x = view w n) \<and>
     (\<forall>n w e w'. V w \<longrightarrow> read n w = (Inl e, w') \<longrightarrow> isErrNotFound e \<longrightarrow> view w n = None)"

definition lists_stored ::
  "('w \<Rightarrow> bool) \<Rightarrow> ('w \<Rightarrow> string \<rightharpoonup> 'e) \<Rightarrow> ('l \<Rightarrow> string) \<Rightarrow> ('e \<Rightarrow> 'l) \<Rightarrow> ('w \<Rightarrow> 'l list result \<times> 'w) \<Rightarrow> bool"
where
  "lists_stored V view lname entry list_call \<longleftrightarrow>
     (\<forall>w es w' e. V w \<longrightarrow> list_call w = (Inr es, w') \<longrightarrow> e \<in> set es \<longrightarrow> map_option entry (view w (lname e)) = Some e)"

definition policy_entry :: "ACLPolicy \<Rightarrow> ACLPolicyListEntry" where
  "policy_entry p = \<lparr>ple_ID = pol_ID p, ple_Name = pol_Name p, ple_Description = pol_Description p\<rparr>"

definition consul_acl_ok ::
  "'w consulACLClient \<Rightarrow> ('w \<Rightarrow> bool) \<Rightarrow> ('w \<Rightarrow> string \<rightharpoonup> ACLPolicy) \<Rightarrow> ('w \<Rightarrow> string \<rightharpoonup> ACLRole) \<Rightarrow> bool"
where
  "consul_acl_ok c V pols roles \<longleftrightarrow>
     entity_store V pols pol_ID pol_Name (\<lambda>i p. p\<lparr>pol_ID := i\<rparr>) (acl_PolicyCreate c) (acl_PolicyUpdate c) (acl_PolicyDelete c) \<and>
     entity_store V roles role_ID role_Name (\<lambda>i r. r\<lparr>role_ID := i\<rparr>) (acl_RoleCreate c) (acl_RoleUpdate c) (acl_RoleDelete c) \<and>
     reads_by_name V pols (acl_PolicyReadByName c) \<and> reads_by_name V roles (acl_RoleReadByName c) \<and>
     lists_stored V pols ple_Name policy_entry (acl_PolicyList c) \<and> lists_stored V roles role_Name id (acl_RoleList c) \<and>
     (\<forall>P R. client_reads (\<lambda>w. V w \<and> pols w = P \<and> roles w = R) c \<and> rule_writes (\<lambda>w. V w \<and> pols w = P \<and> roles w = R) c) \<and>
     (\<forall>P R t. keeps (\<lambda>w. V w \<and> pols w = P \<and> roles w = R) (acl_TokenDelete c t)) \<and>
     (\<forall>R. policy_writes (\<lambda>w. V w \<and> roles w = R) c) \<and> (\<forall>P. role_writes (\<lambda>w. V w \<and> pols w = P) c)"

lemma consul_stores:
  assumes "consul_acl_ok c V pols roles"
  shows "entity_store V pols pol_ID pol_Name (\<lambda>i p. p\<lparr>pol_ID := i\<rparr>) (acl_PolicyCreate c) (acl_PolicyUpdate c) (acl_PolicyDelete c)"
    and "entity_store V roles role_ID role_Name (\<lambda>i r. r\<lparr>role_ID := i\<rparr>) (acl_RoleCreate c) (acl_RoleUpdate c) (acl_RoleDelete c)"
    and "reads_by_name V pols (acl_PolicyReadByName c)" "reads_by_name V roles (acl_RoleReadByName c)"
    and "client_reads (\<lambda>w. V w \<and> pols w = P \<and> roles w = R) c" "rule_writes (\<lambda>w. V w \<and> pols w = P \<and> roles w = R) c"
    and "keeps (\<lambda>w. V w \<and> pols w = P \<and> roles w = R) (acl_TokenDelete c t)"
    and "policy_writes (\<lambda>w. V w \<and> roles w = R) c" "role_writes (\<lambda>w. V w \<and> pols w = P) c"
    and "lists_stored V pols ple_Name policy_entry (acl_PolicyList c)" "lists_stored V roles role_Name id (acl_RoleList c)"
  using assms by (simp_all add: consul_acl_ok_def)

lemma consul_lists:
  assumes c: "consul_acl_ok c V pols roles" and w: "V w"
  shows "acl_PolicyList c w = (Inr es, w') \<Longrightarrow> e \<in> set es \<Longrightarrow> \<exists>p. pols w (ple_Name e) = Some p \<and> pol_ID p = ple_ID e"
    and "acl_RoleList c w = (Inr rs, w') \<Longrightarrow> r \<in> set rs \<Longrightarrow> roles w (role_Name r) = Some r"
  using consul_stores(10,11)[OF c] w unfolding lists_stored_def by (fastforce simp: policy_entry_def)+

lemma readPolicy_store:
  assumes "consul_acl_ok (ac_client E) V pols roles" "V w" "readPolicy E n w = (Inr x, w')"
  shows "x = pols w n"
proof (cases "acl_PolicyReadByName (ac_client E) n w")
  case (Pair r w1)
  have "r = Inr y \<Longrightarrow> y = pols w n" "r = Inl e \<Longrightarrow> isErrNotFound e \<Longrightarrow> pols w n = None" for y e
    using consul_stores(3)[OF assms(1)] assms(2) Pair unfolding reads_by_name_def by blast+
  then show ?thesis using assms(3) Pair by (auto simp: readPolicy_def split: sum.splits if_splits)
qed

lemma readRole_store:
  assumes "consul_acl_ok (ac_client E) V pols roles" "V w" "readRole E n w = (Inr x, w')"
  shows "x = roles w n"
proof (cases "acl_RoleReadByName (ac_client E) n w")
  case (Pair r w1)
  have "r = Inr y \<Longrightarrow> y = roles w n" "r = Inl e \<Longrightarrow> isErrNotFound e \<Longrightarrow> roles w n = None" for y e
    using consul_stores(4)[OF assms(1)] assms(2) Pair unfolding reads_by_name_def by blast+
  then show ?thesis using assms(3) Pair by (auto simp: readRole_def split: sum.splits if_splits)
qed

abbreviation policy_held where
  "policy_held V pols \<equiv> held V pols pol_ID pol_Description"

abbreviation role_held where
  "role_held V roles \<equiv> held V roles role_ID role_Description"

abbreviation policy_harmless where
  "policy_harmless \<equiv> harmless pol_ID pol_Name pol_Description"

abbreviation role_harmless where
  "role_harmless \<equiv> harmless role_ID role_Name role_Description"

lemma held_views:
  assumes "\<And>P R. keeps (\<lambda>w. V w \<and> pols w = P \<and> roles w = R) f"
  shows "keeps (policy_held V pols n i ns) f" "keeps (role_held V roles n i ns) f"
  using assms unfolding keeps_def by (blast intro: held_frame [unfolded keeps_def, rule_format])+

lemma held_reads:
  assumes c: "consul_acl_ok c V pols roles"
  shows "client_reads (policy_held V pols n i ns) c" "rule_writes (policy_held V pols n i ns) c"
    and "client_reads (role_held V roles n i ns) c" "rule_writes (role_held V roles n i ns) c"
  unfolding client_reads_def rule_writes_def
  by (intro conjI allI held_views [where pols = pols and roles = roles]
      client_readsD[OF consul_stores(5)[OF c]] rule_writesD[OF consul_stores(6)[OF c]])+

lemma held_other_writes:
  assumes c: "consul_acl_ok c V pols roles"
  shows "role_writes (policy_held V pols n i ns) c" "policy_writes (role_held V roles n i ns) c"
proof -
  note calls = role_writesD[OF consul_stores(9)[OF c]] policy_writesD[OF consul_stores(8)[OF c]]
  show "role_writes (policy_held V pols n i ns) c" "policy_writes (role_held V roles n i ns) c"
    unfolding role_writes_def policy_writes_def by (intro conjI allI held_frame calls)+
qed

subsection \<open>The operations keep what others hold\<close>

text \<open>A read whose answer has a property, and a list whose entries have one.\<close>

lemma keeps_read_option:
  assumes "\<And>w r w'. I w \<Longrightarrow> f w = (r, w') \<Longrightarrow> I w' \<and> (\<forall>a. r = Inr (Some a) \<longrightarrow> Q a)"
    and "\<And>e. keeps I (g e)" "keeps I h" "\<And>a. Q a \<Longrightarrow> keeps I (k a)"
  shows "keeps I (\<lambda>w. case f w of (Inl e, w1) \<Rightarrow> g e w1 | (Inr None, w1) \<Rightarrow> h w1 | (Inr (Some a), w1) \<Rightarrow> k a w1)"
  using assms unfolding keeps_def by (fastforce split: prod.splits sum.splits option.splits)

lemma keeps_list:
  assumes "\<And>w r w'. I w \<Longrightarrow> f w = (r, w') \<Longrightarrow> I w' \<and> (\<forall>es e. r = Inr es \<longrightarrow> e \<in> set es \<longrightarrow> Q e)"
    and k: "\<And>e. Q e \<Longrightarrow> keeps I (k e)"
  shows "keeps I (\<lambda>w. case f w of (Inl err, w1) \<Rightarrow> (Some err, w1) | (Inr es, w1) \<Rightarrow> for_each k es w1)"
proof (rule keepsI)
  fix w r w'
  assume w: "I w" and run: "(case f w of (Inl err, w1) \<Rightarrow> (Some err, w1) | (Inr es, w1) \<Rightarrow> for_each k es w1) = (r, w')"
  obtain x w1 where f: "f w = (x, w1)" by (rule prod.exhaust)
  note x = assms(1)[OF w f]
  show "I w'"
  proof (cases x)
    case (Inr es)
    then have "keeps I (for_each k es)" using x k by (intro keeps_for_each) blast
    then show ?thesis using run f x Inr by (auto dest: keepsD)
  qed (use run f x in simp)
qed

lemma readPolicy_held:
  assumes c: "consul_acl_ok (ac_client E) V pols roles" and w: "policy_held V pols n i ns w" and run: "readPolicy E m w = (r, w')"
  shows "policy_held V pols n i ns w' \<and> (\<forall>p. r = Inr (Some p) \<longrightarrow> policy_harmless n i ns p \<and> pol_Name p = m \<and> pol_ID p \<noteq> [])"
proof
  show "policy_held V pols n i ns w'" by (rule keepsD[OF reads_keep(1)[OF held_reads(1)[OF c]] w run])
  show "\<forall>p. r = Inr (Some p) \<longrightarrow> policy_harmless n i ns p \<and> pol_Name p = m \<and> pol_ID p \<noteq> []"
    using held_harmless[OF consul_stores(1)[OF c] w] readPolicy_store[OF c] w run
    by (metis held_def)
qed

lemma readRole_held:
  assumes c: "consul_acl_ok (ac_client E) V pols roles" and w: "role_held V roles n i ns w" and run: "readRole E m w = (r, w')"
  shows "role_held V roles n i ns w' \<and> (\<forall>p. r = Inr (Some p) \<longrightarrow> role_harmless n i ns p \<and> role_Name p = m \<and> role_ID p \<noteq> [])"
proof
  show "role_held V roles n i ns w'" by (rule keepsD[OF reads_keep(2)[OF held_reads(3)[OF c]] w run])
  show "\<forall>p. r = Inr (Some p) \<longrightarrow> role_harmless n i ns p \<and> role_Name p = m \<and> role_ID p \<noteq> []"
    using held_harmless[OF consul_stores(2)[OF c] w] readRole_store[OF c] w run by (metis held_def)
qed

text \<open>The same for the reads of policies and roles, as rules.\<close>

lemma keeps_readPolicy:
  assumes c: "consul_acl_ok (ac_client E) V pols roles"
    and "\<And>e. keeps (policy_held V pols n i ns) (g e)" "keeps (policy_held V pols n i ns) h"
    and k: "\<And>p. policy_harmless n i ns p \<Longrightarrow> pol_Name p = m \<Longrightarrow> pol_ID p \<noteq> [] \<Longrightarrow> keeps (policy_held V pols n i ns) (k p)"
  shows "keeps (policy_held V pols n i ns)
    (\<lambda>w. case readPolicy E m w of (Inl e, w1) \<Rightarrow> g e w1 | (Inr None, w1) \<Rightarrow> h w1 | (Inr (Some a), w1) \<Rightarrow> k a w1)"
  by (rule keeps_read_option[where Q = "\<lambda>p. policy_harmless n i ns p \<and> pol_Name p = m \<and> pol_ID p \<noteq> []"])
    (use assms in \<open>auto dest: readPolicy_held[OF c]\<close>)

lemma keeps_readRole:
  assumes c: "consul_acl_ok (ac_client E) V pols roles"
    and "\<And>e. keeps (role_held V roles n i ns) (g e)" "keeps (role_held V roles n i ns) h"
    and k: "\<And>p. role_harmless n i ns p \<Longrightarrow> role_Name p = m \<Longrightarrow> role_ID p \<noteq> [] \<Longrightarrow> keeps (role_held V roles n i ns) (k p)"
  shows "keeps (role_held V roles n i ns)
    (\<lambda>w. case readRole E m w of (Inl e, w1) \<Rightarrow> g e w1 | (Inr None, w1) \<Rightarrow> h w1 | (Inr (Some a), w1) \<Rightarrow> k a w1)"
  by (rule keeps_read_option[where Q = "\<lambda>p. role_harmless n i ns p \<and> role_Name p = m \<and> role_ID p \<noteq> []"])
    (use assms in \<open>auto dest: readRole_held[OF c]\<close>)

lemma releasePolicy_held:
  assumes c: "consul_acl_ok (ac_client E) V pols roles" and p: "policy_harmless n i ns p" and ns: "ns' \<noteq> ns"
  shows "keeps (policy_held V pols n i ns) (releasePolicy E ns' p)"
proof (rule policy_release.release_keeps)
  fix p'
  assume "pol_ID p' = pol_ID p" "p' = p\<lparr>pol_Description := pol_Description p'\<rparr>"
    "owners_of (pol_Description p') = owners_of (pol_Description p) - {ns'}"
  then have "policy_harmless n i ns p'"
    using p ns by (cases p; cases p') (auto simp: harmless_def)
  then show "keeps (policy_held V pols n i ns) (acl_PolicyUpdate (ac_client E) p')"
    by (rule held_update[OF consul_stores(1)[OF c]])
next
  assume "owners_of (pol_Description p) \<subseteq> {ns'}"
  then have "pol_ID p \<noteq> i" using p ns by (auto simp: harmless_def)
  then show "(\<forall>w. policy_held V pols n i ns w \<longrightarrow> policy_held V pols n i ns w) \<and>
      keeps (policy_held V pols n i ns) (acl_PolicyDelete (ac_client E) (pol_ID p))"
    using held_delete[OF consul_stores(1)[OF c]] by blast
qed

lemma releaseRole_held:
  assumes c: "consul_acl_ok (ac_client E) V pols roles" and p: "role_harmless n i ns p" and ns: "ns' \<noteq> ns"
  shows "keeps (role_held V roles n i ns) (releaseRole E ns' p)"
proof (rule role_release.release_keeps)
  fix p'
  assume "role_ID p' = role_ID p" "p' = p\<lparr>role_Description := role_Description p'\<rparr>"
    "owners_of (role_Description p') = owners_of (role_Description p) - {ns'}"
  then have "role_harmless n i ns p'"
    using p ns by (cases p; cases p') (auto simp: harmless_def)
  then show "keeps (role_held V roles n i ns) (acl_RoleUpdate (ac_client E) p')"
    by (rule held_update[OF consul_stores(2)[OF c]])
next
  assume "owners_of (role_Description p) \<subseteq> {ns'}"
  then have "role_ID p \<noteq> i" using p ns by (auto simp: harmless_def)
  moreover have "role_held V roles n i ns (revokeRoleTokens E p w)" if w: "role_held V roles n i ns w" for w
    by (rule revokeRoleTokens_keeps[OF held_reads(3)[OF c] held_views(2)[OF consul_stores(7)[OF c]] w])
  ultimately show "(\<forall>w. role_held V roles n i ns w \<longrightarrow> role_held V roles n i ns (revokeRoleTokens E p w)) \<and>
      keeps (role_held V roles n i ns) (acl_RoleDelete (ac_client E) (role_ID p))"
    using held_delete[OF consul_stores(2)[OF c]] by blast
qed

lemma deletePolicies_held:
  assumes c: "consul_acl_ok (ac_client E) V pols roles" and ns: "ns' \<noteq> ns"
  shows "keeps (policy_held V pols n i ns) (deletePolicies E cfg name ns' b sib)"
  unfolding deletePolicies_def deletePolicy_def Let_def
  by (intro keeps_for_each keeps_if keeps_skip keeps_readPolicy[OF c] releasePolicy_held[OF c _ ns])

lemma deleteRoles_held:
  assumes c: "consul_acl_ok (ac_client E) V pols roles" and ns: "ns' \<noteq> ns"
  shows "keeps (role_held V roles n i ns) (deleteRoles E cfg name ns' b sib)"
  unfolding deleteRoles_def deleteRole_def Let_def
  by (intro keeps_for_each keeps_if keeps_skip keeps_readRole[OF c] releaseRole_held[OF c _ ns])

lemma PolicyList_held:
  assumes c: "consul_acl_ok c V pols roles" and w: "policy_held V pols n i ns w" and run: "acl_PolicyList c w = (r, w')"
  shows "policy_held V pols n i ns w' \<and> (\<forall>es e. r = Inr es \<longrightarrow> e \<in> set es \<longrightarrow> ple_Name e \<noteq> n \<longrightarrow> ple_ID e \<noteq> i)"
proof
  show "policy_held V pols n i ns w'" by (rule keepsD[OF client_readsD(2)[OF held_reads(1)[OF c]] w run])
  have V: "V w" using w by (simp add: held_def)
  show "\<forall>es e. r = Inr es \<longrightarrow> e \<in> set es \<longrightarrow> ple_Name e \<noteq> n \<longrightarrow> ple_ID e \<noteq> i"
    using consul_lists(1)[OF c V] held_harmless(3)[OF consul_stores(1)[OF c] w] run by metis
qed

lemma RoleList_held:
  assumes c: "consul_acl_ok c V pols roles" and w: "role_held V roles n i ns w" and run: "acl_RoleList c w = (r, w')"
  shows "role_held V roles n i ns w' \<and>
    (\<forall>es e. r = Inr es \<longrightarrow> e \<in> set es \<longrightarrow> role_harmless n i ns e \<and> (role_Name e \<noteq> n \<longrightarrow> role_ID e \<noteq> i))"
proof
  show "role_held V roles n i ns w'" by (rule keepsD[OF client_readsD(4)[OF held_reads(3)[OF c]] w run])
  have V: "V w" using w by (simp add: held_def)
  show "\<forall>es e. r = Inr es \<longrightarrow> e \<in> set es \<longrightarrow> role_harmless n i ns e \<and> (role_Name e \<noteq> n \<longrightarrow> role_ID e \<noteq> i)"
    using consul_lists(2)[OF c V] held_harmless(1,3)[OF consul_stores(2)[OF c] w] run by metis
qed

lemma stale_policies_held:
  assumes c: "consul_acl_ok (ac_client E) V pols roles" and ns: "ns' \<noteq> ns" and pre: "\<not> strings_HasPrefix n (entityPrefix name ns')"
  shows "keeps (policy_held V pols n i ns) (for_each_policy E (stale_policy E cfg name ns' b sib))"
  unfolding for_each_policy_def
proof (rule keeps_list[where Q = "\<lambda>ep. ple_Name ep \<noteq> n \<longrightarrow> ple_ID ep \<noteq> i"], rule PolicyList_held[OF c], assumption, assumption)
  fix ep :: ACLPolicyListEntry
  assume e: "ple_Name ep \<noteq> n \<longrightarrow> ple_ID ep \<noteq> i"
  have "keeps (policy_held V pols n i ns) (removeStalePolicy E cfg name ns' ep)"
    unfolding removeStalePolicy_def
    by (intro keeps_if keeps_skip keeps_err_of held_delete[OF consul_stores(1)[OF c]]) (use e pre in auto)
  moreover have "keeps (policy_held V pols n i ns) (releaseStaleExplicitPolicy E ns' d sib ep)" for d
    unfolding releaseStaleExplicitPolicy_def
    by (intro keeps_if keeps_skip keeps_readPolicy[OF c] releasePolicy_held[OF c _ ns])
  ultimately show "keeps (policy_held V pols n i ns) (stale_policy E cfg name ns' b sib ep)"
    unfolding stale_policy_def by (intro keeps_if)
qed

lemma stale_roles_held:
  assumes c: "consul_acl_ok (ac_client E) V pols roles" and ns: "ns' \<noteq> ns" and pre: "\<not> strings_HasPrefix n (entityPrefix name ns')"
  shows "keeps (role_held V roles n i ns) (for_each_role E (stale_role E cfg name ns' b sib))"
  unfolding for_each_role_def
proof (rule keeps_list[where Q = "\<lambda>er. role_harmless n i ns er \<and> (role_Name er \<noteq> n \<longrightarrow> role_ID er \<noteq> i)"],
    rule RoleList_held[OF c], assumption, assumption)
  fix er :: ACLRole
  assume e: "role_harmless n i ns er \<and> (role_Name er \<noteq> n \<longrightarrow> role_ID er \<noteq> i)"
  have "keeps (role_held V roles n i ns) (removeStaleRole E cfg name ns' er)"
    unfolding removeStaleRole_def
    by (intro keeps_if keeps_skip keeps_err_of held_delete[OF consul_stores(2)[OF c]]) (use e pre in auto)
  then show "keeps (role_held V roles n i ns) (stale_role E cfg name ns' b sib er)"
    unfolding stale_role_def by (intro keeps_if keeps_skip releaseRole_held[OF c _ ns]) (use e in simp)
qed

lemma owners_kept: "owner_ok ns' \<Longrightarrow> ns \<in> owners_of d \<Longrightarrow> ns \<in> owners_of (withOwnerAdded spec d ns')"
  by (simp add: acl_registry.add_owners)

lemma writePolicy_held:
  assumes c: "consul_acl_ok (ac_client E) V pols roles" and ns: "owner_ok ns'"
    and d: "pol_ID demand = [] \<or> (\<exists>p. existing = Some p \<and> policy_harmless n i ns p \<and> pol_Name p = pol_Name demand \<and>
       pol_ID p = pol_ID demand)"
  shows "keeps (policy_held V pols n i ns) (writePolicy E ns' demand existing acc)"
proof -
  have "policy_harmless n i ns (mergeOwnerIntoPolicy demand existing ns')" if "pol_ID demand \<noteq> []"
    using d that owners_kept[OF ns] by (auto simp: harmless_def mergeOwnerIntoPolicy_def)
  moreover have "pol_ID (mergeOwnerIntoPolicy demand existing ns') = pol_ID demand" by (simp add: mergeOwnerIntoPolicy_def)
  ultimately show ?thesis
    unfolding writePolicy_def Let_def
    by (cases acc) (auto intro!: keeps_result keeps_skip keeps_if held_create[OF consul_stores(1)[OF c]]
        held_update[OF consul_stores(1)[OF c]])
qed

lemma processPolicies_held:
  assumes c: "consul_acl_ok (ac_client E) V pols roles" and ns: "owner_ok ns'" and ids: "list_all (\<lambda>p. pol_ID p = []) ps"
  shows "keeps (policy_held V pols n i ns) (processPolicies E ps name ns' b)"
  unfolding processPolicies_def
proof (rule loop_all_keeps)
  fix p and acc :: "StatusHolder \<times> (string \<rightharpoonup> string) \<times> goerror option"
  assume "p \<in> set ps"
  then have id: "pol_ID p = []" using ids by (simp add: list_all_iff)
  obtain st pr err where acc: "acc = (st, pr, err)" by (rule prod_cases3)
  show "keeps (policy_held V pols n i ns) (processPolicy E name ns' b p acc)"
    unfolding processPolicy_def Let_def acc prod.case
    by (intro keeps_if keeps_skip keeps_readPolicy[OF c] writePolicy_held[OF c ns])
      (use id in \<open>auto simp: harmless_def\<close>)
qed

lemma writeRole_held:
  assumes c: "consul_acl_ok (ac_client E) V pols roles" and ns: "owner_ok ns'"
    and d: "role_ID role = [] \<or> (\<exists>p. existing = Some p \<and> role_harmless n i ns p \<and> role_Name p = role_Name role \<and>
       role_ID p = role_ID role)"
  shows "keeps (role_held V roles n i ns) (writeRole E ns' role existing acc)"
proof -
  have "role_harmless n i ns (role\<lparr>role_Description := withOwnerAdded (role_Description role)
      (case existing of None \<Rightarrow> [] | Some e \<Rightarrow> role_Description e) ns'\<rparr>)" if "role_ID role \<noteq> []"
    using d that owners_kept[OF ns] by (auto simp: harmless_def)
  then show ?thesis
    unfolding writeRole_def Let_def
    by (cases acc) (auto intro!: keeps_result keeps_skip keeps_if held_create[OF consul_stores(2)[OF c]]
        held_update[OF consul_stores(2)[OF c]])
qed

lemma processRoles_held:
  assumes c: "consul_acl_ok (ac_client E) V pols roles" and ns: "owner_ok ns'" and ids: "list_all (\<lambda>r. ra_ID r = []) rs"
  shows "keeps (role_held V roles n i ns) (processRoles E rs policies name ns' b)"
  unfolding processRoles_def
proof (rule loop_all_keeps)
  fix a and acc :: "StatusHolder \<times> goerror option"
  assume "a \<in> set rs"
  then have id: "ra_ID a = []" using ids by (simp add: list_all_iff)
  obtain st err where acc: "acc = (st, err)" by (rule prod.exhaust)
  let ?I = "role_held V roles n i ns"
  have role: "keeps ?I (\<lambda>w. case readRole E (role_Name role) w of
      (Inl err', w2) \<Rightarrow> ((AList.update (role_Name role) (status_error err') st, firstRetryableError err err'), w2)
    | (Inr None, w2) \<Rightarrow> writeRole E ns' role None (st, err) w2
    | (Inr (Some e), w2) \<Rightarrow> writeRole E ns' (if role_ID role = [] then role\<lparr>role_ID := role_ID e\<rparr> else role) (Some e) (st, err) w2)"
    if r: "role_ID role = []" for role
    by (intro keeps_skip keeps_readRole[OF c] writeRole_held[OF c ns]) (use r in \<open>auto simp: harmless_def\<close>)
  have conv: "role_ID (fst (convertRoleAdapterToRole E a policies name ns' b w)) = []" for w
    by (simp add: convertRoleAdapterToRole_def id split: prod.splits)
  show "keeps ?I (processRole E policies name ns' b a acc)"
  proof (rule keepsI)
    fix w r w'
    assume w: "?I w" and run: "processRole E policies name ns' b a acc w = (r, w')"
    obtain role w1 where cv: "convertRoleAdapterToRole E a policies name ns' b w = (role, w1)" by (rule prod.exhaust)
    have w1: "?I w1" by (rule keepsD[OF convertRoleAdapterToRole_keeps[OF held_reads(3)[OF c]] w cv])
    show "?I w'"
    proof (cases "ra_Name a = []")
      case True
      then show ?thesis using run w by (simp add: processRole_def acc)
    next
      case False
      have "role_ID role = []" using conv[of w] cv by simp
      from keepsD[OF role[OF this] w1] show ?thesis using run False by (simp add: processRole_def acc cv)
    qed
  qed
qed

subsection \<open>Reconciles of other namespaces\<close>

text \<open>A reconciler on such a Consul, with an API server whose calls do not touch Consul, and whose resources name no IDs.\<close>

definition acl_env_ok ::
  "'w ConsulACLReconciler \<Rightarrow> ('w \<Rightarrow> bool) \<Rightarrow> ('w \<Rightarrow> string \<rightharpoonup> ACLPolicy) \<Rightarrow> ('w \<Rightarrow> string \<rightharpoonup> ACLRole) \<Rightarrow> bool"
where
  "acl_env_ok r V pols roles \<longleftrightarrow>
     consul_acl_ok (ac_client (ar_acl r)) V pols roles \<and> k8s_lib_ok (ar_lib r) \<and> kube_names (ar_Client r) \<and>
     (\<forall>P R. kube_keeps (\<lambda>w. V w \<and> pols w = P \<and> roles w = R) (ar_Client r))"

definition no_ids :: "'w ConsulACLReconciler \<Rightarrow> bool" where
  "no_ids r \<longleftrightarrow> (\<forall>json cfg. ar_Unmarshal r json = Inr cfg \<longrightarrow>
     list_all (\<lambda>p. pol_ID p = []) (cfg_Policies cfg) \<and> list_all (\<lambda>q. ra_ID q = []) (cfg_Roles cfg))"

lemma kube_held:
  assumes "\<And>P R. kube_keeps (\<lambda>w. V w \<and> pols w = P \<and> roles w = R) k"
  shows "kube_keeps (policy_held V pols n i ns) k" "kube_keeps (role_held V roles n i ns) k"
  unfolding kube_keeps_def by (intro conjI allI held_views [where pols = pols and roles = roles] kube_keepsD[OF assms])+

lemma policy_ops_held:
  assumes c: "consul_acl_ok (ac_client E) V pols roles" and ns: "owner_ok ns'" "ns' \<noteq> ns"
    and pre: "\<not> strings_HasPrefix n (entityPrefix name ns')" and ids: "list_all (\<lambda>p. pol_ID p = []) (cfg_Policies cfg)"
  shows "acl_ops_keep (policy_held V pols n i ns) E cfg name ns'"
  unfolding acl_ops_keep_def
  by (intro conjI allI processPolicies_held[OF c ns(1) ids] processRoles_keeps processBindRules_keeps removeLegacy_keeps
      deleteAclEntities_stages deleteBindingRules_keeps deleteRoles_keeps deletePolicies_held[OF c ns(2)]
      removeStaleEntities_stages stale_rules_keep stale_roles_keep stale_policies_held[OF c ns(2) pre]
      held_reads[OF c] held_other_writes[OF c])

lemma role_ops_held:
  assumes c: "consul_acl_ok (ac_client E) V pols roles" and ns: "owner_ok ns'" "ns' \<noteq> ns"
    and pre: "\<not> strings_HasPrefix n (entityPrefix name ns')" and ids: "list_all (\<lambda>q. ra_ID q = []) (cfg_Roles cfg)"
  shows "acl_ops_keep (role_held V roles n i ns) E cfg name ns'"
  unfolding acl_ops_keep_def
  by (intro conjI allI processPolicies_keeps processRoles_held[OF c ns(1) ids] processBindRules_keeps removeLegacy_keeps
      deleteAclEntities_stages deleteBindingRules_keeps deleteRoles_held[OF c ns(2)] deletePolicies_keeps
      removeStaleEntities_stages stale_rules_keep stale_roles_held[OF c ns(2) pre] stale_policies_keep
      held_reads[OF c] held_other_writes[OF c])

text \<open>
  Reconciles, one after the other, of resources in namespaces other than \<open>ns\<close> whose prefix is not that of the name \<open>n\<close>: by any of
  the reconcilers, for new, changed, unchanged and deleted resources alike.
\<close>

inductive others_reconcile :: "'w ConsulACLReconciler set \<Rightarrow> string \<Rightarrow> string \<Rightarrow> 'w \<Rightarrow> 'w \<Rightarrow> bool" for Rs ns n where
  others_none: "others_reconcile Rs ns n w w"
| others_step: "others_reconcile Rs ns n w w1 \<Longrightarrow> r \<in> Rs \<Longrightarrow> dns_label namespace \<Longrightarrow> namespace \<noteq> ns \<Longrightarrow>
    \<not> strings_HasPrefix n (entityPrefix name namespace) \<Longrightarrow> ACL_Reconcile r namespace name w1 = Some (x, w2) \<Longrightarrow>
    others_reconcile Rs ns n w w2"

lemma reconcile_held:
  assumes env: "acl_env_ok r V pols roles" and ids: "no_ids r" and ns: "dns_label namespace" "namespace \<noteq> ns"
    and pre: "\<not> strings_HasPrefix n (entityPrefix name namespace)"
    and run: "ACL_Reconcile r namespace name w = Some (x, w')"
  shows "policy_held V pols n i ns w \<Longrightarrow> policy_held V pols n i ns w'"
    and "role_held V roles n i ns w \<Longrightarrow> role_held V roles n i ns w'"
proof -
  have c: "consul_acl_ok (ac_client (ar_acl r)) V pols roles" and lib: "k8s_lib_ok (ar_lib r)" and names: "kube_names (ar_Client r)"
    and k: "\<And>P R. kube_keeps (\<lambda>w. V w \<and> pols w = P \<and> roles w = R) (ar_Client r)"
    using env by (simp_all add: acl_env_ok_def)
  note ok = dns_label_owner_ok[OF ns(1)]
  have "acl_all_ops_keep (policy_held V pols n i ns) r name namespace" "acl_all_ops_keep (role_held V roles n i ns) r name namespace"
    unfolding acl_all_ops_keep_def
    by (intro allI impI policy_ops_held[OF c ok ns(2) pre] role_ops_held[OF c ok ns(2) pre]; use ids in \<open>simp add: no_ids_def\<close>)+
  then show "policy_held V pols n i ns w \<Longrightarrow> policy_held V pols n i ns w'" "role_held V roles n i ns w \<Longrightarrow> role_held V roles n i ns w'"
    using ACL_Reconcile_keeps[OF lib kube_held(1)[OF k] names _ _ run] ACL_Reconcile_keeps[OF lib kube_held(2)[OF k] names _ _ run]
    by blast+
qed

text \<open>
  C3. A shared policy or role is never taken away by others. While a namespace is among the owners of a policy or role,
  any number of reconciles of resources in other namespaces - applications, clean-ups and deletions, failing calls to
  Consul included - leave the entity in Consul, under its name and with its ID, and the namespace among its owners,
  provided that the resources name no IDs and that the name does not carry the prefix of one of the reconciled resources.
\<close>

theorem shared_entity_survives_others:
  assumes "others_reconcile Rs ns n w w'"
    and "\<And>r. r \<in> Rs \<Longrightarrow> acl_env_ok r V pols roles" "\<And>r. r \<in> Rs \<Longrightarrow> no_ids r"
  shows "(policy_held V pols n i ns w \<longrightarrow> policy_held V pols n i ns w') \<and> (role_held V roles n i ns w \<longrightarrow> role_held V roles n i ns w')"
  using assms(1) by induction (use reconcile_held[OF assms(2,3)] in blast)+

subsection \<open>A Consul with tables\<close>

text \<open>A store as an association list from names, whose new IDs are longer than all before.\<close>

definition tbl_wf :: "('e \<Rightarrow> string) \<Rightarrow> ('e \<Rightarrow> string) \<Rightarrow> nat \<Rightarrow> (string \<times> 'e) list \<Rightarrow> bool" where
  "tbl_wf ident ename k l \<longleftrightarrow>
     distinct (map fst l) \<and> store_wf ident ename (map_of l) \<and> (\<forall>m q. map_of l m = Some q \<longrightarrow> length (ident q) < k)"

definition tbl_create :: "('e \<Rightarrow> string) \<Rightarrow> (string \<Rightarrow> 'e \<Rightarrow> 'e) \<Rightarrow> nat \<Rightarrow> 'e \<Rightarrow> (string \<times> 'e) list \<Rightarrow> (string \<times> 'e) list" where
  "tbl_create ename set_ident k e l =
     (if map_of l (ename e) = None then AList.update (ename e) (set_ident (replicate k CHR ''i'') e) l else l)"

definition tbl_update :: "('e \<Rightarrow> string) \<Rightarrow> ('e \<Rightarrow> string) \<Rightarrow> 'e \<Rightarrow> (string \<times> 'e) list \<Rightarrow> (string \<times> 'e) list" where
  "tbl_update ident ename e l =
     (case find (\<lambda>x. ident (snd x) = ident e) l of
        None \<Rightarrow> l
      | Some x \<Rightarrow>
          if ename e = fst x \<or> map_of l (ename e) = None then AList.update (ename e) e (AList.delete (fst x) l) else l)"

definition tbl_delete :: "('e \<Rightarrow> string) \<Rightarrow> string \<Rightarrow> (string \<times> 'e) list \<Rightarrow> (string \<times> 'e) list" where
  "tbl_delete ident i l =
     (case find (\<lambda>x. ident (snd x) = i) l of None \<Rightarrow> l | Some x \<Rightarrow> AList.delete (fst x) l)"

lemma store_wfD:
  assumes "store_wf ident ename s"
  shows "s n = Some e \<Longrightarrow> ename e = n" "s n = Some e \<Longrightarrow> ident e \<noteq> []"
    "s n = Some e \<Longrightarrow> s m = Some f \<Longrightarrow> ident e = ident f \<Longrightarrow> n = m"
  using assms unfolding store_wf_def by blast+

lemma store_wf_create:
  assumes s: "store_wf ident ename s" and new: "\<And>m q. s m = Some q \<Longrightarrow> ident q \<noteq> ident e" "ident e \<noteq> []"
  shows "store_wf ident ename (s(ename e \<mapsto> e))"
  unfolding store_wf_def
proof (intro conjI allI impI)
  fix n x assume "(s(ename e \<mapsto> e)) n = Some x"
  then show "ename x = n" "ident x \<noteq> []" using store_wfD(1,2)[OF s] new(2) by (auto split: if_splits)
next
  fix n m x y assume "(s(ename e \<mapsto> e)) n = Some x" "(s(ename e \<mapsto> e)) m = Some y" "ident x = ident y"
  then show "n = m" using store_wfD(3)[OF s, of n x m y] new(1)[of n] new(1)[of m] by (auto split: if_splits)
qed

lemma store_wf_delete: "store_wf ident ename s \<Longrightarrow> store_wf ident ename (s(m := None))"
  unfolding store_wf_def by (auto split: if_splits)

lemma store_wf_update:
  assumes s: "store_wf ident ename s" and m: "s m = Some q" "ident q = ident e"
  shows "store_wf ident ename (s(m := None, ename e := Some e))"
proof (rule store_wf_create [OF store_wf_delete [OF s]])
  fix m' q' assume "(s(m := None)) m' = Some q'"
  then show "ident q' \<noteq> ident e" using store_wfD(3)[OF s m(1), of m' q'] m(2) by (auto split: if_splits)
qed (use store_wfD(2)[OF s m(1)] m(2) in simp)

lemma tbl_wfD:
  assumes "tbl_wf ident ename k l"
  shows "distinct (map fst l)" "store_wf ident ename (map_of l)" "map_of l m = Some q \<Longrightarrow> length (ident q) < k"
  using assms unfolding tbl_wf_def by blast+

lemma tbl_wfI:
  assumes "distinct (map fst l')" "map_of l' = s" "store_wf ident ename s" "\<And>m q. s m = Some q \<Longrightarrow> length (ident q) < k"
  shows "tbl_wf ident ename k l'"
  using assms unfolding tbl_wf_def by blast

lemma tbl_find:
  assumes l: "tbl_wf ident ename k l" and x: "find (\<lambda>x. ident (snd x) = i) l = Some x"
  shows "map_of l (fst x) = Some (snd x)" "ident (snd x) = i"
proof -
  have "(fst x, snd x) \<in> set l" "ident (snd x) = i" using x by (auto simp: find_Some_iff)
  then show "map_of l (fst x) = Some (snd x)" "ident (snd x) = i"
    using map_of_is_SomeI[OF tbl_wfD(1)[OF l]] by blast+
qed

lemma tbl_create_ok:
  assumes l: "tbl_wf ident ename k l" and k: "0 < k"
    and si: "\<And>i e. ident (si i e) = i" "\<And>i e. ename (si i e) = ename e"
  shows "tbl_wf ident ename (Suc k) (tbl_create ename si k e l)"
    and "map_of (tbl_create ename si k e l) = map_of l \<or> map_of l (ename e) = None \<and>
      (\<exists>i. map_of (tbl_create ename si k e l) = (map_of l)(ename e \<mapsto> si i e))"
proof -
  let ?e = "si (replicate k CHR ''i'') e"
  have "store_wf ident ename ((map_of l)(ename ?e \<mapsto> ?e))"
    by (rule store_wf_create[OF tbl_wfD(2)[OF l]]) (use tbl_wfD(3)[OF l] k in \<open>force simp: si\<close>)+
  then have "tbl_wf ident ename (Suc k) (AList.update (ename e) ?e l)"
    by (intro tbl_wfI[OF distinct_update[OF tbl_wfD(1)[OF l]] update_conv'])
      (use tbl_wfD(3)[OF l] in \<open>auto simp: si less_SucI split: if_splits\<close>)
  moreover have "tbl_wf ident ename (Suc k) l"
    by (rule tbl_wfI[OF tbl_wfD(1)[OF l] refl tbl_wfD(2)[OF l]]) (rule less_SucI[OF tbl_wfD(3)[OF l]])
  ultimately show "tbl_wf ident ename (Suc k) (tbl_create ename si k e l)" by (simp add: tbl_create_def)
  show "map_of (tbl_create ename si k e l) = map_of l \<or> map_of l (ename e) = None \<and>
      (\<exists>i. map_of (tbl_create ename si k e l) = (map_of l)(ename e \<mapsto> si i e))"
    by (auto simp: tbl_create_def update_conv')
qed

lemma tbl_update_found:
  assumes l: "tbl_wf ident ename k l" and x: "find (\<lambda>x. ident (snd x) = ident e) l = Some x"
  shows "tbl_wf ident ename k (AList.update (ename e) e (AList.delete (fst x) l))"
    and "map_of (AList.update (ename e) e (AList.delete (fst x) l)) = (map_of l)(fst x := None, ename e := Some e)"
proof -
  note f = tbl_find[OF l x]
  show m: "map_of (AList.update (ename e) e (AList.delete (fst x) l)) = (map_of l)(fst x := None, ename e := Some e)"
    by (simp add: update_conv' delete_conv')
  have "length (ident e) < k" using tbl_wfD(3)[OF l f(1)] f(2) by simp
  then show "tbl_wf ident ename k (AList.update (ename e) e (AList.delete (fst x) l))"
    by (intro tbl_wfI[OF distinct_update[OF distinct_delete[OF tbl_wfD(1)[OF l]]] m store_wf_update[OF tbl_wfD(2)[OF l] f]])
      (use tbl_wfD(3)[OF l] in \<open>auto split: if_splits\<close>)
qed

lemma tbl_update_ok:
  assumes l: "tbl_wf ident ename k l"
  shows "tbl_wf ident ename k (tbl_update ident ename e l)"
    and "map_of (tbl_update ident ename e l) = map_of l \<or> (\<exists>m q. map_of l m = Some q \<and> ident q = ident e \<and>
      (ename e = m \<or> map_of l (ename e) = None) \<and> map_of (tbl_update ident ename e l) = (map_of l)(m := None, ename e := Some e))"
proof -
  show "tbl_wf ident ename k (tbl_update ident ename e l)"
    using l tbl_update_found(1)[OF l] unfolding tbl_update_def
    by (cases "find (\<lambda>x. ident (snd x) = ident e) l") simp_all
  show "map_of (tbl_update ident ename e l) = map_of l \<or> (\<exists>m q. map_of l m = Some q \<and> ident q = ident e \<and>
      (ename e = m \<or> map_of l (ename e) = None) \<and> map_of (tbl_update ident ename e l) = (map_of l)(m := None, ename e := Some e))"
  proof (cases "find (\<lambda>x. ident (snd x) = ident e) l")
    case (Some x)
    then show ?thesis using tbl_find[OF l Some] tbl_update_found(2)[OF l Some] unfolding tbl_update_def by auto
  qed (simp add: tbl_update_def)
qed

lemma tbl_delete_ok:
  assumes l: "tbl_wf ident ename k l"
  shows "tbl_wf ident ename k (tbl_delete ident i l)"
    and "map_of (tbl_delete ident i l) = map_of l \<or>
      (\<exists>m q. map_of l m = Some q \<and> ident q = i \<and> map_of (tbl_delete ident i l) = (map_of l)(m := None))"
proof -
  have "tbl_wf ident ename k (AList.delete m l)" for m
    by (rule tbl_wfI[OF distinct_delete[OF tbl_wfD(1)[OF l]] delete_conv' store_wf_delete[OF tbl_wfD(2)[OF l]]])
      (use tbl_wfD(3)[OF l] in \<open>auto split: if_splits\<close>)
  then show "tbl_wf ident ename k (tbl_delete ident i l)"
    using l unfolding tbl_delete_def by (simp split: option.split)
  show "map_of (tbl_delete ident i l) = map_of l \<or>
      (\<exists>m q. map_of l m = Some q \<and> ident q = i \<and> map_of (tbl_delete ident i l) = (map_of l)(m := None))"
  proof (cases "find (\<lambda>x. ident (snd x) = i) l")
    case (Some x)
    then show ?thesis using tbl_find[OF l Some] unfolding tbl_delete_def by (auto simp: delete_conv')
  qed (simp add: tbl_delete_def)
qed

record tblWorld =
  tw_policies :: "(string \<times> ACLPolicy) list"
  tw_roles :: "(string \<times> ACLRole) list"
  tw_next :: nat
  tw_sent :: "string list"
  tw_crs :: "ConsulACL list"

definition tw_ok :: "tblWorld \<Rightarrow> bool" where
  "tw_ok w \<longleftrightarrow> 0 < tw_next w \<and> tbl_wf pol_ID pol_Name (tw_next w) (tw_policies w) \<and>
     tbl_wf role_ID role_Name (tw_next w) (tw_roles w)"

abbreviation tw_pols :: "tblWorld \<Rightarrow> string \<rightharpoonup> ACLPolicy" where
  "tw_pols w \<equiv> map_of (tw_policies w)"

abbreviation tw_rls :: "tblWorld \<Rightarrow> string \<rightharpoonup> ACLRole" where
  "tw_rls w \<equiv> map_of (tw_roles w)"

text \<open>A write that finds no place in the table fails.\<close>

definition tbl_found :: "('e \<Rightarrow> string) \<Rightarrow> ('e \<Rightarrow> string) \<Rightarrow> 'e \<Rightarrow> (string \<times> 'e) list \<Rightarrow> bool" where
  "tbl_found ident ename e l =
     (case find (\<lambda>x. ident (snd x) = ident e) l of None \<Rightarrow> False | Some x \<Rightarrow> ename e = fst x \<or> map_of l (ename e) = None)"

definition tbl_answer :: "bool \<Rightarrow> 'e \<Rightarrow> 'e result" where
  "tbl_answer ok e = (if ok then Inr e else Inl (StatusError 500 ''rejected''))"

text \<open>It has no binding rules, auth methods and tokens, and remembers the descriptions that were sent to it.\<close>

definition tbl_acl :: "tblWorld consulACLClient" where
  "tbl_acl =
     \<lparr>acl_PolicyCreate = (\<lambda>p w. (tbl_answer (tw_pols w (pol_Name p) = None) p,
        w\<lparr>tw_policies := tbl_create pol_Name (\<lambda>i p. p\<lparr>pol_ID := i\<rparr>) (tw_next w) p (tw_policies w), tw_next := Suc (tw_next w),
          tw_sent := tw_sent w @ [pol_Description p]\<rparr>)),
      acl_PolicyUpdate = (\<lambda>p w. (tbl_answer (tbl_found pol_ID pol_Name p (tw_policies w)) p, w\<lparr>tw_policies := tbl_update pol_ID pol_Name p (tw_policies w),
          tw_sent := tw_sent w @ [pol_Description p]\<rparr>)),
      acl_PolicyReadByName = (\<lambda>n w. (Inr (tw_pols w n), w)),
      acl_PolicyDelete = (\<lambda>i w. (Inr (), w\<lparr>tw_policies := tbl_delete pol_ID i (tw_policies w)\<rparr>)),
      acl_RoleCreate = (\<lambda>p w. (tbl_answer (tw_rls w (role_Name p) = None) p,
        w\<lparr>tw_roles := tbl_create role_Name (\<lambda>i p. p\<lparr>role_ID := i\<rparr>) (tw_next w) p (tw_roles w), tw_next := Suc (tw_next w),
          tw_sent := tw_sent w @ [role_Description p]\<rparr>)),
      acl_RoleUpdate = (\<lambda>p w. (tbl_answer (tbl_found role_ID role_Name p (tw_roles w)) p, w\<lparr>tw_roles := tbl_update role_ID role_Name p (tw_roles w),
          tw_sent := tw_sent w @ [role_Description p]\<rparr>)),
      acl_RoleReadByName = (\<lambda>n w. (Inr (tw_rls w n), w)),
      acl_RoleList = (\<lambda>w. (Inr (map snd (tw_roles w)), w)),
      acl_RoleDelete = (\<lambda>i w. (Inr (), w\<lparr>tw_roles := tbl_delete role_ID i (tw_roles w)\<rparr>)),
      acl_PolicyList = (\<lambda>w. (Inr (map (policy_entry \<circ> snd) (tw_policies w)), w)),
      acl_BindingRuleCreate = (\<lambda>b w. (Inl (PlainError ''no rules''), w\<lparr>tw_sent := tw_sent w @ [br_Description b]\<rparr>)),
      acl_BindingRuleUpdate = (\<lambda>b w. (Inl (PlainError ''no rules''), w\<lparr>tw_sent := tw_sent w @ [br_Description b]\<rparr>)),
      acl_BindingRuleList = (\<lambda>m w. (Inr [], w)), acl_BindingRuleDelete = (\<lambda>i w. (Inr (), w)),
      acl_AuthMethodCreate = (\<lambda>m w. (Inr m, w)), acl_AuthMethodUpdate = (\<lambda>m w. (Inr m, w)),
      acl_AuthMethodRead = (\<lambda>n w. (Inr None, w)), acl_TokenListFiltered = (\<lambda>r w. (Inr [], w)),
      acl_TokenDelete = (\<lambda>t w. (Inr (), w))\<rparr>"

definition same_cr :: "ConsulACL \<Rightarrow> ConsulACL \<Rightarrow> bool" where
  "same_cr x y \<longleftrightarrow> meta_Name (acr_Meta x) = meta_Name (acr_Meta y) \<and> meta_Namespace (acr_Meta x) = meta_Namespace (acr_Meta y)"

definition tbl_kube :: "(ConsulACL, tblWorld) kubeClient" where
  "tbl_kube =
     \<lparr>kube_Get = (\<lambda>ns n w. case find (\<lambda>x. meta_Name (acr_Meta x) = n \<and> meta_Namespace (acr_Meta x) = ns) (tw_crs w) of
        None \<Rightarrow> (Inl (K8sNotFound n), w) | Some x \<Rightarrow> (Inr x, w)),
      kube_List = (\<lambda>ns w. (Inr (filter (\<lambda>x. meta_Namespace (acr_Meta x) = ns) (tw_crs w)), w)),
      kube_Update = (\<lambda>x w. (None, w\<lparr>tw_crs := map (\<lambda>y. if same_cr x y then x else y) (tw_crs w)\<rparr>)),
      kube_StatusUpdate = (\<lambda>x w. (None, w\<lparr>tw_crs := map (\<lambda>y. if same_cr x y then x else y) (tw_crs w)\<rparr>))\<rparr>"

definition tbl_config :: ACLConfig where
  "tbl_config =
     \<lparr>cfg_Policies = [demo_policy [] ''d''],
      cfg_Roles = [\<lparr>ra_ID = [], ra_Name = ''reader'', ra_Description = [], ra_PolicyNames = [''shared'']\<rparr>], cfg_BindRules = []\<rparr>"

definition tbl_reconciler :: "tblWorld ConsulACLReconciler" where
  "tbl_reconciler =
     \<lparr>ar_lib = demo_lib, ar_Client = tbl_kube,
      ar_acl = \<lparr>ac_client = tbl_acl, ac_authMethod = ''m2m'', ac_legacyAuthMethods = [], ac_range = (\<lambda>ks. ks)\<rparr>,
      ar_Unmarshal = (\<lambda>s. if s = ''ok'' then Inr tbl_config else Inl (PlainError ''invalid character'')),
      ar_OwnNamespace = ''consul'', ar_Strict = False, ar_Group = ''netcracker.com'', ar_periodTime = 60\<rparr>"

lemma tbl_wf_Suc: "tbl_wf ident ename k l \<Longrightarrow> tbl_wf ident ename (Suc k) l"
  by (rule tbl_wfI[OF tbl_wfD(1) refl tbl_wfD(2)]) (auto intro: less_SucI[OF tbl_wfD(3)])

lemma tw_okD:
  assumes "tw_ok w"
  shows "0 < tw_next w" "tbl_wf pol_ID pol_Name (tw_next w) (tw_policies w)" "tbl_wf role_ID role_Name (tw_next w) (tw_roles w)"
  using assms by (simp_all add: tw_ok_def)

lemma tbl_policy_store:
  "entity_store tw_ok tw_pols pol_ID pol_Name (\<lambda>i p. p\<lparr>pol_ID := i\<rparr>)
     (acl_PolicyCreate tbl_acl) (acl_PolicyUpdate tbl_acl) (acl_PolicyDelete tbl_acl)"
proof -
  have "store_wf pol_ID pol_Name (tw_pols w)" if "tw_ok w" for w
    by (rule tbl_wfD(2)[OF tw_okD(2)[OF that]])
  moreover have "tw_ok (snd (acl_PolicyCreate tbl_acl e w))" if "tw_ok w" for e w
    using tbl_create_ok(1)[OF tw_okD(2,1)[OF that], of "\<lambda>i p. p\<lparr>pol_ID := i\<rparr>" e] tbl_wf_Suc[OF tw_okD(3)[OF that]]
    by (simp add: tbl_acl_def tw_ok_def)
  moreover have "tw_ok (snd (acl_PolicyUpdate tbl_acl e w))" if "tw_ok w" for e w
    using tbl_update_ok(1)[OF tw_okD(2)[OF that]] that by (simp add: tbl_acl_def tw_ok_def)
  moreover have "tw_ok (snd (acl_PolicyDelete tbl_acl i w))" if "tw_ok w" for i w
    using tbl_delete_ok(1)[OF tw_okD(2)[OF that]] that by (simp add: tbl_acl_def tw_ok_def)
  ultimately show ?thesis
    unfolding entity_store_def
    using tbl_create_ok(2)[OF tw_okD(2,1), of _ "\<lambda>i p. p\<lparr>pol_ID := i\<rparr>"] tbl_update_ok(2)[OF tw_okD(2)] tbl_delete_ok(2)[OF tw_okD(2)]
    by (simp add: tbl_acl_def) 
qed

lemma tbl_role_store:
  "entity_store tw_ok tw_rls role_ID role_Name (\<lambda>i p. p\<lparr>role_ID := i\<rparr>)
     (acl_RoleCreate tbl_acl) (acl_RoleUpdate tbl_acl) (acl_RoleDelete tbl_acl)"
proof -
  have "store_wf role_ID role_Name (tw_rls w)" if "tw_ok w" for w
    by (rule tbl_wfD(2)[OF tw_okD(3)[OF that]])
  moreover have "tw_ok (snd (acl_RoleCreate tbl_acl e w))" if "tw_ok w" for e w
    using tbl_create_ok(1)[OF tw_okD(3,1)[OF that], of "\<lambda>i p. p\<lparr>role_ID := i\<rparr>" e] tbl_wf_Suc[OF tw_okD(2)[OF that]]
    by (simp add: tbl_acl_def tw_ok_def)
  moreover have "tw_ok (snd (acl_RoleUpdate tbl_acl e w))" if "tw_ok w" for e w
    using tbl_update_ok(1)[OF tw_okD(3)[OF that]] that by (simp add: tbl_acl_def tw_ok_def)
  moreover have "tw_ok (snd (acl_RoleDelete tbl_acl i w))" if "tw_ok w" for i w
    using tbl_delete_ok(1)[OF tw_okD(3)[OF that]] that by (simp add: tbl_acl_def tw_ok_def)
  ultimately show ?thesis
    unfolding entity_store_def
    using tbl_create_ok(2)[OF tw_okD(3,1), of _ "\<lambda>i p. p\<lparr>role_ID := i\<rparr>"] tbl_update_ok(2)[OF tw_okD(3)] tbl_delete_ok(2)[OF tw_okD(3)]
    by (simp add: tbl_acl_def)
qed

lemma tbl_listed:
  assumes "tbl_wf ident ename k l" "x \<in> set l"
  shows "map_of l (ename (snd x)) = Some (snd x)"
proof -
  have "map_of l (fst x) = Some (snd x)" using assms by (auto simp: tbl_wf_def intro: map_of_is_SomeI)
  moreover have "ename (snd x) = fst x" by (rule store_wfD(1)[OF tbl_wfD(2)[OF assms(1)] calculation])
  ultimately show ?thesis by simp
qed

lemma tbl_lists:
  "lists_stored tw_ok tw_pols ple_Name policy_entry (acl_PolicyList tbl_acl)"
  "lists_stored tw_ok tw_rls role_Name id (acl_RoleList tbl_acl)"
  using tbl_listed[OF tw_okD(2)] tbl_listed[OF tw_okD(3)]
  by (auto simp: lists_stored_def tbl_acl_def policy_entry_def)

lemma tbl_frames:
  "client_reads (\<lambda>w. tw_ok w \<and> tw_pols w = P \<and> tw_rls w = R) tbl_acl"
  "rule_writes (\<lambda>w. tw_ok w \<and> tw_pols w = P \<and> tw_rls w = R) tbl_acl"
  "keeps (\<lambda>w. tw_ok w \<and> tw_pols w = P \<and> tw_rls w = R) (acl_TokenDelete tbl_acl t)"
  by (simp_all add: client_reads_def rule_writes_def keeps_def tbl_acl_def tw_ok_def)

lemma tbl_acl_ok: "consul_acl_ok tbl_acl tw_ok tw_pols tw_rls"
proof -
  have "policy_writes (\<lambda>w. tw_ok w \<and> tw_rls w = R) tbl_acl" for R
    using tbl_policy_store unfolding policy_writes_def keeps_def entity_store_def by (simp add: tbl_acl_def)
  moreover have "role_writes (\<lambda>w. tw_ok w \<and> tw_pols w = P) tbl_acl" for P
    using tbl_role_store unfolding role_writes_def keeps_def entity_store_def by (simp add: tbl_acl_def)
  moreover have "reads_by_name tw_ok tw_pols (acl_PolicyReadByName tbl_acl)" "reads_by_name tw_ok tw_rls (acl_RoleReadByName tbl_acl)"
    by (simp_all add: reads_by_name_def tbl_acl_def)
  ultimately show ?thesis
    unfolding consul_acl_ok_def by (intro conjI allI tbl_policy_store tbl_role_store tbl_lists tbl_frames)
qed

lemma tbl_env_ok: "acl_env_ok tbl_reconciler tw_ok tw_pols tw_rls"
proof -
  have "kube_names tbl_kube"
    by (auto simp: kube_names_def tbl_kube_def find_Some_iff split: option.splits)
  moreover have "kube_keeps (\<lambda>w. tw_ok w \<and> tw_pols w = P \<and> tw_rls w = R) tbl_kube" for P R
    by (auto simp: kube_keeps_def keeps_def tbl_kube_def tw_ok_def split: option.splits)
  ultimately show ?thesis
    using tbl_acl_ok by (simp add: acl_env_ok_def tbl_reconciler_def demo_lib_ok)
qed

lemma tbl_no_ids: "no_ids tbl_reconciler"
  by (simp add: no_ids_def tbl_reconciler_def tbl_config_def demo_policy_def)

text \<open>
  Two namespaces own the policy \<^verbatim>\<open>shared\<close> and the role \<^verbatim>\<open>reader\<close>; the resource of the second is being deleted.
\<close>

definition tbl_role :: ACLRole where
  "tbl_role = \<lparr>role_ID = ''r1'', role_Name = ''reader'', role_Description = ''[consul-acl-owners: ns1, ns2]'', role_Policies = []\<rparr>"

definition tbl_world :: tblWorld where
  "tbl_world =
     \<lparr>tw_policies = [(''shared'', demo_policy ''p1'' ''d [consul-acl-owners: ns1, ns2]'')], tw_roles = [(''reader'', tbl_role)], tw_next = 3, tw_sent = [],
      tw_crs =
        [\<lparr>acr_Meta = \<lparr>meta_Name = ''app'', meta_Namespace = ''ns2'', meta_Generation = 1,
            meta_Finalizers = [''netcracker.com/consulaclconfigurator-controller''], meta_DeletionTimestamp = Some 5\<rparr>,
          acr_Spec = \<lparr>aspec_OperatorNamespace = [],
            aspec_ACL = Some \<lparr>acl_Json = ''ok'', acl_Name = ''app'', acl_CommonReconcile = [], acl_ExplicitName = True\<rparr>\<rparr>,
          acr_Status = \<lparr>ast_PoliciesStatus = [], ast_RolesStatus = [], ast_BindRulesStatus = [], ast_GeneralStatus = [],
            ast_Conditions = []\<rparr>\<rparr>]\<rparr>"

lemma tbl_world_held:
  "policy_held tw_ok tw_pols ''shared'' ''p1'' ''ns1'' tbl_world" "role_held tw_ok tw_rls ''reader'' ''r1'' ''ns1'' tbl_world"
proof -
  have "tw_ok tbl_world"
    by (auto simp: tw_ok_def tbl_wf_def store_wf_def tbl_world_def demo_policy_def tbl_role_def split: if_splits)
  moreover have "''ns1'' \<in> owners_of ''d [consul-acl-owners: ns1, ns2]''" "''ns1'' \<in> owners_of ''[consul-acl-owners: ns1, ns2]''"
    by code_simp+
  ultimately show "policy_held tw_ok tw_pols ''shared'' ''p1'' ''ns1'' tbl_world" "role_held tw_ok tw_rls ''reader'' ''r1'' ''ns1'' tbl_world"
    by (simp_all add: held_def tbl_world_def demo_policy_def tbl_role_def)
qed

theorem shared_entity_survives_others_witness:
  "\<exists>x w'. ACL_Reconcile tbl_reconciler ''ns2'' ''app'' tbl_world = Some (x, w') \<and>
     policy_held tw_ok tw_pols ''shared'' ''p1'' ''ns1'' w'"
proof -
  have "map_option (\<lambda>(x, w). map (pol_Description \<circ> snd) (tw_policies w)) (ACL_Reconcile tbl_reconciler ''ns2'' ''app'' tbl_world)
      = Some [''d'' @ [CHR 0x0A] @ ''[consul-acl-owners: ns1]'']"
    by code_simp
  then obtain x w' where run: "ACL_Reconcile tbl_reconciler ''ns2'' ''app'' tbl_world = Some (x, w')" by auto
  have "others_reconcile {tbl_reconciler} ''ns1'' ''shared'' tbl_world w'"
    by (rule others_step[OF others_none _ _ _ _ run])
      (simp_all add: dns_label_def dns_label_char_def entityPrefix_def strings_HasPrefix_def)
  from shared_entity_survives_others[OF this, of tw_ok tw_pols tw_rls "''p1''"] tbl_env_ok tbl_no_ids tbl_world_held(1) run
  show ?thesis by auto
qed

end
