(* ===== verification/ACL_Descriptions.thy ===== *)
theory ACL_Descriptions
  imports ACL_Ownership
begin

text \<open>
  The descriptions that the operator sends to Consul over a whole reconcile. Whatever Consul answers, every policy, role and
  binding rule that a reconcile creates or updates carries a canonical description: a base text and a
  non-empty sorted list of valid owners, in the one form that the codec of \<^theory_text>\<open>Owners\<close> writes and reads back.
\<close>

subsection \<open>Canonical descriptions\<close>

definition canonical_description :: "string \<Rightarrow> bool" where
  "canonical_description d \<longleftrightarrow>
     (case parseOwners d of (base, owners) \<Rightarrow>
        owners \<noteq> [] \<and> sorted owners \<and> list_all owner_ok owners \<and> buildDescription base owners = d)"

lemma parse_base_trimmed: "trim_base (fst (parseOwners d)) = fst (parseOwners d)"
  by (simp add: parseOwners_def Let_def split: option.splits)

lemma build_canonical:
  assumes "trim_base base = base" "\<forall>x\<in>set owners. owner_ok x" "owners \<noteq> []"
  shows "canonical_description (buildDescription base owners)"
proof -
  have "sort owners \<noteq> []" using assms(3) by (metis length_0_conv length_sort)
  then show ?thesis
    using assms parse_build[OF assms(2,3), of base] by (simp add: canonical_description_def buildDescription_sort list_all_iff)
qed

lemma withOwnerAdded_canonical: "owner_ok ns \<Longrightarrow> canonical_description (withOwnerAdded spec d ns)"
  unfolding withOwnerAdded_def Let_def
  by (rule build_canonical) (auto simp: parse_base_trimmed intro: parseOwners_owner_ok)

lemma withOwnerRemoved_canonical:
  "\<not> snd (withOwnerRemoved d ns) \<Longrightarrow> canonical_description (fst (withOwnerRemoved d ns))"
  unfolding withOwnerRemoved_def Let_def split_beta fst_conv snd_conv
  by (rule build_canonical) (auto simp: parse_base_trimmed intro: parseOwners_owner_ok)

subsection \<open>What Consul receives\<close>

text \<open>The descriptions of the policies, roles and rules that were sent to be created or updated, in order.\<close>

definition description_observer :: "'w ConsulACLReconciler \<Rightarrow> ('w \<Rightarrow> string list) \<Rightarrow> bool" where
  "description_observer r sent \<longleftrightarrow>
     (let c = ac_client (ar_acl r) in
      (\<forall>ds. client_reads (\<lambda>w. sent w = ds) c \<and> kube_keeps (\<lambda>w. sent w = ds) (ar_Client r)) \<and>
      (\<forall>ds i. keeps (\<lambda>w. sent w = ds) (acl_PolicyDelete c i) \<and> keeps (\<lambda>w. sent w = ds) (acl_RoleDelete c i) \<and>
         keeps (\<lambda>w. sent w = ds) (acl_BindingRuleDelete c i) \<and> keeps (\<lambda>w. sent w = ds) (acl_TokenDelete c i)) \<and>
      (\<forall>p w. sent (snd (acl_PolicyCreate c p w)) = sent w @ [pol_Description p] \<and>
         sent (snd (acl_PolicyUpdate c p w)) = sent w @ [pol_Description p]) \<and>
      (\<forall>q w. sent (snd (acl_RoleCreate c q w)) = sent w @ [role_Description q] \<and>
         sent (snd (acl_RoleUpdate c q w)) = sent w @ [role_Description q]) \<and>
      (\<forall>b w. sent (snd (acl_BindingRuleCreate c b w)) = sent w @ [br_Description b] \<and>
         sent (snd (acl_BindingRuleUpdate c b w)) = sent w @ [br_Description b]))"

definition canonical_since :: "('w \<Rightarrow> string list) \<Rightarrow> string list \<Rightarrow> 'w \<Rightarrow> bool" where
  "canonical_since sent before w \<longleftrightarrow> (\<exists>new. sent w = before @ new \<and> list_all canonical_description new)"

lemma canonical_same: "(\<And>ds. keeps (\<lambda>w. sent w = ds) f) \<Longrightarrow> keeps (canonical_since sent before) f"
  unfolding keeps_def canonical_since_def by metis

lemma canonical_sent:
  assumes f: "\<And>w. sent (snd (f w)) = sent w @ [d]" and d: "canonical_description d"
  shows "keeps (canonical_since sent before) f"
proof (rule keepsI)
  fix w r w'
  assume "canonical_since sent before w" and run: "f w = (r, w')"
  then obtain new where new: "sent w = before @ new" "list_all canonical_description new" by (auto simp: canonical_since_def)
  have "sent w' = before @ (new @ [d])" using f[of w] run new(1) by simp
  moreover have "list_all canonical_description (new @ [d])" using new(2) d by simp
  ultimately show "canonical_since sent before w'" unfolding canonical_since_def by blast
qed

lemma observer_keeps:
  fixes before :: "string list"
  assumes obs: "description_observer r sent"
  defines "c \<equiv> ac_client (ar_acl r)" and "I \<equiv> canonical_since sent before"
  shows "client_reads I c" "kube_keeps I (ar_Client r)"
    "keeps I (acl_PolicyDelete c i)" "keeps I (acl_RoleDelete c i)" "keeps I (acl_BindingRuleDelete c i)" "keeps I (acl_TokenDelete c i)"
    "canonical_description (pol_Description p) \<Longrightarrow> keeps I (acl_PolicyCreate c p)"
    "canonical_description (pol_Description p) \<Longrightarrow> keeps I (acl_PolicyUpdate c p)"
    "canonical_description (role_Description q) \<Longrightarrow> keeps I (acl_RoleCreate c q)"
    "canonical_description (role_Description q) \<Longrightarrow> keeps I (acl_RoleUpdate c q)"
    "canonical_description (br_Description b) \<Longrightarrow> keeps I (acl_BindingRuleCreate c b)"
    "canonical_description (br_Description b) \<Longrightarrow> keeps I (acl_BindingRuleUpdate c b)"
proof -
  have reads: "client_reads (\<lambda>w. sent w = ds) c" and kube: "kube_keeps (\<lambda>w. sent w = ds) (ar_Client r)" for ds
    using obs by (simp_all add: description_observer_def c_def Let_def)
  show "client_reads I c"
    unfolding client_reads_def I_def by (intro conjI allI canonical_same client_readsD[OF reads])
  show "kube_keeps I (ar_Client r)"
    unfolding kube_keeps_def I_def by (intro conjI allI canonical_same kube_keepsD[OF kube])
  show "keeps I (acl_PolicyDelete c i)" "keeps I (acl_RoleDelete c i)" "keeps I (acl_BindingRuleDelete c i)" "keeps I (acl_TokenDelete c i)"
    unfolding I_def by (rule canonical_same, use obs in \<open>simp add: description_observer_def c_def Let_def\<close>)+
  show "canonical_description (pol_Description p) \<Longrightarrow> keeps I (acl_PolicyCreate c p)"
    "canonical_description (pol_Description p) \<Longrightarrow> keeps I (acl_PolicyUpdate c p)"
    "canonical_description (role_Description q) \<Longrightarrow> keeps I (acl_RoleCreate c q)"
    "canonical_description (role_Description q) \<Longrightarrow> keeps I (acl_RoleUpdate c q)"
    "canonical_description (br_Description b) \<Longrightarrow> keeps I (acl_BindingRuleCreate c b)"
    "canonical_description (br_Description b) \<Longrightarrow> keeps I (acl_BindingRuleUpdate c b)"
    unfolding I_def by (rule canonical_sent, use obs in \<open>simp add: description_observer_def c_def Let_def\<close>, assumption)+
qed

subsection \<open>Every operation sends canonical descriptions\<close>

lemma release_canonical:
  assumes obs: "description_observer r sent"
  shows "keeps (canonical_since sent before) (releasePolicy (ar_acl r) ns p)"
    and "keeps (canonical_since sent before) (releaseRole (ar_acl r) ns q)"
    and "keeps (canonical_since sent before) (releaseBindingRule (ar_acl r) ns b)"
proof -
  note call = observer_keeps[OF obs, where before = before]
  have "canonical_since sent before w \<Longrightarrow> canonical_since sent before (snd (acl_RoleDelete (ac_client (ar_acl r)) i (revokeRoleTokens (ar_acl r) q w)))" for w i
    by (rule keeps_snd[OF call(4) revokeRoleTokens_keeps[OF call(1,6)]])
  then have del: "keeps (canonical_since sent before) (\<lambda>w. acl_RoleDelete (ac_client (ar_acl r)) i (revokeRoleTokens (ar_acl r) q w))" for i
    unfolding keeps_def by blast
  show "keeps (canonical_since sent before) (releasePolicy (ar_acl r) ns p)"
    unfolding releasePolicy_def Let_def split_beta
    by (intro keeps_if keeps_err_of call) (simp_all add: withOwnerRemoved_canonical)
  show "keeps (canonical_since sent before) (releaseRole (ar_acl r) ns q)"
    unfolding releaseRole_def Let_def split_beta
    by (intro keeps_if keeps_err_of del call) (simp_all add: withOwnerRemoved_canonical)
  show "keeps (canonical_since sent before) (releaseBindingRule (ar_acl r) ns b)"
    unfolding releaseBindingRule_def Let_def split_beta
    by (intro keeps_if keeps_err_of call) (simp_all add: withOwnerRemoved_canonical)
qed

lemma write_canonical:
  assumes obs: "description_observer r sent" and ns: "owner_ok ns"
  shows "keeps (canonical_since sent before) (writePolicy (ar_acl r) ns p pe acc)"
    and "keeps (canonical_since sent before) (writeRole (ar_acl r) ns q qe acc')"
    and "keeps (canonical_since sent before) (applyBindRule (ar_acl r) ns b st err)"
proof -
  note call = observer_keeps[OF obs, where before = before] and added = withOwnerAdded_canonical[OF ns]
  show "keeps (canonical_since sent before) (writePolicy (ar_acl r) ns p pe acc)"
    unfolding writePolicy_def Let_def
    by (cases acc) (auto intro!: keeps_result keeps_skip keeps_if call simp: mergeOwnerIntoPolicy_def added)
  show "keeps (canonical_since sent before) (writeRole (ar_acl r) ns q qe acc')"
    unfolding writeRole_def Let_def
    by (cases acc') (auto intro!: keeps_result keeps_skip keeps_if call simp: added)
  show "keeps (canonical_since sent before) (applyBindRule (ar_acl r) ns b st err)"
    by (rule applyBindRule_keeps) (simp_all add: call added)
qed

lemma ops_canonical:
  assumes obs: "description_observer r sent" and ns: "owner_ok ns"
  shows "acl_ops_keep (canonical_since sent before) (ar_acl r) cfg name ns"
  unfolding acl_ops_keep_def
  by (intro conjI allI processPolicies_units processRoles_units processBindRules_units removeLegacy_units
      deleteAclEntities_stages removeStaleEntities_stages deletes_keep stale_rules_units stale_roles_units stale_policies_units
      write_canonical[OF obs ns] release_canonical[OF obs] observer_keeps[OF obs])

text \<open>
  C11. Every policy, role and binding rule that a reconcile sends to Consul, in an application, a clean-up or a deletion
  and whatever the answers are, has a canonical description: a base text without trailing blanks and a non-empty
  sorted list of valid owners, which parses to just these and is what these build.
\<close>

theorem sent_descriptions_canonical:
  assumes "k8s_lib_ok (ar_lib r)" "kube_names (ar_Client r)" "description_observer r sent" "dns_label namespace"
    and "ACL_Reconcile r namespace name w = Some (x, w')"
  shows "\<exists>new. sent w' = sent w @ new \<and> list_all canonical_description new"
proof -
  have "acl_all_ops_keep (canonical_since sent (sent w)) r name namespace"
    unfolding acl_all_ops_keep_def using ops_canonical[OF assms(3) dns_label_owner_ok[OF assms(4)]] by blast
  moreover have "canonical_since sent (sent w) w" by (simp add: canonical_since_def)
  ultimately have "canonical_since sent (sent w) w'"
    using ACL_Reconcile_keeps[OF assms(1) observer_keeps(2)[OF assms(3)] assms(2) _ _ assms(5)] by blast
  then show ?thesis by (simp add: canonical_since_def)
qed

lemma tbl_description_observer: "description_observer tbl_reconciler tw_sent"
  by (auto simp: description_observer_def client_reads_def kube_keeps_def keeps_def tbl_reconciler_def tbl_acl_def tbl_kube_def
      split: option.splits)

theorem sent_descriptions_canonical_witness:
  "\<exists>x w'. ACL_Reconcile tbl_reconciler ''ns2'' ''app'' tbl_world = Some (x, w') \<and> length (tw_sent w') = 2 \<and>
     list_all canonical_description (tw_sent w')"
proof -
  have "map_option (\<lambda>(x, w). length (tw_sent w)) (ACL_Reconcile tbl_reconciler ''ns2'' ''app'' tbl_world) = Some 2"
    by code_simp
  then obtain x w' where run: "ACL_Reconcile tbl_reconciler ''ns2'' ''app'' tbl_world = Some (x, w')" "length (tw_sent w') = 2" by auto
  have "k8s_lib_ok (ar_lib tbl_reconciler)" "kube_names (ar_Client tbl_reconciler)" "dns_label ''ns2''"
    using tbl_env_ok by (simp_all add: acl_env_ok_def dns_label_def dns_label_char_def)
  from sent_descriptions_canonical[OF this(1,2) tbl_description_observer this(3) run(1)]
  have "list_all canonical_description (tw_sent w')" by (auto simp: tbl_world_def)
  then show ?thesis using run by blast
qed

end
