(* ===== verification/ACL_Events.thy ===== *)
theory ACL_Events
  imports ACL_Trace
begin

text \<open>
  The complete log of the calls to Consul. \<open>traced\<close> turns any ACL client into one that also keeps every call with its
  answer, failed reads included, so that a statement about the log is exact: it says which calls are
  made, in which order, and what they are given, for each of the answers that Consul may have returned.
\<close>

subsection \<open>Calls with their answers\<close>

datatype aclEvent =
    PolicyCreate ACLPolicy "ACLPolicy result"
  | PolicyUpdate ACLPolicy "ACLPolicy result"
  | PolicyRead string "ACLPolicy option result"
  | PolicyDelete string "unit result"
  | PolicyList "ACLPolicyListEntry list result"
  | RoleCreate ACLRole "ACLRole result"
  | RoleUpdate ACLRole "ACLRole result"
  | RoleRead string "ACLRole option result"
  | RoleDelete string "unit result"
  | RoleList "ACLRole list result"
  | RuleCreate ACLBindingRule "ACLBindingRule result"
  | RuleUpdate ACLBindingRule "ACLBindingRule result"
  | RuleDelete string "unit result"
  | RuleList string "ACLBindingRule list result"
  | MethodCreate ACLAuthMethod "ACLAuthMethod result"
  | MethodUpdate ACLAuthMethod "ACLAuthMethod result"
  | MethodRead string "ACLAuthMethod option result"
  | TokenList string "string list result"
  | TokenDelete string "unit result"

definition trace_call :: "('r \<Rightarrow> 'c) \<Rightarrow> ('w \<Rightarrow> 'r \<times> 'w) \<Rightarrow> 'w \<times> 'c list \<Rightarrow> 'r \<times> ('w \<times> 'c list)" where
  "trace_call ev f x = (case f (fst x) of (r, w) \<Rightarrow> (r, (w, snd x @ [ev r])))"

lemma trace_call_eq: "trace_call ev f x = (fst (f (fst x)), (snd (f (fst x)), snd x @ [ev (fst (f (fst x)))]))"
  by (simp add: trace_call_def split_beta)

definition traced :: "'w consulACLClient \<Rightarrow> ('w \<times> aclEvent list) consulACLClient" where
  "traced c =
     \<lparr>acl_PolicyCreate = (\<lambda>p. trace_call (PolicyCreate p) (acl_PolicyCreate c p)),
      acl_PolicyUpdate = (\<lambda>p. trace_call (PolicyUpdate p) (acl_PolicyUpdate c p)),
      acl_PolicyReadByName = (\<lambda>n. trace_call (PolicyRead n) (acl_PolicyReadByName c n)),
      acl_PolicyDelete = (\<lambda>i. trace_call (PolicyDelete i) (acl_PolicyDelete c i)),
      acl_RoleCreate = (\<lambda>r. trace_call (RoleCreate r) (acl_RoleCreate c r)),
      acl_RoleUpdate = (\<lambda>r. trace_call (RoleUpdate r) (acl_RoleUpdate c r)),
      acl_RoleReadByName = (\<lambda>n. trace_call (RoleRead n) (acl_RoleReadByName c n)),
      acl_RoleList = trace_call RoleList (acl_RoleList c),
      acl_RoleDelete = (\<lambda>i. trace_call (RoleDelete i) (acl_RoleDelete c i)),
      acl_PolicyList = trace_call PolicyList (acl_PolicyList c),
      acl_BindingRuleCreate = (\<lambda>b. trace_call (RuleCreate b) (acl_BindingRuleCreate c b)),
      acl_BindingRuleUpdate = (\<lambda>b. trace_call (RuleUpdate b) (acl_BindingRuleUpdate c b)),
      acl_BindingRuleList = (\<lambda>m. trace_call (RuleList m) (acl_BindingRuleList c m)),
      acl_BindingRuleDelete = (\<lambda>i. trace_call (RuleDelete i) (acl_BindingRuleDelete c i)),
      acl_AuthMethodCreate = (\<lambda>m. trace_call (MethodCreate m) (acl_AuthMethodCreate c m)),
      acl_AuthMethodUpdate = (\<lambda>m. trace_call (MethodUpdate m) (acl_AuthMethodUpdate c m)),
      acl_AuthMethodRead = (\<lambda>n. trace_call (MethodRead n) (acl_AuthMethodRead c n)),
      acl_TokenListFiltered = (\<lambda>r. trace_call (TokenList r) (acl_TokenListFiltered c r)),
      acl_TokenDelete = (\<lambda>t. trace_call (TokenDelete t) (acl_TokenDelete c t))\<rparr>"

definition traced_settings :: "'w aclSettings \<Rightarrow> ('w \<times> aclEvent list) aclSettings" where
  "traced_settings E =
     \<lparr>ac_client = traced (ac_client E), ac_authMethod = ac_authMethod E,
      ac_legacyAuthMethods = ac_legacyAuthMethods E, ac_range = ac_range E\<rparr>"

lemma traced_settings_simps [simp]:
  "ac_client (traced_settings E) = traced (ac_client E)"
  "ac_authMethod (traced_settings E) = ac_authMethod E"
  "ac_legacyAuthMethods (traced_settings E) = ac_legacyAuthMethods E"
  "ac_range (traced_settings E) = ac_range E"
  by (simp_all add: traced_settings_def)

subsection \<open>Answers of reads by name\<close>

text \<open>
  What the answer of a read by name says: the read failed, or the entity is absent (also when the server answers
  with the error that there is no such entity), or it is there.
\<close>

datatype 'e found = Failed | Absent | Present 'e

fun read_answer :: "'e option result \<Rightarrow> 'e found" where
  "read_answer (Inl err) = (if isErrNotFound err then Absent else Failed)"
| "read_answer (Inr None) = Absent"
| "read_answer (Inr (Some e)) = Present e"

lemma readPolicy_traced:
  assumes "readPolicy (traced_settings E) n x = (r, y)"
  shows "\<exists>a. snd y = snd x @ [PolicyRead n a] \<and>
    (case read_answer a of Failed \<Rightarrow> \<exists>e. r = Inl e | Absent \<Rightarrow> r = Inr None | Present e \<Rightarrow> r = Inr (Some e))"
proof -
  obtain a w1 where "acl_PolicyReadByName (ac_client E) n (fst x) = (a, w1)" by (rule prod.exhaust)
  with assms show ?thesis
    by (cases a rule: read_answer.cases) (auto simp: readPolicy_def traced_def trace_call_def split: if_splits)
qed

lemma readRole_traced:
  assumes "readRole (traced_settings E) n x = (r, y)"
  shows "\<exists>a. snd y = snd x @ [RoleRead n a] \<and>
    (case read_answer a of Failed \<Rightarrow> \<exists>e. r = Inl e | Absent \<Rightarrow> r = Inr None | Present e \<Rightarrow> r = Inr (Some e))"
proof -
  obtain a w1 where "acl_RoleReadByName (ac_client E) n (fst x) = (a, w1)" by (rule prod.exhaust)
  with assms show ?thesis
    by (cases a rule: read_answer.cases) (auto simp: readRole_def traced_def trace_call_def split: if_splits)
qed

subsection \<open>The calls that an operation adds\<close>

definition adds_calls :: "('c list \<Rightarrow> bool) \<Rightarrow> ('w \<times> 'c list \<Rightarrow> 'r \<times> ('w \<times> 'c list)) \<Rightarrow> bool" where
  "adds_calls R f \<longleftrightarrow> (\<forall>x. \<exists>cs. snd (snd (f x)) = snd x @ cs \<and> R cs)"

lemma adds_callsD: "adds_calls R f \<Longrightarrow> f x = (r, y) \<Longrightarrow> \<exists>cs. snd y = snd x @ cs \<and> R cs"
  unfolding adds_calls_def by (metis snd_conv)

lemma adds_callsI: "(\<And>x r y. f x = (r, y) \<Longrightarrow> \<exists>cs. snd y = snd x @ cs \<and> R cs) \<Longrightarrow> adds_calls R f"
  unfolding adds_calls_def by (metis prod.collapse)

lemma adds_calls_start: "adds_calls R f \<Longrightarrow> R (snd (snd (f (w, []))))"
  unfolding adds_calls_def by (metis append_Nil snd_conv)

end
