(* ===== verification/ACL_Calls.thy ===== *)
theory ACL_Calls
  imports ACL_Writes ACL_Events
begin

text \<open>
  What applying a ConsulACL resource sends to Consul (\<^verbatim>\<open>controllers/consulacl_controller.go\<close>, lines 899-1206): the exact sequence of the
  calls of \<open>processPolicies\<close>, \<open>processRoles\<close> and \<open>processBindRules\<close> for every answer of Consul, failed reads included, and what every
  entity that is written contains.
\<close>

subsection \<open>Descriptions and loops\<close>

text \<open>A description with the text of the specification and the given owners.\<close>

definition described :: "string \<Rightarrow> string set \<Rightarrow> string \<Rightarrow> bool" where
  "described spec os d \<longleftrightarrow> fst (parseOwners d) = fst (parseOwners spec) \<and> owners_of d = os"

lemma trim_base_parse: "trim_base (fst (parseOwners d)) = fst (parseOwners d)"
  by (simp add: parseOwners_def Let_def split: option.split)

lemma described_added: "dns_label ns \<Longrightarrow> described spec (insert ns (owners_of d)) (withOwnerAdded spec d ns)"
  by (auto simp: described_def withOwnerAdded_parse dns_label_owner_ok trim_base_parse)

lemma described_new: "dns_label ns \<Longrightarrow> described spec {ns} (withOwnerAdded spec [] ns)"
  using described_added[of ns spec "[]"] by (simp add: parseOwners_def)

lemma loop_all_calls:
  assumes "\<And>x acc. adds_calls (R x) (f x acc)"
  shows "adds_calls (\<lambda>cs. \<exists>segs. list_all2 R xs segs \<and> cs = concat segs) (loop_all f xs acc)"
proof (induction xs arbitrary: acc)
  case Nil
  then show ?case by (simp add: adds_calls_def)
next
  case (Cons x xs)
  show ?case
  proof (rule adds_callsI)
    fix w r y
    assume run: "loop_all f (x # xs) acc w = (r, y)"
    obtain acc1 w1 where x: "f x acc w = (acc1, w1)" by (rule prod.exhaust)
    from adds_callsD[OF assms x] obtain cs where cs: "snd w1 = snd w @ cs" "R x cs" by blast
    have "loop_all f xs acc1 w1 = (r, y)" using run x by simp
    from adds_callsD[OF Cons.IH this] obtain segs where "snd y = snd w1 @ concat segs" "list_all2 R xs segs" by blast
    with cs have "snd y = snd w @ concat (cs # segs)" "list_all2 R (x # xs) (cs # segs)" by simp_all
    then show "\<exists>cs. snd y = snd w @ cs \<and> (\<exists>segs. list_all2 R (x # xs) segs \<and> cs = concat segs)" by blast
  qed
qed

subsection \<open>Policies\<close>

text \<open>The policy \<open>q\<close> is the demand \<open>p\<close> with this name, this ID and these owners.\<close>

definition policy_written :: "string \<Rightarrow> ACLPolicy \<Rightarrow> string \<Rightarrow> string set \<Rightarrow> ACLPolicy \<Rightarrow> bool" where
  "policy_written n p i os q \<longleftrightarrow>
     q = p\<lparr>pol_ID := i, pol_Name := n, pol_Description := pol_Description q\<rparr> \<and>
     described (pol_Description p) os (pol_Description q)"

definition policy_write :: "ACLPolicy \<Rightarrow> ACLPolicy result \<Rightarrow> aclEvent" where
  "policy_write q r = (if pol_ID q = [] then PolicyCreate q r else PolicyUpdate q r)"

text \<open>
  The calls for one policy: none without a name; one update with a given ID; otherwise a read by name, and after it
  nothing when it failed, the creation of a policy owned by the namespace when there is none, and
  the update of the existing policy under its ID with its owners and the namespace.
\<close>

definition policy_calls :: "string \<Rightarrow> string \<Rightarrow> bool \<Rightarrow> ACLPolicy \<Rightarrow> aclEvent list \<Rightarrow> bool" where
  "policy_calls name ns explicitName p cs \<longleftrightarrow>
     (let n = resolveEntityName (pol_Name p) name ns explicitName in
      if pol_Name p = [] then cs = []
      else if pol_ID p \<noteq> [] then \<exists>q r. cs = [PolicyUpdate q r] \<and> policy_written n p (pol_ID p) {ns} q
      else \<exists>a. case read_answer a of
          Failed \<Rightarrow> cs = [PolicyRead n a]
        | Absent \<Rightarrow> \<exists>q r. cs = [PolicyRead n a, PolicyCreate q r] \<and> policy_written n p [] {ns} q
        | Present e \<Rightarrow> \<exists>q r. cs = [PolicyRead n a, policy_write q r] \<and>
            policy_written n p (pol_ID e) (insert ns (owners_of (pol_Description e))) q)"

lemma writePolicy_calls:
  assumes "writePolicy (traced_settings E) ns demand existing acc x = (r, y)"
  shows "\<exists>a. snd y = snd x @ [policy_write (mergeOwnerIntoPolicy demand existing ns) a]"
  using assms
  by (auto simp: writePolicy_def policy_write_def mergeOwnerIntoPolicy_def traced_def trace_call_eq Let_def
      split: prod.splits sum.splits if_splits)

lemma policy_written_merge:
  "dns_label ns \<Longrightarrow> demand = p\<lparr>pol_ID := i, pol_Name := n\<rparr> \<Longrightarrow>
   policy_written n p i (insert ns (case existing of None \<Rightarrow> {} | Some e \<Rightarrow> owners_of (pol_Description e)))
     (mergeOwnerIntoPolicy demand existing ns)"
  by (simp add: policy_written_def mergeOwnerIntoPolicy_def described_added described_new split: option.splits)

lemma policy_written_ID: "policy_written n p i os q \<Longrightarrow> pol_ID q = i"
  by (cases p; cases q) (simp add: policy_written_def)

lemma policy_callsI:
  assumes "pol_Name p \<noteq> []" "pol_ID p = []" "n = resolveEntityName (pol_Name p) name ns explicitName"
  shows "read_answer a = Failed \<Longrightarrow> policy_calls name ns explicitName p [PolicyRead n a]"
    and "read_answer a = Absent \<Longrightarrow> policy_written n p [] {ns} q \<Longrightarrow> policy_calls name ns explicitName p [PolicyRead n a, policy_write q r]"
    and "read_answer a = Present e \<Longrightarrow> policy_written n p (pol_ID e) (insert ns (owners_of (pol_Description e))) q \<Longrightarrow>
      policy_calls name ns explicitName p [PolicyRead n a, policy_write q r]"
proof -
  note [simp] = policy_calls_def Let_def assms
  show "read_answer a = Failed \<Longrightarrow> policy_calls name ns explicitName p [PolicyRead n a]"
    by (simp, intro exI[of _ a]) simp
  assume q: "read_answer a = Absent" "policy_written n p [] {ns} q"
  then have "policy_write q r = PolicyCreate q r" by (simp add: policy_write_def policy_written_ID)
  with q show "policy_calls name ns explicitName p [PolicyRead n a, policy_write q r]"
    by (simp, intro exI[of _ a]) auto
next
  note [simp] = policy_calls_def Let_def assms
  assume "read_answer a = Present e" "policy_written n p (pol_ID e) (insert ns (owners_of (pol_Description e))) q"
  then show "policy_calls name ns explicitName p [PolicyRead n a, policy_write q r]"
    by (simp, intro exI[of _ a]) auto
qed

lemma processPolicy_calls:
  assumes ns: "dns_label ns"
  shows "adds_calls (policy_calls name ns explicitName p) (processPolicy (traced_settings E) name ns explicitName p acc)"
proof (rule adds_callsI)
  fix x r y
  assume run: "processPolicy (traced_settings E) name ns explicitName p acc x = (r, y)"
  obtain st pr er where acc: "acc = (st, pr, er)" by (rule prod_cases3)
  define n where "n = resolveEntityName (pol_Name p) name ns explicitName"
  let ?d = "p\<lparr>pol_Name := n\<rparr>"
  note merge = policy_written_merge[OF ns, where n = n and p = p]
  show "\<exists>cs. snd y = snd x @ cs \<and> policy_calls name ns explicitName p cs"
  proof (cases "pol_Name p = []")
    case True
    with run show ?thesis by (simp add: acc processPolicy_def policy_calls_def)
  next
    case named: False
    note eq = run[unfolded acc processPolicy_named[OF named refl] n_def[symmetric]]
    show ?thesis
    proof (cases "pol_ID p = []")
      case False
      from writePolicy_calls[OF eq[unfolded if_not_P[OF False]]]
      obtain a where y: "snd y = snd x @ [policy_write (mergeOwnerIntoPolicy ?d None ns) a]" by blast
      moreover have "policy_write (mergeOwnerIntoPolicy ?d None ns) a = PolicyUpdate (mergeOwnerIntoPolicy ?d None ns) a"
        using False by (simp add: policy_write_def mergeOwnerIntoPolicy_def)
      ultimately show ?thesis using merge[of ?d "pol_ID p" None] False named by (auto simp: policy_calls_def n_def)
    next
      case noid: True
      obtain b x1 where rd: "readPolicy (traced_settings E) n x = (b, x1)" by (rule prod.exhaust)
      from readPolicy_traced[OF rd] obtain a where x1: "snd x1 = snd x @ [PolicyRead n a]" and
        b: "case read_answer a of Failed \<Rightarrow> \<exists>e. b = Inl e | Absent \<Rightarrow> b = Inr None | Present e \<Rightarrow> b = Inr (Some e)" by blast
      note intros = policy_callsI[OF named noid n_def, of a]
      show ?thesis
      proof (cases "read_answer a")
        case Failed
        with b eq noid rd x1 intros(1) show ?thesis by auto
      next
        case Absent
        with b eq noid rd have "writePolicy (traced_settings E) ns ?d None (st, pr, er) x1 = (r, y)" by simp
        from writePolicy_calls[OF this] x1 intros(2)[OF Absent] merge[of ?d "[]" None] noid show ?thesis by auto
      next
        case (Present e)
        with b eq noid rd have "writePolicy (traced_settings E) ns (?d\<lparr>pol_ID := pol_ID e\<rparr>) (Some e) (st, pr, er) x1 = (r, y)" by simp
        from writePolicy_calls[OF this] x1 intros(3)[OF Present] merge[of "?d\<lparr>pol_ID := pol_ID e\<rparr>" "pol_ID e" "Some e"]
        show ?thesis by auto
      qed
    qed
  qed
qed

text \<open>
  C25. The calls that processing the policies makes are exactly, for each named policy in turn: without an ID in
  the specification a read by the resolved name, nothing more when the read failed, the creation of
  a policy owned by the namespace of the resource when there is none, and otherwise the update of the existing policy under its
  ID, which keeps its owners and adds the namespace; with an ID in the specification one update without a
  read, owned by the namespace alone. What is written is the policy of the specification with the resolved name.
\<close>

theorem process_policies_calls:
  assumes "dns_label ns"
  shows "\<exists>segs. list_all2 (policy_calls name ns explicitName) policies segs \<and>
    snd (snd (processPolicies (traced_settings E) policies name ns explicitName (w, []))) = concat segs"
proof -
  have "adds_calls (\<lambda>cs. \<exists>segs. list_all2 (policy_calls name ns explicitName) policies segs \<and> cs = concat segs)
      (loop_all (processPolicy (traced_settings E) name ns explicitName) policies ([], Map.empty, None))"
    by (rule loop_all_calls) (rule processPolicy_calls[OF assms])
  from adds_calls_start[OF this] show ?thesis by (simp add: processPolicies_def)
qed

theorem process_policies_calls_witness:
  "\<exists>segs. list_all2 (policy_calls ''app'' ''ns1'' True) [demo_policy [] ''d''] segs \<and>
    snd (snd (processPolicies (traced_settings (mem_settings ''m2m'')) [demo_policy [] ''d''] ''app'' ''ns1'' True
      (mem_world\<lparr>aw_policies := [demo_policy ''p1'' ''d [consul-acl-owners: ns2]'']\<rparr>, []))) = concat segs"
  by (rule process_policies_calls) simp




subsection \<open>Roles\<close>

text \<open>
  The links of a role: a policy that the resource declares is linked under the ID of its write, any other policy under the ID
  that a read by name returns, which is only tried for explicit names. Policies without an ID are left out.
\<close>

definition add_link :: "string \<Rightarrow> string \<Rightarrow> ACLRolePolicyLink list \<Rightarrow> ACLRolePolicyLink list" where
  "add_link n i ls = (if i = [] then ls else \<lparr>link_ID = i, link_Name = n\<rparr> # ls)"

definition found_ID :: "ACLPolicy option result \<Rightarrow> string" where
  "found_ID a = (case read_answer a of Present p \<Rightarrow> pol_ID p | _ \<Rightarrow> [])"

inductive link_calls ::
  "(string \<rightharpoonup> string) \<Rightarrow> string \<Rightarrow> string \<Rightarrow> bool \<Rightarrow> string list \<Rightarrow> aclEvent list \<Rightarrow> ACLRolePolicyLink list \<Rightarrow> bool"
  for policies name ns explicitName
where
  none: "link_calls policies name ns explicitName [] [] []"
| declared: "n = resolveEntityName pn name ns explicitName \<Longrightarrow> policies n = Some i \<Longrightarrow>
    link_calls policies name ns explicitName pns cs ls \<Longrightarrow> link_calls policies name ns explicitName (pn # pns) cs (add_link n i ls)"
| foreign: "explicitName \<Longrightarrow> policies pn = None \<Longrightarrow> link_calls policies name ns explicitName pns cs ls \<Longrightarrow>
    link_calls policies name ns explicitName (pn # pns) (PolicyRead pn a # cs) (add_link pn (found_ID a) ls)"
| unknown: "\<not> explicitName \<Longrightarrow> policies (resolveEntityName pn name ns explicitName) = None \<Longrightarrow>
    link_calls policies name ns explicitName pns cs ls \<Longrightarrow> link_calls policies name ns explicitName (pn # pns) cs ls"

text \<open>The role \<open>q\<close> is the demand \<open>r\<close> with this name, this ID, these links and these owners.\<close>

definition role_written :: "string \<Rightarrow> ACLRoleAdapter \<Rightarrow> string \<Rightarrow> ACLRolePolicyLink list \<Rightarrow> string set \<Rightarrow> ACLRole \<Rightarrow> bool" where
  "role_written n r i links os q \<longleftrightarrow>
     q = \<lparr>role_ID = i, role_Name = n, role_Description = role_Description q, role_Policies = links\<rparr> \<and>
     described (ra_Description r) os (role_Description q)"

definition role_write :: "ACLRole \<Rightarrow> ACLRole result \<Rightarrow> aclEvent" where
  "role_write q r = (if role_ID q = [] then RoleCreate q r else RoleUpdate q r)"

text \<open>
  The calls for one role: none without a name; otherwise the reads of its links and a read of the role by name, also
  when the specification has an ID. After it nothing when it failed, the write of a role owned by the namespace when
  there is none, and the write of the existing role with its owners and the namespace.
\<close>

definition role_calls :: "(string \<rightharpoonup> string) \<Rightarrow> string \<Rightarrow> string \<Rightarrow> bool \<Rightarrow> ACLRoleAdapter \<Rightarrow> aclEvent list \<Rightarrow> bool" where
  "role_calls policies name ns explicitName r cs \<longleftrightarrow>
     (let n = resolveEntityName (ra_Name r) name ns explicitName in
      if ra_Name r = [] then cs = []
      else \<exists>reads links a. link_calls policies name ns explicitName (ra_PolicyNames r) reads links \<and>
        (case read_answer a of
          Failed \<Rightarrow> cs = reads @ [RoleRead n a]
        | Absent \<Rightarrow> \<exists>q b. cs = reads @ [RoleRead n a, role_write q b] \<and> role_written n r (ra_ID r) links {ns} q
        | Present e \<Rightarrow> \<exists>q b. cs = reads @ [RoleRead n a, role_write q b] \<and>
            role_written n r (if ra_ID r = [] then role_ID e else ra_ID r) links (insert ns (owners_of (role_Description e))) q))"

lemma resolvePolicyLink_calls:
  assumes "resolvePolicyLink (traced_settings E) policies name ns explicitName pn x = ((n, i), y)"
    and "link_calls policies name ns explicitName pns cs ls"
  shows "\<exists>ds. snd y = snd x @ ds \<and> link_calls policies name ns explicitName (pn # pns) (ds @ cs) (add_link n i ls)"
proof (cases "policies (resolveEntityName pn name ns explicitName)")
  case (Some j)
  with assms link_calls.declared[OF refl Some assms(2)] show ?thesis
    by (auto simp: resolvePolicyLink_def resolveEntityName_def Let_def split: if_splits)
next
  case None
  show ?thesis
  proof (cases explicitName)
    case True
    obtain b x1 where rd: "readPolicy (traced_settings E) pn x = (b, x1)" by (rule prod.exhaust)
    from readPolicy_traced[OF rd] obtain a where x1: "snd x1 = snd x @ [PolicyRead pn a]" and
      b: "case read_answer a of Failed \<Rightarrow> \<exists>e. b = Inl e | Absent \<Rightarrow> b = Inr None | Present e \<Rightarrow> b = Inr (Some e)" by blast
    have "n = pn" "i = found_ID a" "y = x1"
      using assms(1) None True rd b
      by (auto simp: resolvePolicyLink_def resolveEntityName_def found_ID_def split: found.splits sum.splits option.splits)
    then show ?thesis using link_calls.foreign[OF True _ assms(2), of pn a] None True x1 by (auto simp: resolveEntityName_def)
  next
    case False
    with assms(1) None have "i = []" "y = x" by (auto simp: resolvePolicyLink_def resolveEntityName_def Let_def)
    then show ?thesis using link_calls.unknown[OF False None assms(2)] by (auto simp: add_link_def)
  qed
qed

lemma getPolicyLinks_calls:
  "getPolicyLinks_from (traced_settings E) policies name ns explicitName pns x = (ls, y) \<Longrightarrow>
   \<exists>cs. snd y = snd x @ cs \<and> link_calls policies name ns explicitName pns cs ls"
proof (induction pns arbitrary: x ls y)
  case Nil
  then show ?case by (auto intro: link_calls.none)
next
  case (Cons pn pns)
  obtain n i x1 where link: "resolvePolicyLink (traced_settings E) policies name ns explicitName pn x = ((n, i), x1)"
    by (metis prod.exhaust)
  obtain ls1 y1 where rest: "getPolicyLinks_from (traced_settings E) policies name ns explicitName pns x1 = (ls1, y1)"
    by (rule prod.exhaust)
  have "ls = add_link n i ls1" "y = y1" using Cons.prems link rest by (auto simp: add_link_def)
  moreover from Cons.IH[OF rest] obtain cs where "snd y1 = snd x1 @ cs" "link_calls policies name ns explicitName pns cs ls1" by blast
  moreover from resolvePolicyLink_calls[OF link this(2)] obtain ds where "snd x1 = snd x @ ds"
    "link_calls policies name ns explicitName (pn # pns) (ds @ cs) (add_link n i ls1)" by blast
  ultimately show ?case by (intro exI[of _ "ds @ cs"]) simp
qed

lemma writeRole_calls:
  assumes "writeRole (traced_settings E) ns role existing acc x = (s, y)" and "dns_label ns"
    and "role = \<lparr>role_ID = i, role_Name = n, role_Description = ra_Description r, role_Policies = links\<rparr>"
  shows "\<exists>q b. snd y = snd x @ [role_write q b] \<and>
    role_written n r i links (insert ns (case existing of None \<Rightarrow> {} | Some e \<Rightarrow> owners_of (role_Description e))) q"
proof -
  let ?q = "role\<lparr>role_Description := withOwnerAdded (ra_Description r) (case existing of None \<Rightarrow> [] | Some e \<Rightarrow> role_Description e) ns\<rparr>"
  have "\<exists>b. snd y = snd x @ [role_write ?q b]"
    using assms(1,3)
    by (auto simp: writeRole_def role_write_def traced_def trace_call_eq Let_def split: prod.splits sum.splits if_splits)
  moreover have "role_written n r i links (insert ns (case existing of None \<Rightarrow> {} | Some e \<Rightarrow> owners_of (role_Description e))) ?q"
    using assms(2,3) by (simp add: role_written_def described_added described_new split: option.splits)
  ultimately show ?thesis by blast
qed

lemma processRole_calls:
  assumes ns: "dns_label ns"
  shows "adds_calls (role_calls policies name ns explicitName r) (processRole (traced_settings E) policies name ns explicitName r acc)"
proof (rule adds_callsI)
  fix x s y
  assume run: "processRole (traced_settings E) policies name ns explicitName r acc x = (s, y)"
  obtain st er where acc: "acc = (st, er)" by (rule prod.exhaust)
  let ?n = "resolveEntityName (ra_Name r) name ns explicitName"
  show "\<exists>cs. snd y = snd x @ cs \<and> role_calls policies name ns explicitName r cs"
  proof (cases "ra_Name r = []")
    case True
    with run show ?thesis by (simp add: acc processRole_def role_calls_def)
  next
    case named: False
    obtain links x1 where ls: "getPolicyLinks_from (traced_settings E) policies name ns explicitName (ra_PolicyNames r) x = (links, x1)"
      by (rule prod.exhaust)
    from getPolicyLinks_calls[OF ls] obtain reads where x1: "snd x1 = snd x @ reads"
      and reads: "link_calls policies name ns explicitName (ra_PolicyNames r) reads links" by blast
    obtain b x2 where rd: "readRole (traced_settings E) ?n x1 = (b, x2)" by (rule prod.exhaust)
    from readRole_traced[OF rd] obtain a where x2: "snd x2 = snd x1 @ [RoleRead ?n a]" and
      b: "case read_answer a of Failed \<Rightarrow> \<exists>e. b = Inl e | Absent \<Rightarrow> b = Inr None | Present e \<Rightarrow> b = Inr (Some e)" by blast
    let ?role = "\<lambda>i. \<lparr>role_ID = i, role_Name = ?n, role_Description = ra_Description r, role_Policies = links\<rparr>"
    have run': "(case b of Inl e \<Rightarrow> ((AList.update ?n (status_error e) st, firstRetryableError er e), x2)
        | Inr None \<Rightarrow> writeRole (traced_settings E) ns (?role (ra_ID r)) None acc x2
        | Inr (Some e) \<Rightarrow> writeRole (traced_settings E) ns (?role (if ra_ID r = [] then role_ID e else ra_ID r)) (Some e) acc x2) = (s, y)"
      using run named rd ls
      by (simp add: acc processRole_def convertRoleAdapterToRole_def getPolicyLinks_def resolveEntityName_def
          split: sum.splits option.splits if_splits)
    have fin: ?thesis if "snd y = snd x2 @ cs"
      "case read_answer a of Failed \<Rightarrow> cs = [] | Absent \<Rightarrow> \<exists>q d. cs = [role_write q d] \<and> role_written ?n r (ra_ID r) links {ns} q
        | Present e \<Rightarrow> \<exists>q d. cs = [role_write q d] \<and>
            role_written ?n r (if ra_ID r = [] then role_ID e else ra_ID r) links (insert ns (owners_of (role_Description e))) q" for cs
    proof (rule exI[of _ "reads @ RoleRead ?n a # cs"], rule conjI)
      show "role_calls policies name ns explicitName r (reads @ RoleRead ?n a # cs)"
        unfolding role_calls_def Let_def if_not_P[OF named]
        by (intro exI[of _ reads] exI[of _ links] exI[of _ a] conjI reads) (use that(2) in \<open>auto split: found.splits\<close>)
    qed (simp add: that(1) x1 x2)
    show ?thesis
    proof (cases "read_answer a")
      case Failed
      with b run' fin[of "[]"] show ?thesis by auto
    next
      case Absent
      with b run' have "writeRole (traced_settings E) ns (?role (ra_ID r)) None acc x2 = (s, y)" by simp
      from writeRole_calls[OF this ns refl] obtain q d where "snd y = snd x2 @ [role_write q d]"
        "role_written ?n r (ra_ID r) links {ns} q" by auto
      then show ?thesis by (intro fin[of "[role_write q d]"]) (auto simp: Absent)
    next
      case (Present e)
      with b run' have "writeRole (traced_settings E) ns (?role (if ra_ID r = [] then role_ID e else ra_ID r)) (Some e) acc x2 = (s, y)" by simp
      from writeRole_calls[OF this ns refl] obtain q d where "snd y = snd x2 @ [role_write q d]"
        "role_written ?n r (if ra_ID r = [] then role_ID e else ra_ID r) links (insert ns (owners_of (role_Description e))) q" by auto
      then show ?thesis by (intro fin[of "[role_write q d]"]) (auto simp: Present)
    qed
  qed
qed

text \<open>
  C26. The calls that processing the roles makes are exactly, for each named role in turn: the reads of its links to
  policies that the resource does not declare, then a read of the role by the resolved name, also when the specification has an
  ID. After a failed read nothing is written; without a role one is written that the namespace of the resource owns; an
  existing role is written with the owners it has and the namespace. What is written is the role of the specification, with the
  ID of the specification or else of the existing role, and with the links found.
\<close>

theorem process_roles_calls:
  assumes "dns_label ns"
  shows "\<exists>segs. list_all2 (role_calls policies name ns explicitName) roles segs \<and>
    snd (snd (processRoles (traced_settings E) roles policies name ns explicitName (w, []))) = concat segs"
proof -
  have "adds_calls (\<lambda>cs. \<exists>segs. list_all2 (role_calls policies name ns explicitName) roles segs \<and> cs = concat segs)
      (loop_all (processRole (traced_settings E) policies name ns explicitName) roles ([], None))"
    by (rule loop_all_calls) (rule processRole_calls[OF assms])
  from adds_calls_start[OF this] show ?thesis by (simp add: processRoles_def)
qed

definition demo_role :: ACLRoleAdapter where
  "demo_role = \<lparr>ra_ID = ''r1'', ra_Name = ''reader'', ra_Description = ''d'', ra_PolicyNames = [''shared'']\<rparr>"

theorem process_roles_calls_witness:
  "\<exists>segs. list_all2 (role_calls Map.empty ''app'' ''ns1'' True) [demo_role] segs \<and>
    snd (snd (processRoles (traced_settings (mem_settings ''m2m'')) [demo_role] Map.empty ''app'' ''ns1'' True
      (mem_world\<lparr>aw_policies := [demo_policy ''p1'' ''d'']\<rparr>, []))) = concat segs"
  by (rule process_roles_calls) simp

subsection \<open>Binding rules\<close>

text \<open>
  What is known of the auth methods is a map from the names read so far to their types, or to none for a method that does not
  exist. \<open>method_known M m reads t M'\<close>: with the reads, of which there is at most one, the method has type \<open>t\<close>.
\<close>

definition method_known ::
  "(string \<rightharpoonup> string option) \<Rightarrow> string \<Rightarrow> aclEvent list \<Rightarrow> string option \<Rightarrow> (string \<rightharpoonup> string option) \<Rightarrow> bool"
where
  "method_known M m reads t M' \<longleftrightarrow>
     (case M m of
        Some t' \<Rightarrow> reads = [] \<and> t = t' \<and> M' = M
      | None \<Rightarrow> \<exists>a. reads = [MethodRead m a] \<and> M' = M(m \<mapsto> t) \<and>
          (case read_answer a of Failed \<Rightarrow> False | Absent \<Rightarrow> t = None | Present x \<Rightarrow> t = Some (am_Type x)))"

text \<open>
  The selector of a rule: the one of the specification; otherwise the namespace and the service account in the fields of the type
  of the auth method, unless there is no service account or its name is a template.
\<close>

definition rule_selector :: "string \<Rightarrow> string \<Rightarrow> ACLBindingRuleAdapter \<Rightarrow> string" where
  "rule_selector ns t b =
     (let field = (\<lambda>f v. f @ '' == '' @ [CHR 0x22] @ v @ [CHR 0x22]); sa = bra_ServiceAccountName b in
      if bra_Selector b \<noteq> [] then bra_Selector b
      else if sa = [] \<or> strings_Contains sa ''${'' then []
      else if t = ''kubernetes'' then field ''serviceaccount.namespace'' ns @ '' and '' @ field ''serviceaccount.name'' sa
      else field ''value.namespace'' ns @ '' and '' @ field ''value.serviceaccount'' sa)"

text \<open>
  The rule \<open>q\<close> is the demand \<open>b\<close> for a method \<open>m\<close> of type \<open>t\<close>, given the rules of that method: the first of them with the bind name is
  overwritten and keeps its owners.
\<close>

definition rule_written ::
  "string \<Rightarrow> string \<Rightarrow> string \<Rightarrow> string \<Rightarrow> ACLBindingRuleAdapter \<Rightarrow> ACLBindingRule list \<Rightarrow> ACLBindingRule \<Rightarrow> bool"
where
  "rule_written m n ns t b rules q \<longleftrightarrow>
     (let existing = find (\<lambda>r. br_BindName r = n) rules in
      q = \<lparr>br_ID = (case existing of None \<Rightarrow> bra_ID b | Some r \<Rightarrow> br_ID r), br_Description = br_Description q, br_AuthMethod = m,
           br_Selector = rule_selector ns t b, br_BindType = ''role'', br_BindName = n\<rparr> \<and>
      described (bra_Description b) (insert ns (case existing of None \<Rightarrow> {} | Some r \<Rightarrow> owners_of (br_Description r))) (br_Description q))"

definition rule_write :: "ACLBindingRule \<Rightarrow> ACLBindingRule result \<Rightarrow> aclEvent" where
  "rule_write q r = (if br_ID q = [] then RuleCreate q r else RuleUpdate q r)"

text \<open>
  The calls for the binding rules of a resource, with the default auth method \<open>am\<close>. A rule without a name needs no call. The
  auth method of a named rule is read unless it is known: a failed read ends the loop, a missing method leaves the rule out, and for an
  existing method its rules are listed. A failed list ends the loop; otherwise the rule is written, whatever the answer.
\<close>

inductive rule_calls ::
  "string \<Rightarrow> string \<Rightarrow> string \<Rightarrow> bool \<Rightarrow> (string \<rightharpoonup> string option) \<Rightarrow> ACLBindingRuleAdapter list \<Rightarrow> aclEvent list \<Rightarrow> bool"
  for am name ns explicitName
where
  finished: "rule_calls am name ns explicitName M [] []"
| unnamed: "bra_BindName b = [] \<Longrightarrow> rule_calls am name ns explicitName M bs cs \<Longrightarrow> rule_calls am name ns explicitName M (b # bs) cs"
| method_failed: "bra_BindName b \<noteq> [] \<Longrightarrow> m = bindRuleAuthMethod am b \<Longrightarrow> M m = None \<Longrightarrow> read_answer a = Failed \<Longrightarrow>
    rule_calls am name ns explicitName M (b # bs) [MethodRead m a]"
| missing: "bra_BindName b \<noteq> [] \<Longrightarrow> method_known M (bindRuleAuthMethod am b) reads None M' \<Longrightarrow>
    rule_calls am name ns explicitName M' bs cs \<Longrightarrow> rule_calls am name ns explicitName M (b # bs) (reads @ cs)"
| list_failed: "bra_BindName b \<noteq> [] \<Longrightarrow> m = bindRuleAuthMethod am b \<Longrightarrow> method_known M m reads (Some t) M' \<Longrightarrow>
    rule_calls am name ns explicitName M (b # bs) (reads @ [RuleList m (Inl e)])"
| written: "bra_BindName b \<noteq> [] \<Longrightarrow> m = bindRuleAuthMethod am b \<Longrightarrow> method_known M m reads (Some t) M' \<Longrightarrow>
    rule_written m (resolveEntityName (bra_BindName b) name ns explicitName) ns t b rules q \<Longrightarrow>
    rule_calls am name ns explicitName M' bs cs \<Longrightarrow>
    rule_calls am name ns explicitName M (b # bs) (reads @ RuleList m (Inr rules) # rule_write q r # cs)"

text \<open>The cache of the resolver, as the type and whether the method exists.\<close>

definition cache_of :: "(string \<rightharpoonup> string option) \<Rightarrow> string \<rightharpoonup> string \<times> bool" where
  "cache_of M = (\<lambda>m. map_option (\<lambda>t. case t of None \<Rightarrow> ([], False) | Some y \<Rightarrow> (y, True)) (M m))"

lemma cache_of_simps:
  "cache_of Map.empty = Map.empty"
  "cache_of (M(m \<mapsto> None)) = (cache_of M)(m \<mapsto> ([], False))"
  "cache_of (M(m \<mapsto> Some t)) = (cache_of M)(m \<mapsto> (t, True))"
  by (auto simp: cache_of_def)

lemma authMethodTypeResolver_calls:
  assumes "authMethodTypeResolver (traced_settings E) m (cache_of M) x = (res, ms, y)"
  shows "\<exists>reads. snd y = snd x @ reads \<and>
    (case res of
       Inl e \<Rightarrow> M m = None \<and> (\<exists>a. reads = [MethodRead m a] \<and> read_answer a = Failed)
     | Inr (ty, found) \<Rightarrow> \<exists>M'. ms = cache_of M' \<and> method_known M m reads (if found then Some ty else None) M')"
proof (cases "M m")
  case (Some t)
  then show ?thesis using assms
    by (cases t) (auto simp: authMethodTypeResolver_def cache_of_def method_known_def)
next
  case None
  then have c: "cache_of M m = None" by (simp add: cache_of_def)
  obtain a w1 where rd: "acl_AuthMethodRead (ac_client E) m (fst x) = (a, w1)" by (rule prod.exhaust)
  show ?thesis
    using assms rd c None
    by (cases a rule: read_answer.cases)
      (auto simp: authMethodTypeResolver_def traced_def trace_call_def method_known_def Let_def cache_of_simps[symmetric] split: if_splits)
qed

lemma convert_rule_selector:
  "br_Selector (convertBindRuleAdapterToBindRule am b name ns explicitName t) = rule_selector ns t b"
  by (simp add: convertBindRuleAdapterToBindRule_def rule_selector_def Let_def)

lemma applyBindRule_calls:
  assumes "applyBindRule (traced_settings E) ns d st er x = (res, y)" and "dns_label ns"
    and d: "d = convertBindRuleAdapterToBindRule am b name ns explicitName t"
    and m: "m = bindRuleAuthMethod am b" and n: "n = resolveEntityName (bra_BindName b) name ns explicitName"
  shows "case res of
      Inr e \<Rightarrow> snd y = snd x @ [RuleList m (Inl e)]
    | Inl (st', er') \<Rightarrow> \<exists>rules q r. snd y = snd x @ [RuleList m (Inr rules), rule_write q r] \<and> rule_written m n ns t b rules q"
proof -
  have d_simps: "br_AuthMethod d = m" "br_BindName d = n" "br_BindType d = ''role''" "br_ID d = bra_ID b" "br_Description d = bra_Description b"
    "br_Selector d = rule_selector ns t b"
    by (simp_all add: d m n convert_rule_selector)
  obtain ls w1 where rd: "acl_BindingRuleList (ac_client E) m (fst x) = (ls, w1)" by (rule prod.exhaust)
  show ?thesis
  proof (cases ls)
    case (Inl e)
    with assms(1) rd d_simps show ?thesis by (auto simp: applyBindRule_def traced_def trace_call_def)
  next
    case (Inr rules)
    define ex where "ex = find (\<lambda>r. br_BindName r = n) rules"
    define q where "q = \<lparr>br_ID = (case ex of None \<Rightarrow> bra_ID b | Some r \<Rightarrow> br_ID r),
      br_Description = withOwnerAdded (bra_Description b) (case ex of None \<Rightarrow> [] | Some r \<Rightarrow> br_Description r) ns, br_AuthMethod = m,
      br_Selector = rule_selector ns t b, br_BindType = ''role'', br_BindName = n\<rparr>"
    have q: "(let d' = (case ex of None \<Rightarrow> d | Some r \<Rightarrow> d\<lparr>br_ID := br_ID r\<rparr>) in
        d'\<lparr>br_Description := withOwnerAdded (br_Description d') (case ex of None \<Rightarrow> [] | Some r \<Rightarrow> br_Description r) ns\<rparr>) = q"
      using d_simps by (cases d) (simp add: q_def Let_def split: option.split)
    have "rule_written m n ns t b rules q"
      using assms(2) by (simp add: rule_written_def ex_def[symmetric] q_def Let_def described_added described_new split: option.split)
    moreover obtain r st' er' where "res = Inl (st', er')" "snd y = snd x @ [RuleList m (Inr rules), rule_write q r]"
      using assms(1) rd Inr q d_simps
      by (auto simp: applyBindRule_def traced_def trace_call_eq rule_write_def Let_def ex_def[symmetric] split: prod.splits sum.splits if_splits)
    ultimately show ?thesis by simp blast
  qed
qed

text \<open>One named rule: the loop ends with a failed read or list, or it goes on with what is known of the auth methods.\<close>

lemma named_rule_calls:
  assumes ns: "dns_label ns" and named: "bra_BindName b \<noteq> []" and m: "m = bindRuleAuthMethod (ac_authMethod E) b"
    and run: "processBindRules_from (traced_settings E) name ns explicitName (b # bs) (cache_of M) st er x = (r, y)"
  obtains
    (method_failed) a where "M m = None" "read_answer a = Failed" "snd y = snd x @ [MethodRead m a]"
  | (missing) reads M' st' er' x1 where "method_known M m reads None M'" "snd x1 = snd x @ reads"
      "processBindRules_from (traced_settings E) name ns explicitName bs (cache_of M') st' er' x1 = (r, y)"
  | (list_failed) reads t M' e where "method_known M m reads (Some t) M'" "snd y = snd x @ reads @ [RuleList m (Inl e)]"
  | (written) reads t M' rules q c st' er' x1 where "method_known M m reads (Some t) M'"
      "rule_written m (resolveEntityName (bra_BindName b) name ns explicitName) ns t b rules q"
      "snd x1 = snd x @ reads @ [RuleList m (Inr rules), rule_write q c]"
      "processBindRules_from (traced_settings E) name ns explicitName bs (cache_of M') st' er' x1 = (r, y)"
proof -
  obtain res ms x1 where t: "authMethodTypeResolver (traced_settings E) m (cache_of M) x = (res, ms, x1)" by (rule prod_cases3)
  from authMethodTypeResolver_calls[OF t] obtain reads where x1: "snd x1 = snd x @ reads" and
    known: "case res of Inl e \<Rightarrow> M m = None \<and> (\<exists>a. reads = [MethodRead m a] \<and> read_answer a = Failed)
      | Inr (ty, found) \<Rightarrow> \<exists>M'. ms = cache_of M' \<and> method_known M m reads (if found then Some ty else None) M'" by blast
  note eq = run[unfolded processBindRules_from.simps if_not_P[OF named] Let_def traced_settings_simps m[symmetric] t prod.case]
  consider (failed) e where "res = Inl e" | (absent) ty where "res = Inr (ty, False)" | (exists) ty where "res = Inr (ty, True)"
    by (cases res) auto
  then show thesis
  proof cases
    case failed
    with eq known x1 show thesis using method_failed by auto
  next
    case absent
    with known obtain M' where "ms = cache_of M'" "method_known M m reads None M'" by auto
    with absent eq x1 show thesis using missing by simp
  next
    case exists
    with known obtain M' where ms: "ms = cache_of M'" and mk: "method_known M m reads (Some ty) M'" by auto
    obtain a x2 where ap: "applyBindRule (traced_settings E) ns
        (convertBindRuleAdapterToBindRule (ac_authMethod E) b name ns explicitName ty) st er x1 = (a, x2)" by (rule prod.exhaust)
    from applyBindRule_calls[OF ap ns refl m refl] exists eq ap ms mk x1 show thesis
      by (cases a) (auto intro: list_failed written)
  qed
qed

lemma processBindRules_from_calls:
  "dns_label ns \<Longrightarrow> processBindRules_from (traced_settings E) name ns explicitName bs (cache_of M) st er x = (r, y) \<Longrightarrow>
   \<exists>cs. snd y = snd x @ cs \<and> rule_calls (ac_authMethod E) name ns explicitName M bs cs"
proof (induction bs arbitrary: M st er x)
  case Nil
  then show ?case by (auto intro: rule_calls.finished)
next
  case (Cons b bs)
  show ?case
  proof (cases "bra_BindName b = []")
    case True
    with Cons.prems(2) have "processBindRules_from (traced_settings E) name ns explicitName bs (cache_of M)
        (AList.update innerErrorHandlingItem ''Some binding rules have not got a name'' st) er x = (r, y)" by simp
    from Cons.IH[OF Cons.prems(1) this] show ?thesis using rule_calls.unnamed[where M = M, OF True] by blast
  next
    case named: False
    from Cons.prems(1) named refl Cons.prems(2) show ?thesis
    proof (cases rule: named_rule_calls)
      case (method_failed a)
      then show ?thesis using rule_calls.method_failed[where M = M, OF named refl] by blast
    next
      case (missing reads M' st' er' x1)
      from Cons.IH[OF Cons.prems(1) missing(3)] missing(2) rule_calls.missing[OF named missing(1)] show ?thesis by fastforce
    next
      case (list_failed reads t M' e)
      then show ?thesis using rule_calls.list_failed[OF named refl list_failed(1)] by blast
    next
      case (written reads t M' rules q c st' er' x1)
      from Cons.IH[OF Cons.prems(1) written(4)] written(3) rule_calls.written[OF named refl written(1,2)] show ?thesis by fastforce
    qed
  qed
qed

text \<open>
  C27. The calls that processing the binding rules makes are exactly, for each named rule in turn: a read of its auth method, unless a
  rule before it used the same method; for a missing method nothing more, otherwise a list of the rules of
  that method and one write. A rule of the method with the resolved bind name is updated under its ID and keeps its
  owners, and without one a rule is created, or updated under the ID of the specification. What is
  written binds to the resolved role with the selector of the specification, or with the namespace and service account in the
  fields of the type of the method. A failed read of a method or a failed list ends the loop, a failed write does not.
\<close>

theorem process_bind_rules_calls:
  assumes "dns_label ns"
  shows "rule_calls (ac_authMethod E) name ns explicitName Map.empty bs
    (snd (snd (processBindRules (traced_settings E) bs name ns explicitName (w, []))))"
proof -
  obtain r y where "processBindRules_from (traced_settings E) name ns explicitName bs Map.empty [] None (w, []) = (r, y)" by (rule prod.exhaust)
  with processBindRules_from_calls[OF assms, of E name explicitName bs Map.empty "[]" None "(w, [])" r y]
  show ?thesis by (simp add: processBindRules_def cache_of_simps)
qed

theorem process_bind_rules_calls_witness:
  "rule_calls ''m2m'' ''app'' ''ns1'' False Map.empty [demo_bind_rule, demo_bind_rule]
    (snd (snd (processBindRules (traced_settings (mem_settings ''m2m'')) [demo_bind_rule, demo_bind_rule] ''app'' ''ns1'' False
      (mem_world\<lparr>aw_methods := [demo_method]\<rparr>, []))))"
  using process_bind_rules_calls[of "''ns1''" "mem_settings ''m2m''" "''app''" False "[demo_bind_rule, demo_bind_rule]"]
  by (simp add: mem_settings_def)

end
