(* ===== verification/ACL_Registry.thy ===== *)
theory ACL_Registry
  imports ACL_Ownership
begin

text \<open>
  The owners of a shared policy or role over any history of the operator. The operations that declare and release
  an entity refine the registry of \<^verbatim>\<open>Owners\<close>: on a Consul whose answers are true, the owners
  recorded in the description are exactly the namespaces that declared the entity and have not released it since.
\<close>

subsection \<open>A Consul whose answers are true\<close>

text \<open>A call that fails has no effect, and a call that succeeds has its effect.\<close>

definition answers_true ::
  "('w \<Rightarrow> bool) \<Rightarrow> ('w \<Rightarrow> string \<rightharpoonup> 'e) \<Rightarrow> ('e \<Rightarrow> string) \<Rightarrow> ('e \<Rightarrow> string) \<Rightarrow> (string \<Rightarrow> 'e \<Rightarrow> 'e) \<Rightarrow>
   ('e \<Rightarrow> 'w \<Rightarrow> 'e result \<times> 'w) \<Rightarrow> ('e \<Rightarrow> 'w \<Rightarrow> 'e result \<times> 'w) \<Rightarrow> (string \<Rightarrow> 'w \<Rightarrow> unit result \<times> 'w) \<Rightarrow> bool"
where
  "answers_true V view ident ename set_ident create upd del \<longleftrightarrow>
     (\<forall>e w r w'. V w \<longrightarrow> create e w = (r, w') \<longrightarrow>
        (case r of Inl _ \<Rightarrow> view w' = view w | Inr _ \<Rightarrow> \<exists>i. view w' = (view w)(ename e \<mapsto> set_ident i e))) \<and>
     (\<forall>e w r w'. V w \<longrightarrow> upd e w = (r, w') \<longrightarrow>
        (case r of Inl _ \<Rightarrow> view w' = view w
         | Inr _ \<Rightarrow> \<exists>m q. view w m = Some q \<and> ident q = ident e \<and> view w' = (view w)(m := None, ename e := Some e))) \<and>
     (\<forall>i w r w'. V w \<longrightarrow> del i w = (r, w') \<longrightarrow>
        (case r of Inl _ \<Rightarrow> view w' = view w
         | Inr _ \<Rightarrow> \<forall>m. view w' m = (case view w m of None \<Rightarrow> None | Some q \<Rightarrow> if ident q = i then None else Some q)))"

abbreviation policy_answers_true :: "'w consulACLClient \<Rightarrow> ('w \<Rightarrow> bool) \<Rightarrow> ('w \<Rightarrow> string \<rightharpoonup> ACLPolicy) \<Rightarrow> bool" where
  "policy_answers_true c V pols \<equiv>
     answers_true V pols pol_ID pol_Name (\<lambda>i p. p\<lparr>pol_ID := i\<rparr>) (acl_PolicyCreate c) (acl_PolicyUpdate c) (acl_PolicyDelete c)"

abbreviation role_answers_true :: "'w consulACLClient \<Rightarrow> ('w \<Rightarrow> bool) \<Rightarrow> ('w \<Rightarrow> string \<rightharpoonup> ACLRole) \<Rightarrow> bool" where
  "role_answers_true c V roles \<equiv>
     answers_true V roles role_ID role_Name (\<lambda>i r. r\<lparr>role_ID := i\<rparr>) (acl_RoleCreate c) (acl_RoleUpdate c) (acl_RoleDelete c)"

text \<open>The effect of the calls that the operator makes on an entity that it has read under its name.\<close>

lemma create_effect:
  assumes "entity_store V view ident ename si create upd del" "answers_true V view ident ename si create upd del"
    and "V w" "create e w = (r, w')"
  shows "V w' \<and> (case r of Inl _ \<Rightarrow> view w' = view w | Inr _ \<Rightarrow> \<exists>i. view w' = (view w)(ename e \<mapsto> si i e))"
proof
  have "snd (create e w) = w'" using assms(4) by simp
  then show "V w'" using assms(1,3) unfolding entity_store_def by blast
qed (use assms(2-4) in \<open>unfold answers_true_def, blast\<close>)

lemma update_effect:
  assumes st: "entity_store V view ident ename si create upd del" and "answers_true V view ident ename si create upd del"
    and w: "V w" and run: "upd e w = (r, w')" and q: "view w (ename e) = Some q" "ident q = ident e"
  shows "V w' \<and> (case r of Inl _ \<Rightarrow> view w' = view w | Inr _ \<Rightarrow> view w' = (view w)(ename e \<mapsto> e))"
proof
  have "snd (upd e w) = w'" using run by simp
  then show "V w'" using st w unfolding entity_store_def by blast
  have "store_wf ident ename (view w)" using st w unfolding entity_store_def by blast
  then have "m = ename e" if "view w m = Some x" "ident x = ident e" for m x
    using store_wfD(3)[of ident ename "view w" m x "ename e" q] that q by simp
  moreover have "case r of Inl _ \<Rightarrow> view w' = view w
      | Inr _ \<Rightarrow> \<exists>m q. view w m = Some q \<and> ident q = ident e \<and> view w' = (view w)(m := None, ename e := Some e)"
    using assms(2) w run unfolding answers_true_def by blast
  ultimately show "case r of Inl _ \<Rightarrow> view w' = view w | Inr _ \<Rightarrow> view w' = (view w)(ename e \<mapsto> e)"
    by (auto split: sum.splits)
qed

lemma delete_effect:
  assumes st: "entity_store V view ident ename si create upd del" and "answers_true V view ident ename si create upd del"
    and w: "V w" and run: "del (ident q) w = (r, w')" and q: "view w m = Some q"
  shows "V w' \<and> (case r of Inl _ \<Rightarrow> view w' = view w | Inr _ \<Rightarrow> view w' = (view w)(m := None))"
proof
  have "snd (del (ident q) w) = w'" using run by simp
  then show "V w'" using st w unfolding entity_store_def by blast
  have "store_wf ident ename (view w)" using st w unfolding entity_store_def by blast
  then have "k = m" if "view w k = Some x" "ident x = ident q" for k x
    using store_wfD(3)[of ident ename "view w" k x m q] that q by simp
  moreover have "case r of Inl _ \<Rightarrow> view w' = view w
      | Inr _ \<Rightarrow> \<forall>k. view w' k = (case view w k of None \<Rightarrow> None | Some x \<Rightarrow> if ident x = ident q then None else Some x)"
    using assms(2) w run unfolding answers_true_def by blast
  moreover have "(case view w k of None \<Rightarrow> None | Some x \<Rightarrow> if ident x = ident q then None else Some x) = ((view w)(m := None)) k" for k
    using calculation(1)[of k] q by (cases "view w k") auto
  ultimately show "case r of Inl _ \<Rightarrow> view w' = view w | Inr _ \<Rightarrow> view w' = (view w)(m := None)"
    by (cases r) (simp_all add: fun_eq_iff)
qed

subsection \<open>The operations refine the registry\<close>

text \<open>The entity with a name does a step of the registry.\<close>

definition entity_step ::
  "('w \<Rightarrow> string \<rightharpoonup> 'e) \<Rightarrow> ('e \<Rightarrow> string) \<Rightarrow> string \<Rightarrow> (string, string) shared_op \<Rightarrow> 'w \<Rightarrow> 'w \<Rightarrow> bool"
where
  "entity_step view descr n op w w' \<longleftrightarrow>
     map_option descr (view w' n) = shared_step withOwnerAdded withOwnerRemoved [] op (map_option descr (view w n))"

abbreviation policy_step where "policy_step pols \<equiv> entity_step pols pol_Description"

abbreviation role_step where "role_step roles \<equiv> entity_step roles role_Description"

lemma read_frames:
  assumes "consul_acl_ok (ac_client E) V pols roles" and "V w"
  shows "readPolicy E m w = (r, w') \<Longrightarrow> V w' \<and> pols w' = pols w \<and> roles w' = roles w"
    and "readRole E m w = (q, w') \<Longrightarrow> V w' \<and> pols w' = pols w \<and> roles w' = roles w"
  using keepsD[OF reads_keep(1)[OF consul_stores(5)[OF assms(1), of "pols w" "roles w"]]]
    keepsD[OF reads_keep(2)[OF consul_stores(5)[OF assms(1), of "pols w" "roles w"]]] assms(2) by blast+

lemma writePolicy_step:
  assumes c: "consul_acl_ok (ac_client E) V pols roles" and true: "policy_answers_true (ac_client E) V pols" and w: "V w"
    and run: "writePolicy E ns demand (pols w (pol_Name demand)) (st, pr, er) w = ((st', pr', er'), w')"
    and i: "pol_ID demand = (case pols w (pol_Name demand) of None \<Rightarrow> [] | Some q \<Rightarrow> pol_ID q)"
  shows "V w' \<and> (pols w' n = pols w n \<and> pr' n = pr n \<or> policy_step pols n (Declare (pol_Description demand) ns) w w' \<and> pr' n \<noteq> None)"
proof -
  let ?m = "pol_Name demand"
  let ?e = "mergeOwnerIntoPolicy demand (pols w ?m) ns"
  have e: "pol_Name ?e = ?m" "pol_ID ?e = pol_ID demand" by (simp_all add: mergeOwnerIntoPolicy_def)
  show ?thesis
  proof (cases "pols w ?m")
    case None
    obtain r w1 where cr: "acl_PolicyCreate (ac_client E) ?e w = (r, w1)" by (rule prod.exhaust)
    from create_effect[OF consul_stores(1)[OF c] true w cr] show ?thesis
      using run None i e cr
      by (auto simp: writePolicy_def entity_step_def mergeOwnerIntoPolicy_def Let_def split: sum.splits if_splits)
  next
    case (Some q)
    have "pol_ID q \<noteq> []"
      using consul_stores(1)[OF c] w Some unfolding entity_store_def store_wf_def by blast
    moreover obtain r w1 where up: "acl_PolicyUpdate (ac_client E) ?e w = (r, w1)" by (rule prod.exhaust)
    moreover have "V w1 \<and> (case r of Inl _ \<Rightarrow> pols w1 = pols w | Inr _ \<Rightarrow> pols w1 = (pols w)(pol_Name ?e \<mapsto> ?e))"
      by (rule update_effect[OF consul_stores(1)[OF c] true w up]) (use Some i e in simp_all)
    ultimately show ?thesis
      using run Some i e
      by (auto simp: writePolicy_def entity_step_def mergeOwnerIntoPolicy_def Let_def split: sum.splits if_splits)
  qed
qed

lemma processPolicy_step:
  assumes c: "consul_acl_ok (ac_client E) V pols roles" and true: "policy_answers_true (ac_client E) V pols" and w: "V w"
    and p: "pol_ID p = []" and run: "processPolicy E name ns b p (st, pr, er) w = ((st', pr', er'), w')"
  shows "V w' \<and> (pols w' n = pols w n \<and> pr' n = pr n \<or> policy_step pols n (Declare (pol_Description p) ns) w w' \<and> pr' n \<noteq> None)"
proof (cases "pol_Name p = []")
  case True
  with run w show ?thesis by (simp add: processPolicy_def)
next
  case named: False
  define d where "d = p\<lparr>pol_Name := resolveEntityName (pol_Name p) name ns b\<rparr>"
  obtain r w1 where rd: "readPolicy E (pol_Name d) w = (r, w1)" by (rule prod.exhaust)
  note w1 = read_frames(1)[OF c w rd]
  note eq = run[unfolded processPolicy_named[OF named d_def] if_P[OF p] rd prod.case]
  show ?thesis
  proof (cases r)
    case (Inl e)
    with eq w1 show ?thesis by simp
  next
    case (Inr x)
    have x: "x = pols w1 (pol_Name d)" using readPolicy_store[OF c w, of "pol_Name d" x w1] rd Inr w1 by simp
    let ?d = "case x of None \<Rightarrow> d | Some q \<Rightarrow> d\<lparr>pol_ID := pol_ID q\<rparr>"
    have "pol_Name ?d = pol_Name d" "pol_Description ?d = pol_Description p"
      "pol_ID ?d = (case x of None \<Rightarrow> [] | Some q \<Rightarrow> pol_ID q)" using p by (simp_all add: d_def split: option.split)
    then show ?thesis
      using writePolicy_step[OF c true, of w1 ns ?d st pr er st' pr' er' w' n] eq Inr w1 x by (simp add: entity_step_def)
  qed
qed

lemma releasePolicy_step:
  assumes c: "consul_acl_ok (ac_client E) V pols roles" and true: "policy_answers_true (ac_client E) V pols" and w: "V w"
    and q: "pols w m = Some q" and run: "releasePolicy E ns q w = (r, w')"
  shows "V w' \<and> (if m = n \<and> r = None then policy_step pols n (Release ns) w w' else pols w' n = pols w n)"
proof -
  obtain d last where rm: "withOwnerRemoved (pol_Description q) ns = (d, last)" by (rule prod.exhaust)
  have m: "pol_Name q = m" using consul_stores(1)[OF c] w q unfolding entity_store_def store_wf_def by blast
  show ?thesis
  proof (cases last)
    case True
    obtain a w1 where del: "acl_PolicyDelete (ac_client E) (pol_ID q) w = (a, w1)" by (rule prod.exhaust)
    from delete_effect[OF consul_stores(1)[OF c] true w del q] show ?thesis
      using run rm True del q by (auto simp: releasePolicy_def entity_step_def err_of_def split: sum.splits)
  next
    case False
    let ?e = "q\<lparr>pol_Description := d\<rparr>"
    obtain a w1 where up: "acl_PolicyUpdate (ac_client E) ?e w = (a, w1)" by (rule prod.exhaust)
    have "V w1 \<and> (case a of Inl _ \<Rightarrow> pols w1 = pols w | Inr _ \<Rightarrow> pols w1 = (pols w)(pol_Name ?e \<mapsto> ?e))"
      by (rule update_effect[OF consul_stores(1)[OF c] true w up]) (use q m in simp_all)
    then show ?thesis
      using run rm False up q m by (auto simp: releasePolicy_def entity_step_def err_of_def split: sum.splits)
  qed
qed

text \<open>Reading a policy by name and releasing it, if it is there.\<close>

lemma read_release_step:
  assumes c: "consul_acl_ok (ac_client E) V pols roles" and true: "policy_answers_true (ac_client E) V pols" and w: "V w"
    and run: "(case readPolicy E m w of (Inl err, w1) \<Rightarrow> (Some err, w1) | (Inr None, w1) \<Rightarrow> (None, w1)
      | (Inr (Some q), w1) \<Rightarrow> releasePolicy E ns q w1) = (r, w')"
  shows "V w' \<and> (if m = n \<and> r = None then policy_step pols n (Release ns) w w' else pols w' n = pols w n)"
proof -
  obtain a w1 where rd: "readPolicy E m w = (a, w1)" by (rule prod.exhaust)
  note w1 = read_frames(1)[OF c w rd]
  show ?thesis
  proof (cases a)
    case (Inl e)
    with run rd w1 show ?thesis by auto
  next
    case (Inr x)
    have x: "x = pols w m" using readPolicy_store[OF c w] rd Inr by simp
    show ?thesis
    proof (cases x)
      case None
      with run rd w1 x Inr show ?thesis by (auto simp: entity_step_def)
    next
      case (Some q)
      from releasePolicy_step[OF c true, of w1 m q ns r w' n] run rd Inr Some x w1
      show ?thesis by (auto simp: entity_step_def)
    qed
  qed
qed

lemma deletePolicy_step:
  assumes "consul_acl_ok (ac_client E) V pols roles" "policy_answers_true (ac_client E) V pols" "V w"
    and "deletePolicy E name ns b sib p w = (r, w')"
  shows "V w' \<and> (if pol_Name p \<noteq> [] \<and> resolveEntityName (pol_Name p) name ns b = n \<and> \<not> hasPolicy sib n \<and> r = None
    then policy_step pols n (Release ns) w w' else pols w' n = pols w n)"
  using assms(3,4) read_release_step[OF assms(1-3), where m = "resolveEntityName (pol_Name p) name ns b" and ns = ns and r = r and w' = w' and n = n]
  by (auto simp: deletePolicy_def Let_def split: if_splits)

lemma releaseStale_step:
  assumes "consul_acl_ok (ac_client E) V pols roles" "policy_answers_true (ac_client E) V pols" "V w"
    and "releaseStaleExplicitPolicy E ns d sib ep w = (r, w')"
  shows "V w' \<and> (if ple_Name ep = n \<and> hasOwner (ple_Description ep) ns \<and> \<not> hasPolicy (Some d) n \<and> \<not> hasPolicy sib n \<and> r = None
    then policy_step pols n (Release ns) w w' else pols w' n = pols w n)"
  using assms(3,4) read_release_step[OF assms(1-3), where m = "ple_Name ep" and ns = ns and r = r and w' = w' and n = n]
  by (auto simp: releaseStaleExplicitPolicy_def split: if_splits)

subsection \<open>Histories of a policy\<close>

text \<open>
  The worlds that are reached while the operator works on a policy named \<open>n\<close> that does not exist at first, with the namespaces
  that hold it: the policies of a resource are processed, which makes its namespace a holder when the policy was processed
  without an error; a policy of a deleted resource and an entry of the list in the clean-up of explicit names are
  released, which ends the hold of the namespace when the release is due and returns no error; and anything else may happen that leaves
  this policy alone. The operations follow each other and none of them interleaves with another.
\<close>

inductive policy_history ::
  "'w consulACLClient \<Rightarrow> ('w \<Rightarrow> bool) \<Rightarrow> ('w \<Rightarrow> string \<rightharpoonup> ACLPolicy) \<Rightarrow> string \<Rightarrow> 'w \<Rightarrow> string set \<Rightarrow> bool"
  for c V pols n
where
  absent: "V w \<Longrightarrow> pols w n = None \<Longrightarrow> policy_history c V pols n w {}"
| applied: "policy_history c V pols n w H \<Longrightarrow> ac_client E = c \<Longrightarrow> dns_label ns \<Longrightarrow> list_all (\<lambda>p. pol_ID p = []) ps \<Longrightarrow>
    processPolicies E ps name ns b w = ((st, processed, er), w') \<Longrightarrow>
    policy_history c V pols n w' (if processed n = None then H else insert ns H)"
| deleted: "policy_history c V pols n w H \<Longrightarrow> ac_client E = c \<Longrightarrow> dns_label ns \<Longrightarrow>
    deletePolicy E name ns b sib p w = (r, w') \<Longrightarrow>
    policy_history c V pols n w' (if pol_Name p \<noteq> [] \<and> resolveEntityName (pol_Name p) name ns b = n \<and> \<not> hasPolicy sib n \<and> r = None
      then H - {ns} else H)"
| cleaned: "policy_history c V pols n w H \<Longrightarrow> ac_client E = c \<Longrightarrow> dns_label ns \<Longrightarrow>
    releaseStaleExplicitPolicy E ns d sib ep w = (r, w') \<Longrightarrow>
    policy_history c V pols n w' (if ple_Name ep = n \<and> hasOwner (ple_Description ep) ns \<and> \<not> hasPolicy (Some d) n \<and> \<not> hasPolicy sib n \<and> r = None
      then H - {ns} else H)"
| other: "policy_history c V pols n w H \<Longrightarrow> V w' \<Longrightarrow> pols w' n = pols w n \<Longrightarrow> policy_history c V pols n w' H"

abbreviation policy_registered :: "('w \<Rightarrow> string \<rightharpoonup> ACLPolicy) \<Rightarrow> string \<Rightarrow> 'w \<Rightarrow> string set \<Rightarrow> bool" where
  "policy_registered pols n w H \<equiv> registered owners_of (map_option pol_Description (pols w n)) H"

lemma registered_step:
  assumes "dns_label (op_owner op)" "policy_step pols n op w w'" "policy_registered pols n w H"
  shows "policy_registered pols n w' (holders_step op H)"
  using acl_registry.step_registered[OF dns_label_owner_ok[OF assms(1)] assms(3)] assms(2) by (simp add: entity_step_def)

lemma processPolicies_registered:
  assumes c: "consul_acl_ok (ac_client E) V pols roles" and true: "policy_answers_true (ac_client E) V pols" and ns: "dns_label ns"
    and "list_all (\<lambda>p. pol_ID p = []) ps"
    and "loop_all (processPolicy E name ns b) ps (st, pr, er) w = ((st', pr', er'), w')"
    and "V w" "policy_registered pols n w (if pr n = None then H else insert ns H)"
  shows "V w' \<and> policy_registered pols n w' (if pr' n = None then H else insert ns H)"
  using assms(4-)
proof (induction ps arbitrary: st pr er w)
  case Nil
  then show ?case by simp
next
  case (Cons p ps)
  obtain st1 pr1 er1 w1 where p: "processPolicy E name ns b p (st, pr, er) w = ((st1, pr1, er1), w1)" by (metis prod.exhaust)
  have rest: "loop_all (processPolicy E name ns b) ps (st1, pr1, er1) w1 = ((st', pr', er'), w')" using Cons.prems(2) p by simp
  have step: "V w1" "pols w1 n = pols w n \<and> pr1 n = pr n \<or> policy_step pols n (Declare (pol_Description p) ns) w w1 \<and> pr1 n \<noteq> None"
    using processPolicy_step[OF c true Cons.prems(3) _ p, of n] Cons.prems(1) by auto
  have "policy_registered pols n w1 (if pr1 n = None then H else insert ns H)"
    using step(2) Cons.prems(4) registered_step[of "Declare (pol_Description p) ns" pols n w w1, OF _ _ Cons.prems(4)] ns
    by (auto split: if_splits)
  with Cons.IH[OF _ rest step(1)] Cons.prems(1) show ?case by simp
qed

lemma history_registered:
  assumes c: "consul_acl_ok c V pols roles" and true: "policy_answers_true c V pols" and "policy_history c V pols n w H"
  shows "V w \<and> policy_registered pols n w H"
  using assms(3)
proof induction
  case (absent w)
  then show ?case by (simp add: registered_def)
next
  case (applied w H E ns ps name b st processed er w')
  have cE: "consul_acl_ok (ac_client E) V pols roles" "policy_answers_true (ac_client E) V pols" using c true applied.hyps(2) by simp_all
  from processPolicies_registered[OF cE applied.hyps(3,4), of name b "[]" Map.empty None w st processed er w' n H] applied.IH applied.hyps(5)
  show ?case by (simp add: processPolicies_def)
next
  case (deleted w H E ns name b sib p r w')
  have cE: "consul_acl_ok (ac_client E) V pols roles" "policy_answers_true (ac_client E) V pols" using c true deleted.hyps(2) by simp_all
  from deletePolicy_step[OF cE _ deleted.hyps(4), of n] registered_step[of "Release ns" pols n w w' H] deleted.IH deleted.hyps(3)
  show ?case by (auto split: if_splits)
next
  case (cleaned w H E ns d sib ep r w')
  have cE: "consul_acl_ok (ac_client E) V pols roles" "policy_answers_true (ac_client E) V pols" using c true cleaned.hyps(2) by simp_all
  from releaseStale_step[OF cE _ cleaned.hyps(4), of n] registered_step[of "Release ns" pols n w w' H] cleaned.IH cleaned.hyps(3)
  show ?case by (auto split: if_splits)
next
  case (other w H w')
  then show ?case by simp
qed

text \<open>
  The deletion of all policies of a resource is a history: without an error the namespace gives up every policy that the resource
  declares and no sibling does, and with an error some of them.
\<close>

lemma deletePolicies_history:
  assumes "policy_history c V pols n w H" "ac_client E = c" "dns_label ns"
    and "for_each (deletePolicy E name ns b sib) ps w = (r, w')"
  shows "\<exists>H'. policy_history c V pols n w' H' \<and> H - {ns} \<subseteq> H' \<and> H' \<subseteq> H \<and>
    (r = None \<longrightarrow> H' = (if n \<in> set (policy_names name ns b ps) \<and> \<not> hasPolicy sib n then H - {ns} else H))"
  using assms(1,4)
proof (induction ps arbitrary: w H)
  case Nil
  then show ?case by (auto simp: policy_names_def)
next
  case (Cons p ps)
  obtain r1 w1 where p: "deletePolicy E name ns b sib p w = (r1, w1)" by (rule prod.exhaust)
  let ?due = "pol_Name p \<noteq> [] \<and> resolveEntityName (pol_Name p) name ns b = n \<and> \<not> hasPolicy sib n"
  let ?H = "if ?due \<and> r1 = None then H - {ns} else H"
  have h: "policy_history c V pols n w1 ?H"
    using policy_history.deleted[OF Cons.prems(1) assms(2,3) p] by (simp only: conj_assoc)
  show ?case
  proof (cases r1)
    case (Some e)
    with Cons.prems(2) p have "r \<noteq> None" "w' = w1" by auto
    with h show ?thesis by (intro exI[of _ ?H]) auto
  next
    case None
    with Cons.prems(2) p have "for_each (deletePolicy E name ns b sib) ps w1 = (r, w')" by simp
    from Cons.IH[OF h this] obtain H' where H': "policy_history c V pols n w' H'" "?H - {ns} \<subseteq> H'" "H' \<subseteq> ?H"
      "r = None \<longrightarrow> H' = (if n \<in> set (policy_names name ns b ps) \<and> \<not> hasPolicy sib n then ?H - {ns} else ?H)" by blast
    have "H - {ns} \<subseteq> H'" "H' \<subseteq> H" using H'(2,3) by (auto split: if_splits)
    moreover have "r = None \<longrightarrow> H' = (if n \<in> set (policy_names name ns b (p # ps)) \<and> \<not> hasPolicy sib n then H - {ns} else H)"
      using H'(4) None by (auto simp: policy_names_def)
    ultimately show ?thesis using H'(1) by blast
  qed
qed

text \<open>
  C2. The owners of a shared policy are exact. Take any history of operations on a policy that does not exist at first: the policies of
  resources are processed, policies of deleted resources are released, and the clean-up of explicit names releases what a
  resource no longer declares, failing calls included. Then the policy exists exactly when some namespace holds it, and the
  owners recorded in its description are exactly the namespaces that declared it successfully and have not released it since.
  Provisos: the specifications name no policy IDs, namespaces are DNS labels, the operations do not interleave, a call to Consul that
  fails has no effect and one that succeeds has its effect, and nothing else touches the policy; in particular
  its name does not carry the prefix of a resource with generated names that does not declare it.
\<close>

theorem shared_policy_owners_exact:
  assumes "consul_acl_ok c V pols roles" "policy_answers_true c V pols" "policy_history c V pols n w H"
  shows "(pols w n = None \<longleftrightarrow> H = {}) \<and> (\<forall>p. pols w n = Some p \<longrightarrow> owners_of (pol_Description p) = H)"
  using history_registered[OF assms] by (auto simp: registered_def split: option.splits)

lemma tbl_answer_cases: "tbl_answer ok e = Inl x \<longleftrightarrow> \<not> ok \<and> x = StatusError 500 ''rejected''" "tbl_answer ok e = Inr y \<longleftrightarrow> ok \<and> y = e"
  by (auto simp: tbl_answer_def)

lemma tbl_answers_true: "policy_answers_true tbl_acl tw_ok tw_pols"
  unfolding answers_true_def
proof (intro conjI allI impI)
  fix p r w' and w :: tblWorld
  assume "tw_ok w" "acl_PolicyCreate tbl_acl p w = (r, w')"
  then show "case r of Inl _ \<Rightarrow> tw_pols w' = tw_pols w | Inr _ \<Rightarrow> \<exists>i. tw_pols w' = (tw_pols w)(pol_Name p \<mapsto> p\<lparr>pol_ID := i\<rparr>)"
    by (auto simp: tbl_acl_def tbl_answer_cases tbl_create_def update_conv' split: sum.split)
next
  fix p r w' and w :: tblWorld
  assume w: "tw_ok w" and run: "acl_PolicyUpdate tbl_acl p w = (r, w')"
  show "case r of Inl _ \<Rightarrow> tw_pols w' = tw_pols w
      | Inr _ \<Rightarrow> \<exists>m q. tw_pols w m = Some q \<and> pol_ID q = pol_ID p \<and> tw_pols w' = (tw_pols w)(m := None, pol_Name p := Some p)"
  proof (cases "find (\<lambda>x. pol_ID (snd x) = pol_ID p) (tw_policies w)")
    case None
    with run show ?thesis by (auto simp: tbl_acl_def tbl_answer_cases tbl_found_def tbl_update_def split: sum.split)
  next
    case (Some x)
    note x = tbl_find[OF tw_okD(2)[OF w] Some] tbl_update_found(2)[OF tw_okD(2)[OF w] Some]
    show ?thesis
    proof (cases "pol_Name p = fst x \<or> tw_pols w (pol_Name p) = None")
      case True
      then have "r = Inr p" "tw_pols w' = (tw_pols w)(fst x := None, pol_Name p := Some p)"
        using run Some x(3) by (auto simp: tbl_acl_def tbl_found_def tbl_answer_def tbl_update_def)
      with x(1,2) show ?thesis by (simp only: sum.case) blast
    next
      case False
      with run Some show ?thesis by (auto simp: tbl_acl_def tbl_found_def tbl_answer_def tbl_update_def)
    qed
  qed
next
  fix i r w' and w :: tblWorld
  assume w: "tw_ok w" and run: "acl_PolicyDelete tbl_acl i w = (r, w')"
  have "tw_pols w' m = (case tw_pols w m of None \<Rightarrow> None | Some q \<Rightarrow> if pol_ID q = i then None else Some q)" for m
  proof (cases "find (\<lambda>x. pol_ID (snd x) = i) (tw_policies w)")
    case None
    then have "pol_ID q \<noteq> i" if "tw_pols w m = Some q" for q using map_of_SomeD[OF that] by (auto simp: find_None_iff)
    with None run show ?thesis by (auto simp: tbl_acl_def tbl_delete_def split: option.split)
  next
    case (Some x)
    note x = tbl_find[OF tw_okD(2)[OF w] Some]
    have "m = fst x" if "tw_pols w m = Some q" "pol_ID q = i" for q
      using store_wfD(3)[OF tbl_wfD(2)[OF tw_okD(2)[OF w]] that(1) x(1)] that(2) x(2) by simp
    with x Some run show ?thesis by (auto simp: tbl_acl_def tbl_delete_def delete_conv' split: option.split)
  qed
  then show "case r of Inl _ \<Rightarrow> tw_pols w' = tw_pols w
      | Inr _ \<Rightarrow> \<forall>m. tw_pols w' m = (case tw_pols w m of None \<Rightarrow> None | Some q \<Rightarrow> if pol_ID q = i then None else Some q)"
    using run by (auto simp: tbl_acl_def)
qed

definition empty_world :: tblWorld where
  "empty_world = \<lparr>tw_policies = [], tw_roles = [], tw_next = 1, tw_sent = [], tw_crs = []\<rparr>"

definition demo_declared :: "string \<Rightarrow> tblWorld \<Rightarrow> tblWorld" where
  "demo_declared ns w = snd (processPolicies (ar_acl tbl_reconciler) [demo_policy [] ''d''] ''app'' ns True w)"

text \<open>Two namespaces declare a policy, and the first of them releases it.\<close>

theorem shared_policy_owners_exact_witness:
  "\<exists>w. snd (deletePolicy (ar_acl tbl_reconciler) ''app'' ''ns1'' True None (demo_policy [] ''d'') (demo_declared ''ns2'' (demo_declared ''ns1'' empty_world))) = w \<and>
     (\<forall>p. tw_pols w ''shared'' = Some p \<longrightarrow> owners_of (pol_Description p) = {''ns2''}) \<and> tw_pols w ''shared'' \<noteq> None"
proof -
  let ?E = "ar_acl tbl_reconciler" and ?P = "[demo_policy [] ''d'']" and ?n = "''shared''"
  let ?w1 = "demo_declared ''ns1'' empty_world"
  let ?w2 = "demo_declared ''ns2'' ?w1"
  have E: "ac_client ?E = tbl_acl" by (simp add: tbl_reconciler_def)
  have labels: "dns_label ''ns1''" "dns_label ''ns2''" by (simp_all add: dns_label_def dns_label_char_def)
  have noids: "list_all (\<lambda>p. pol_ID p = []) ?P" by (simp add: demo_policy_def)
  have w0: "policy_history tbl_acl tw_ok tw_pols ?n empty_world {}"
    by (rule policy_history.absent) (simp_all add: empty_world_def tw_ok_def tbl_wf_def store_wf_def)
  have p1: "fst (snd (fst (processPolicies ?E ?P ''app'' ''ns1'' True empty_world))) ?n = Some []" by code_simp
  have p2: "fst (snd (fst (processPolicies ?E ?P ''app'' ''ns2'' True ?w1))) ?n = Some ''i''" by code_simp
  have p3: "fst (deletePolicy ?E ''app'' ''ns1'' True None (demo_policy [] ''d'') ?w2) = None" by code_simp
  obtain st1 pr1 er1 where r1: "processPolicies ?E ?P ''app'' ''ns1'' True empty_world = ((st1, pr1, er1), ?w1)"
    unfolding demo_declared_def by (metis prod.collapse)
  have w1: "policy_history tbl_acl tw_ok tw_pols ?n ?w1 {''ns1''}"
    using policy_history.applied[OF w0 E labels(1) noids r1] p1 r1 by simp
  obtain st2 pr2 er2 where r2: "processPolicies ?E ?P ''app'' ''ns2'' True ?w1 = ((st2, pr2, er2), ?w2)"
    unfolding demo_declared_def by (metis prod.collapse)
  have w2: "policy_history tbl_acl tw_ok tw_pols ?n ?w2 {''ns1'', ''ns2''}"
    using policy_history.applied[OF w1 E labels(2) noids r2] p2 r2 by (simp add: insert_commute)
  obtain w where r3: "deletePolicy ?E ''app'' ''ns1'' True None (demo_policy [] ''d'') ?w2 = (None, w)"
    using p3 by (metis prod.collapse)
  have "policy_history tbl_acl tw_ok tw_pols ?n w {''ns2''}"
    using policy_history.deleted[OF w2 E labels(1) r3] by (simp add: demo_policy_def resolveEntityName_def hasPolicy_def)
  from shared_policy_owners_exact[OF tbl_acl_ok tbl_answers_true this] r3 show ?thesis by auto
qed

end
