(* ===== verification/KV_Client.thy ===== *)
theory KV_Client
  imports Prelude
begin

text \<open>
  The data of the ConsulKV controller and the Consul interfaces it calls
  (\<^verbatim>\<open>api/v1/consulkv_types.go\<close>, \<^verbatim>\<open>controllers/acl_api_provider.go\<close> lines 103-117). Consul itself is not
  part of the repository: a client is a record of functions over a world \<^typ>\<open>'w\<close>, which holds the
  key-value store, whatever other clients do to it, and the network. What the controller relies on of
  Consul (reads return the current pair, a transaction is atomic and checks every index, an index
  identifies a version of a pair) is the predicate \<open>kv_service\<close>; \<open>kv_quiet\<close> describes a Consul that no one
  else uses and that does not fail. Theorems take them as hypotheses, and the in-memory store at the
  end satisfies both.
\<close>

subsection \<open>Data\<close>

type_synonym uint64 = "64 word"

record ConsulKVEntry =
  entry_Key :: string
  entry_Value :: string

record ConsulKVEntryStatus =
  st_Key :: string
  st_Status :: string
  st_Owned :: bool

text \<open>\<^verbatim>\<open>KVPair\<close> and \<^verbatim>\<open>KVTxnOp\<close> of the Consul API, with the fields the controller reads or sets.\<close>

record KVPair =
  pair_Key :: string
  pair_Value :: string
  pair_Flags :: uint64
  pair_ModifyIndex :: uint64

datatype KVOp = KVCAS | KVDeleteCAS

record KVTxnOp =
  op_Verb :: KVOp
  op_Key :: string
  op_Value :: string
  op_Flags :: uint64
  op_Index :: uint64

subsection \<open>Client interfaces\<close>

record 'w consulKVClient =
  kv_Get :: "string \<Rightarrow> 'w \<Rightarrow> KVPair option result \<times> 'w"
  kv_Put :: "KVPair \<Rightarrow> 'w \<Rightarrow> unit result \<times> 'w"
  kv_CAS :: "KVPair \<Rightarrow> 'w \<Rightarrow> bool result \<times> 'w"
  kv_Delete :: "string \<Rightarrow> 'w \<Rightarrow> unit result \<times> 'w"
  kv_DeleteCAS :: "KVPair \<Rightarrow> 'w \<Rightarrow> bool result \<times> 'w"
  kv_DeleteTree :: "string \<Rightarrow> 'w \<Rightarrow> unit result \<times> 'w"

record 'w consulTxnClient =
  txn_Txn :: "KVTxnOp list \<Rightarrow> 'w \<Rightarrow> bool result \<times> 'w"

subsection \<open>What the controller relies on\<close>

type_synonym store = "string \<rightharpoonup> KVPair"

text \<open>The value and the counter of a key, without the version.\<close>

definition content :: "store \<Rightarrow> string \<Rightarrow> (string \<times> uint64) option" where
  "content s k = map_option (\<lambda>p. (pair_Value p, pair_Flags p)) (s k)"

text \<open>
  The check of one operation: a check-and-set with index 0 asks for an absent key, any other index for
  the version with that index; deleting a key that is already gone is accepted.
\<close>

definition txn_check :: "store \<Rightarrow> KVTxnOp \<Rightarrow> bool" where
  "txn_check s p =
     (case s (op_Key p) of
        None \<Rightarrow> op_Verb p = KVDeleteCAS \<or> op_Index p = 0
      | Some q \<Rightarrow> op_Index p = pair_ModifyIndex q)"

definition txn_effect :: "KVTxnOp list \<Rightarrow> store \<Rightarrow> store \<Rightarrow> bool" where
  "txn_effect ops s s' \<longleftrightarrow>
     (\<forall>k. k \<notin> op_Key ` set ops \<longrightarrow> s' k = s k) \<and>
     (\<forall>p \<in> set ops. content s' (op_Key p) =
        (case op_Verb p of KVCAS \<Rightarrow> Some (op_Value p, op_Flags p) | KVDeleteCAS \<Rightarrow> None))"

text \<open>
  A Consul that other clients use too: \<open>later\<close> relates a world to the worlds that can follow it, \<open>winv\<close>
  holds of the worlds Consul can be in. A committed transaction was checked and applied at one instant
  \<open>w1\<close> during the call.
\<close>

definition get_law :: "'w consulKVClient \<Rightarrow> ('w \<Rightarrow> store) \<Rightarrow> ('w \<Rightarrow> 'w \<Rightarrow> bool) \<Rightarrow> ('w \<Rightarrow> bool) \<Rightarrow> bool" where
  "get_law kv store later winv \<longleftrightarrow>
     (\<forall>k w r w'. winv w \<longrightarrow> kv_Get kv k w = (r, w') \<longrightarrow>
        winv w' \<and> later w w' \<and> (\<forall>p. r = Inr p \<longrightarrow> p = store w' k))"

definition txn_law :: "'w consulTxnClient \<Rightarrow> ('w \<Rightarrow> store) \<Rightarrow> ('w \<Rightarrow> 'w \<Rightarrow> bool) \<Rightarrow> ('w \<Rightarrow> bool) \<Rightarrow> bool" where
  "txn_law txn store later winv \<longleftrightarrow>
     (\<forall>ops w r w'. winv w \<longrightarrow> txn_Txn txn ops w = (r, w') \<longrightarrow> winv w' \<and> later w w' \<and>
        (r = Inr True \<longrightarrow> distinct (map op_Key ops) \<longrightarrow>
          (\<exists>w1. winv w1 \<and> later w w1 \<and> later w1 w' \<and> (\<forall>p \<in> set ops. txn_check (store w1) p) \<and>
                txn_effect ops (store w1) (store w'))))"

definition version_law :: "('w \<Rightarrow> store) \<Rightarrow> ('w \<Rightarrow> 'w \<Rightarrow> bool) \<Rightarrow> ('w \<Rightarrow> bool) \<Rightarrow> bool" where
  "version_law store later winv \<longleftrightarrow>
     (\<forall>w k p. winv w \<longrightarrow> store w k = Some p \<longrightarrow> pair_ModifyIndex p \<noteq> 0) \<and>
     (\<forall>w w' k p q. winv w \<longrightarrow> winv w' \<longrightarrow> later w w' \<longrightarrow> store w k = Some p \<longrightarrow> store w' k = Some q \<longrightarrow>
        pair_ModifyIndex p = pair_ModifyIndex q \<longrightarrow> p = q)"

definition kv_service ::
  "'w consulKVClient \<Rightarrow> 'w consulTxnClient \<Rightarrow> ('w \<Rightarrow> store) \<Rightarrow> ('w \<Rightarrow> 'w \<Rightarrow> bool) \<Rightarrow> ('w \<Rightarrow> bool) \<Rightarrow> bool"
where
  "kv_service kv txn store later winv \<longleftrightarrow>
     reflp later \<and> transp later \<and> get_law kv store later winv \<and> txn_law txn store later winv \<and>
     version_law store later winv"

text \<open>
  A Consul without other writers and without failures: reads change nothing, and a transaction of at
  most 64 operations on distinct keys whose checks hold commits.
\<close>

definition kv_quiet :: "'w consulKVClient \<Rightarrow> 'w consulTxnClient \<Rightarrow> ('w \<Rightarrow> store) \<Rightarrow> bool" where
  "kv_quiet kv txn store \<longleftrightarrow>
     (\<forall>k w. kv_Get kv k w = (Inr (store w k), w)) \<and>
     (\<forall>ops w. length ops \<le> 64 \<longrightarrow> distinct (map op_Key ops) \<longrightarrow> (\<forall>p \<in> set ops. txn_check (store w) p) \<longrightarrow>
        (\<exists>w'. txn_Txn txn ops w = (Inr True, w') \<and> txn_effect ops (store w) (store w'))) \<and>
     (\<forall>w k p. store w k = Some p \<longrightarrow> pair_ModifyIndex p \<noteq> 0)"

text \<open>
  A Consul whose calls may fail at any time, but without other writers during an operation: a read that answers tells the
  stored pair, a committed transaction had its checks and its effect, and every other answer means that
  nothing was written.
\<close>

definition kv_sequential :: "'w consulKVClient \<Rightarrow> 'w consulTxnClient \<Rightarrow> ('w \<Rightarrow> store) \<Rightarrow> bool" where
  "kv_sequential kv txn store \<longleftrightarrow>
     (\<forall>k w r w'. kv_Get kv k w = (r, w') \<longrightarrow> store w' = store w \<and> (\<forall>p. r = Inr p \<longrightarrow> p = store w k)) \<and>
     (\<forall>ops w r w'. txn_Txn txn ops w = (r, w') \<longrightarrow>
        (if r = Inr True then (\<forall>p \<in> set ops. txn_check (store w) p) \<and>
           (distinct (map op_Key ops) \<longrightarrow> txn_effect ops (store w) (store w'))
         else store w' = store w))"

lemma kv_service_order:
  assumes "kv_service kv txn store later winv"
  shows kv_service_refl: "later w w"
    and kv_service_trans: "later w w1 \<Longrightarrow> later w1 w2 \<Longrightarrow> later w w2"
proof -
  from assms have r: "reflp later" and t: "transp later" by (simp_all add: kv_service_def)
  show "later w w" using r by (rule reflpD)
  show "later w w1 \<Longrightarrow> later w1 w2 \<Longrightarrow> later w w2" using t by (rule transpD)
qed

lemma kv_service_Get:
  assumes "kv_service kv txn store later winv" and "winv w" and "kv_Get kv k w = (r, w')"
  shows "winv w' \<and> later w w' \<and> (\<forall>p. r = Inr p \<longrightarrow> p = store w' k)"
proof -
  from assms(1) have "get_law kv store later winv" by (simp add: kv_service_def)
  with assms(2,3) show ?thesis unfolding get_law_def by blast
qed

lemma kv_service_Txn_later:
  assumes "kv_service kv txn store later winv" and "winv w" and "txn_Txn txn ops w = (r, w')"
  shows "winv w' \<and> later w w'"
proof -
  from assms(1) have "txn_law txn store later winv" by (simp add: kv_service_def)
  with assms(2,3) show ?thesis unfolding txn_law_def by blast
qed

lemma kv_service_Txn:
  assumes "kv_service kv txn store later winv" and "winv w" and "txn_Txn txn ops w = (Inr True, w')"
    and "distinct (map op_Key ops)"
  shows "\<exists>w1. winv w1 \<and> later w w1 \<and> later w1 w' \<and> (\<forall>p \<in> set ops. txn_check (store w1) p) \<and>
    txn_effect ops (store w1) (store w')"
proof -
  from assms(1) have "txn_law txn store later winv" by (simp add: kv_service_def)
  with assms(2-4) show ?thesis unfolding txn_law_def by (metis (no_types, lifting))
qed

lemma kv_service_index:
  assumes "kv_service kv txn store later winv" and "winv w" and "store w k = Some p"
  shows "pair_ModifyIndex p \<noteq> 0"
proof -
  from assms(1) have "version_law store later winv" by (simp add: kv_service_def)
  with assms(2,3) show ?thesis unfolding version_law_def by blast
qed

lemma kv_service_version:
  assumes "kv_service kv txn store later winv" and "winv w" and "winv w'" and "later w w'"
    and "store w k = Some p" and "store w' k = Some q" and "pair_ModifyIndex p = pair_ModifyIndex q"
  shows "p = q"
proof -
  from assms(1) have "version_law store later winv" by (simp add: kv_service_def)
  with assms(2-) show ?thesis unfolding version_law_def by blast
qed

text \<open>
  The point of the check: an operation whose index was taken from a read passes only while the key is
  as it was read.
\<close>

lemma txn_check_unchanged:
  assumes svc: "kv_service kv txn store later winv" and "winv w" and "winv w'" and "later w w'"
    and idx: "op_Index p = (case store w (op_Key p) of None \<Rightarrow> 0 | Some q \<Rightarrow> pair_ModifyIndex q)"
    and chk: "txn_check (store w') p"
  shows "store w' (op_Key p) = store w (op_Key p) \<or>
    op_Verb p = KVDeleteCAS \<and> store w' (op_Key p) = None"
proof (cases "store w' (op_Key p)")
  case None
  then show ?thesis
    using chk idx kv_service_index[OF svc \<open>winv w\<close>, of "op_Key p"]
    by (auto simp: txn_check_def split: option.splits)
next
  case (Some q)
  with chk have q: "op_Index p = pair_ModifyIndex q" by (simp add: txn_check_def)
  with kv_service_index[OF svc \<open>winv w'\<close> Some] idx obtain r where r: "store w (op_Key p) = Some r"
    by (auto split: option.splits)
  with q idx have "pair_ModifyIndex r = pair_ModifyIndex q" by simp
  from kv_service_version[OF svc \<open>winv w\<close> \<open>winv w'\<close> \<open>later w w'\<close> r Some this] r Some
  show ?thesis by simp
qed

lemma kv_quietD:
  assumes "kv_quiet kv txn store"
  shows kv_quiet_Get: "kv_Get kv k w = (Inr (store w k), w)"
    and kv_quiet_Txn: "length ops \<le> 64 \<Longrightarrow> distinct (map op_Key ops) \<Longrightarrow>
      (\<And>p. p \<in> set ops \<Longrightarrow> txn_check (store w) p) \<Longrightarrow>
      \<exists>w'. txn_Txn txn ops w = (Inr True, w') \<and> txn_effect ops (store w) (store w')"
    and kv_quiet_index: "store w k = Some q \<Longrightarrow> pair_ModifyIndex q \<noteq> 0"
  using assms unfolding kv_quiet_def by blast+

lemma kv_sequentialD:
  assumes "kv_sequential kv txn store"
  shows kv_sequential_Get: "kv_Get kv k w = (r, w') \<Longrightarrow> store w' = store w \<and> (\<forall>p. r = Inr p \<longrightarrow> p = store w k)"
    and kv_sequential_commit: "txn_Txn txn ops w = (Inr True, w') \<Longrightarrow> distinct (map op_Key ops) \<Longrightarrow>
      txn_effect ops (store w) (store w')"
    and kv_sequential_other: "txn_Txn txn ops w = (a, w') \<Longrightarrow> a \<noteq> Inr True \<Longrightarrow> store w' = store w"
  using assms unfolding kv_sequential_def by (blast, fastforce, metis)

subsection \<open>In-memory stores\<close>

text \<open>
  Two concrete services. The first numbers its versions and satisfies \<open>kv_service\<close>; it refuses to write
  when the indices are used up. The second has no versions (every index is 1) and satisfies \<open>kv_quiet\<close>.
\<close>

type_synonym mem_kv = "store \<times> nat"

definition mem_write :: "uint64 \<Rightarrow> KVTxnOp \<Rightarrow> KVPair option" where
  "mem_write n p = (case op_Verb p of
     KVCAS \<Rightarrow> Some \<lparr>pair_Key = op_Key p, pair_Value = op_Value p, pair_Flags = op_Flags p,
                    pair_ModifyIndex = n\<rparr>
   | KVDeleteCAS \<Rightarrow> None)"

definition mem_apply :: "KVTxnOp list \<Rightarrow> uint64 \<Rightarrow> store \<Rightarrow> store" where
  "mem_apply ops n s = fold (\<lambda>p s. s(op_Key p := mem_write n p)) ops s"

definition mem_tree :: "string \<Rightarrow> store \<Rightarrow> store" where
  "mem_tree pre s = (\<lambda>k. if prefix pre k then None else s k)"

definition mem_commit :: "KVTxnOp list \<Rightarrow> mem_kv \<Rightarrow> bool result \<times> mem_kv" where
  "mem_commit ops w =
     (if 18446744073709551615 \<le> int (snd w) then (Inl (StatusError 500 ''index overflow''), w)
      else if list_all (txn_check (fst w)) ops
      then (Inr True, (mem_apply ops (of_nat (Suc (snd w))) (fst w), Suc (snd w)))
      else (Inr False, w))"

definition cas_op :: "KVOp \<Rightarrow> KVPair \<Rightarrow> KVTxnOp" where
  "cas_op v p = \<lparr>op_Verb = v, op_Key = pair_Key p, op_Value = pair_Value p, op_Flags = pair_Flags p,
     op_Index = pair_ModifyIndex p\<rparr>"

definition mem_kv_client :: "mem_kv consulKVClient" where
  "mem_kv_client =
     \<lparr>kv_Get = (\<lambda>k w. (Inr (fst w k), w)),
      kv_Put = (\<lambda>p w. (Inr (), (mem_apply [cas_op KVCAS p] (of_nat (Suc (snd w))) (fst w), Suc (snd w)))),
      kv_CAS = (\<lambda>p. mem_commit [cas_op KVCAS p]),
      kv_Delete = (\<lambda>k w. (Inr (), ((fst w)(k := None), snd w))),
      kv_DeleteCAS = (\<lambda>p. mem_commit [cas_op KVDeleteCAS p]),
      kv_DeleteTree = (\<lambda>pre w. (Inr (), (mem_tree pre (fst w), snd w)))\<rparr>"

definition mem_txn_client :: "mem_kv consulTxnClient" where
  "mem_txn_client = \<lparr>txn_Txn = mem_commit\<rparr>"

definition mem_inv :: "mem_kv \<Rightarrow> bool" where
  "mem_inv w \<longleftrightarrow> (\<forall>k p. fst w k = Some p \<longrightarrow>
     pair_ModifyIndex p \<noteq> 0 \<and> unat (pair_ModifyIndex p) \<le> snd w)"

definition mem_later :: "mem_kv \<Rightarrow> mem_kv \<Rightarrow> bool" where
  "mem_later w w' \<longleftrightarrow> snd w \<le> snd w' \<and>
     (\<forall>k q. fst w' k = Some q \<longrightarrow> unat (pair_ModifyIndex q) \<le> snd w \<longrightarrow> fst w k = Some q)"

lemma mem_apply_other: "k \<notin> op_Key ` set ops \<Longrightarrow> mem_apply ops n s k = s k"
  by (induction ops arbitrary: s) (auto simp: mem_apply_def)

lemma mem_apply_key:
  "distinct (map op_Key ops) \<Longrightarrow> p \<in> set ops \<Longrightarrow> mem_apply ops n s (op_Key p) = mem_write n p"
proof (induction ops arbitrary: s)
  case Nil
  then show ?case by simp
next
  case (Cons q ops)
  show ?case
  proof (cases "p \<in> set ops")
    case True
    then show ?thesis using Cons by (simp add: mem_apply_def)
  next
    case False
    with Cons.prems have "p = q" by simp
    with Cons.prems mem_apply_other[of "op_Key q" ops n "s(op_Key q := mem_write n q)"]
    show ?thesis by (simp add: mem_apply_def)
  qed
qed

lemma mem_apply_cases: "mem_apply ops n s k = s k \<or> (\<exists>p. mem_apply ops n s k = mem_write n p)"
proof (induction ops arbitrary: s)
  case Nil
  then show ?case by (simp add: mem_apply_def)
next
  case (Cons p ops)
  define t where "t = s(op_Key p := mem_write n p)"
  have "mem_apply (p # ops) n s k = mem_apply ops n t k"
    by (simp add: mem_apply_def t_def)
  moreover have "t k = s k \<or> t k = mem_write n p" by (simp add: t_def)
  ultimately show ?case using Cons.IH[of t] by metis
qed

lemma mem_write_index: "mem_write n p = Some q \<Longrightarrow> pair_ModifyIndex q = n"
  by (auto simp: mem_write_def split: KVOp.splits)

lemma mem_apply_effect:
  "distinct (map op_Key ops) \<Longrightarrow> txn_effect ops s (mem_apply ops n s)"
  by (auto simp: txn_effect_def mem_apply_other content_def mem_apply_key mem_write_def split: KVOp.splits)

lemma mem_commit_step:
  assumes "mem_inv w" and "mem_commit ops w = (r, w')"
  shows "mem_inv w' \<and> mem_later w w' \<and>
    (r = Inr True \<longrightarrow> distinct (map op_Key ops) \<longrightarrow>
       (\<forall>p \<in> set ops. txn_check (fst w) p) \<and> txn_effect ops (fst w) (fst w'))"
proof (cases "int (snd w) < 18446744073709551615 \<and> list_all (txn_check (fst w)) ops")
  case False
  with assms have "w' = w" "r \<noteq> Inr True" by (auto simp: mem_commit_def split: if_splits)
  then show ?thesis using assms(1) by (auto simp: mem_later_def)
next
  case True
  let ?n = "of_nat (Suc (snd w)) :: uint64"
  have r: "r = Inr True" and w': "w' = (mem_apply ops ?n (fst w), Suc (snd w))"
    using True assms(2) by (auto simp: mem_commit_def split: if_splits)
  have un: "unat ?n = Suc (snd w)"
    using True by (simp add: unat_of_nat take_bit_nat_eq_self_iff del: of_nat_Suc)
  then have n0: "?n \<noteq> 0" by (metis Zero_not_Suc unat_0)
  have cases': "fst w k = Some q \<or> pair_ModifyIndex q = ?n" if "fst w' k = Some q" for k q
    using that mem_apply_cases[of ops ?n "fst w" k] w'
    by (metis fst_conv mem_write_index)
  have "mem_inv w'"
    unfolding mem_inv_def
  proof (intro allI impI)
    fix k q assume "fst w' k = Some q"
    from cases'[OF this] show "pair_ModifyIndex q \<noteq> 0 \<and> unat (pair_ModifyIndex q) \<le> snd w'"
      using assms(1) un n0 w' by (auto simp: mem_inv_def simp del: of_nat_Suc intro: le_SucI)
  qed
  moreover have "mem_later w w'"
    unfolding mem_later_def using cases' un w' by (fastforce simp del: of_nat_Suc)
  ultimately show ?thesis
    using True mem_apply_effect[of ops "fst w" ?n] w' by (auto simp: list_all_iff)
qed

lemma mem_kv_service: "kv_service mem_kv_client mem_txn_client fst mem_later mem_inv"
proof -
  have "reflp mem_later" by (rule reflpI) (simp add: mem_later_def)
  moreover have "transp mem_later" by (rule transpI) (auto simp: mem_later_def)
  moreover have "get_law mem_kv_client fst mem_later mem_inv"
    by (simp add: get_law_def mem_kv_client_def mem_later_def)
  moreover have "txn_law mem_txn_client fst mem_later mem_inv"
    unfolding txn_law_def
  proof (intro allI impI)
    fix ops w r w' assume w: "mem_inv w" and t: "txn_Txn mem_txn_client ops w = (r, w')"
    have "mem_commit ops w = (r, w')" using t by (simp add: mem_txn_client_def)
    moreover have "mem_later w w" by (simp add: mem_later_def)
    ultimately show "mem_inv w' \<and> mem_later w w' \<and>
      (r = Inr True \<longrightarrow> distinct (map op_Key ops) \<longrightarrow>
        (\<exists>w1. mem_inv w1 \<and> mem_later w w1 \<and> mem_later w1 w' \<and> (\<forall>p \<in> set ops. txn_check (fst w1) p) \<and>
              txn_effect ops (fst w1) (fst w')))"
      using mem_commit_step[OF w] w by blast
  qed
  moreover have "version_law fst mem_later mem_inv"
    unfolding version_law_def mem_inv_def mem_later_def by (metis option.inject)
  ultimately show ?thesis by (simp add: kv_service_def)
qed

text \<open>The store without versions: reads show every pair at index 1.\<close>

definition plain_view :: "store \<Rightarrow> store" where
  "plain_view s k = map_option (\<lambda>p. p\<lparr>pair_ModifyIndex := 1\<rparr>) (s k)"

definition plain_commit :: "KVTxnOp list \<Rightarrow> store \<Rightarrow> bool result \<times> store" where
  "plain_commit ops s =
     (if 64 < length ops then (Inl (StatusError 413 ''transaction contains too many operations''), s)
      else if list_all (txn_check (plain_view s)) ops then (Inr True, mem_apply ops 1 s)
      else (Inr False, s))"

definition plain_kv_client :: "store consulKVClient" where
  "plain_kv_client =
     \<lparr>kv_Get = (\<lambda>k s. (Inr (plain_view s k), s)),
      kv_Put = (\<lambda>p s. (Inr (), mem_apply [cas_op KVCAS p] 1 s)),
      kv_CAS = (\<lambda>p. plain_commit [cas_op KVCAS p]),
      kv_Delete = (\<lambda>k s. (Inr (), s(k := None))),
      kv_DeleteCAS = (\<lambda>p. plain_commit [cas_op KVDeleteCAS p]),
      kv_DeleteTree = (\<lambda>pre s. (Inr (), mem_tree pre s))\<rparr>"

definition plain_txn_client :: "store consulTxnClient" where
  "plain_txn_client = \<lparr>txn_Txn = plain_commit\<rparr>"

lemma plain_kv_quiet: "kv_quiet plain_kv_client plain_txn_client plain_view"
proof -
  have "txn_effect ops (plain_view s) (plain_view (mem_apply ops 1 s))"
    if "distinct (map op_Key ops)" for ops s
    using mem_apply_effect[OF that, of s 1]
    by (auto simp: txn_effect_def plain_view_def content_def option.map_comp comp_def)
  then show ?thesis
    by (auto simp: kv_quiet_def plain_kv_client_def plain_txn_client_def plain_commit_def
        plain_view_def list_all_iff)
qed

lemma plain_kv_sequential: "kv_sequential plain_kv_client plain_txn_client plain_view"
proof -
  have "txn_effect ops (plain_view s) (plain_view (mem_apply ops 1 s))"
    if "distinct (map op_Key ops)" for ops s
    using mem_apply_effect[OF that, of s 1]
    by (auto simp: txn_effect_def plain_view_def content_def option.map_comp comp_def)
  then show ?thesis
    by (auto simp: kv_sequential_def plain_kv_client_def plain_txn_client_def plain_commit_def
        list_all_iff split: if_splits)
qed

end
