(* ===== verification/KV_Chunk.thy ===== *)
theory KV_Chunk
  imports KV_Client
begin

text \<open>
  One batch of the ConsulKV controller (\<^verbatim>\<open>controllers/consulkv_controller.go\<close>, lines 46-51, 251-311 and
  386-438): read every key, compute the target of every counter, commit one check-and-set transaction,
  and start over when a key has changed meanwhile, at most \<open>casMaxRetries\<close> times. The main lemmas say
  that a batch that reports success was applied as one atomic step to the store (\<open>write_target\<close> and
  \<open>release_target\<close> are the specification of that step for one key), whatever other clients did.
\<close>

subsection \<open>Definitions\<close>

definition casMaxRetries :: nat where
  "casMaxRetries = 10"

definition txnBatchSize :: nat where
  "txnBatchSize = 64"

text \<open>The counter a write asks for, and whether the resource owns the key after it.\<close>

definition newFlags_willOwn :: "bool \<Rightarrow> KVPair option \<Rightarrow> uint64 \<times> bool" where
  "newFlags_willOwn isOwned pair =
     (let flags = (case pair of None \<Rightarrow> 0 | Some p \<Rightarrow> pair_Flags p)
      in if isOwned then (flags, True)
         else if pair \<noteq> None \<and> flags = 0 then (flags, False)
         else (flags + 1, True))"

fun writeKVChunk_ops ::
  "'w consulKVClient \<Rightarrow> (string \<Rightarrow> bool) \<Rightarrow> ConsulKVEntry list \<Rightarrow> 'w \<Rightarrow> (KVTxnOp \<times> bool) list result \<times> 'w"
where
  "writeKVChunk_ops kv ownedKeys [] w = (Inr [], w)"
| "writeKVChunk_ops kv ownedKeys (e # es) w =
     (case kv_Get kv (entry_Key e) w of
        (Inl err, w1) \<Rightarrow> (Inl (WrapError (''KV get '' @ fmt_q (entry_Key e) @ '': '') err), w1)
      | (Inr pair, w1) \<Rightarrow>
          (let index = (case pair of None \<Rightarrow> 0 | Some p \<Rightarrow> pair_ModifyIndex p);
               (newFlags, willOwn) = newFlags_willOwn (ownedKeys (entry_Key e)) pair;
               txnOp = \<lparr>op_Verb = KVCAS, op_Key = entry_Key e, op_Value = entry_Value e,
                        op_Flags = newFlags, op_Index = index\<rparr>
           in case writeKVChunk_ops kv ownedKeys es w1 of
                (Inl err, w2) \<Rightarrow> (Inl err, w2)
              | (Inr ops, w2) \<Rightarrow> (Inr ((txnOp, willOwn) # ops), w2)))"

text \<open>Recording the ownership of the keys of a committed batch.\<close>

definition record_owned ::
  "ConsulKVEntry list \<Rightarrow> (KVTxnOp \<times> bool) list \<Rightarrow> (string \<rightharpoonup> bool) \<Rightarrow> (string \<rightharpoonup> bool)"
where
  "record_owned es ops owned = fold (\<lambda>(e, p) m. m(entry_Key e \<mapsto> snd p)) (zip es ops) owned"

text \<open>The attempts, with the number of attempts left.\<close>

fun writeKVChunk_loop ::
  "nat \<Rightarrow> 'w consulKVClient \<Rightarrow> 'w consulTxnClient \<Rightarrow> (string \<Rightarrow> bool) \<Rightarrow> ConsulKVEntry list \<Rightarrow>
   (string \<rightharpoonup> bool) \<Rightarrow> 'w \<Rightarrow> (goerror option \<times> (string \<rightharpoonup> bool)) \<times> 'w"
where
  "writeKVChunk_loop 0 kv txn ownedKeys es owned w =
     ((Some (PlainError ''KV apply txn: max retries exceeded (10)''), owned), w)"
| "writeKVChunk_loop (Suc n) kv txn ownedKeys es owned w =
     (case writeKVChunk_ops kv ownedKeys es w of
        (Inl err, w1) \<Rightarrow> ((Some err, owned), w1)
      | (Inr ops, w1) \<Rightarrow>
          (case txn_Txn txn (map fst ops) w1 of
             (Inl err, w2) \<Rightarrow> ((Some (WrapError ''KV apply txn: '' err), owned), w2)
           | (Inr ok, w2) \<Rightarrow>
               if ok then ((None, record_owned es ops owned), w2)
               else writeKVChunk_loop n kv txn ownedKeys es owned w2))"

definition writeKVChunk ::
  "'w consulKVClient \<Rightarrow> 'w consulTxnClient \<Rightarrow> (string \<Rightarrow> bool) \<Rightarrow> ConsulKVEntry list \<Rightarrow>
   (string \<rightharpoonup> bool) \<Rightarrow> 'w \<Rightarrow> (goerror option \<times> (string \<rightharpoonup> bool)) \<times> 'w"
where
  "writeKVChunk kv txn ownedKeys es owned w =
     writeKVChunk_loop casMaxRetries kv txn ownedKeys es owned w"

fun deleteKVChunk_ops :: "'w consulKVClient \<Rightarrow> string list \<Rightarrow> 'w \<Rightarrow> KVTxnOp list result \<times> 'w" where
  "deleteKVChunk_ops kv [] w = (Inr [], w)"
| "deleteKVChunk_ops kv (key # keys) w =
     (case kv_Get kv key w of
        (Inl err, w1) \<Rightarrow> (Inl (WrapError (''KV get '' @ fmt_q key @ '': '') err), w1)
      | (Inr pair, w1) \<Rightarrow>
          (case deleteKVChunk_ops kv keys w1 of
             (Inl err, w2) \<Rightarrow> (Inl err, w2)
           | (Inr ops, w2) \<Rightarrow>
               (Inr (case pair of
                       None \<Rightarrow> ops
                     | Some p \<Rightarrow>
                         if pair_Flags p \<le> 1
                         then \<lparr>op_Verb = KVDeleteCAS, op_Key = key, op_Value = [], op_Flags = 0,
                               op_Index = pair_ModifyIndex p\<rparr> # ops
                         else \<lparr>op_Verb = KVCAS, op_Key = key, op_Value = pair_Value p,
                               op_Flags = pair_Flags p - 1, op_Index = pair_ModifyIndex p\<rparr> # ops), w2)))"

fun deleteKVChunk_loop ::
  "nat \<Rightarrow> 'w consulKVClient \<Rightarrow> 'w consulTxnClient \<Rightarrow> string list \<Rightarrow> 'w \<Rightarrow> goerror option \<times> 'w"
where
  "deleteKVChunk_loop 0 kv txn keys w =
     (Some (PlainError ''KV delete txn: max retries exceeded (10)''), w)"
| "deleteKVChunk_loop (Suc n) kv txn keys w =
     (case deleteKVChunk_ops kv keys w of
        (Inl err, w1) \<Rightarrow> (Some err, w1)
      | (Inr ops, w1) \<Rightarrow>
          if ops = [] then (None, w1)
          else case txn_Txn txn ops w1 of
                 (Inl err, w2) \<Rightarrow> (Some (WrapError ''KV delete txn: '' err), w2)
               | (Inr ok, w2) \<Rightarrow> if ok then (None, w2) else deleteKVChunk_loop n kv txn keys w2)"

definition deleteKVChunk ::
  "'w consulKVClient \<Rightarrow> 'w consulTxnClient \<Rightarrow> string list \<Rightarrow> 'w \<Rightarrow> goerror option \<times> 'w"
where
  "deleteKVChunk kv txn keys w = deleteKVChunk_loop casMaxRetries kv txn keys w"

subsection \<open>The atomic step of one key\<close>

text \<open>
  The reference counting of the documentation: an absent key is created with counter 1, a key of
  counter 0 belongs to someone else and is only written, any other key gets one more owner, and a key
  the resource owns already keeps its counter.
\<close>

fun write_target :: "bool \<Rightarrow> string \<Rightarrow> (string \<times> uint64) option \<Rightarrow> (string \<times> uint64) \<times> bool" where
  "write_target True v None = ((v, 0), True)"
| "write_target True v (Some (v', f)) = ((v, f), True)"
| "write_target False v None = ((v, 1), True)"
| "write_target False v (Some (v', f)) = (if f = 0 then ((v, 0), False) else ((v, f + 1), True))"

text \<open>Releasing takes one owner away and deletes the key when no other is left.\<close>

fun release_target :: "(string \<times> uint64) option \<Rightarrow> (string \<times> uint64) option" where
  "release_target None = None"
| "release_target (Some (v, f)) = (if f \<le> 1 then None else Some (v, f - 1))"

lemma newFlags_willOwn_target:
  "write_target b v (map_option (\<lambda>p. (pair_Value p, pair_Flags p)) pair) =
     ((v, fst (newFlags_willOwn b pair)), snd (newFlags_willOwn b pair))"
  by (cases b; cases pair) (auto simp: newFlags_willOwn_def)

lemma write_target_value [simp]: "fst (fst (write_target b v c)) = v"
  by (cases "(b, v, c)" rule: write_target.cases) auto

lemma write_target_owned [simp]: "snd (write_target True v c)"
  by (cases c) auto

subsection \<open>A write is one atomic step\<close>

definition write_step ::
  "(string \<Rightarrow> bool) \<Rightarrow> ConsulKVEntry list \<Rightarrow> store \<Rightarrow> store \<Rightarrow> (string \<rightharpoonup> bool) \<Rightarrow> (string \<rightharpoonup> bool) \<Rightarrow> bool"
where
  "write_step ownedKeys es s s' owned owned' \<longleftrightarrow>
     (\<forall>e \<in> set es.
        content s' (entry_Key e) =
          Some (fst (write_target (ownedKeys (entry_Key e)) (entry_Value e) (content s (entry_Key e)))) \<and>
        owned' (entry_Key e) =
          Some (snd (write_target (ownedKeys (entry_Key e)) (entry_Value e) (content s (entry_Key e))))) \<and>
     (\<forall>k. k \<notin> entry_Key ` set es \<longrightarrow> s' k = s k \<and> owned' k = owned k)"

text \<open>What the first pass records of an entry: the operation computed from one state of its key.\<close>

definition read_op :: "(string \<Rightarrow> bool) \<Rightarrow> store \<Rightarrow> ConsulKVEntry \<Rightarrow> KVTxnOp \<times> bool \<Rightarrow> bool" where
  "read_op ownedKeys s e p \<longleftrightarrow>
     op_Verb (fst p) = KVCAS \<and> op_Key (fst p) = entry_Key e \<and> op_Value (fst p) = entry_Value e \<and>
     (op_Flags (fst p), snd p) = newFlags_willOwn (ownedKeys (entry_Key e)) (s (entry_Key e)) \<and>
     op_Index (fst p) = (case s (entry_Key e) of None \<Rightarrow> 0 | Some q \<Rightarrow> pair_ModifyIndex q)"

lemma writeKVChunk_ops_spec:
  assumes svc: "kv_service kv txn store later winv"
  shows "winv w \<Longrightarrow> writeKVChunk_ops kv ownedKeys es w = (r, w') \<Longrightarrow>
    winv w' \<and> later w w' \<and> (\<forall>ops. r = Inr ops \<longrightarrow>
      list_all2 (\<lambda>e p. \<exists>we. winv we \<and> later w we \<and> later we w' \<and> read_op ownedKeys (store we) e p) es ops)"
proof (induction es arbitrary: w r w')
  case Nil
  then show ?case using kv_service_refl[OF svc] by auto
next
  case (Cons e es)
  obtain g w1 where g: "kv_Get kv (entry_Key e) w = (g, w1)" by fastforce
  note G = kv_service_Get[OF svc Cons.prems(1) g]
  show ?case
  proof (cases g)
    case (Inl err)
    with Cons.prems(2) g G show ?thesis by auto
  next
    case (Inr pair)
    obtain r' w2 where rec: "writeKVChunk_ops kv ownedKeys es w1 = (r', w2)" by fastforce
    note IH = Cons.IH[OF conjunct1[OF G] rec]
    have lat: "later w w2" using G IH kv_service_trans[OF svc] by blast
    show ?thesis
    proof (cases r')
      case (Inl err)
      with Cons.prems(2) g \<open>g = Inr pair\<close> rec IH lat show ?thesis
        by (auto simp: split_beta Let_def)
    next
      case (Inr ops)
      define p where "p = (\<lparr>op_Verb = KVCAS, op_Key = entry_Key e, op_Value = entry_Value e,
        op_Flags = fst (newFlags_willOwn (ownedKeys (entry_Key e)) pair),
        op_Index = (case pair of None \<Rightarrow> 0 | Some q \<Rightarrow> pair_ModifyIndex q)\<rparr>,
        snd (newFlags_willOwn (ownedKeys (entry_Key e)) pair))"
      have r: "r = Inr (p # ops)" "w' = w2"
        using Cons.prems(2) g \<open>g = Inr pair\<close> rec Inr by (auto simp: split_beta Let_def p_def)
      have "pair = store w1 (entry_Key e)" using G \<open>g = Inr pair\<close> by simp
      then have "read_op ownedKeys (store w1) e p" by (simp add: read_op_def p_def)
      then have hd: "\<exists>we. winv we \<and> later w we \<and> later we w2 \<and> read_op ownedKeys (store we) e p"
        using G IH by blast
      have "list_all2 (\<lambda>e p. \<exists>we. winv we \<and> later w we \<and> later we w2 \<and> read_op ownedKeys (store we) e p) es ops"
        by (rule list_all2_mono[of _ es ops, OF mp[OF spec[OF conjunct2[OF conjunct2[OF IH]]] Inr]])
          (use G kv_service_trans[OF svc] in blast)
      with hd lat IH r show ?thesis by auto
    qed
  qed
qed

lemma record_owned_other:
  "k \<notin> entry_Key ` set es \<Longrightarrow> record_owned es ops owned k = owned k"
proof (induction es arbitrary: ops owned)
  case Nil
  then show ?case by (simp add: record_owned_def)
next
  case (Cons e es)
  then show ?case by (cases ops) (auto simp: record_owned_def)
qed

lemma record_owned_key:
  assumes "list_all2 R es ops" and "distinct (map entry_Key es)" and "(e, p) \<in> set (zip es ops)"
  shows "record_owned es ops owned (entry_Key e) = Some (snd p)"
  using assms
proof (induction es ops arbitrary: owned rule: list_all2_induct)
  case Nil
  then show ?case by simp
next
  case (Cons x xs y ys)
  then show ?case
    using record_owned_other[of "entry_Key x" xs ys "owned(entry_Key x \<mapsto> snd y)"]
    by (auto simp: record_owned_def)
qed

lemma read_op_keys: "list_all2 (read_op ownedKeys s) es ops \<Longrightarrow> map op_Key (map fst ops) = map entry_Key es"
  by (induction es ops rule: list_all2_induct) (auto simp: read_op_def)

lemma read_op_target:
  "read_op ownedKeys s e p \<Longrightarrow>
     write_target (ownedKeys (entry_Key e)) (entry_Value e) (content s (entry_Key e)) =
       ((op_Value (fst p), op_Flags (fst p)), snd p)"
  unfolding content_def newFlags_willOwn_target
  by (auto simp: read_op_def) (metis fst_conv snd_conv)+

text \<open>The effect of a transaction whose operations were computed from the state it was applied to.\<close>

lemma write_effect:
  assumes reads: "list_all2 (read_op ownedKeys s) es ops" and dist: "distinct (map entry_Key es)"
    and eff: "txn_effect (map fst ops) s s'"
  shows "write_step ownedKeys es s s' owned (record_owned es ops owned)"
proof -
  have entry: "content s' (entry_Key e) =
        Some (fst (write_target (ownedKeys (entry_Key e)) (entry_Value e) (content s (entry_Key e)))) \<and>
      record_owned es ops owned (entry_Key e) =
        Some (snd (write_target (ownedKeys (entry_Key e)) (entry_Value e) (content s (entry_Key e))))"
    if ep: "(e, p) \<in> set (zip es ops)" for e p
  proof -
    have rd: "read_op ownedKeys s e p" using reads ep by (auto simp: list_all2_iff)
    have "p \<in> set ops" using ep by (rule set_zip_rightD)
    with eff rd have "content s' (op_Key (fst p)) = Some (op_Value (fst p), op_Flags (fst p))"
      by (auto simp: txn_effect_def read_op_def split: KVOp.splits)
    with read_op_target[OF rd] rd record_owned_key[OF reads dist ep] show ?thesis
      by (simp add: read_op_def)
  qed
  have "\<exists>p. (e, p) \<in> set (zip es ops)" if "e \<in> set es" for e
    using that list_all2_lengthD[OF reads] by (meson in_set_impl_in_set_zip1)
  moreover have "op_Key ` set (map fst ops) = entry_Key ` set es"
    using arg_cong[OF read_op_keys[OF reads], of set] by (simp add: image_image)
  ultimately show ?thesis
    using entry eff record_owned_other unfolding write_step_def txn_effect_def by metis
qed

lemma write_commit:
  assumes svc: "kv_service kv txn store later winv" and "winv w1"
    and reads: "list_all2 (\<lambda>e p. \<exists>we. winv we \<and> later we w1 \<and> read_op ownedKeys (store we) e p) es ops"
    and dist: "distinct (map entry_Key es)"
    and txn: "txn_Txn txn (map fst ops) w1 = (Inr True, w2)"
  shows "\<exists>wc. winv wc \<and> later w1 wc \<and> later wc w2 \<and>
    write_step ownedKeys es (store wc) (store w2) owned (record_owned es ops owned)"
proof -
  have keys: "map op_Key (map fst ops) = map entry_Key es"
    using reads by (induction es ops rule: list_all2_induct) (auto simp: read_op_def)
  obtain wc where wc: "winv wc" "later w1 wc" "later wc w2" and chk: "\<forall>p \<in> set (map fst ops). txn_check (store wc) p"
      and eff: "txn_effect (map fst ops) (store wc) (store w2)"
    using kv_service_Txn[OF svc \<open>winv w1\<close> txn] dist keys by metis
  have "read_op ownedKeys (store wc) e p" if ep: "(e, p) \<in> set (zip es ops)" for e p
  proof -
    obtain we where we: "winv we" "later we w1" and rd: "read_op ownedKeys (store we) e p"
      using reads ep by (fastforce simp: list_all2_iff)
    have "p \<in> set ops" using ep by (rule set_zip_rightD)
    then have "txn_check (store wc) (fst p)" using chk by simp
    moreover have "later we wc" using kv_service_trans[OF svc we(2) wc(2)] .
    ultimately have "store wc (entry_Key e) = store we (entry_Key e)"
      using txn_check_unchanged[OF svc we(1) wc(1), of "fst p"] rd by (auto simp: read_op_def)
    with rd show ?thesis by (simp add: read_op_def)
  qed
  then have "list_all2 (read_op ownedKeys (store wc)) es ops"
    using list_all2_lengthD[OF reads] by (auto simp: list_all2_iff)
  from write_effect[OF this dist eff] wc show ?thesis by blast
qed

lemma writeKVChunk_loop_atomic:
  assumes svc: "kv_service kv txn store later winv" and dist: "distinct (map entry_Key es)"
  shows "winv w \<Longrightarrow> writeKVChunk_loop n kv txn ownedKeys es owned w = ((res, owned'), w') \<Longrightarrow>
    winv w' \<and> later w w' \<and>
    (if res = None
     then \<exists>wc. winv wc \<and> later w wc \<and> later wc w' \<and> write_step ownedKeys es (store wc) (store w') owned owned'
     else owned' = owned)"
proof (induction n arbitrary: w)
  case 0
  then show ?case using kv_service_refl[OF svc] by auto
next
  case (Suc n)
  obtain r w1 where ops: "writeKVChunk_ops kv ownedKeys es w = (r, w1)" by fastforce
  note O = writeKVChunk_ops_spec[OF svc Suc.prems(1) ops]
  show ?case
  proof (cases r)
    case (Inl err)
    with Suc.prems(2) ops O show ?thesis by auto
  next
    case (Inr os)
    obtain t w2 where t: "txn_Txn txn (map fst os) w1 = (t, w2)" by fastforce
    have w1: "winv w1" "later w w1" using O by auto
    note T = kv_service_Txn_later[OF svc w1(1) t]
    have lat: "later w w2" using kv_service_trans[OF svc w1(2)] T by blast
    consider err where "t = Inl err" | "t = Inr True" | "t = Inr False"
      by (metis (full_types) old.sum.exhaust)
    then show ?thesis
    proof cases
      case 1
      with Suc.prems(2) ops Inr t T lat show ?thesis by auto
    next
      case 2
      have "list_all2 (\<lambda>e p. \<exists>we. winv we \<and> later we w1 \<and> read_op ownedKeys (store we) e p) es os"
        using O Inr by (auto elim: list_all2_mono)
      from write_commit[OF svc w1(1) this dist t[unfolded 2], of owned]
      have "\<exists>wc. winv wc \<and> later w wc \<and> later wc w2 \<and> write_step ownedKeys es (store wc) (store w2) owned (record_owned es os owned)"
        using kv_service_trans[OF svc w1(2)] by blast
      with Suc.prems(2) ops Inr t 2 T lat show ?thesis by auto
    next
      case 3
      with Suc.prems(2) ops Inr t
      have "writeKVChunk_loop n kv txn ownedKeys es owned w2 = ((res, owned'), w')" by simp
      from Suc.IH[OF conjunct1[OF T] this] show ?thesis
        using lat kv_service_trans[OF svc] by (auto split: if_splits)
    qed
  qed
qed

lemmas writeKVChunk_atomic = writeKVChunk_loop_atomic[where n = casMaxRetries, folded writeKVChunk_def]

subsection \<open>The operations of a release\<close>

text \<open>
  A key that was gone when it was read is left alone, whoever creates it meanwhile; every other key is
  released from the state it has when the transaction commits.
\<close>

definition release_step :: "string list \<Rightarrow> (string \<Rightarrow> bool) \<Rightarrow> store \<Rightarrow> store \<Rightarrow> bool" where
  "release_step keys gone s s' \<longleftrightarrow>
     (\<forall>k \<in> set keys. if gone k then s' k = s k else content s' k = release_target (content s k)) \<and>
     (\<forall>k. k \<notin> set keys \<longrightarrow> s' k = s k)"

definition delete_op :: "string \<Rightarrow> KVPair \<Rightarrow> KVTxnOp" where
  "delete_op key p =
     (if pair_Flags p \<le> 1
      then \<lparr>op_Verb = KVDeleteCAS, op_Key = key, op_Value = [], op_Flags = 0, op_Index = pair_ModifyIndex p\<rparr>
      else \<lparr>op_Verb = KVCAS, op_Key = key, op_Value = pair_Value p, op_Flags = pair_Flags p - 1,
            op_Index = pair_ModifyIndex p\<rparr>)"

lemma delete_op_simps [simp]:
  "op_Key (delete_op k p) = k" "op_Index (delete_op k p) = pair_ModifyIndex p"
  by (simp_all add: delete_op_def)

text \<open>The first pass, with the pair that each key was read as.\<close>

lemma deleteKVChunk_ops_spec:
  assumes svc: "kv_service kv txn store later winv"
  shows "winv w \<Longrightarrow> deleteKVChunk_ops kv keys w = (r, w') \<Longrightarrow>
    winv w' \<and> later w w' \<and> (\<forall>ops. r = Inr ops \<longrightarrow>
      (\<exists>pairs. length pairs = length keys \<and>
        ops = concat (map2 (\<lambda>k q. case q of None \<Rightarrow> [] | Some p \<Rightarrow> [delete_op k p]) keys pairs) \<and>
        (\<forall>(k, q) \<in> set (zip keys pairs). \<exists>we. winv we \<and> later w we \<and> later we w' \<and> store we k = q)))"
proof (induction keys arbitrary: w r w')
  case Nil
  then show ?case using kv_service_refl[OF svc] by auto
next
  case (Cons k ks)
  obtain g w1 where g: "kv_Get kv k w = (g, w1)" by fastforce
  note G = kv_service_Get[OF svc Cons.prems(1) g]
  show ?case
  proof (cases g)
    case (Inl err)
    with Cons.prems(2) g G show ?thesis by auto
  next
    case (Inr pair)
    obtain r' w2 where rec: "deleteKVChunk_ops kv ks w1 = (r', w2)" by fastforce
    note IH = Cons.IH[OF conjunct1[OF G] rec]
    have lat: "later w w2" using G IH kv_service_trans[OF svc] by blast
    show ?thesis
    proof (cases r')
      case (Inl err)
      with Cons.prems(2) g \<open>g = Inr pair\<close> rec IH lat show ?thesis by auto
    next
      case (Inr ops)
      with IH obtain pairs where P: "length pairs = length ks"
        "ops = concat (map2 (\<lambda>k q. case q of None \<Rightarrow> [] | Some p \<Rightarrow> [delete_op k p]) ks pairs)"
        "\<forall>(k, q) \<in> set (zip ks pairs). \<exists>we. winv we \<and> later w1 we \<and> later we w2 \<and> store we k = q"
        by blast
      have r: "r = Inr (concat (map2 (\<lambda>k q. case q of None \<Rightarrow> [] | Some p \<Rightarrow> [delete_op k p])
          (k # ks) (pair # pairs)))" "w' = w2"
        using Cons.prems(2) g \<open>g = Inr pair\<close> rec Inr P(2)
        by (auto simp: delete_op_def split: option.splits)
      have "\<exists>we. winv we \<and> later w we \<and> later we w2 \<and> store we k = pair"
        using G IH \<open>g = Inr pair\<close> by blast
      moreover have "\<forall>(k, q) \<in> set (zip ks pairs). \<exists>we. winv we \<and> later w we \<and> later we w2 \<and> store we k = q"
      proof clarify
        fix a q
        assume "(a, q) \<in> set (zip ks pairs)"
        from bspec[OF P(3) this] obtain we
          where we: "winv we" "later w1 we" "later we w2" "store we a = q" by auto
        have "later w we"
          by (rule kv_service_trans[OF svc conjunct1[OF conjunct2[OF G]] we(2)])
        with we show "\<exists>we. winv we \<and> later w we \<and> later we w2 \<and> store we a = q" by blast
      qed
      ultimately have "\<forall>(k, q) \<in> set (zip (k # ks) (pair # pairs)).
          \<exists>we. winv we \<and> later w we \<and> later we w2 \<and> store we k = q" by simp
      moreover have "length (pair # pairs) = length (k # ks)" using P(1) by simp
      ultimately show ?thesis unfolding r using lat IH by blast
    qed
  qed
qed

abbreviation delete_ops :: "string list \<Rightarrow> KVPair option list \<Rightarrow> KVTxnOp list" where
  "delete_ops keys pairs \<equiv> concat (map2 (\<lambda>k q. case q of None \<Rightarrow> [] | Some p \<Rightarrow> [delete_op k p]) keys pairs)"

lemma delete_ops_set:
  "set (delete_ops keys pairs) = {delete_op k p | k p. (k, Some p) \<in> set (zip keys pairs)}"
  by (auto split: option.splits)

lemma delete_ops_keys:
  "length pairs = length keys \<Longrightarrow> distinct keys \<Longrightarrow>
     distinct (map op_Key (delete_ops keys pairs)) \<and> set (map op_Key (delete_ops keys pairs)) \<subseteq> set keys"
proof (induction keys pairs rule: list_induct2')
  case (4 k ks q qs)
  then show ?case by (cases q) (auto dest: set_zip_leftD)
qed auto

lemma release_effect:
  assumes len: "length pairs = length keys" and dist: "distinct keys"
    and eff: "txn_effect (delete_ops keys pairs) s s'"
    and unchanged: "\<And>k p. (k, Some p) \<in> set (zip keys pairs) \<Longrightarrow>
      s k = Some p \<or> op_Verb (delete_op k p) = KVDeleteCAS \<and> s k = None"
  shows "release_step keys (\<lambda>k. (k, None) \<in> set (zip keys pairs)) s s'"
  unfolding release_step_def
proof (intro conjI ballI allI impI)
  fix k
  assume k: "k \<in> set keys"
  show "if (k, None) \<in> set (zip keys pairs) then s' k = s k else content s' k = release_target (content s k)"
  proof (cases "(k, None) \<in> set (zip keys pairs)")
    case True
    have "k \<notin> op_Key ` set (delete_ops keys pairs)"
    proof
      assume "k \<in> op_Key ` set (delete_ops keys pairs)"
      then obtain p where "(k, Some p) \<in> set (zip keys pairs)"
        unfolding delete_ops_set by auto
      with True dist len show False
        by (auto simp: in_set_zip nth_eq_iff_index_eq)
    qed
    with eff True show ?thesis by (simp add: txn_effect_def)
  next
    case False
    obtain q where "(k, q) \<in> set (zip keys pairs)"
      using k len by (metis in_set_impl_in_set_zip1)
    with False obtain p where p: "(k, Some p) \<in> set (zip keys pairs)" by (cases q) auto
    then have "delete_op k p \<in> set (delete_ops keys pairs)" unfolding delete_ops_set by auto
    with eff have "content s' k = (case op_Verb (delete_op k p) of
        KVCAS \<Rightarrow> Some (op_Value (delete_op k p), op_Flags (delete_op k p)) | KVDeleteCAS \<Rightarrow> None)"
      unfolding txn_effect_def by (metis delete_op_simps(1))
    with unchanged[OF p] False show ?thesis
      by (auto simp: delete_op_def content_def split: if_splits)
  qed
next
  fix k
  assume "k \<notin> set keys"
  moreover have "op_Key ` set (delete_ops keys pairs) \<subseteq> set keys"
    using delete_ops_keys[OF len dist] by simp
  ultimately show "s' k = s k" using eff unfolding txn_effect_def by blast
qed

subsection \<open>Without other writers the first attempt commits\<close>

lemma writeKVChunk_ops_quiet:
  assumes q: "kv_quiet kv txn store"
  shows "\<exists>ops. writeKVChunk_ops kv ownedKeys es w = (Inr ops, w) \<and> list_all2 (read_op ownedKeys (store w)) es ops"
proof (induction es)
  case Nil
  then show ?case by simp
next
  case (Cons e es)
  then obtain ops where "writeKVChunk_ops kv ownedKeys es w = (Inr ops, w)"
    "list_all2 (read_op ownedKeys (store w)) es ops" by blast
  moreover have "read_op ownedKeys (store w) e
      (\<lparr>op_Verb = KVCAS, op_Key = entry_Key e, op_Value = entry_Value e,
        op_Flags = fst (newFlags_willOwn (ownedKeys (entry_Key e)) (store w (entry_Key e))),
        op_Index = (case store w (entry_Key e) of None \<Rightarrow> 0 | Some p \<Rightarrow> pair_ModifyIndex p)\<rparr>,
        snd (newFlags_willOwn (ownedKeys (entry_Key e)) (store w (entry_Key e))))"
    by (simp add: read_op_def)
  ultimately show ?case by (auto simp: kv_quiet_Get[OF q] split_beta Let_def)
qed

lemma read_op_check: "read_op ownedKeys s e p \<Longrightarrow> txn_check s (fst p)"
  by (auto simp: read_op_def txn_check_def split: option.splits)

lemma writeKVChunk_quiet:
  assumes q: "kv_quiet kv txn store" and dist: "distinct (map entry_Key es)" and len: "length es \<le> txnBatchSize"
  shows "\<exists>owned' w'. writeKVChunk kv txn ownedKeys es owned w = ((None, owned'), w') \<and>
    write_step ownedKeys es (store w) (store w') owned owned'"
proof -
  obtain ops where ops: "writeKVChunk_ops kv ownedKeys es w = (Inr ops, w)"
    and reads: "list_all2 (read_op ownedKeys (store w)) es ops"
    using writeKVChunk_ops_quiet[OF q] by blast
  have "txn_check (store w) p" if "p \<in> set (map fst ops)" for p
    using that reads read_op_check[of ownedKeys "store w"]
    by (fastforce simp: list_all2_conv_all_nth in_set_conv_nth)
  moreover have "length (map fst ops) \<le> 64"
    using len list_all2_lengthD[OF reads] by (simp add: txnBatchSize_def)
  moreover have "distinct (map op_Key (map fst ops))" using read_op_keys[OF reads] dist by simp
  ultimately obtain w' where "txn_Txn txn (map fst ops) w = (Inr True, w')"
      and "txn_effect (map fst ops) (store w) (store w')"
    using kv_quiet_Txn[OF q, of "map fst ops" w] by blast
  with write_effect[OF reads dist] ops show ?thesis
    by (auto simp: writeKVChunk_def casMaxRetries_def numeral_eq_Suc)
qed

lemma deleteKVChunk_ops_quiet:
  assumes q: "kv_quiet kv txn store"
  shows "deleteKVChunk_ops kv keys w = (Inr (delete_ops keys (map (store w) keys)), w)"
  by (induction keys) (auto simp: kv_quiet_Get[OF q] delete_op_def split: option.splits)

lemma delete_ops_length: "length pairs = length keys \<Longrightarrow> length (delete_ops keys pairs) \<le> length keys"
  by (induction keys pairs rule: list_induct2') (auto split: option.splits)

lemma deleteKVChunk_quiet:
  assumes q: "kv_quiet kv txn store" and dist: "distinct keys" and len: "length keys \<le> txnBatchSize"
  shows "\<exists>w'. deleteKVChunk kv txn keys w = (None, w') \<and>
    release_step keys (\<lambda>k. store w k = None) (store w) (store w')"
proof (cases "delete_ops keys (map (store w) keys) = []")
  case True
  have "store w k = None" if k: "k \<in> set keys" for k
  proof (rule ccontr)
    assume "store w k \<noteq> None"
    then obtain p where "store w k = Some p" by blast
    with k have "(k, Some p) \<in> set (zip keys (map (store w) keys))" by (force simp: zip_map2 zip_same_conv_map)
    then have "delete_op k p \<in> set (delete_ops keys (map (store w) keys))" unfolding delete_ops_set by auto
    with True show False by simp
  qed
  with True show ?thesis
    by (auto simp: deleteKVChunk_def casMaxRetries_def numeral_eq_Suc deleteKVChunk_ops_quiet[OF q]
        release_step_def)
next
  case False
  define ops where "ops = delete_ops keys (map (store w) keys)"
  have zip: "(k, x) \<in> set (zip keys (map (store w) keys)) \<longleftrightarrow> k \<in> set keys \<and> x = store w k" for k x
    by (auto simp: zip_map2 zip_same_conv_map)
  have "txn_check (store w) p" if "p \<in> set ops" for p
    using that unfolding ops_def delete_ops_set by (auto simp: zip txn_check_def split: option.splits)
  moreover have "length ops \<le> 64"
    using delete_ops_length[of "map (store w) keys" keys] len by (simp add: ops_def txnBatchSize_def)
  moreover have "distinct (map op_Key ops)"
    using delete_ops_keys[of "map (store w) keys" keys] dist by (simp add: ops_def)
  ultimately obtain w' where t: "txn_Txn txn ops w = (Inr True, w')" and eff: "txn_effect ops (store w) (store w')"
    using kv_quiet_Txn[OF q, of ops w] by blast
  have "release_step keys (\<lambda>k. (k, None) \<in> set (zip keys (map (store w) keys))) (store w) (store w')"
    by (rule release_effect[OF _ dist eff[unfolded ops_def]]) (auto simp: zip)
  then have "release_step keys (\<lambda>k. store w k = None) (store w) (store w')"
    by (auto simp: release_step_def zip)
  with False t show ?thesis
    by (auto simp: deleteKVChunk_def casMaxRetries_def numeral_eq_Suc deleteKVChunk_ops_quiet[OF q] ops_def)
qed

end
