(* ===== verification/KV_Batch.thy ===== *)
theory KV_Batch
  imports KV_Chunk
begin

text \<open>
  The batched writes and releases of the ConsulKV controller (\<^verbatim>\<open>controllers/consulkv_controller.go\<close>, lines
  237-249 and 369-384): the entries are cut into batches of \<open>txnBatchSize\<close>, and the first failing batch
  ends the loop. The locale \<open>batch_loop\<close> is the contract of such a driver over any batch operation; its
  rules are proved once and used for the write and for the release.
\<close>

subsection \<open>Definitions\<close>

function writeKVBatch_loop ::
  "'w consulKVClient \<Rightarrow> 'w consulTxnClient \<Rightarrow> (string \<Rightarrow> bool) \<Rightarrow> ConsulKVEntry list \<Rightarrow>
   (string \<rightharpoonup> bool) \<Rightarrow> 'w \<Rightarrow> (goerror option \<times> (string \<rightharpoonup> bool)) \<times> 'w"
where
  "writeKVBatch_loop kv txn ownedKeys es owned w =
     (if es = [] then ((None, owned), w)
      else case writeKVChunk kv txn ownedKeys (take txnBatchSize es) owned w of
             ((Some err, owned1), w1) \<Rightarrow> ((Some err, owned1), w1)
           | ((None, owned1), w1) \<Rightarrow> writeKVBatch_loop kv txn ownedKeys (drop txnBatchSize es) owned1 w1)"
  by pat_completeness auto
termination
  by (relation "measure (\<lambda>(kv, txn, ownedKeys, es, owned, w). length es)") (auto simp: txnBatchSize_def)

declare writeKVBatch_loop.simps [simp del]

definition writeKVBatchWithOwnership ::
  "'w consulKVClient \<Rightarrow> 'w consulTxnClient \<Rightarrow> (string \<Rightarrow> bool) \<Rightarrow> ConsulKVEntry list \<Rightarrow> 'w \<Rightarrow>
   (goerror option \<times> (string \<rightharpoonup> bool)) \<times> 'w"
where
  "writeKVBatchWithOwnership kv txn ownedKeys es w = writeKVBatch_loop kv txn ownedKeys es Map.empty w"

function deleteKVBatch_loop ::
  "'w consulKVClient \<Rightarrow> 'w consulTxnClient \<Rightarrow> string list \<Rightarrow> string set \<Rightarrow> 'w \<Rightarrow>
   (goerror option \<times> string set) \<times> 'w"
where
  "deleteKVBatch_loop kv txn keys released w =
     (if keys = [] then ((None, released), w)
      else case deleteKVChunk kv txn (take txnBatchSize keys) w of
             (Some err, w1) \<Rightarrow> ((Some err, released), w1)
           | (None, w1) \<Rightarrow>
               deleteKVBatch_loop kv txn (drop txnBatchSize keys) (released \<union> set (take txnBatchSize keys)) w1)"
  by pat_completeness auto
termination
  by (relation "measure (\<lambda>(kv, txn, keys, released, w). length keys)") (auto simp: txnBatchSize_def)

declare deleteKVBatch_loop.simps [simp del]

definition deleteKVBatch ::
  "'w consulKVClient \<Rightarrow> 'w consulTxnClient \<Rightarrow> string list \<Rightarrow> 'w \<Rightarrow> (goerror option \<times> string set) \<times> 'w"
where
  "deleteKVBatch kv txn keys w = deleteKVBatch_loop kv txn keys {} w"

subsection \<open>The contract of a batch driver\<close>

locale batch_loop =
  fixes bsize :: nat
    and chunk :: "'a list \<Rightarrow> 'acc \<Rightarrow> 'w \<Rightarrow> (goerror option \<times> 'acc) \<times> 'w"
    and loop :: "'a list \<Rightarrow> 'acc \<Rightarrow> 'w \<Rightarrow> (goerror option \<times> 'acc) \<times> 'w"
  assumes bsize_pos: "0 < bsize"
    and loop_done: "loop [] acc w = ((None, acc), w)"
    and loop_next: "xs \<noteq> [] \<Longrightarrow> chunk (take bsize xs) acc w = ((None, acc1), w1) \<Longrightarrow>
      loop xs acc w = loop (drop bsize xs) acc1 w1"
    and loop_fail: "xs \<noteq> [] \<Longrightarrow> chunk (take bsize xs) acc w = ((Some err, acc1), w1) \<Longrightarrow>
      loop xs acc w = ((Some err, acc1), w1)"
begin

text \<open>
  The invariant \<open>R\<close> speaks of the items of the committed batches; a failing batch turns it into \<open>F\<close>.
\<close>

lemma loop_rule_from:
  assumes ok: "\<And>d c acc w acc1 w1. R d acc w \<Longrightarrow> length c \<le> bsize \<Longrightarrow> (\<exists>r. xs = d @ c @ r) \<Longrightarrow>
      chunk c acc w = ((None, acc1), w1) \<Longrightarrow> R (d @ c) acc1 w1"
    and err: "\<And>d c acc w e acc1 w1. R d acc w \<Longrightarrow> length c \<le> bsize \<Longrightarrow> (\<exists>r. xs = d @ c @ r) \<Longrightarrow>
      chunk c acc w = ((Some e, acc1), w1) \<Longrightarrow> F d acc1 w1"
  shows "xs = d @ ys \<Longrightarrow> R d acc w \<Longrightarrow> loop ys acc w = ((res, acc'), w') \<Longrightarrow>
    (case res of None \<Rightarrow> R xs acc' w' | Some e \<Rightarrow> \<exists>d' rest. xs = d' @ rest \<and> F d' acc' w')"
proof (induction "length ys" arbitrary: d ys acc w rule: less_induct)
  case less
  show ?case
  proof (cases "ys = []")
    case True
    with less.prems show ?thesis by (auto simp: loop_done)
  next
    case False
    obtain r acc1 w1 where c: "chunk (take bsize ys) acc w = ((r, acc1), w1)" by (metis prod.collapse)
    have xs: "xs = d @ take bsize ys @ drop bsize ys" using less.prems(1) by simp
    then have ex: "\<exists>r. xs = d @ take bsize ys @ r" by blast
    have len: "length (take bsize ys) \<le> bsize" by simp
    show ?thesis
    proof (cases r)
      case None
      note R1 = ok[OF less.prems(2) len ex c[unfolded None]]
      have "length (drop bsize ys) < length ys" using False bsize_pos by simp
      from less.hyps[OF this, of "d @ take bsize ys" acc1 w1] R1 xs less.prems(3)
      show ?thesis by (auto simp: loop_next[OF False c[unfolded None]])
    next
      case (Some e)
      have "F d acc1 w1" by (rule err[OF less.prems(2) len ex c[unfolded Some]])
      moreover have "res = Some e" "acc' = acc1" "w' = w1"
        using less.prems(3) loop_fail[OF False c[unfolded Some]] by simp_all
      ultimately show ?thesis using less.prems(1) by auto
    qed
  qed
qed

lemmas loop_rule = loop_rule_from[where d = "[]", OF _ _ append_Nil[symmetric]]

lemma loop_succeeds_from:
  assumes ok: "\<And>d c acc w. R d acc w \<Longrightarrow> length c \<le> bsize \<Longrightarrow> (\<exists>r. xs = d @ c @ r) \<Longrightarrow>
      \<exists>acc1 w1. chunk c acc w = ((None, acc1), w1) \<and> R (d @ c) acc1 w1"
  shows "xs = d @ ys \<Longrightarrow> R d acc w \<Longrightarrow> \<exists>acc' w'. loop ys acc w = ((None, acc'), w') \<and> R xs acc' w'"
proof (induction "length ys" arbitrary: d ys acc w rule: less_induct)
  case less
  show ?case
  proof (cases "ys = []")
    case True
    with less.prems show ?thesis by (auto simp: loop_done)
  next
    case False
    have xs: "xs = d @ take bsize ys @ drop bsize ys" using less.prems(1) by simp
    then have ex: "\<exists>r. xs = d @ take bsize ys @ r" by blast
    have len: "length (take bsize ys) \<le> bsize" by simp
    from ok[OF less.prems(2) len ex] obtain acc1 w1 where c: "chunk (take bsize ys) acc w = ((None, acc1), w1)"
      and R1: "R (d @ take bsize ys) acc1 w1"
      by blast
    have "length (drop bsize ys) < length ys" using False bsize_pos by simp
    from less.hyps[OF this, of "d @ take bsize ys" acc1 w1] R1 xs
    show ?thesis by (simp add: loop_next[OF False c])
  qed
qed

lemmas loop_succeeds = loop_succeeds_from[where d = "[]", OF _ append_Nil[symmetric]]

end

interpretation write_batch: batch_loop txnBatchSize "writeKVChunk kv txn ownedKeys" "writeKVBatch_loop kv txn ownedKeys"
  for kv txn ownedKeys
  by unfold_locales (simp_all add: txnBatchSize_def writeKVBatch_loop.simps)

text \<open>The batch operation of the release, with the keys released so far.\<close>

definition release_chunk ::
  "'w consulKVClient \<Rightarrow> 'w consulTxnClient \<Rightarrow> string list \<Rightarrow> string set \<Rightarrow> 'w \<Rightarrow>
   (goerror option \<times> string set) \<times> 'w"
where
  "release_chunk kv txn keys released w =
     (case deleteKVChunk kv txn keys w of
        (Some err, w1) \<Rightarrow> ((Some err, released), w1)
      | (None, w1) \<Rightarrow> ((None, released \<union> set keys), w1))"

interpretation release_batch: batch_loop txnBatchSize "release_chunk kv txn" "deleteKVBatch_loop kv txn"
  for kv txn
proof unfold_locales
  show "0 < txnBatchSize" by (simp add: txnBatchSize_def)
  fix acc and w :: 'a
  show "deleteKVBatch_loop kv txn [] acc w = ((None, acc), w)"
    by (simp add: deleteKVBatch_loop.simps)
next
  fix xs :: "string list" and acc acc1 and w w1 :: 'a
  assume "xs \<noteq> []" and "release_chunk kv txn (take txnBatchSize xs) acc w = ((None, acc1), w1)"
  then show "deleteKVBatch_loop kv txn xs acc w = deleteKVBatch_loop kv txn (drop txnBatchSize xs) acc1 w1"
    by (auto simp: release_chunk_def deleteKVBatch_loop.simps[of _ _ xs] split: prod.splits option.splits)
next
  fix xs :: "string list" and acc acc1 err and w w1 :: 'a
  assume "xs \<noteq> []" and "release_chunk kv txn (take txnBatchSize xs) acc w = ((Some err, acc1), w1)"
  then show "deleteKVBatch_loop kv txn xs acc w = ((Some err, acc1), w1)"
    by (auto simp: release_chunk_def deleteKVBatch_loop.simps[of _ _ xs] split: prod.splits option.splits)
qed

subsection \<open>Writes with other clients\<close>

text \<open>
  One entry was written at one instant \<open>wc\<close> of the call, in a step that changed only the keys of its
  batch, and \<open>b\<close> tells whether the resource owns the key since then.
\<close>

definition written_at ::
  "('w \<Rightarrow> store) \<Rightarrow> ('w \<Rightarrow> 'w \<Rightarrow> bool) \<Rightarrow> (string \<Rightarrow> bool) \<Rightarrow> ConsulKVEntry list \<Rightarrow> 'w \<Rightarrow> 'w \<Rightarrow>
   ConsulKVEntry \<Rightarrow> bool \<Rightarrow> bool"
where
  "written_at store later ownedKeys es w w' e b \<longleftrightarrow>
     (\<exists>wc w2. later w wc \<and> later wc w2 \<and> later w2 w' \<and>
        content (store w2) (entry_Key e) =
          Some (fst (write_target (ownedKeys (entry_Key e)) (entry_Value e) (content (store wc) (entry_Key e)))) \<and>
        b = snd (write_target (ownedKeys (entry_Key e)) (entry_Value e) (content (store wc) (entry_Key e))) \<and>
        (\<forall>k. k \<notin> entry_Key ` set es \<longrightarrow> store w2 k = store wc k))"

definition write_progress ::
  "('w \<Rightarrow> store) \<Rightarrow> ('w \<Rightarrow> 'w \<Rightarrow> bool) \<Rightarrow> ('w \<Rightarrow> bool) \<Rightarrow> (string \<Rightarrow> bool) \<Rightarrow> ConsulKVEntry list \<Rightarrow> 'w \<Rightarrow>
   ConsulKVEntry list \<Rightarrow> (string \<rightharpoonup> bool) \<Rightarrow> 'w \<Rightarrow> bool"
where
  "write_progress store later winv ownedKeys es w d owned w' \<longleftrightarrow>
     winv w' \<and> later w w' \<and> dom owned = entry_Key ` set d \<and>
     (\<forall>e \<in> set d. \<exists>b. owned (entry_Key e) = Some b \<and> written_at store later ownedKeys es w w' e b)"

lemma written_at_later:
  assumes "kv_service kv txn store later winv" and "later w1 w2"
    and "written_at store later ownedKeys es w w1 e b"
  shows "written_at store later ownedKeys es w w2 e b"
  using assms(3) kv_service_trans[OF assms(1) _ assms(2)] unfolding written_at_def by metis

lemma written_at_step:
  assumes svc: "kv_service kv txn store later winv" and wc: "later w wc" "later wc w2"
    and step: "write_step ownedKeys c (store wc) (store w2) owned owned'" and "e \<in> set c" and "set c \<subseteq> set es"
  shows "\<exists>b. owned' (entry_Key e) = Some b \<and> written_at store later ownedKeys es w w2 e b"
proof -
  have "later w2 w2" by (rule kv_service_refl[OF svc])
  moreover have "\<forall>k. k \<notin> entry_Key ` set es \<longrightarrow> store w2 k = store wc k"
    using step assms(6) unfolding write_step_def by blast
  ultimately show ?thesis
    using wc step \<open>e \<in> set c\<close> unfolding written_at_def write_step_def by metis
qed

lemma write_progress_chunk:
  assumes svc: "kv_service kv txn store later winv" and dist: "distinct (map entry_Key es)"
    and es: "\<exists>r. es = d @ c @ r" and prog: "write_progress store later winv ownedKeys es w d owned w1"
    and chunk: "writeKVChunk kv txn ownedKeys c owned w1 = ((res, owned'), w2)"
  shows "write_progress store later winv ownedKeys es w (if res = None then d @ c else d) owned' w2"
proof -
  obtain r where r: "es = d @ c @ r" using es by blast
  have dc: "distinct (map entry_Key c)" "set c \<subseteq> set es" and disj: "entry_Key ` set d \<inter> entry_Key ` set c = {}"
    using dist unfolding r by (simp_all add: Int_Un_distrib) blast
  from prog have w1: "winv w1" "later w w1" and old: "dom owned = entry_Key ` set d"
      "\<And>e. e \<in> set d \<Longrightarrow> \<exists>b. owned (entry_Key e) = Some b \<and> written_at store later ownedKeys es w w1 e b"
    by (auto simp: write_progress_def)
  note A = writeKVChunk_atomic[OF svc dc(1) w1(1) chunk]
  then have w2: "winv w2" "later w1 w2" by auto
  have later: "later w w2" by (rule kv_service_trans[OF svc w1(2) w2(2)])
  have keep: "\<exists>b. owned (entry_Key e) = Some b \<and> written_at store later ownedKeys es w w2 e b"
    if "e \<in> set d" for e using old(2)[OF that] written_at_later[OF svc w2(2)] by blast
  show ?thesis
  proof (cases res)
    case (Some err)
    with A old(1) keep w2 later show ?thesis by (simp add: write_progress_def)
  next
    case None
    with A obtain wc where wc: "winv wc" "later w1 wc" "later wc w2"
      and step: "write_step ownedKeys c (store wc) (store w2) owned owned'" by auto
    have "later w wc" by (rule kv_service_trans[OF svc w1(2) wc(2)])
    note new = written_at_step[OF svc this wc(3) step _ dc(2)]
    have same: "owned' (entry_Key e) = owned (entry_Key e)" if "e \<in> set d" for e
      using step disj that unfolding write_step_def by blast
    have "(owned' k \<noteq> None) = (k \<in> dom owned \<or> k \<in> entry_Key ` set c)" for k
      using step unfolding write_step_def by (cases "k \<in> entry_Key ` set c") auto
    then have "dom owned' = entry_Key ` set (d @ c)"
      using old(1) by (simp add: dom_def set_eq_iff image_Un)
    with None keep same new w2 later show ?thesis by (auto simp: write_progress_def)
  qed
qed

lemma writeKVBatch_progress:
  assumes svc: "kv_service kv txn store later winv" and dist: "distinct (map entry_Key es)" and "winv w"
    and run: "writeKVBatchWithOwnership kv txn ownedKeys es w = ((res, owned), w')"
  shows "\<exists>d rest. es = d @ rest \<and> (res = None \<longrightarrow> rest = []) \<and>
    write_progress store later winv ownedKeys es w d owned w'"
proof -
  have start: "write_progress store later winv ownedKeys es w [] Map.empty w"
    using \<open>winv w\<close> kv_service_refl[OF svc] by (simp add: write_progress_def)
  note ok = write_progress_chunk[OF svc dist, where res = None, simplified]
  note err = write_progress_chunk[OF svc dist, where res = "Some e" for e, simplified]
  have "case res of None \<Rightarrow> write_progress store later winv ownedKeys es w es owned w'
    | Some e \<Rightarrow> \<exists>d rest. es = d @ rest \<and> write_progress store later winv ownedKeys es w d owned w'"
    by (rule write_batch.loop_rule[where R = "write_progress store later winv ownedKeys es w",
          OF _ _ start run[unfolded writeKVBatchWithOwnership_def]])
      (rule ok err; assumption)+
  then show ?thesis by (cases res) auto
qed

subsection \<open>Without other writers\<close>

lemma write_step_append:
  assumes s1: "write_step ownedKeys d s s1 o0 o1" and s2: "write_step ownedKeys c s1 s2 o1 o2"
    and disj: "entry_Key ` set d \<inter> entry_Key ` set c = {}"
  shows "write_step ownedKeys (d @ c) s s2 o0 o2"
proof -
  have old: "s2 k = s1 k \<and> o2 k = o1 k" if "k \<notin> entry_Key ` set c" for k
    using s2 that unfolding write_step_def by blast
  have first: "s1 k = s k \<and> o1 k = o0 k" if "k \<notin> entry_Key ` set d" for k
    using s1 that unfolding write_step_def by blast
  have "entry_Key e \<notin> entry_Key ` set d" if "e \<in> set c" for e using disj that by blast
  from first[OF this] have "content s1 (entry_Key e) = content s (entry_Key e)" if "e \<in> set c" for e
    using that by (simp add: content_def)
  moreover have "entry_Key e \<notin> entry_Key ` set c" if "e \<in> set d" for e using disj that by blast
  from old[OF this] have "content s2 (entry_Key e) = content s1 (entry_Key e) \<and> o2 (entry_Key e) = o1 (entry_Key e)"
    if "e \<in> set d" for e using that by (simp add: content_def)
  ultimately show ?thesis using s1 s2 old first unfolding write_step_def by (simp add: image_Un ball_Un)
qed

lemma writeKVBatch_quiet:
  assumes q: "kv_quiet kv txn store" and dist: "distinct (map entry_Key es)"
  shows "\<exists>owned w'. writeKVBatchWithOwnership kv txn ownedKeys es w = ((None, owned), w') \<and>
    write_step ownedKeys es (store w) (store w') Map.empty owned"
  unfolding writeKVBatchWithOwnership_def
proof (rule write_batch.loop_succeeds[where R = "\<lambda>d owned w'. write_step ownedKeys d (store w) (store w') Map.empty owned"])
  show "write_step ownedKeys [] (store w) (store w) Map.empty Map.empty" by (simp add: write_step_def)
  fix d c owned w1
  assume d: "write_step ownedKeys d (store w) (store w1) Map.empty owned"
    and len: "length c \<le> txnBatchSize" and "\<exists>r. es = d @ c @ r"
  then obtain r where r: "es = d @ c @ r" by blast
  have dc: "distinct (map entry_Key c)" "entry_Key ` set d \<inter> entry_Key ` set c = {}"
    using dist unfolding r by (simp_all add: Int_Un_distrib)
  from writeKVChunk_quiet[OF q dc(1) len] write_step_append[OF d _ dc(2)]
  show "\<exists>owned1 w2. writeKVChunk kv txn ownedKeys c owned w1 = ((None, owned1), w2) \<and>
      write_step ownedKeys (d @ c) (store w) (store w2) Map.empty owned1" by meson
qed

lemma release_step_append:
  assumes s1: "release_step d g0 s s1" and s2: "release_step c g1 s1 s2" and disj: "set d \<inter> set c = {}"
    and g: "\<And>k. k \<in> set c \<Longrightarrow> g1 k = g0 k"
  shows "release_step (d @ c) g0 s s2"
proof -
  have old: "s2 k = s1 k" if "k \<notin> set c" for k using s2 that unfolding release_step_def by blast
  have first: "s1 k = s k" if "k \<notin> set d" for k using s1 that unfolding release_step_def by blast
  have nd: "k \<notin> set d" if "k \<in> set c" for k using disj that by blast
  have "k \<notin> set c" if "k \<in> set d" for k using disj that by blast
  from old[OF this] have "content s2 k = content s1 k \<and> s2 k = s1 k" if "k \<in> set d" for k
    using that by (simp add: content_def)
  moreover from first[OF nd] have "content s1 k = content s k \<and> s1 k = s k" if "k \<in> set c" for k
    using that by (simp add: content_def)
  ultimately show ?thesis using s1 s2 old first g nd unfolding release_step_def by (auto split: if_splits)
qed

lemma deleteKVBatch_quiet:
  assumes q: "kv_quiet kv txn store" and dist: "distinct keys"
  shows "\<exists>w'. deleteKVBatch kv txn keys w = ((None, set keys), w') \<and>
    release_step keys (\<lambda>k. store w k = None) (store w) (store w')"
proof -
  have "\<exists>released w'. deleteKVBatch_loop kv txn keys {} w = ((None, released), w') \<and>
      released = set keys \<and> release_step keys (\<lambda>k. store w k = None) (store w) (store w')"
  proof (rule release_batch.loop_succeeds[where R = "\<lambda>d released w'. released = set d \<and>
        release_step d (\<lambda>k. store w k = None) (store w) (store w')"])
    show "{} = set [] \<and> release_step [] (\<lambda>k. store w k = None) (store w) (store w)"
      by (simp add: release_step_def)
    fix d c released w1
    assume R: "released = set d \<and> release_step d (\<lambda>k. store w k = None) (store w) (store w1)"
      and len: "length c \<le> txnBatchSize" and "\<exists>r. keys = d @ c @ r"
    then obtain r where r: "keys = d @ c @ r" by blast
    have dc: "distinct c" "set d \<inter> set c = {}" using dist unfolding r by auto
    obtain w2 where w2: "deleteKVChunk kv txn c w1 = (None, w2)"
      and step: "release_step c (\<lambda>k. store w1 k = None) (store w1) (store w2)"
      using deleteKVChunk_quiet[OF q dc(1) len] by blast
    have "store w1 k = store w k" if "k \<in> set c" for k
      using R dc(2) that unfolding release_step_def by blast
    from release_step_append[OF conjunct2[OF R] step dc(2)] this w2 R
    show "\<exists>released1 w2. release_chunk kv txn c released w1 = ((None, released1), w2) \<and>
        released1 = set (d @ c) \<and> release_step (d @ c) (\<lambda>k. store w k = None) (store w) (store w2)"
      by (simp add: release_chunk_def)
  qed
  then show ?thesis by (auto simp: deleteKVBatch_def)
qed

end
