(* ===== verification/KV_Status.thy ===== *)
theory KV_Status
  imports KV_Batch
begin

text \<open>
  The entry statuses of a ConsulKV resource and the operations that apply and release its entries
  (\<^verbatim>\<open>controllers/consulkv_controller.go\<close>, lines 185-235, 313-367 and 440-503). Owned keys are only
  remembered in the statuses, so the lemmas are about what the statuses say compared with what was
  written, for any outcome of the Consul calls.
\<close>

subsection \<open>Applying the entries\<close>

definition statusSkippedDuplicate :: string where
  "statusSkippedDuplicate = ''skipped (duplicate key)''"

definition lastIndex :: "ConsulKVEntry list \<Rightarrow> string \<Rightarrow> nat option" where
  "lastIndex entries = fold (\<lambda>(i, e) m. m(entry_Key e \<mapsto> i)) (enumerate 0 entries) Map.empty"

definition valid_entries :: "ConsulKVEntry list \<Rightarrow> ConsulKVEntry list" where
  "valid_entries entries =
     map snd (filter (\<lambda>(i, e). entry_Key e \<noteq> [] \<and> lastIndex entries (entry_Key e) = Some i) (enumerate 0 entries))"

definition entry_status ::
  "ConsulKVEntry list \<Rightarrow> (string \<Rightarrow> bool) \<Rightarrow> goerror option \<Rightarrow> (string \<rightharpoonup> bool) \<Rightarrow> nat \<Rightarrow> ConsulKVEntry \<Rightarrow>
   ConsulKVEntryStatus"
where
  "entry_status entries ownedKeys err owned i e =
     (if entry_Key e = [] then \<lparr>st_Key = [], st_Status = ''error: key must not be empty'', st_Owned = False\<rparr>
      else if lastIndex entries (entry_Key e) \<noteq> Some i
      then \<lparr>st_Key = entry_Key e, st_Status = statusSkippedDuplicate, st_Owned = False\<rparr>
      else case owned (entry_Key e) of
             None \<Rightarrow>
               (let reason = (case err of None \<Rightarrow> ''not written'' | Some x \<Rightarrow> Error x)
                in \<lparr>st_Key = entry_Key e, st_Status = ''error: '' @ reason, st_Owned = ownedKeys (entry_Key e)\<rparr>)
           | Some isOwned \<Rightarrow>
               \<lparr>st_Key = entry_Key e,
                st_Status = (if isOwned then ''synced'' else ''synced (not owned: pre-existing key)''),
                st_Owned = isOwned\<rparr>)"

definition applyKVEntries ::
  "'w consulKVClient \<Rightarrow> 'w consulTxnClient \<Rightarrow> ConsulKVEntry list \<Rightarrow> (string \<Rightarrow> bool) \<Rightarrow> 'w \<Rightarrow>
   (ConsulKVEntryStatus list \<times> goerror option) \<times> 'w"
where
  "applyKVEntries kv txn entries ownedKeys w =
     (case writeKVBatchWithOwnership kv txn ownedKeys (valid_entries entries) w of
        ((err, owned), w') \<Rightarrow>
          ((map (\<lambda>(i, e). entry_status entries ownedKeys err owned i e) (enumerate 0 entries), err), w'))"

subsection \<open>Merging statuses\<close>

definition updatedByKey :: "ConsulKVEntryStatus list \<Rightarrow> string \<Rightarrow> ConsulKVEntryStatus list" where
  "updatedByKey updated k = filter (\<lambda>e. st_Key e = k) updated"

fun merge_existing ::
  "ConsulKVEntryStatus list \<Rightarrow> string set \<Rightarrow> ConsulKVEntryStatus list \<Rightarrow> string set \<Rightarrow>
   ConsulKVEntryStatus list \<times> string set"
where
  "merge_existing updated cleanedKeys [] seen = ([], seen)"
| "merge_existing updated cleanedKeys (e # es) seen =
     (if st_Key e \<in> seen then merge_existing updated cleanedKeys es seen
      else let (result, seen') = merge_existing updated cleanedKeys es (insert (st_Key e) seen);
               entries = updatedByKey updated (st_Key e)
           in (if entries \<noteq> [] then entries @ result
               else \<lparr>st_Key = st_Key e, st_Status = ''removed'',
                     st_Owned = st_Owned e \<and> st_Key e \<notin> cleanedKeys\<rparr> # result, seen'))"

fun merge_updated ::
  "ConsulKVEntryStatus list \<Rightarrow> ConsulKVEntryStatus list \<Rightarrow> string set \<Rightarrow> ConsulKVEntryStatus list"
where
  "merge_updated updated [] seen = []"
| "merge_updated updated (e # es) seen =
     (if st_Key e \<in> seen then merge_updated updated es seen
      else updatedByKey updated (st_Key e) @ merge_updated updated es (insert (st_Key e) seen))"

definition mergeKVStatuses ::
  "ConsulKVEntryStatus list \<Rightarrow> ConsulKVEntryStatus list \<Rightarrow> string set \<Rightarrow> ConsulKVEntryStatus list"
where
  "mergeKVStatuses existing updated cleanedKeys =
     (let (result, seen) = merge_existing updated cleanedKeys existing {}
      in result @ merge_updated updated updated seen)"

subsection \<open>Releasing the entries\<close>

fun ownedStatusKeys_from :: "ConsulKVEntryStatus list \<Rightarrow> string set \<Rightarrow> string list" where
  "ownedStatusKeys_from [] seen = []"
| "ownedStatusKeys_from (e # es) seen =
     (if st_Key e \<noteq> [] \<and> st_Owned e \<and> st_Key e \<notin> seen
      then st_Key e # ownedStatusKeys_from es (insert (st_Key e) seen)
      else ownedStatusKeys_from es seen)"

definition ownedStatusKeys :: "ConsulKVEntryStatus list \<Rightarrow> string list" where
  "ownedStatusKeys statuses = ownedStatusKeys_from statuses {}"

definition deleteKVEntries ::
  "'w consulKVClient \<Rightarrow> 'w consulTxnClient \<Rightarrow> ConsulKVEntryStatus list \<Rightarrow> 'w \<Rightarrow>
   (goerror option \<times> string set) \<times> 'w"
where
  "deleteKVEntries kv txn statuses w = deleteKVBatch kv txn (ownedStatusKeys statuses) w"

definition removedEntries ::
  "ConsulKVEntryStatus list \<Rightarrow> ConsulKVEntry list \<Rightarrow> ConsulKVEntryStatus list"
where
  "removedEntries existing specEntries =
     filter (\<lambda>e. st_Key e \<notin> entry_Key ` set specEntries) existing"

definition deleteRemovedEntries ::
  "'w consulKVClient \<Rightarrow> 'w consulTxnClient \<Rightarrow> ConsulKVEntryStatus list \<Rightarrow> ConsulKVEntry list \<Rightarrow> 'w \<Rightarrow>
   (goerror option \<times> string set) \<times> 'w"
where
  "deleteRemovedEntries kv txn existing specEntries w =
     deleteKVBatch kv txn (ownedStatusKeys (removedEntries existing specEntries)) w"

definition markReleased :: "ConsulKVEntryStatus list \<Rightarrow> string set \<Rightarrow> ConsulKVEntryStatus list" where
  "markReleased statuses released =
     map (\<lambda>e. if st_Key e \<in> released then e\<lparr>st_Owned := False, st_Status := ''released''\<rparr> else e) statuses"

text \<open>The purge: the first error is kept and the loop goes on.\<close>

definition keepFirst :: "goerror option \<Rightarrow> goerror \<Rightarrow> goerror option" where
  "keepFirst firstErr err = (case firstErr of None \<Rightarrow> Some err | Some _ \<Rightarrow> firstErr)"

definition purge_prefix ::
  "'w consulKVClient \<Rightarrow> string \<Rightarrow> goerror option \<Rightarrow> 'w \<Rightarrow> goerror option \<times> 'w"
where
  "purge_prefix kv treePrefix firstErr w =
     (case kv_DeleteTree kv treePrefix w of
        (Inl err, w1) \<Rightarrow> (keepFirst firstErr err, w1)
      | (Inr _, w1) \<Rightarrow> (firstErr, w1))"

fun deleteKVTree_loop ::
  "'w consulKVClient \<Rightarrow> ConsulKVEntryStatus list \<Rightarrow> string set \<Rightarrow> goerror option \<Rightarrow> 'w \<Rightarrow> goerror option \<times> 'w"
where
  "deleteKVTree_loop kv [] seen firstErr w = (firstErr, w)"
| "deleteKVTree_loop kv (e # es) seen firstErr w =
     (if st_Key e = [] \<or> st_Key e \<in> seen then deleteKVTree_loop kv es seen firstErr w
      else let seen' = insert (st_Key e) seen
           in if strings_HasSuffix (st_Key e) ''/''
              then case purge_prefix kv (st_Key e) firstErr w of
                     (firstErr', w1) \<Rightarrow> deleteKVTree_loop kv es seen' firstErr' w1
              else case kv_Delete kv (st_Key e) w of
                     (Inl err, w1) \<Rightarrow> deleteKVTree_loop kv es seen' (keepFirst firstErr err) w1
                   | (Inr _, w1) \<Rightarrow>
                       (case purge_prefix kv (st_Key e @ ''/'') firstErr w1 of
                          (firstErr', w2) \<Rightarrow> deleteKVTree_loop kv es seen' firstErr' w2))"

definition deleteKVTree :: "'w consulKVClient \<Rightarrow> ConsulKVEntryStatus list \<Rightarrow> 'w \<Rightarrow> goerror option \<times> 'w" where
  "deleteKVTree kv statuses w = deleteKVTree_loop kv statuses {} None w"

subsection \<open>The entries that are written\<close>

lemma lastIndex_snoc:
  "lastIndex (es @ [e]) = (lastIndex es)(entry_Key e \<mapsto> length es)"
  by (simp add: lastIndex_def enumerate_append_eq)

lemma lastIndex_iff:
  "lastIndex es k = Some i \<longleftrightarrow>
     i < length es \<and> entry_Key (es ! i) = k \<and> (\<forall>j. i < j \<longrightarrow> j < length es \<longrightarrow> entry_Key (es ! j) \<noteq> k)"
proof (induction es arbitrary: i rule: rev_induct)
  case Nil
  then show ?case by (simp add: lastIndex_def)
next
  case (snoc e es)
  show ?case
  proof (cases "entry_Key e = k")
    case True
    have "i = length es" if "i < length (es @ [e])"
      and "\<forall>j. i < j \<longrightarrow> j < length (es @ [e]) \<longrightarrow> entry_Key ((es @ [e]) ! j) \<noteq> k"
      using that(1) spec[OF that(2), of "length es"] True by (simp add: less_Suc_eq)
    moreover have "lastIndex (es @ [e]) k = Some i \<longleftrightarrow> i = length es"
      using True by (simp add: lastIndex_snoc eq_commute)
    ultimately show ?thesis using True by auto
  next
    case False
    then show ?thesis using snoc.IH[of i] by (auto simp: lastIndex_snoc nth_append less_Suc_eq)
  qed
qed

lemma lastIndex_None: "lastIndex es k = None \<longleftrightarrow> k \<notin> entry_Key ` set es"
  by (induction es rule: rev_induct) (auto simp: lastIndex_def enumerate_append_eq)

lemma in_valid_entries:
  "e \<in> set (valid_entries es) \<longleftrightarrow>
     (\<exists>i < length es. e = es ! i \<and> entry_Key e \<noteq> [] \<and> lastIndex es (entry_Key e) = Some i)"
proof -
  have pair: "(i, e) \<in> set (enumerate 0 es) \<longleftrightarrow> i < length es \<and> e = es ! i" for i
    by (auto simp: in_set_enumerate_eq)
  have "e \<in> set (valid_entries es) \<longleftrightarrow>
      (\<exists>i. (i, e) \<in> set (enumerate 0 es) \<and> entry_Key e \<noteq> [] \<and> lastIndex es (entry_Key e) = Some i)"
    by (force simp: valid_entries_def)
  then show ?thesis unfolding pair by blast
qed

lemma valid_entries_nonempty: "e \<in> set (valid_entries es) \<Longrightarrow> entry_Key e \<noteq> []"
  by (auto simp: in_valid_entries)

lemma valid_entries_subset: "set (valid_entries es) \<subseteq> set es"
  by (auto simp: in_valid_entries)

lemma distinct_valid_entries: "distinct (map entry_Key (valid_entries es))"
proof -
  define v where "v = filter (\<lambda>(i, e). entry_Key e \<noteq> [] \<and> lastIndex es (entry_Key e) = Some i) (enumerate 0 es)"
  have "distinct v" by (simp add: v_def)
  moreover have "inj_on (entry_Key \<circ> snd) (set v)"
  proof (rule inj_onI)
    fix x y
    assume "x \<in> set v" "y \<in> set v" and "(entry_Key \<circ> snd) x = (entry_Key \<circ> snd) y"
    then have "Some (fst x) = Some (fst y)" by (simp add: v_def split_beta)
    with \<open>x \<in> set v\<close> \<open>y \<in> set v\<close> show "x = y" by (auto simp: v_def in_set_enumerate_eq)
  qed
  ultimately have "distinct (map (entry_Key \<circ> snd) v)" by (simp add: distinct_map)
  then show ?thesis by (simp add: valid_entries_def v_def)
qed

lemma valid_entries_key:
  assumes "k \<in> entry_Key ` set es" and "k \<noteq> []"
  obtains i where "lastIndex es k = Some i" "i < length es" "entry_Key (es ! i) = k" "es ! i \<in> set (valid_entries es)"
proof -
  obtain i where i: "lastIndex es k = Some i" using assms(1) lastIndex_None[of es k] by blast
  then have "i < length es" "entry_Key (es ! i) = k" by (auto simp: lastIndex_iff)
  with i assms(2) that show thesis by (auto simp: in_valid_entries)
qed

text \<open>The keys that the statuses record as owned, as the reconcile reads them.\<close>

definition statusOwnedKeys :: "ConsulKVEntryStatus list \<Rightarrow> string \<Rightarrow> bool" where
  "statusOwnedKeys statuses k \<longleftrightarrow> (\<exists>e \<in> set statuses. st_Owned e \<and> st_Key e = k)"

lemma entry_status_Key [simp]: "st_Key (entry_status es ok err owned i e) = entry_Key e"
  by (auto simp: entry_status_def Let_def split: option.splits)

lemma entry_status_Owned:
  "st_Owned (entry_status es ok err owned i e) \<longleftrightarrow>
     entry_Key e \<noteq> [] \<and> lastIndex es (entry_Key e) = Some i \<and>
     (case owned (entry_Key e) of None \<Rightarrow> ok (entry_Key e) | Some b \<Rightarrow> b)"
  by (auto simp: entry_status_def Let_def split: option.splits)

lemma applyKVEntries_result:
  assumes "applyKVEntries kv txn es ok w = ((sts, err), w')"
  obtains owned where "writeKVBatchWithOwnership kv txn ok (valid_entries es) w = ((err, owned), w')"
    and "length sts = length es"
    and "\<And>i. i < length es \<Longrightarrow> sts ! i = entry_status es ok err owned i (es ! i)"
proof -
  obtain err1 owned w1 where b: "writeKVBatchWithOwnership kv txn ok (valid_entries es) w = ((err1, owned), w1)"
    by (metis prod.collapse)
  with assms have "err1 = err" "w1 = w'"
      and sts: "sts = map (\<lambda>(i, e). entry_status es ok err owned i e) (enumerate 0 es)"
    by (auto simp: applyKVEntries_def)
  with that[of owned] b show thesis by (simp add: nth_enumerate_eq)
qed

lemma applyKVEntries_keys:
  assumes "applyKVEntries kv txn es ok w = ((sts, err), w')"
  shows "map st_Key sts = map entry_Key es"
  by (rule applyKVEntries_result[OF assms]) (auto intro!: nth_equalityI)

lemma statusOwnedKeys_apply:
  assumes run: "applyKVEntries kv txn es ok w = ((sts, err), w')"
    and batch: "writeKVBatchWithOwnership kv txn ok (valid_entries es) w = ((err, owned), w')"
  shows "statusOwnedKeys sts k \<longleftrightarrow> k \<noteq> [] \<and> k \<in> entry_Key ` set es \<and>
    (case owned k of None \<Rightarrow> ok k | Some b \<Rightarrow> b)"
proof (rule applyKVEntries_result[OF run])
  fix owned'
  assume b: "writeKVBatchWithOwnership kv txn ok (valid_entries es) w = ((err, owned'), w')"
    and len: "length sts = length es"
    and st: "\<And>i. i < length es \<Longrightarrow> sts ! i = entry_status es ok err owned' i (es ! i)"
  have ow: "owned' = owned" using b batch by simp
  have "statusOwnedKeys sts k \<longleftrightarrow> (\<exists>i < length es. st_Owned (sts ! i) \<and> st_Key (sts ! i) = k)"
    unfolding statusOwnedKeys_def using len by (metis in_set_conv_nth)
  also have "\<dots> \<longleftrightarrow> (\<exists>i < length es. entry_Key (es ! i) = k \<and> k \<noteq> [] \<and> lastIndex es k = Some i \<and>
      (case owned k of None \<Rightarrow> ok k | Some b \<Rightarrow> b))"
  proof -
    have "st_Owned (sts ! i) \<and> st_Key (sts ! i) = k \<longleftrightarrow> entry_Key (es ! i) = k \<and> k \<noteq> [] \<and>
        lastIndex es k = Some i \<and> (case owned k of None \<Rightarrow> ok k | Some b \<Rightarrow> b)" if "i < length es" for i
      unfolding st[OF that] by (auto simp: entry_status_Owned ow)
    then show ?thesis by blast
  qed
  also have "\<dots> \<longleftrightarrow> k \<noteq> [] \<and> (\<exists>i. lastIndex es k = Some i) \<and> (case owned k of None \<Rightarrow> ok k | Some b \<Rightarrow> b)"
    using lastIndex_iff[of es k] by auto
  also have "(\<exists>i. lastIndex es k = Some i) \<longleftrightarrow> k \<in> entry_Key ` set es"
    using lastIndex_None[of es k] by (metis not_None_eq)
  finally show ?thesis .
qed

subsection \<open>No claim is lost, whatever Consul answers\<close>

text \<open>
  These lemmas assume nothing about the client: calls may fail or answer anything.
\<close>

definition claims_kept ::
  "(string \<Rightarrow> bool) \<Rightarrow> string set \<Rightarrow> (string \<rightharpoonup> bool) \<Rightarrow> bool"
where
  "claims_kept ok ks owned \<longleftrightarrow> dom owned = ks \<and> (\<forall>k. ok k \<longrightarrow> owned k \<noteq> Some False)"

lemma writeKVChunk_ops_claims:
  "writeKVChunk_ops kv ok es w = (Inr ops, w') \<Longrightarrow> list_all2 (\<lambda>e p. ok (entry_Key e) \<longrightarrow> snd p) es ops"
proof (induction es arbitrary: w ops)
  case Nil
  then show ?case by simp
next
  case (Cons e es)
  then show ?case
    by (auto simp: newFlags_willOwn_def Let_def split: prod.splits sum.splits)
qed

lemma record_owned_claims:
  "list_all2 (\<lambda>e p. ok (entry_Key e) \<longrightarrow> snd p) es ops \<Longrightarrow> claims_kept ok ks owned \<Longrightarrow>
     claims_kept ok (ks \<union> entry_Key ` set es) (record_owned es ops owned)"
proof (induction es ops arbitrary: owned ks rule: list_all2_induct)
  case Nil
  then show ?case by (simp add: record_owned_def)
next
  case (Cons e es p ops)
  have "claims_kept ok (insert (entry_Key e) ks) (owned(entry_Key e \<mapsto> snd p))"
    using Cons.prems Cons.hyps(1) by (auto simp: claims_kept_def)
  from Cons.IH[OF this] show ?case by (simp add: record_owned_def del: fun_upd_apply)
qed

lemma writeKVChunk_loop_claims:
  "claims_kept ok ks owned \<Longrightarrow> writeKVChunk_loop n kv txn ok es owned w = ((res, owned'), w') \<Longrightarrow>
     claims_kept ok (if res = None then ks \<union> entry_Key ` set es else ks) owned'"
proof (induction n arbitrary: w)
  case 0
  then show ?case by auto
next
  case (Suc n)
  then show ?case
    by (auto split: prod.splits sum.splits if_splits dest!: writeKVChunk_ops_claims intro: record_owned_claims)
qed

lemma writeKVBatch_claims:
  assumes "writeKVBatchWithOwnership kv txn ok es w = ((res, owned), w')"
  shows "\<exists>d rest. es = d @ rest \<and> (res = None \<longrightarrow> rest = []) \<and> claims_kept ok (entry_Key ` set d) owned"
proof -
  have R: "claims_kept ok (entry_Key ` set (if res = None then d @ c else d)) acc1"
    if "claims_kept ok (entry_Key ` set d) acc" "writeKVChunk kv txn ok c acc w = ((res, acc1), w1)" for d c acc w res acc1 w1
    using writeKVChunk_loop_claims[OF that(1) that(2)[unfolded writeKVChunk_def]]
    by (cases res) (simp_all add: image_Un)
  note ok = R[where res = None, simplified]
  note err = R[where res = "Some e" for e, simplified]
  have start: "claims_kept ok (entry_Key ` set []) Map.empty" by (simp add: claims_kept_def)
  have "case res of None \<Rightarrow> claims_kept ok (entry_Key ` set es) owned
    | Some e \<Rightarrow> \<exists>d rest. es = d @ rest \<and> claims_kept ok (entry_Key ` set d) owned"
    by (rule write_batch.loop_rule[where R = "\<lambda>d owned w. claims_kept ok (entry_Key ` set d) owned",
          OF _ _ start assms[unfolded writeKVBatchWithOwnership_def]])
      (simp add: ok, erule err, assumption)
  then show ?thesis by (cases res) auto
qed

subsection \<open>The merged statuses\<close>

text \<open>The distinct keys of a status list, in the order of their first occurrence.\<close>

fun first_keys :: "ConsulKVEntryStatus list \<Rightarrow> string set \<Rightarrow> string list" where
  "first_keys [] seen = []"
| "first_keys (e # es) seen =
     (if st_Key e \<in> seen then first_keys es seen else st_Key e # first_keys es (insert (st_Key e) seen))"

text \<open>Whether the first status of a key records it as owned.\<close>

definition first_owned :: "ConsulKVEntryStatus list \<Rightarrow> string \<Rightarrow> bool" where
  "first_owned statuses k = (case find (\<lambda>e. st_Key e = k) statuses of None \<Rightarrow> False | Some e \<Rightarrow> st_Owned e)"

text \<open>The group of statuses of one key after a merge.\<close>

definition merged_group ::
  "ConsulKVEntryStatus list \<Rightarrow> ConsulKVEntryStatus list \<Rightarrow> string set \<Rightarrow> string \<Rightarrow> ConsulKVEntryStatus list"
where
  "merged_group existing updated cleanedKeys k =
     (if k \<in> st_Key ` set updated then updatedByKey updated k
      else [\<lparr>st_Key = k, st_Status = ''removed'', st_Owned = first_owned existing k \<and> k \<notin> cleanedKeys\<rparr>])"

lemma updatedByKey_nonempty: "updatedByKey updated k \<noteq> [] \<longleftrightarrow> k \<in> st_Key ` set updated"
  by (auto simp: updatedByKey_def filter_empty_conv)

lemma set_first_keys: "set (first_keys es seen) = st_Key ` set es - seen"
  by (induction es arbitrary: seen) auto

lemma distinct_first_keys: "distinct (first_keys es seen)"
  by (induction es arbitrary: seen) (auto simp: set_first_keys)

lemma merge_existing_groups:
  "(\<And>k. k \<in> st_Key ` set es - seen \<Longrightarrow> first_owned existing k = first_owned es k) \<Longrightarrow>
   merge_existing updated cleaned es seen =
     (concat (map (merged_group existing updated cleaned) (first_keys es seen)), seen \<union> st_Key ` set es)"
proof (induction es arbitrary: seen)
  case Nil
  then show ?case by simp
next
  case (Cons e es)
  have rest: "first_owned existing k = first_owned es k" if "k \<in> st_Key ` set es - insert (st_Key e) seen" for k
    using Cons.prems[of k] that by (auto simp: first_owned_def)
  show ?case
  proof (cases "st_Key e \<in> seen")
    case True
    with Cons.IH[of seen] rest show ?thesis by (simp add: insert_absorb)
  next
    case False
    then have "first_owned existing (st_Key e) = st_Owned e"
      using Cons.prems[of "st_Key e"] by (simp add: first_owned_def)
    with False Cons.IH[of "insert (st_Key e) seen"] rest show ?thesis
      by (simp add: merged_group_def updatedByKey_nonempty[symmetric] Let_def)
  qed
qed

lemma merge_updated_groups:
  "set es \<subseteq> set updated \<Longrightarrow>
   merge_updated updated es seen = concat (map (merged_group existing updated cleaned) (first_keys es seen))"
  by (induction es arbitrary: seen) (auto simp: merged_group_def)

lemma mergeKVStatuses_eq:
  "mergeKVStatuses existing updated cleaned =
     concat (map (merged_group existing updated cleaned)
       (first_keys existing {} @ first_keys updated (st_Key ` set existing)))"
  by (simp add: mergeKVStatuses_def merge_existing_groups[of existing "{}" existing]
      merge_updated_groups[of updated updated _ existing cleaned])

lemma set_mergeKVStatuses:
  "set (mergeKVStatuses existing updated cleaned) =
     (\<Union>k \<in> st_Key ` set existing \<union> st_Key ` set updated. set (merged_group existing updated cleaned k))"
  by (auto simp: mergeKVStatuses_eq set_first_keys)

lemma merged_group_Key: "e \<in> set (merged_group existing updated cleaned k) \<Longrightarrow> st_Key e = k"
  by (auto simp: merged_group_def updatedByKey_def split: if_splits)

lemma statusOwnedKeys_merge:
  "statusOwnedKeys (mergeKVStatuses existing updated cleaned) k \<longleftrightarrow>
     (if k \<in> st_Key ` set updated then statusOwnedKeys updated k
      else first_owned existing k \<and> k \<notin> cleaned)"
proof -
  have "statusOwnedKeys (mergeKVStatuses existing updated cleaned) k \<longleftrightarrow>
      k \<in> st_Key ` set existing \<union> st_Key ` set updated \<and>
      (\<exists>e \<in> set (merged_group existing updated cleaned k). st_Owned e)"
  proof -
    have "e \<in> set (mergeKVStatuses existing updated cleaned) \<and> st_Key e = k \<longleftrightarrow>
        k \<in> st_Key ` set existing \<union> st_Key ` set updated \<and> e \<in> set (merged_group existing updated cleaned k)" for e
      unfolding set_mergeKVStatuses UN_iff
      by (rule iffI) (metis (no_types) merged_group_Key, metis (no_types) merged_group_Key)
    then show ?thesis unfolding statusOwnedKeys_def by blast
  qed
  moreover have "first_owned existing k \<Longrightarrow> k \<in> st_Key ` set existing"
    by (auto simp: first_owned_def find_Some_iff image_iff split: option.splits)
  ultimately show ?thesis
    by (auto simp: merged_group_def updatedByKey_def statusOwnedKeys_def)
qed

text \<open>
  A status list in which a key has one status, or its first status carries the claim, loses no claim
  when the key is removed from the spec.
\<close>

lemma first_owned_distinct:
  "distinct (map st_Key statuses) \<Longrightarrow> first_owned statuses k = statusOwnedKeys statuses k"
proof (induction statuses)
  case Nil
  then show ?case by (simp add: first_owned_def statusOwnedKeys_def)
next
  case (Cons e es)
  show ?case
  proof (cases "st_Key e = k")
    case True
    with Cons.prems have "st_Key x \<noteq> k" if "x \<in> set es" for x
      using that by (metis distinct.simps(2) image_eqI list.simps(9) set_map)
    with True show ?thesis by (auto simp: first_owned_def statusOwnedKeys_def)
  next
    case False
    with Cons show ?thesis by (simp add: first_owned_def statusOwnedKeys_def)
  qed
qed

subsection \<open>The keys that are released\<close>

lemma ownedStatusKeys_from_spec:
  "distinct (ownedStatusKeys_from es seen) \<and>
   set (ownedStatusKeys_from es seen) = {k. k \<noteq> [] \<and> k \<notin> seen \<and> statusOwnedKeys es k}"
  by (induction es arbitrary: seen) (auto simp: statusOwnedKeys_def)

lemma distinct_ownedStatusKeys: "distinct (ownedStatusKeys es)"
  and set_ownedStatusKeys: "set (ownedStatusKeys es) = {k. k \<noteq> [] \<and> statusOwnedKeys es k}"
  using ownedStatusKeys_from_spec[of es "{}"] by (simp_all add: ownedStatusKeys_def)

lemma statusOwnedKeys_removed:
  "statusOwnedKeys (removedEntries existing es) k \<longleftrightarrow> statusOwnedKeys existing k \<and> k \<notin> entry_Key ` set es"
  by (auto simp: statusOwnedKeys_def removedEntries_def)

lemma statusOwnedKeys_markReleased:
  "statusOwnedKeys (markReleased sts released) k \<longleftrightarrow> statusOwnedKeys sts k \<and> k \<notin> released"
  by (auto simp: statusOwnedKeys_def markReleased_def split: if_splits)

lemma ownedStatusKeys_from_markReleased:
  "(\<And>k. k \<notin> released \<Longrightarrow> k \<in> seen1 \<longleftrightarrow> k \<in> seen2) \<Longrightarrow>
   ownedStatusKeys_from (markReleased sts released) seen1 =
     filter (\<lambda>k. k \<notin> released) (ownedStatusKeys_from sts seen2)"
proof (induction sts arbitrary: seen1 seen2)
  case Nil
  then show ?case by (simp add: markReleased_def)
next
  case (Cons e es)
  show ?case
  proof (cases "st_Key e \<in> released")
    case True
    then have "ownedStatusKeys_from (markReleased (e # es) released) seen1 =
        ownedStatusKeys_from (markReleased es released) seen1" by (simp add: markReleased_def)
    with True Cons.IH[of seen1 seen2] Cons.IH[of seen1 "insert (st_Key e) seen2"] Cons.prems
    show ?thesis by auto
  next
    case False
    with Cons.IH[of seen1 seen2] Cons.IH[of "insert (st_Key e) seen1" "insert (st_Key e) seen2"]
      Cons.prems
    show ?thesis by (auto simp: markReleased_def)
  qed
qed

lemma ownedStatusKeys_markReleased:
  "ownedStatusKeys (markReleased sts released) = filter (\<lambda>k. k \<notin> released) (ownedStatusKeys sts)"
  unfolding ownedStatusKeys_def by (rule ownedStatusKeys_from_markReleased) simp

subsection \<open>The purge\<close>

text \<open>
  What the purge relies on: a delete that succeeds removes the key, a tree delete that succeeds removes
  every key with the prefix, and neither touches anything else. A call that fails may or may not have
  been carried out.
\<close>

definition tree_service :: "'w consulKVClient \<Rightarrow> ('w \<Rightarrow> store) \<Rightarrow> bool" where
  "tree_service kv store \<longleftrightarrow>
     (\<forall>k w r w'. kv_Delete kv k w = (r, w') \<longrightarrow>
        (\<forall>x. store w' x = store w x \<or> x = k \<and> store w' x = None) \<and> (r = Inr () \<longrightarrow> store w' k = None)) \<and>
     (\<forall>p w r w'. kv_DeleteTree kv p w = (r, w') \<longrightarrow>
        (\<forall>x. store w' x = store w x \<or> prefix p x \<and> store w' x = None) \<and>
        (r = Inr () \<longrightarrow> (\<forall>x. prefix p x \<longrightarrow> store w' x = None)))"

text \<open>The keys a purge of a declared key may remove.\<close>

definition purge_covers :: "string \<Rightarrow> string \<Rightarrow> bool" where
  "purge_covers k x \<longleftrightarrow>
     (if strings_HasSuffix k ''/'' then prefix k x else x = k \<or> prefix (k @ ''/'') x)"

lemma tree_service_Delete:
  assumes "tree_service kv store" and "kv_Delete kv k w = (r, w')"
  shows "store w' x = store w x \<or> x = k \<and> store w' x = None" and "r = Inr () \<Longrightarrow> store w' k = None"
  using assms unfolding tree_service_def by blast+

lemma purge_prefix_spec:
  assumes "tree_service kv store" and "purge_prefix kv p firstErr w = (err, w')"
  shows "store w' x = store w x \<or> prefix p x \<and> store w' x = None"
    and "err = None \<Longrightarrow> firstErr = None \<and> (prefix p x \<longrightarrow> store w' x = None)"
proof -
  obtain r w1 where t: "kv_DeleteTree kv p w = (r, w1)" by fastforce
  with assms(2) have w1: "w1 = w'"
    and err: "err = (case r of Inl e \<Rightarrow> keepFirst firstErr e | Inr _ \<Rightarrow> firstErr)"
    by (auto simp: purge_prefix_def split: sum.splits)
  show "store w' x = store w x \<or> prefix p x \<and> store w' x = None"
    using assms(1) t w1 unfolding tree_service_def by blast
  assume "err = None"
  with err have "r = Inr ()" "firstErr = None" by (auto simp: keepFirst_def split: sum.splits option.splits)
  then show "firstErr = None \<and> (prefix p x \<longrightarrow> store w' x = None)"
    using assms(1) t w1 unfolding tree_service_def by blast
qed

text \<open>One declared key: only keys it covers change, they only go away, and without an error all of them do.\<close>

definition purge_step ::
  "('w \<Rightarrow> store) \<Rightarrow> string set \<Rightarrow> goerror option \<Rightarrow> 'w \<Rightarrow> goerror option \<Rightarrow> 'w \<Rightarrow> bool"
where
  "purge_step store ks err w err' w' \<longleftrightarrow>
     (\<forall>x. store w' x = store w x \<or> (\<exists>k \<in> ks. purge_covers k x) \<and> store w' x = None) \<and>
     (err' = None \<longrightarrow> err = None \<and> (\<forall>k \<in> ks. \<forall>x. purge_covers k x \<longrightarrow> store w' x = None))"

lemma purge_step_trans:
  assumes a: "purge_step store ks1 e1 w1 e2 w2" and b: "purge_step store ks2 e2 w2 e3 w3"
  shows "purge_step store (ks1 \<union> ks2) e1 w1 e3 w3"
proof -
  have "store w3 x = store w1 x \<or> (\<exists>k \<in> ks1 \<union> ks2. purge_covers k x) \<and> store w3 x = None" for x
    using a b unfolding purge_step_def by (metis UnCI)
  moreover have "e3 = None \<Longrightarrow> e1 = None \<and> (\<forall>k \<in> ks1 \<union> ks2. \<forall>x. purge_covers k x \<longrightarrow> store w3 x = None)"
    using a b unfolding purge_step_def by (metis UnE)
  ultimately show ?thesis unfolding purge_step_def by blast
qed

lemma purge_step_slash:
  assumes "tree_service kv store" and "strings_HasSuffix k ''/''" and "purge_prefix kv k err w = (err', w')"
  shows "purge_step store {k} err w err' w'"
  using purge_prefix_spec[OF assms(1,3)] assms(2) by (auto simp: purge_step_def purge_covers_def)

lemma purge_step_plain:
  assumes svc: "tree_service kv store" and k: "\<not> strings_HasSuffix k ''/''"
    and del: "kv_Delete kv k w = (Inr (), w1)" and pre: "purge_prefix kv (k @ ''/'') err w1 = (err', w')"
  shows "purge_step store {k} err w err' w'"
proof -
  have "store w' x = store w x \<or> (x = k \<or> prefix (k @ ''/'') x) \<and> store w' x = None" for x
    using tree_service_Delete(1)[OF svc del, of x] purge_prefix_spec(1)[OF svc pre, of x] by auto
  moreover have "store w' k = None"
    using tree_service_Delete(2)[OF svc del] purge_prefix_spec(1)[OF svc pre, of k] by auto
  ultimately show ?thesis
    using purge_prefix_spec(2)[OF svc pre] k by (auto simp: purge_step_def purge_covers_def)
qed

lemma purge_step_fail:
  assumes "tree_service kv store" and "\<not> strings_HasSuffix k ''/''" and "kv_Delete kv k w = (Inl e, w')"
  shows "purge_step store {k} err w (keepFirst err e) w'"
  using tree_service_Delete(1)[OF assms(1,3)] assms(2)
  by (auto simp: purge_step_def purge_covers_def keepFirst_def split: option.splits)

lemma deleteKVTree_loop_spec:
  assumes svc: "tree_service kv store"
  shows "deleteKVTree_loop kv sts seen err w = (err', w') \<Longrightarrow>
    purge_step store (st_Key ` set sts - seen - {[]}) err w err' w'"
proof (induction sts arbitrary: seen err w)
  case Nil
  then show ?case by (simp add: purge_step_def)
next
  case (Cons e es)
  show ?case
  proof (cases "st_Key e = [] \<or> st_Key e \<in> seen")
    case True
    then have "st_Key ` set (e # es) - seen - {[]} = st_Key ` set es - seen - {[]}" by auto
    with Cons True show ?thesis by simp
  next
    case False
    then have ks: "st_Key ` set (e # es) - seen - {[]} =
        {st_Key e} \<union> (st_Key ` set es - insert (st_Key e) seen - {[]})" by auto
    show ?thesis
    proof (cases "strings_HasSuffix (st_Key e) ''/''")
      case True
      obtain err1 w1 where p: "purge_prefix kv (st_Key e) err w = (err1, w1)" by fastforce
      with Cons.prems False True have "deleteKVTree_loop kv es (insert (st_Key e) seen) err1 w1 = (err', w')"
        by simp
      from purge_step_trans[OF purge_step_slash[OF svc True p] Cons.IH[OF this]] show ?thesis unfolding ks .
    next
      case nosl: False
      obtain r w1 where d: "kv_Delete kv (st_Key e) w = (r, w1)" by fastforce
      show ?thesis
      proof (cases r)
        case (Inl x)
        with Cons.prems False nosl d
        have "deleteKVTree_loop kv es (insert (st_Key e) seen) (keepFirst err x) w1 = (err', w')" by simp
        from purge_step_trans[OF purge_step_fail[OF svc nosl d[unfolded Inl]] Cons.IH[OF this]]
        show ?thesis unfolding ks .
      next
        case (Inr u)
        then have r: "r = Inr ()" by simp
        obtain err1 w2 where p: "purge_prefix kv (st_Key e @ ''/'') err w1 = (err1, w2)" by fastforce
        with Cons.prems False nosl d r
        have "deleteKVTree_loop kv es (insert (st_Key e) seen) err1 w2 = (err', w')" by simp
        from purge_step_trans[OF purge_step_plain[OF svc nosl d[unfolded r] p] Cons.IH[OF this]]
        show ?thesis unfolding ks .
      qed
    qed
  qed
qed

end
