(* ===== verification/KV_Release.thy ===== *)
theory KV_Release
  imports KV_Status
begin

text \<open>
  What a release sends to Consul (\<^verbatim>\<open>controllers/consulkv_controller.go\<close>, lines 369-438), on a Consul that other clients use at the
  same time. \<open>logged_kv\<close> and \<open>logged_txn\<close> turn any clients into ones that also keep the list of the writes with their answers.
  The lemmas follow the operations that were committed: which keys they change, that none is changed
  twice, and from which state of the key each of them was computed.
\<close>

subsection \<open>The writes that are sent\<close>

datatype kvCall = TxnSent "KVTxnOp list" "bool result" | OtherWrite

definition log_other :: "('w \<Rightarrow> 'a \<times> 'w) \<Rightarrow> 'w \<times> kvCall list \<Rightarrow> 'a \<times> ('w \<times> kvCall list)" where
  "log_other f x = (case f (fst x) of (r, w) \<Rightarrow> (r, (w, snd x @ [OtherWrite])))"

definition logged_kv :: "'w consulKVClient \<Rightarrow> ('w \<times> kvCall list) consulKVClient" where
  "logged_kv kv =
     \<lparr>kv_Get = (\<lambda>k x. case kv_Get kv k (fst x) of (r, w) \<Rightarrow> (r, (w, snd x))),
      kv_Put = (\<lambda>p. log_other (kv_Put kv p)), kv_CAS = (\<lambda>p. log_other (kv_CAS kv p)),
      kv_Delete = (\<lambda>k. log_other (kv_Delete kv k)), kv_DeleteCAS = (\<lambda>p. log_other (kv_DeleteCAS kv p)),
      kv_DeleteTree = (\<lambda>k. log_other (kv_DeleteTree kv k))\<rparr>"

definition logged_txn :: "'w consulTxnClient \<Rightarrow> ('w \<times> kvCall list) consulTxnClient" where
  "logged_txn txn =
     \<lparr>txn_Txn = (\<lambda>ops x. case txn_Txn txn ops (fst x) of (r, w) \<Rightarrow> (r, (w, snd x @ [TxnSent ops r])))\<rparr>"

text \<open>The operations of the committed transactions, in order.\<close>

fun committed :: "kvCall list \<Rightarrow> KVTxnOp list" where
  "committed [] = []"
| "committed (TxnSent ops (Inr True) # cs) = ops @ committed cs"
| "committed (_ # cs) = committed cs"

lemma committed_append [simp]: "committed (xs @ ys) = committed xs @ committed ys"
  by (induction xs rule: committed.induct) simp_all

fun call_failed :: "kvCall \<Rightarrow> bool" where
  "call_failed (TxnSent ops (Inl err)) = True"
| "call_failed _ = False"

text \<open>A transaction on some of the given keys.\<close>

definition txn_on :: "string list \<Rightarrow> kvCall \<Rightarrow> bool" where
  "txn_on keys c \<longleftrightarrow> (\<exists>ops a. c = TxnSent ops a \<and> op_Key ` set ops \<subseteq> set keys)"

lemma txn_on_mono: "list_all (txn_on keys) cs \<Longrightarrow> set keys \<subseteq> set keys' \<Longrightarrow> list_all (txn_on keys') cs"
  by (auto simp: list_all_iff txn_on_def)

text \<open>The logging clients are clients of the same service.\<close>

lemma logged_service:
  assumes "kv_service kv txn store later winv"
  shows "kv_service (logged_kv kv) (logged_txn txn) (\<lambda>x. store (fst x)) (\<lambda>x y. later (fst x) (fst y)) (\<lambda>x. winv (fst x))"
proof -
  have "reflp (\<lambda>x y. later (fst x) (fst y))" "transp (\<lambda>x y. later (fst x) (fst y))"
    using kv_service_order[OF assms] by (auto intro!: reflpI transpI)
  moreover have "get_law (logged_kv kv) (\<lambda>x. store (fst x)) (\<lambda>x y. later (fst x) (fst y)) (\<lambda>x. winv (fst x))"
    using kv_service_Get[OF assms] unfolding get_law_def logged_kv_def by (auto split: prod.splits)
  moreover have "txn_law (logged_txn txn) (\<lambda>x. store (fst x)) (\<lambda>x y. later (fst x) (fst y)) (\<lambda>x. winv (fst x))"
    unfolding txn_law_def
  proof (intro allI impI)
    fix ops x r y
    assume x: "winv (fst x)" and run: "txn_Txn (logged_txn txn) ops x = (r, y)"
    then have t: "txn_Txn txn ops (fst x) = (r, fst y)" by (auto simp: logged_txn_def split: prod.splits)
    have "\<exists>z. winv (fst z) \<and> later (fst x) (fst z) \<and> later (fst z) (fst y) \<and> (\<forall>p \<in> set ops. txn_check (store (fst z)) p) \<and>
        txn_effect ops (store (fst z)) (store (fst y))" if "r = Inr True" "distinct (map op_Key ops)"
      using kv_service_Txn[OF assms x t[unfolded that(1)] that(2)] by (metis fst_conv)
    then show "winv (fst y) \<and> later (fst x) (fst y) \<and> (r = Inr True \<longrightarrow> distinct (map op_Key ops) \<longrightarrow>
        (\<exists>z. winv (fst z) \<and> later (fst x) (fst z) \<and> later (fst z) (fst y) \<and> (\<forall>p \<in> set ops. txn_check (store (fst z)) p) \<and>
          txn_effect ops (store (fst z)) (store (fst y))))"
      using kv_service_Txn_later[OF assms x t] by blast
  qed
  moreover have "version_law (\<lambda>x. store (fst x)) (\<lambda>x y. later (fst x) (fst y)) (\<lambda>x. winv (fst x))"
    using kv_service_index[OF assms] kv_service_version[OF assms] unfolding version_law_def by blast
  ultimately show ?thesis by (simp add: kv_service_def)
qed

lemma logged_ops: "deleteKVChunk_ops (logged_kv kv) keys x = (r, y) \<Longrightarrow> snd y = snd x"
proof (induction keys arbitrary: x r y)
  case (Cons k keys)
  obtain g x1 where g: "kv_Get (logged_kv kv) k x = (g, x1)" by (rule prod.exhaust)
  obtain r' x2 where rec: "deleteKVChunk_ops (logged_kv kv) keys x1 = (r', x2)" by (rule prod.exhaust)
  have "snd x1 = snd x" using g by (auto simp: logged_kv_def split: prod.splits)
  with Cons.IH[OF rec] Cons.prems g rec show ?case by (cases g; cases r') (auto split: option.splits)
qed simp

subsection \<open>The release of one key\<close>

text \<open>
  How a key is released by the committed operations: either exactly one of them is for the key, and it was computed
  from a pair \<open>p\<close> that the key had at an instant of the call and still had when the transaction was applied (or
  the key was gone by then and \<open>p\<close> had no other owner); or none of them is for the key, and the key was absent at an
  instant of the call. \<open>delete_op\<close> takes the counter of a pair down by one, or deletes the key when there is no other owner.
\<close>

definition key_released ::
  "('w \<Rightarrow> store) \<Rightarrow> ('w \<Rightarrow> 'w \<Rightarrow> bool) \<Rightarrow> KVTxnOp list \<Rightarrow> 'w \<Rightarrow> 'w \<Rightarrow> string \<Rightarrow> bool"
where
  "key_released store later ops w w' k \<longleftrightarrow>
     (if k \<in> op_Key ` set ops
      then \<exists>p we wc w2. later w we \<and> later we wc \<and> later wc w2 \<and> later w2 w' \<and> store we k = Some p \<and>
             filter (\<lambda>q. op_Key q = k) ops = [delete_op k p] \<and>
             (store wc k = Some p \<or> pair_Flags p \<le> 1 \<and> store wc k = None) \<and>
             content (store w2) k = release_target (content (store wc) k)
      else \<exists>we. later w we \<and> later we w' \<and> store we k = None)"

lemma key_released_between:
  assumes svc: "kv_service kv txn store later winv" and "later w0 w" and "later w' w1"
    and "key_released store later ops w w' k" and "filter (\<lambda>q. op_Key q = k) ops' = filter (\<lambda>q. op_Key q = k) ops"
  shows "key_released store later ops' w0 w1 k"
proof -
  have "k \<in> op_Key ` set l \<longleftrightarrow> filter (\<lambda>q. op_Key q = k) l \<noteq> []" for l by (auto simp: filter_empty_conv)
  with assms(5) have "k \<in> op_Key ` set ops' \<longleftrightarrow> k \<in> op_Key ` set ops" by metis
  with assms(4,5) show ?thesis
    using kv_service_trans[OF svc assms(2)] kv_service_trans[OF svc _ assms(3)] unfolding key_released_def by (auto split: if_splits; metis)
qed

lemma filter_key_single:
  assumes "distinct (map op_Key ops)" and "p \<in> set ops"
  shows "filter (\<lambda>q. op_Key q = op_Key p) ops = [p]"
  using assms
proof (induction ops)
  case (Cons q ops)
  then show ?case by (cases "p \<in> set ops") (auto simp: filter_empty_conv image_iff)
qed simp

text \<open>A committed transaction releases the keys that its first pass found.\<close>

lemma delete_commit:
  assumes svc: "kv_service kv txn store later winv" and w1: "winv w1" "later w w1"
    and len: "length pairs = length keys" and dist: "distinct keys"
    and reads: "\<forall>(k, q) \<in> set (zip keys pairs). \<exists>we. winv we \<and> later w we \<and> later we w1 \<and> store we k = q"
    and txn: "txn_Txn txn (delete_ops keys pairs) w1 = (Inr True, w2)" and k: "k \<in> set keys"
  shows "key_released store later (delete_ops keys pairs) w w2 k"
proof -
  note ops = delete_ops_keys[OF len dist]
  obtain wc where wc: "winv wc" "later w1 wc" "later wc w2"
      and chk: "\<forall>p \<in> set (delete_ops keys pairs). txn_check (store wc) p"
      and eff: "txn_effect (delete_ops keys pairs) (store wc) (store w2)"
    using kv_service_Txn[OF svc w1(1) txn] ops by metis
  obtain q where kq: "(k, q) \<in> set (zip keys pairs)" using k len by (metis in_set_impl_in_set_zip1)
  from bspec[OF reads kq] obtain we where we: "winv we" "later w we" "later we w1" "store we k = q" by auto
  have lat: "later we wc" "later we w2"
    using kv_service_trans[OF svc we(3)] kv_service_trans[OF svc wc(2,3)] wc by blast+
  show ?thesis
  proof (cases q)
    case None
    have "k \<notin> op_Key ` set (delete_ops keys pairs)"
    proof
      assume "k \<in> op_Key ` set (delete_ops keys pairs)"
      then obtain p where "(k, Some p) \<in> set (zip keys pairs)" unfolding delete_ops_set by auto
      with kq None dist len show False by (auto simp: in_set_zip nth_eq_iff_index_eq)
    qed
    with we lat None show ?thesis by (auto simp: key_released_def)
  next
    case (Some p)
    have mem: "delete_op k p \<in> set (delete_ops keys pairs)" using kq Some unfolding delete_ops_set by auto
    then have "store wc k = Some p \<or> op_Verb (delete_op k p) = KVDeleteCAS \<and> store wc k = None"
      using txn_check_unchanged[OF svc we(1) wc(1) lat(1), of "delete_op k p"] chk we(4) Some by simp
    then have st: "store wc k = Some p \<or> pair_Flags p \<le> 1 \<and> store wc k = None"
      by (auto simp: delete_op_def split: if_splits)
    have "content (store w2) k = (case op_Verb (delete_op k p) of
        KVCAS \<Rightarrow> Some (op_Value (delete_op k p), op_Flags (delete_op k p)) | KVDeleteCAS \<Rightarrow> None)"
      using eff mem unfolding txn_effect_def by (metis delete_op_simps(1))
    then have eff_k: "content (store w2) k = release_target (content (store wc) k)"
      using st by (auto simp: delete_op_def content_def split: if_splits)
    have "filter (\<lambda>q. op_Key q = k) (delete_ops keys pairs) = [delete_op k p]"
      using filter_key_single[OF conjunct1[OF ops] mem] by simp
    moreover have "k \<in> op_Key ` set (delete_ops keys pairs)" using mem by (force simp del: set_concat)
    ultimately show ?thesis
      unfolding key_released_def using we lat(1) wc(3) st eff_k Some kv_service_refl[OF svc, of w2] by auto
  qed
qed

lemma delete_nothing:
  assumes svc: "kv_service kv txn store later winv"
    and len: "length pairs = length keys"
    and reads: "\<forall>(k, q) \<in> set (zip keys pairs). \<exists>we. winv we \<and> later w we \<and> later we w1 \<and> store we k = q"
    and none: "delete_ops keys pairs = []" and k: "k \<in> set keys"
  shows "key_released store later [] w w1 k"
proof -
  obtain q where kq: "(k, q) \<in> set (zip keys pairs)" using k len by (metis in_set_impl_in_set_zip1)
  have "q = None"
  proof (rule ccontr)
    assume "q \<noteq> None"
    with kq obtain p where "(k, Some p) \<in> set (zip keys pairs)" by auto
    then have "delete_op k p \<in> set (delete_ops keys pairs)" unfolding delete_ops_set by auto
    with none show False by simp
  qed
  with bspec[OF reads kq] show ?thesis by (auto simp: key_released_def)
qed

subsection \<open>One batch\<close>

text \<open>
  What one batch sends: only transactions on its keys; when it succeeds its committed operations release every key
  and no call failed, when it fails nothing was committed and at most its last call failed.
\<close>

definition batch_released ::
  "('w \<Rightarrow> store) \<Rightarrow> ('w \<Rightarrow> 'w \<Rightarrow> bool) \<Rightarrow> string list \<Rightarrow> 'w \<Rightarrow> 'w \<Rightarrow> goerror option \<Rightarrow> kvCall list \<Rightarrow> bool"
where
  "batch_released store later keys w w' res cs \<longleftrightarrow>
     list_all (txn_on keys) cs \<and>
     (if res = None
      then \<not> list_ex call_failed cs \<and> distinct (map op_Key (committed cs)) \<and> op_Key ` set (committed cs) \<subseteq> set keys \<and>
        (\<forall>k \<in> set keys. key_released store later (committed cs) w w' k)
      else \<not> list_ex call_failed (butlast cs) \<and> committed cs = [])"

lemma batch_released_retry:
  assumes svc: "kv_service kv txn store later winv" and "later w w1" and "batch_released store later keys w1 w' res cs"
    and "op_Key ` set ops \<subseteq> set keys"
  shows "batch_released store later keys w w' res (TxnSent ops (Inr False) # cs)"
  using assms(3,4) key_released_between[OF svc assms(2) kv_service_refl[OF svc]]
  by (auto simp: batch_released_def txn_on_def split: if_splits)

lemma deleteKVChunk_loop_released:
  assumes svc: "kv_service kv txn store later winv" and dist: "distinct keys"
  shows "winv (fst x) \<Longrightarrow> deleteKVChunk_loop n (logged_kv kv) (logged_txn txn) keys x = (res, y) \<Longrightarrow>
    winv (fst y) \<and> later (fst x) (fst y) \<and>
    (\<exists>cs. snd y = snd x @ cs \<and> batch_released store later keys (fst x) (fst y) res cs)"
proof (induction n arbitrary: x)
  case 0
  then show ?case using kv_service_refl[OF svc] by (auto simp: batch_released_def)
next
  case (Suc n)
  obtain r x1 where ops: "deleteKVChunk_ops (logged_kv kv) keys x = (r, x1)" by (rule prod.exhaust)
  note O = deleteKVChunk_ops_spec[OF logged_service[OF svc] Suc.prems(1) ops] and log = logged_ops[OF ops]
  then have x1: "winv (fst x1)" "later (fst x) (fst x1)" by auto
  show ?case
  proof (cases r)
    case (Inl err)
    with Suc.prems(2) ops x1 log show ?thesis by (auto simp: batch_released_def)
  next
    case (Inr os)
    with O obtain pairs where len: "length pairs = length keys" and os: "os = delete_ops keys pairs"
      and reads': "\<forall>(k, q) \<in> set (zip keys pairs). \<exists>xe. winv (fst xe) \<and> later (fst x) (fst xe) \<and> later (fst xe) (fst x1) \<and> store (fst xe) k = q"
      by (elim conjE allE impE exE) auto
    have reads: "\<forall>(k, q) \<in> set (zip keys pairs). \<exists>we. winv we \<and> later (fst x) we \<and> later we (fst x1) \<and> store we k = q"
      using reads' by fast
    note keys = delete_ops_keys[OF len dist, folded os]
    show ?thesis
    proof (cases "os = []")
      case True
      with delete_nothing[OF svc len reads] os
      have "batch_released store later keys (fst x) (fst x1) None []" by (simp add: batch_released_def)
      with Suc.prems(2) ops Inr x1 log True show ?thesis by auto
    next
      case False
      obtain t w2 where t: "txn_Txn txn os (fst x1) = (t, w2)" by (rule prod.exhaust)
      then have lt: "txn_Txn (logged_txn txn) os x1 = (t, (w2, snd x1 @ [TxnSent os t]))" by (simp add: logged_txn_def)
      note T = kv_service_Txn_later[OF svc x1(1) t]
      have lat: "later (fst x) w2" using kv_service_trans[OF svc x1(2)] T by blast
      have sub: "op_Key ` set os \<subseteq> set keys" using keys by simp
      consider err where "t = Inl err" | "t = Inr True" | "t = Inr False" by (metis (full_types) old.sum.exhaust)
      then show ?thesis
      proof cases
        case (1 err)
        then have "batch_released store later keys (fst x) w2 res [TxnSent os t]" if "res \<noteq> None"
          using that sub by (auto simp: batch_released_def txn_on_def)
        with Suc.prems(2) ops Inr False lt 1 T lat log show ?thesis by auto
      next
        case 2
        have "key_released store later os (fst x) w2 k" if "k \<in> set keys" for k
          unfolding os by (rule delete_commit[OF svc x1 len dist reads t[unfolded os 2] that])
        then have "batch_released store later keys (fst x) w2 None [TxnSent os t]"
          using sub keys 2 by (auto simp: batch_released_def txn_on_def)
        with Suc.prems(2) ops Inr False lt 2 T lat log show ?thesis by auto
      next
        case 3
        with Suc.prems(2) ops Inr False lt
        have "deleteKVChunk_loop n (logged_kv kv) (logged_txn txn) keys (w2, snd x1 @ [TxnSent os t]) = (res, y)" by simp
        from Suc.IH[OF _ this] T obtain cs where y: "winv (fst y)" "later w2 (fst y)" "snd y = snd x1 @ [TxnSent os t] @ cs"
          and cs: "batch_released store later keys w2 (fst y) res cs" by auto
        from batch_released_retry[OF svc lat cs sub] have "batch_released store later keys (fst x) (fst y) res ([TxnSent os t] @ cs)"
          using 3 by simp
        with y log kv_service_trans[OF svc lat y(2)] show ?thesis by auto
      qed
    qed
  qed
qed

lemmas deleteKVChunk_released = deleteKVChunk_loop_released[where n = casMaxRetries, folded deleteKVChunk_def]

subsection \<open>All batches\<close>

text \<open>The same for the whole release: the keys \<open>d\<close> of the committed batches are released.\<close>

definition release_progress ::
  "('w \<Rightarrow> store) \<Rightarrow> ('w \<Rightarrow> 'w \<Rightarrow> bool) \<Rightarrow> ('w \<Rightarrow> bool) \<Rightarrow> string list \<Rightarrow> 'w \<Rightarrow> string list \<Rightarrow> string set \<Rightarrow> 'w \<times> kvCall list \<Rightarrow> bool"
where
  "release_progress store later winv keys w d released y \<longleftrightarrow>
     winv (fst y) \<and> later w (fst y) \<and> released = set d \<and> list_all (txn_on keys) (snd y) \<and>
     distinct (map op_Key (committed (snd y))) \<and> op_Key ` set (committed (snd y)) \<subseteq> set d \<and>
     (\<forall>k \<in> set d. key_released store later (committed (snd y)) w (fst y) k)"

lemma release_progress_chunk:
  assumes svc: "kv_service kv txn store later winv" and dist: "distinct keys"
    and keys: "\<exists>r. keys = d @ c @ r"
    and prog: "release_progress store later winv keys w d released x \<and> \<not> list_ex call_failed (snd x)"
    and chunk: "release_chunk (logged_kv kv) (logged_txn txn) c released x = ((res, released'), y)"
  shows "release_progress store later winv keys w (if res = None then d @ c else d) released' y \<and>
    \<not> list_ex call_failed (if res = None then snd y else butlast (snd y))"
proof -
  have dc: "distinct c" "set c \<subseteq> set keys" "set d \<inter> set c = {}" using keys dist by auto
  from prog have x: "winv (fst x)" "later w (fst x)" "released = set d" "list_all (txn_on keys) (snd x)"
      "distinct (map op_Key (committed (snd x)))" "op_Key ` set (committed (snd x)) \<subseteq> set d" "\<not> list_ex call_failed (snd x)"
      and old: "\<And>k. k \<in> set d \<Longrightarrow> key_released store later (committed (snd x)) w (fst x) k"
    by (auto simp: release_progress_def)
  obtain r y1 where del: "deleteKVChunk (logged_kv kv) (logged_txn txn) c x = (r, y1)" by (rule prod.exhaust)
  with chunk have r: "res = r" "y1 = y" "released' = (if r = None then released \<union> set c else released)"
    by (auto simp: release_chunk_def split: option.splits)
  from deleteKVChunk_released[OF svc dc(1) x(1) del[unfolded r]] obtain cs where
    y: "winv (fst y)" "later (fst x) (fst y)" "snd y = snd x @ cs" and b: "batch_released store later c (fst x) (fst y) r cs" by blast
  have cs: "list_all (txn_on keys) cs" using b txn_on_mono[OF _ dc(2)] by (simp add: batch_released_def)
  have lat: "later w (fst y)" by (rule kv_service_trans[OF svc x(2) y(2)])
  note between = key_released_between[OF svc]
  show ?thesis
  proof (cases r)
    case (Some err)
    then have c0: "committed cs = []" "\<not> list_ex call_failed (butlast cs)" using b by (auto simp: batch_released_def)
    have "key_released store later (committed (snd y)) w (fst y) k" if "k \<in> set d" for k
      by (rule between[OF kv_service_refl[OF svc] y(2) old[OF that]]) (simp add: y(3) c0)
    with Some r x y lat cs c0 show ?thesis
      by (cases "cs = []") (auto simp: release_progress_def butlast_append dest: in_set_butlastD simp: list_ex_iff)
  next
    case None
    then have c1: "\<not> list_ex call_failed cs" "distinct (map op_Key (committed cs))" "op_Key ` set (committed cs) \<subseteq> set c"
        "\<And>k. k \<in> set c \<Longrightarrow> key_released store later (committed cs) (fst x) (fst y) k"
      using b by (auto simp: batch_released_def)
    have f: "filter (\<lambda>q. op_Key q = k) (committed cs) = []" if "k \<notin> set c" for k
      using c1(3) that by (auto simp: filter_empty_conv)
    have g: "filter (\<lambda>q. op_Key q = k) (committed (snd x)) = []" if "k \<notin> set d" for k
      using x(6) that by (auto simp: filter_empty_conv)
    have "key_released store later (committed (snd y)) w (fst y) k" if "k \<in> set d" for k
      by (rule between[OF kv_service_refl[OF svc] y(2) old[OF that]]) (use dc(3) that f[of k] in \<open>auto simp: y(3)\<close>)
    moreover have "key_released store later (committed (snd y)) w (fst y) k" if "k \<in> set c" for k
      by (rule between[OF x(2) kv_service_refl[OF svc] c1(4)[OF that]]) (use dc(3) that g[of k] in \<open>auto simp: y(3)\<close>)
    moreover have "distinct (map op_Key (committed (snd y)))"
      using x(5,6) c1(2,3) dc(3) by (simp add: y(3)) blast
    moreover have "op_Key ` set (committed (snd y)) \<subseteq> set (d @ c)" using x(6) c1(3) by (auto simp: y(3))
    ultimately show ?thesis using None r x(3,4,7) y lat cs c1(1) by (auto simp: release_progress_def)
  qed
qed

lemma deleteKVBatch_progress:
  assumes svc: "kv_service kv txn store later winv" and dist: "distinct keys" and "winv w"
    and run: "deleteKVBatch (logged_kv kv) (logged_txn txn) keys (w, []) = ((res, released), y)"
  shows "\<exists>d rest. keys = d @ rest \<and> (res = None \<longrightarrow> rest = []) \<and> release_progress store later winv keys w d released y \<and>
    \<not> list_ex call_failed (butlast (snd y))"
proof -
  let ?R = "\<lambda>d rel y. release_progress store later winv keys w d rel y \<and> \<not> list_ex call_failed (snd y)"
  let ?F = "\<lambda>d rel y. release_progress store later winv keys w d rel y \<and> \<not> list_ex call_failed (butlast (snd y))"
  have start: "?R [] {} (w, [])" using \<open>winv w\<close> kv_service_refl[OF svc] by (simp add: release_progress_def)
  note ok = release_progress_chunk[OF svc dist, where res = None, simplified]
  note err = release_progress_chunk[OF svc dist, where res = "Some e" for e, simplified]
  have "case res of None \<Rightarrow> ?R keys released y | Some e \<Rightarrow> \<exists>d rest. keys = d @ rest \<and> ?F d released y"
    by (rule release_batch.loop_rule[where R = ?R and F = ?F, OF _ _ start run[unfolded deleteKVBatch_def]])
      (rule ok err; assumption)+
  moreover have "\<not> list_ex call_failed l \<Longrightarrow> \<not> list_ex call_failed (butlast l)" for l
    by (auto simp: list_ex_iff dest: in_set_butlastD)
  ultimately show ?thesis by (cases res) auto
qed

end
