(* ===== verification/KV_Sequential.thy ===== *)
theory KV_Sequential
  imports KV_Release
begin

text \<open>
  The operations of the ConsulKV controller on a Consul whose calls may fail (\<open>kv_sequential\<close>). A batch that fails has changed
  nothing, so after an error exactly the batches before it have been applied; the lemmas say for every key
  what its content is then, and what the statuses record.
\<close>

subsection \<open>One batch\<close>

lemma writeKVChunk_ops_seq:
  assumes s: "kv_sequential kv txn store"
  shows "writeKVChunk_ops kv ownedKeys es w = (r, w') \<Longrightarrow>
    store w' = store w \<and> (\<forall>ops. r = Inr ops \<longrightarrow> list_all2 (read_op ownedKeys (store w)) es ops)"
proof (induction es arbitrary: w r w')
  case (Cons e es)
  obtain g w1 where g: "kv_Get kv (entry_Key e) w = (g, w1)" by (rule prod.exhaust)
  obtain r' w2 where rec: "writeKVChunk_ops kv ownedKeys es w1 = (r', w2)" by (rule prod.exhaust)
  note G = kv_sequential_Get[OF s g] and IH = Cons.IH[OF rec]
  from Cons.prems g rec G IH show ?case
    by (cases g; cases r') (auto simp: split_beta Let_def read_op_def)
qed simp

lemma writeKVChunk_loop_seq:
  assumes s: "kv_sequential kv txn store" and dist: "distinct (map entry_Key es)"
  shows "writeKVChunk_loop n kv txn ownedKeys es owned w = ((res, owned'), w') \<Longrightarrow>
    if res = None then write_step ownedKeys es (store w) (store w') owned owned' else store w' = store w \<and> owned' = owned"
proof (induction n arbitrary: w)
  case (Suc n)
  obtain r w1 where ops: "writeKVChunk_ops kv ownedKeys es w = (r, w1)" by (rule prod.exhaust)
  note O = writeKVChunk_ops_seq[OF s ops]
  show ?case
  proof (cases r)
    case (Inl err)
    with Suc.prems ops O show ?thesis by auto
  next
    case (Inr os)
    obtain t w2 where t: "txn_Txn txn (map fst os) w1 = (t, w2)" by (rule prod.exhaust)
    have reads: "list_all2 (read_op ownedKeys (store w1)) es os" using O Inr by simp
    show ?thesis
    proof (cases "t = Inr True")
      case True
      have "distinct (map op_Key (map fst os))" using read_op_keys[OF reads] dist by simp
      with kv_sequential_commit[OF s t[unfolded True]] have "txn_effect (map fst os) (store w1) (store w2)" by simp
      from write_effect[OF reads dist this, of owned] Suc.prems ops Inr t True O show ?thesis by auto
    next
      case False
      with kv_sequential_other[OF s t] Suc.IH[of w2] Suc.prems ops Inr t O show ?thesis
        by (cases t) (auto split: if_splits)
    qed
  qed
qed auto

lemmas writeKVChunk_seq = writeKVChunk_loop_seq[where n = casMaxRetries, folded writeKVChunk_def]

lemma deleteKVChunk_ops_seq:
  assumes s: "kv_sequential kv txn store"
  shows "deleteKVChunk_ops kv keys w = (r, w') \<Longrightarrow>
    store w' = store w \<and> (\<forall>ops. r = Inr ops \<longrightarrow> ops = delete_ops keys (map (store w) keys))"
proof (induction keys arbitrary: w r w')
  case (Cons k ks)
  obtain g w1 where g: "kv_Get kv k w = (g, w1)" by (rule prod.exhaust)
  obtain r' w2 where rec: "deleteKVChunk_ops kv ks w1 = (r', w2)" by (rule prod.exhaust)
  from Cons.prems g rec kv_sequential_Get[OF s g] Cons.IH[OF rec] show ?case
    by (cases g; cases r') (auto simp: delete_op_def split: option.splits)
qed simp

lemma zip_store: "(k, x) \<in> set (zip keys (map f keys)) \<longleftrightarrow> k \<in> set keys \<and> x = f k"
  by (auto simp: zip_map2 zip_same_conv_map)

lemma deleteKVChunk_loop_seq:
  assumes s: "kv_sequential kv txn store" and dist: "distinct keys"
  shows "deleteKVChunk_loop n kv txn keys w = (res, w') \<Longrightarrow>
    if res = None then release_step keys (\<lambda>k. store w k = None) (store w) (store w') else store w' = store w"
proof (induction n arbitrary: w)
  case (Suc n)
  obtain r w1 where ops: "deleteKVChunk_ops kv keys w = (r, w1)" by (rule prod.exhaust)
  note O = deleteKVChunk_ops_seq[OF s ops]
  show ?case
  proof (cases r)
    case (Inl err)
    with Suc.prems ops O show ?thesis by auto
  next
    case (Inr os)
    let ?os = "delete_ops keys (map (store w) keys)"
    have os: "os = ?os" and w1: "store w1 = store w" using O Inr by auto
    have rel: "release_step keys (\<lambda>k. store w k = None) (store w) s'" if "txn_effect ?os (store w) s'" for s'
      using release_effect[OF _ dist that] by (auto simp: zip_store release_step_def)
    show ?thesis
    proof (cases "os = []")
      case True
      have "txn_effect ?os (store w) (store w)" using True os by (simp add: txn_effect_def)
      with rel Suc.prems ops Inr True w1 show ?thesis by auto
    next
      case False
      obtain t w2 where t: "txn_Txn txn os w1 = (t, w2)" by (rule prod.exhaust)
      show ?thesis
      proof (cases "t = Inr True")
        case True
        have "distinct (map op_Key os)" using delete_ops_keys[OF _ dist, of "map (store w) keys"] os by simp
        with kv_sequential_commit[OF s t[unfolded True]] have "txn_effect ?os (store w) (store w2)" using w1 os by simp
        with rel Suc.prems ops Inr False t True show ?thesis by auto
      next
        case no: False
        with kv_sequential_other[OF s t] Suc.IH[of w2] Suc.prems ops Inr False t w1 show ?thesis
          by (cases t) (auto split: if_splits)
      qed
    qed
  qed
qed auto

lemmas deleteKVChunk_seq = deleteKVChunk_loop_seq[where n = casMaxRetries, folded deleteKVChunk_def]

subsection \<open>All batches\<close>

lemma writeKVBatch_seq:
  assumes s: "kv_sequential kv txn store" and dist: "distinct (map entry_Key es)"
    and run: "writeKVBatchWithOwnership kv txn ownedKeys es w = ((res, owned), w')"
  shows "\<exists>d rest. es = d @ rest \<and> (res = None \<longrightarrow> rest = []) \<and> write_step ownedKeys d (store w) (store w') Map.empty owned"
proof -
  let ?R = "\<lambda>d owned w'. write_step ownedKeys d (store w) (store w') Map.empty owned"
  have start: "?R [] Map.empty w" by (simp add: write_step_def)
  have chunk: "?R (if r = None then d @ c else d) owned1 w2"
    if R: "?R d owned w1" and ex: "\<exists>r. es = d @ c @ r" and run: "writeKVChunk kv txn ownedKeys c owned w1 = ((r, owned1), w2)"
    for d c owned owned1 r w1 w2
  proof -
    obtain rest where rest: "es = d @ c @ rest" using ex by blast
    have "distinct (map entry_Key c)" and disj: "entry_Key ` set d \<inter> entry_Key ` set c = {}"
      using dist unfolding rest by (simp_all add: Int_Un_distrib)
    from writeKVChunk_seq[OF s this(1) run] R write_step_append[OF R _ disj] show ?thesis by (auto split: if_splits)
  qed
  note ok = chunk[where r = None, simplified] and err = chunk[where r = "Some e" for e, simplified]
  have "case res of None \<Rightarrow> ?R es owned w' | Some e \<Rightarrow> \<exists>d rest. es = d @ rest \<and> ?R d owned w'"
    by (rule write_batch.loop_rule[where R = ?R, OF _ _ start run[unfolded writeKVBatchWithOwnership_def]])
      (rule ok err; assumption)+
  then show ?thesis by (cases res) auto
qed

lemma deleteKVBatch_seq:
  assumes s: "kv_sequential kv txn store" and dist: "distinct keys"
    and run: "deleteKVBatch kv txn keys w = ((res, released), w')"
  shows "\<exists>d rest. keys = d @ rest \<and> released = set d \<and> (res = None \<longrightarrow> rest = []) \<and>
    release_step d (\<lambda>k. store w k = None) (store w) (store w')"
proof -
  let ?R = "\<lambda>d released w'. released = set d \<and> release_step d (\<lambda>k. store w k = None) (store w) (store w')"
  have start: "?R [] {} w" by (simp add: release_step_def)
  have chunk: "?R (if r = None then d @ c else d) rel1 w2"
    if R: "?R d rel w1" and ex: "\<exists>r. keys = d @ c @ r" and run: "release_chunk kv txn c rel w1 = ((r, rel1), w2)"
    for d c rel rel1 r w1 w2
  proof -
    obtain rest where rest: "keys = d @ c @ rest" using ex by blast
    have dc: "distinct c" "set d \<inter> set c = {}" using dist unfolding rest by auto
    obtain r' w3 where del: "deleteKVChunk kv txn c w1 = (r', w3)" by (rule prod.exhaust)
    with run have r: "r = r'" "w3 = w2" "rel1 = (if r = None then rel \<union> set c else rel)"
      by (auto simp: release_chunk_def split: option.splits)
    have "store w1 k = store w k" if "k \<in> set c" for k using R dc(2) that unfolding release_step_def by blast
    with deleteKVChunk_seq[OF s dc(1) del[unfolded r(2)]] release_step_append[OF conjunct2[OF R] _ dc(2)] R r show ?thesis
      by (auto split: if_splits)
  qed
  note ok = chunk[where r = None, simplified simp_thms if_True] and err = chunk[where r = "Some e" for e, simplified option.distinct if_False]
  have "case res of None \<Rightarrow> ?R keys released w' | Some e \<Rightarrow> \<exists>d rest. keys = d @ rest \<and> ?R d released w'"
    by (rule release_batch.loop_rule[where R = ?R, OF _ _ start run[unfolded deleteKVBatch_def]])
      (rule ok err; assumption)+
  then show ?thesis by (cases res) auto
qed

subsection \<open>One key\<close>

text \<open>A declared key was written, and its status tells the ownership, or it is as before, the claim included.\<close>

lemma applyKVEntries_key:
  assumes s: "kv_sequential kv txn store" and ap: "applyKVEntries kv txn es ok w = ((sts, err), w')"
  shows "k \<noteq> [] \<Longrightarrow> k \<in> entry_Key ` set es \<Longrightarrow>
      (\<exists>v. content (store w') k = Some (fst (write_target (ok k) v (content (store w) k))) \<and>
         statusOwnedKeys sts k = snd (write_target (ok k) v (content (store w) k))) \<or>
      store w' k = store w k \<and> statusOwnedKeys sts k = ok k"
    and "k = [] \<or> k \<notin> entry_Key ` set es \<Longrightarrow> store w' k = store w k \<and> \<not> statusOwnedKeys sts k"
proof -
  obtain owned where b: "writeKVBatchWithOwnership kv txn ok (valid_entries es) w = ((err, owned), w')"
    using ap by (auto simp: applyKVEntries_def split: prod.splits)
  obtain d rest where d: "valid_entries es = d @ rest" and step: "write_step ok d (store w) (store w') Map.empty owned"
    using writeKVBatch_seq[OF s distinct_valid_entries b] by blast
  note own = statusOwnedKeys_apply[OF ap b, of k]
  have keep: "store w' k = store w k \<and> owned k = None" if "k \<notin> entry_Key ` set d"
    using step that unfolding write_step_def by auto
  show "(\<exists>v. content (store w') k = Some (fst (write_target (ok k) v (content (store w) k))) \<and>
         statusOwnedKeys sts k = snd (write_target (ok k) v (content (store w) k))) \<or>
      store w' k = store w k \<and> statusOwnedKeys sts k = ok k" if k: "k \<noteq> []" "k \<in> entry_Key ` set es"
  proof (cases "k \<in> entry_Key ` set d")
    case True
    then obtain e where "e \<in> set d" "entry_Key e = k" by auto
    with step own k show ?thesis unfolding write_step_def by auto
  next
    case False
    with keep own k show ?thesis by simp
  qed
  show "store w' k = store w k \<and> \<not> statusOwnedKeys sts k" if "k = [] \<or> k \<notin> entry_Key ` set es"
  proof -
    have "k \<notin> entry_Key ` set (valid_entries es)" using that by (auto simp: in_valid_entries)
    then have "k \<notin> entry_Key ` set d" using d by auto
    with keep own that show ?thesis by blast
  qed
qed

lemma release_step_key:
  assumes "release_step d (\<lambda>k. s k = None) s s'"
  shows "content s' k = (if k \<in> set d then release_target (content s k) else content s k)"
proof (cases "k \<in> set d")
  case True
  with assms have "if s k = None then s' k = s k else content s' k = release_target (content s k)"
    unfolding release_step_def by blast
  with True show ?thesis by (auto simp: content_def split: if_splits)
next
  case False
  with assms have "s' k = s k" unfolding release_step_def by blast
  with False show ?thesis by (simp add: content_def)
qed

lemma deleteKVEntries_key:
  assumes s: "kv_sequential kv txn store" and run: "deleteKVEntries kv txn sts w = ((err, released), w')"
  shows "released \<subseteq> {k. k \<noteq> [] \<and> statusOwnedKeys sts k}"
    and "err = None \<Longrightarrow> released = {k. k \<noteq> [] \<and> statusOwnedKeys sts k}"
    and "content (store w') k = (if k \<in> released then release_target (content (store w) k) else content (store w) k)"
proof -
  obtain d rest where d: "ownedStatusKeys sts = d @ rest" "released = set d" "err = None \<longrightarrow> rest = []"
    and step: "release_step d (\<lambda>k. store w k = None) (store w) (store w')"
    using deleteKVBatch_seq[OF s distinct_ownedStatusKeys run[unfolded deleteKVEntries_def]] by blast
  show "released \<subseteq> {k. k \<noteq> [] \<and> statusOwnedKeys sts k}" "err = None \<Longrightarrow> released = {k. k \<noteq> [] \<and> statusOwnedKeys sts k}"
    using d set_ownedStatusKeys[of sts] by auto
  show "content (store w') k = (if k \<in> released then release_target (content (store w) k) else content (store w) k)"
    using release_step_key[OF step, of k] d(2) by simp
qed

lemma deleteRemovedEntries_eq: "deleteRemovedEntries kv txn sts es w = deleteKVEntries kv txn (removedEntries sts es) w"
  by (simp add: deleteRemovedEntries_def deleteKVEntries_def)

end
