(* ===== verification/KV_Refcount.thy ===== *)
theory KV_Refcount
  imports KV_Sequential
begin

text \<open>
  The reference counter of a key. Several ConsulKV resources may declare one key; the Flags of the key
  count them, and the key is deleted with its last owner. The step relation \<open>kv_sys_step\<close> runs the operations
  of the controller (apply, release of removed entries and merge of statuses; release on deletion; purge
  on deletion) for a set of resources on one Consul, in any order and with calls that fail, together
  with clients that do not know the counter. Its invariant is that the Flags of every key are the number of
  resources whose statuses own it. The premises of the steps are the conditions under which the code keeps it.
\<close>

subsection \<open>One key\<close>

definition count_ok :: "(string \<times> uint64) option \<Rightarrow> nat \<Rightarrow> bool" where
  "count_ok c n \<longleftrightarrow> (case c of None \<Rightarrow> n = 0 | Some (v, f) \<Rightarrow> unat f = n)"

lemma count_write:
  assumes "count_ok c n" and "b \<Longrightarrow> 0 < n" and "n + 1 < 2 ^ 64"
  shows "count_ok (Some (fst (write_target b v c))) (if snd (write_target b v c) \<and> \<not> b then n + 1 else n)"
proof (cases c)
  case None
  with assms show ?thesis by (cases b) (auto simp: count_ok_def)
next
  case (Some p)
  obtain v' f where p: "p = (v', f)" by fastforce
  have n: "unat f = n" using assms(1) Some p by (simp add: count_ok_def)
  then have f0: "f = 0 \<longleftrightarrow> n = 0" using unat_eq_zero[of f] by auto
  have "unat (f + 1) = unat f + 1"
    using assms(3) n by (simp add: unat_add_lem[THEN iffD1])
  with n f0 Some p show ?thesis by (cases b) (auto simp: count_ok_def)
qed

lemma count_release:
  assumes "count_ok c n" and "0 < n"
  shows "count_ok (release_target c) (n - 1)"
proof -
  obtain v f where c: "c = Some (v, f)" and n: "unat f = n"
    using assms by (cases c) (auto simp: count_ok_def)
  have le: "f \<le> 1 \<longleftrightarrow> n \<le> 1" using n by (auto simp: word_le_nat_alt)
  have "1 \<le> f" using n assms(2) by (simp add: word_le_nat_alt)
  then have "unat (f - 1) = n - 1" using n by (simp add: unat_sub)
  with c n le show ?thesis using assms(2) by (auto simp: count_ok_def)
qed

subsection \<open>The system\<close>

type_synonym ('w, 'c) kv_sys = "'w \<times> ('c \<Rightarrow> ConsulKVEntryStatus list)"

text \<open>
  A client that does not count: it may create, change and delete the keys of counter 0 and leaves every
  other key alone.
\<close>

definition uncounted_change :: "store \<Rightarrow> store \<Rightarrow> bool" where
  "uncounted_change s s' \<longleftrightarrow>
     (\<forall>k. s' k = s k \<or>
        (case content s k of None \<Rightarrow> True | Some (v, f) \<Rightarrow> f = 0) \<and>
        (case content s' k of None \<Rightarrow> True | Some (v, f) \<Rightarrow> f = 0))"

text \<open>
  The keys of other resources are safe from the purge of a resource: none of them is one of its keys or below one.
\<close>

definition purge_safe :: "('c \<Rightarrow> ConsulKVEntryStatus list) \<Rightarrow> 'c \<Rightarrow> bool" where
  "purge_safe S c \<longleftrightarrow>
     (\<forall>d k e. d \<noteq> c \<longrightarrow> statusOwnedKeys (S d) k \<longrightarrow> e \<in> set (S c) \<longrightarrow> st_Key e \<noteq> [] \<longrightarrow> \<not> purge_covers (st_Key e) k)"

text \<open>
  The operations of the controller for the resources \<open>C\<close>. Each ends with the update of the statuses, as in \<^verbatim>\<open>Reconcile\<close>: a step in which
  that update fails is not part of the relation. A reconcile or release may end with an error of Consul; a
  release of removed keys that fails asks for statuses without duplicates. A resource that is purged is gone afterwards.
\<close>

inductive kv_sys_step ::
  "'w consulKVClient \<Rightarrow> 'w consulTxnClient \<Rightarrow> ('w \<Rightarrow> store) \<Rightarrow> 'c set \<Rightarrow> ('w, 'c) kv_sys \<Rightarrow> ('w, 'c) kv_sys \<Rightarrow> bool"
  for kv txn store C
where
  reconcile: "\<lbrakk>c \<in> C;
     applyKVEntries kv txn es (statusOwnedKeys (S c)) w = ((updated, applyErr), w1);
     deleteRemovedEntries kv txn (S c) es w1 = ((removeErr, cleaned), w2);
     removeErr = None \<or> distinct (map st_Key (S c))\<rbrakk> \<Longrightarrow>
     kv_sys_step kv txn store C (w, S) (w2, S(c := mergeKVStatuses (S c) updated cleaned))"
| release: "\<lbrakk>c \<in> C; deleteKVEntries kv txn (S c) w = ((err, released), w1)\<rbrakk> \<Longrightarrow>
     kv_sys_step kv txn store C (w, S) (w1, S(c := markReleased (S c) released))"
| purge: "\<lbrakk>c \<in> C; deleteKVTree kv (S c) w = (None, w1); purge_safe S c\<rbrakk> \<Longrightarrow>
     kv_sys_step kv txn store C (w, S) (w1, S(c := []))"
| uncounted: "uncounted_change (store w) (store w1) \<Longrightarrow> kv_sys_step kv txn store C (w, S) (w1, S)"

inductive_cases kv_sys_stepE: "kv_sys_step kv txn store C x y"

text \<open>The resources that own a key.\<close>

definition key_owners :: "('c \<Rightarrow> ConsulKVEntryStatus list) \<Rightarrow> string \<Rightarrow> 'c set" where
  "key_owners S k = {c. statusOwnedKeys (S c) k}"

definition kv_sys_inv :: "('w \<Rightarrow> store) \<Rightarrow> 'c set \<Rightarrow> ('w, 'c) kv_sys \<Rightarrow> bool" where
  "kv_sys_inv store C x \<longleftrightarrow>
     (\<forall>k. k \<noteq> [] \<longrightarrow> key_owners (snd x) k \<subseteq> C \<and>
        count_ok (content (store (fst x)) k) (card (key_owners (snd x) k)))"

lemma key_owners_upd:
  "key_owners (S(c := sts)) k =
     (if statusOwnedKeys sts k then insert c (key_owners S k) else key_owners S k - {c})"
  by (auto simp: key_owners_def)

lemma first_owned_imp: "first_owned sts k \<Longrightarrow> statusOwnedKeys sts k"
  by (auto simp: first_owned_def statusOwnedKeys_def find_Some_iff split: option.splits) 

subsection \<open>What one reconcile does to a key\<close>

lemma applyKVEntries_quiet:
  assumes q: "kv_quiet kv txn store" and ap: "applyKVEntries kv txn es ok w = ((sts, err), w')"
  shows "err = None"
    and "k \<noteq> [] \<Longrightarrow> k \<in> entry_Key ` set es \<Longrightarrow> \<exists>i. lastIndex es k = Some i \<and>
      content (store w') k = Some (fst (write_target (ok k) (entry_Value (es ! i)) (content (store w) k))) \<and>
      statusOwnedKeys sts k = snd (write_target (ok k) (entry_Value (es ! i)) (content (store w) k))"
    and "k = [] \<or> k \<notin> entry_Key ` set es \<Longrightarrow> store w' k = store w k \<and> \<not> statusOwnedKeys sts k"
proof -
  obtain owned w1 where b: "writeKVBatchWithOwnership kv txn ok (valid_entries es) w = ((None, owned), w1)"
    and step: "write_step ok (valid_entries es) (store w) (store w1) Map.empty owned"
    using writeKVBatch_quiet[OF q distinct_valid_entries] by blast
  with ap have [simp]: "err = None" "w1 = w'" by (auto simp: applyKVEntries_def)
  show "err = None" by simp
  note own = statusOwnedKeys_apply[OF ap[simplified] b[simplified], of k]
  show "\<exists>i. lastIndex es k = Some i \<and>
      content (store w') k = Some (fst (write_target (ok k) (entry_Value (es ! i)) (content (store w) k))) \<and>
      statusOwnedKeys sts k = snd (write_target (ok k) (entry_Value (es ! i)) (content (store w) k))"
    if k: "k \<noteq> []" "k \<in> entry_Key ` set es"
  proof (rule valid_entries_key[OF k(2,1)])
    fix i
    assume "lastIndex es k = Some i" and "entry_Key (es ! i) = k" and "es ! i \<in> set (valid_entries es)"
    with step own k show ?thesis by (auto simp: write_step_def)
  qed
  show "store w' k = store w k \<and> \<not> statusOwnedKeys sts k" if "k = [] \<or> k \<notin> entry_Key ` set es"
  proof -
    have "k \<notin> entry_Key ` set (valid_entries es)" using that by (auto simp: in_valid_entries)
    with step have "store w' k = store w k" unfolding write_step_def by simp
    with that own show ?thesis by blast
  qed
qed

text \<open>
  After a reconcile a declared key has the value of its last entry and the counter of \<open>write_target\<close>; a key that
  is owned and not declared any more is released; every other key is as before.
\<close>

lemma reconcile_key:
  assumes q: "kv_quiet kv txn store"
    and ap: "applyKVEntries kv txn es (statusOwnedKeys sts) w = ((updated, applyErr), w1)"
    and rm: "deleteRemovedEntries kv txn sts es w1 = ((removeErr, cleaned), w2)" and k: "k \<noteq> []"
  defines "sts' \<equiv> mergeKVStatuses sts updated cleaned"
  shows "if k \<in> entry_Key ` set es
    then \<exists>v. content (store w2) k = Some (fst (write_target (statusOwnedKeys sts k) v (content (store w) k))) \<and>
           statusOwnedKeys sts' k = snd (write_target (statusOwnedKeys sts k) v (content (store w) k))
    else \<not> statusOwnedKeys sts' k \<and>
         content (store w2) k = (if statusOwnedKeys sts k then release_target (content (store w) k)
                                 else content (store w) k)"
proof -
  note A = applyKVEntries_quiet[OF q ap]
  have keys: "st_Key ` set updated = entry_Key ` set es"
    using arg_cong[OF applyKVEntries_keys[OF ap], of set] by simp
  have dist: "distinct (ownedStatusKeys (removedEntries sts es))" by (rule distinct_ownedStatusKeys)
  have rel: "release_step (ownedStatusKeys (removedEntries sts es)) (\<lambda>k. store w1 k = None) (store w1) (store w2)"
    and cl: "cleaned = {k. k \<noteq> [] \<and> statusOwnedKeys sts k \<and> k \<notin> entry_Key ` set es}"
    using deleteKVBatch_quiet[OF q dist, of w1] rm
    by (auto simp: deleteRemovedEntries_def set_ownedStatusKeys statusOwnedKeys_removed)
  have R: "content (store w2) k = (if k \<in> cleaned then release_target (content (store w1) k) else content (store w1) k)"
  proof (cases "k \<in> set (ownedStatusKeys (removedEntries sts es))")
    case True
    then have "k \<in> cleaned" by (simp add: cl set_ownedStatusKeys statusOwnedKeys_removed)
    with True rel show ?thesis by (auto simp: release_step_def content_def split: if_splits)
  next
    case False
    then have "k \<notin> cleaned" by (auto simp: cl set_ownedStatusKeys statusOwnedKeys_removed)
    moreover have "store w2 k = store w1 k" using rel False unfolding release_step_def by blast
    ultimately show ?thesis by (simp add: content_def)
  qed
  show ?thesis
  proof (cases "k \<in> entry_Key ` set es")
    case True
    from A(2)[OF k True] obtain i where "content (store w1) k =
        Some (fst (write_target (statusOwnedKeys sts k) (entry_Value (es ! i)) (content (store w) k)))"
      "statusOwnedKeys updated k = snd (write_target (statusOwnedKeys sts k) (entry_Value (es ! i)) (content (store w) k))" by blast
    with True R show ?thesis by (auto simp: sts'_def statusOwnedKeys_merge keys cl)
  next
    case False
    then have "store w1 k = store w k" using A(3) by blast
    with False R show ?thesis
      using first_owned_imp[of sts k] k by (auto simp: sts'_def statusOwnedKeys_merge keys cl content_def)
  qed
qed

text \<open>The same when calls may fail: a key that could not be written or released is as before, and so is its claim.\<close>

lemma reconcile_key_seq:
  assumes q: "kv_sequential kv txn store"
    and ap: "applyKVEntries kv txn es (statusOwnedKeys sts) w = ((updated, applyErr), w1)"
    and rm: "deleteRemovedEntries kv txn sts es w1 = ((removeErr, cleaned), w2)"
    and one: "removeErr = None \<or> distinct (map st_Key sts)" and k: "k \<noteq> []"
  defines "sts' \<equiv> mergeKVStatuses sts updated cleaned"
  obtains (written) v where "content (store w2) k = Some (fst (write_target (statusOwnedKeys sts k) v (content (store w) k)))"
      "statusOwnedKeys sts' k = snd (write_target (statusOwnedKeys sts k) v (content (store w) k))"
  | (released) "statusOwnedKeys sts k" "\<not> statusOwnedKeys sts' k" "content (store w2) k = release_target (content (store w) k)"
  | (kept) "content (store w2) k = content (store w) k" "statusOwnedKeys sts' k = statusOwnedKeys sts k"
proof -
  note A = applyKVEntries_key[OF q ap, of k] and R = deleteKVEntries_key[OF q rm[unfolded deleteRemovedEntries_eq]]
  have keys: "st_Key ` set updated = entry_Key ` set es"
    using arg_cong[OF applyKVEntries_keys[OF ap], of set] by simp
  have cl: "k \<in> cleaned \<Longrightarrow> statusOwnedKeys sts k \<and> k \<notin> entry_Key ` set es" using R(1) by (auto simp: statusOwnedKeys_removed)
  show thesis
  proof (cases "k \<in> entry_Key ` set es")
    case True
    then have c2: "content (store w2) k = content (store w1) k" using R(3)[of k] cl by auto
    have "statusOwnedKeys sts' k = statusOwnedKeys updated k" using True by (simp add: sts'_def statusOwnedKeys_merge keys)
    with A(1)[OF k True] c2 written kept show ?thesis by (auto simp: content_def)
  next
    case False
    then have w1: "content (store w1) k = content (store w) k" using A(2) by (simp add: content_def)
    have m: "statusOwnedKeys sts' k \<longleftrightarrow> first_owned sts k \<and> k \<notin> cleaned"
      using False by (simp add: sts'_def statusOwnedKeys_merge keys)
    show ?thesis
    proof (cases "k \<in> cleaned")
      case True
      with R(3)[of k] m w1 cl released show ?thesis by auto
    next
      case no: False
      have "first_owned sts k = statusOwnedKeys sts k"
      proof (cases "removeErr = None")
        case True
        with R(2) no False k have "\<not> statusOwnedKeys sts k" by (auto simp: statusOwnedKeys_removed)
        with first_owned_imp show ?thesis by blast
      next
        case False
        with one show ?thesis by (simp add: first_owned_distinct)
      qed
      with R(3)[of k] m w1 no kept show ?thesis by auto
    qed
  qed
qed

subsection \<open>The invariant\<close>

lemma owners_bound:
  assumes "finite C" and "card C + 1 < 2 ^ 64" and "key_owners S k \<subseteq> C"
  shows "finite (key_owners S k)" and "card (key_owners S k) + 1 < 2 ^ 64"
  using assms by (auto dest: finite_subset card_mono)

lemma count_owner_write:
  assumes C: "finite C" "card C + 1 < 2 ^ 64" and sub: "key_owners S k \<subseteq> C"
    and cnt: "count_ok c0 (card (key_owners S k))"
    and own: "statusOwnedKeys sts k = snd (write_target (statusOwnedKeys (S c) k) v c0)"
  shows "count_ok (Some (fst (write_target (statusOwnedKeys (S c) k) v c0))) (card (key_owners (S(c := sts)) k))"
proof -
  note fin = owners_bound[OF C sub]
  have mem: "statusOwnedKeys (S c) k \<longleftrightarrow> c \<in> key_owners S k" by (simp add: key_owners_def)
  have pos: "statusOwnedKeys (S c) k \<Longrightarrow> 0 < card (key_owners S k)"
    using mem fin(1) card_gt_0_iff by blast
  have "card (key_owners (S(c := sts)) k) =
      (if snd (write_target (statusOwnedKeys (S c) k) v c0) \<and> \<not> statusOwnedKeys (S c) k
       then card (key_owners S k) + 1 else card (key_owners S k))"
    using fin(1) mem own write_target_owned[of v c0]
    by (auto simp: key_owners_upd insert_absorb)
  with count_write[OF cnt pos fin(2)] show ?thesis by simp
qed

lemma count_owner_release:
  assumes C: "finite C" "card C + 1 < 2 ^ 64" and sub: "key_owners S k \<subseteq> C"
    and cnt: "count_ok c0 (card (key_owners S k))" and "\<not> statusOwnedKeys sts k"
  shows "count_ok (if statusOwnedKeys (S c) k then release_target c0 else c0) (card (key_owners (S(c := sts)) k))"
proof -
  note fin = owners_bound[OF C sub]
  have mem: "statusOwnedKeys (S c) k \<longleftrightarrow> c \<in> key_owners S k" by (simp add: key_owners_def)
  show ?thesis
  proof (cases "statusOwnedKeys (S c) k")
    case True
    with mem fin(1) have "0 < card (key_owners S k)" using card_gt_0_iff by blast
    from count_release[OF cnt this] True mem assms(5) fin(1) show ?thesis by (simp add: key_owners_upd)
  next
    case False
    with mem assms(5) cnt show ?thesis by (simp add: key_owners_upd)
  qed
qed

lemma release_key:
  assumes q: "kv_quiet kv txn store" and rel: "deleteKVEntries kv txn sts w = ((err, released), w1)" and k: "k \<noteq> []"
  shows "\<not> statusOwnedKeys (markReleased sts released) k"
    and "content (store w1) k = (if statusOwnedKeys sts k then release_target (content (store w) k) else content (store w) k)"
proof -
  have st: "release_step (ownedStatusKeys sts) (\<lambda>k. store w k = None) (store w) (store w1)"
    and rl: "released = {k. k \<noteq> [] \<and> statusOwnedKeys sts k}"
    using deleteKVBatch_quiet[OF q distinct_ownedStatusKeys[of sts], of w] rel
    by (auto simp: deleteKVEntries_def set_ownedStatusKeys)
  show "\<not> statusOwnedKeys (markReleased sts released) k"
    using k by (simp add: statusOwnedKeys_markReleased rl)
  show "content (store w1) k = (if statusOwnedKeys sts k then release_target (content (store w) k) else content (store w) k)"
  proof (cases "k \<in> set (ownedStatusKeys sts)")
    case True
    with st have "if store w k = None then store w1 k = store w k
        else content (store w1) k = release_target (content (store w) k)" unfolding release_step_def by blast
    with True show ?thesis by (auto simp: set_ownedStatusKeys content_def split: if_splits)
  next
    case False
    moreover from this st have "store w1 k = store w k" unfolding release_step_def by blast
    ultimately show ?thesis using k by (simp add: set_ownedStatusKeys content_def)
  qed
qed

lemma count_uncounted:
  assumes "uncounted_change s s'" and "count_ok (content s k) n"
  shows "count_ok (content s' k) n"
proof -
  have "s' k = s k \<or> (case content s k of None \<Rightarrow> True | Some (v, f) \<Rightarrow> f = 0) \<and>
      (case content s' k of None \<Rightarrow> True | Some (v, f) \<Rightarrow> f = 0)"
    using assms(1) unfolding uncounted_change_def by blast
  then show ?thesis using assms(2) by (auto simp: count_ok_def content_def split: option.splits)
qed

lemma count_owner_same:
  assumes "count_ok c0 (card (key_owners S k))" and "statusOwnedKeys sts k = statusOwnedKeys (S c) k"
  shows "count_ok c0 (card (key_owners (S(c := sts)) k))"
proof -
  have "key_owners (S(c := sts)) k = key_owners S k" using assms(2) by (auto simp: key_owners_def)
  with assms(1) show ?thesis by simp
qed

lemma count_purge:
  assumes t: "tree_service kv store" and run: "deleteKVTree kv (S c) w = (None, w1)" and safe: "purge_safe S c" and k: "k \<noteq> []"
    and cnt: "count_ok (content (store w) k) (card (key_owners S k))"
  shows "count_ok (content (store w1) k) (card (key_owners (S(c := [])) k))"
proof -
  have P: "purge_step store (st_Key ` set (S c) - {} - {[]}) None w None w1"
    by (rule deleteKVTree_loop_spec[OF t run[unfolded deleteKVTree_def]])
  have own: "key_owners (S(c := [])) k = key_owners S k - {c}" by (auto simp: key_owners_def statusOwnedKeys_def)
  show ?thesis
  proof (cases "\<exists>e \<in> set (S c). st_Key e \<noteq> [] \<and> purge_covers (st_Key e) k")
    case True
    then have "store w1 k = None" using P unfolding purge_step_def by blast
    moreover have "key_owners S k - {c} = {}" using True safe unfolding purge_safe_def key_owners_def by blast
    then have "key_owners (S(c := [])) k = {}" by (simp only: own)
    ultimately show ?thesis by (simp add: count_ok_def content_def)
  next
    case False
    then have "store w1 k = store w k" using P unfolding purge_step_def by blast
    moreover have "c \<notin> key_owners S k"
    proof
      assume "c \<in> key_owners S k"
      then obtain e where "e \<in> set (S c)" "st_Key e = k" by (auto simp: key_owners_def statusOwnedKeys_def)
      moreover have "purge_covers k k" by (simp add: purge_covers_def)
      ultimately show False using False k by blast
    qed
    ultimately show ?thesis using cnt by (simp add: own content_def)
  qed
qed

lemma kv_sys_inv_step:
  assumes q: "kv_sequential kv txn store" "tree_service kv store" and C: "finite C" "card C + 1 < 2 ^ 64"
    and step: "kv_sys_step kv txn store C x y" and inv: "kv_sys_inv store C x"
  shows "kv_sys_inv store C y"
  unfolding kv_sys_inv_def
proof (intro allI impI conjI)
  fix k :: string
  assume k: "k \<noteq> []"
  from inv k have sub: "key_owners (snd x) k \<subseteq> C"
    and cnt: "count_ok (content (store (fst x)) k) (card (key_owners (snd x) k))"
    by (auto simp: kv_sys_inv_def)
  show "key_owners (snd y) k \<subseteq> C"
    using step sub by (cases rule: kv_sys_step.cases) (auto simp: key_owners_upd)
  show "count_ok (content (store (fst y)) k) (card (key_owners (snd y) k))"
    using step
  proof (cases rule: kv_sys_step.cases)
    case (reconcile c es S w updated applyErr w1 removeErr cleaned w2)
    have sub: "key_owners S k \<subseteq> C" and cnt: "count_ok (content (store w) k) (card (key_owners S k))" using sub cnt reconcile(1) by simp_all
    have "count_ok (content (store w2) k) (card (key_owners (S(c := mergeKVStatuses (S c) updated cleaned)) k))"
    proof (cases rule: reconcile_key_seq[OF q(1) reconcile(4,5,6) k, case_names written released kept])
      case (written v)
      with count_owner_write[OF C sub cnt] show ?thesis by simp
    next
      case released
      with count_owner_release[OF C sub cnt, of _ c] show ?thesis by simp
    next
      case kept
      with count_owner_same[OF cnt] show ?thesis by simp
    qed
    with reconcile(2) show ?thesis by simp
  next
    case (release c S w err released w1)
    have sub: "key_owners S k \<subseteq> C" and cnt: "count_ok (content (store w) k) (card (key_owners S k))" using sub cnt release(1) by simp_all
    note R = deleteKVEntries_key[OF q(1) release(4)] and m = statusOwnedKeys_markReleased[of "S c" released k]
    have "count_ok (content (store w1) k) (card (key_owners (S(c := markReleased (S c) released)) k))"
    proof (cases "k \<in> released")
      case True
      with R(1) m have "statusOwnedKeys (S c) k" "\<not> statusOwnedKeys (markReleased (S c) released) k" by auto
      with count_owner_release[OF C sub cnt, of _ c] R(3)[of k] True show ?thesis by simp
    next
      case False
      with count_owner_same[OF cnt] m R(3)[of k] show ?thesis by simp
    qed
    with release(2) show ?thesis by simp
  next
    case (purge c S w w1)
    with count_purge[OF q(2) purge(4,5) k] cnt show ?thesis by simp
  next
    case (uncounted w w1 S)
    with count_uncounted cnt show ?thesis by simp
  qed
qed

lemma kv_sys_inv_reachable:
  assumes "kv_sequential kv txn store" and "tree_service kv store" and "finite C" and "card C + 1 < 2 ^ 64"
    and "(kv_sys_step kv txn store C)\<^sup>*\<^sup>* x y" and "kv_sys_inv store C x"
  shows "kv_sys_inv store C y"
  using assms(5,6) by (induction rule: rtranclp_induct) (auto intro: kv_sys_inv_step[OF assms(1-4)])

end
