(* ===== verification/KV_Properties.thy ===== *)
theory KV_Properties
  imports KV_Refcount
begin

text \<open>
  The properties of the ConsulKV operations: the counter of every key over whole runs, atomicity of
  writes and releases when other clients use Consul, the claims recorded in the statuses for any
  outcome, and the scope of the purge. The witnesses run the code on the in-memory stores.
\<close>

subsection \<open>Runs on one Consul\<close>

lemma plain_tree_service: "tree_service plain_kv_client plain_view"
  by (auto simp: tree_service_def plain_kv_client_def plain_view_def mem_tree_def)

text \<open>
  C1. The reference counter, under the conditions the code needs. Consul is used by one operation at a time and its
  calls may fail, a failed call having no effect. It starts with Flags 0 on every key and with resources
  without statuses, and runs any sequence of: reconciles that store their statuses, ending with or
  without errors of Consul (where a failed release of removed keys asks for statuses without duplicate keys);
  releases on deletion, complete or failed; completed purges of resources, when no other resource owns a key
  that is purged; and writes of other clients to keys of Flags 0. Then the Flags of every
  key are the number of resources whose statuses own it, and a key that some resource owns exists.
\<close>

theorem kv_flags_count_owners:
  assumes "kv_sequential kv txn store" and "tree_service kv store" and "finite C" and "card C + 1 < 2 ^ 64"
    and "\<And>k p. store w0 k = Some p \<Longrightarrow> pair_Flags p = 0"
    and "(kv_sys_step kv txn store C)\<^sup>*\<^sup>* (w0, \<lambda>_. []) (w, S)" and "k \<noteq> []"
  shows "case store w k of None \<Rightarrow> key_owners S k = {} | Some p \<Rightarrow> unat (pair_Flags p) = card (key_owners S k)"
proof -
  have "kv_sys_inv store C (w0, \<lambda>_. [])"
    using assms(5) by (auto simp: kv_sys_inv_def key_owners_def statusOwnedKeys_def count_ok_def content_def
        split: option.splits)
  from kv_sys_inv_reachable[OF assms(1-4,6) this] \<open>k \<noteq> []\<close>
  have "key_owners S k \<subseteq> C" "count_ok (content (store w) k) (card (key_owners S k))"
    by (auto simp: kv_sys_inv_def)
  then show ?thesis using finite_subset[OF _ assms(3)]
    by (auto simp: count_ok_def content_def split: option.splits)
qed

definition demo_entry :: ConsulKVEntry where
  "demo_entry = \<lparr>entry_Key = ''app/a'', entry_Value = ''1''\<rparr>"

text \<open>One reconcile of a resource that declares one key, on the store without versions.\<close>

lemma demo_reconcile:
  fixes w :: store and S :: "nat \<Rightarrow> ConsulKVEntryStatus list"
  assumes "w = Map.empty" and "S = (\<lambda>_. [])"
  shows "\<exists>w1. kv_sys_step plain_kv_client plain_txn_client plain_view {0} (w, S)
    (w1, S(0 := [\<lparr>st_Key = ''app/a'', st_Status = ''synced'', st_Owned = True\<rparr>]))"
proof -
  obtain w1 where ap: "applyKVEntries plain_kv_client plain_txn_client [demo_entry] (statusOwnedKeys (S 0)) w =
      (([\<lparr>st_Key = ''app/a'', st_Status = ''synced'', st_Owned = True\<rparr>], None), w1)"
  proof -
    have "fst (applyKVEntries plain_kv_client plain_txn_client [demo_entry] (statusOwnedKeys []) Map.empty) =
      ([\<lparr>st_Key = ''app/a'', st_Status = ''synced'', st_Owned = True\<rparr>], None)" by code_simp
    then show thesis using that assms by (metis prod.collapse)
  qed
  have rm: "deleteRemovedEntries plain_kv_client plain_txn_client (S 0) [demo_entry] w1 = ((None, {}), w1)"
    by (simp add: assms deleteRemovedEntries_def removedEntries_def ownedStatusKeys_def deleteKVBatch_def
        deleteKVBatch_loop.simps)
  have "mergeKVStatuses (S 0) [\<lparr>st_Key = ''app/a'', st_Status = ''synced'', st_Owned = True\<rparr>] {} =
      [\<lparr>st_Key = ''app/a'', st_Status = ''synced'', st_Owned = True\<rparr>]"
    unfolding assms(2) by code_simp
  with kv_sys_step.reconcile[where c = 0 and C = "{0}" and S = S and store = plain_view, OF _ ap rm] show ?thesis by auto
qed

theorem kv_flags_count_owners_witness:
  "\<exists>w S. (kv_sys_step plain_kv_client plain_txn_client plain_view {0::nat})\<^sup>*\<^sup>* (Map.empty, \<lambda>_. []) (w, S) \<and>
     key_owners S ''app/a'' = {0} \<and>
     (\<exists>p. plain_view w ''app/a'' = Some p \<and> unat (pair_Flags p) = 1)"
proof -
  let ?S = "(\<lambda>_. [])(0::nat := [\<lparr>st_Key = ''app/a'', st_Status = ''synced'', st_Owned = True\<rparr>])"
  obtain w where "kv_sys_step plain_kv_client plain_txn_client plain_view {0::nat} (Map.empty, \<lambda>_. []) (w, ?S)"
    using demo_reconcile[OF refl refl] by blast
  then have run: "(kv_sys_step plain_kv_client plain_txn_client plain_view {0::nat})\<^sup>*\<^sup>* (Map.empty, \<lambda>_. []) (w, ?S)"
    by blast
  have own: "key_owners ?S ''app/a'' = {0}" by (auto simp: key_owners_def statusOwnedKeys_def)
  have "case plain_view w ''app/a'' of None \<Rightarrow> key_owners ?S ''app/a'' = {}
      | Some p \<Rightarrow> unat (pair_Flags p) = card (key_owners ?S ''app/a'')"
    by (rule kv_flags_count_owners[OF plain_kv_sequential plain_tree_service _ _ _ run]) (auto simp: plain_view_def)
  then have "\<exists>p. plain_view w ''app/a'' = Some p \<and> unat (pair_Flags p) = 1"
    unfolding own by (auto split: option.splits)
  with run own show ?thesis by blast
qed

text \<open>
  A key with Flags 0, created by someone else, survives every reconcile and every release of a
  resource that does not own it: it still exists afterwards, keeps Flags 0, is owned by no resource,
  and its value changes only when the resource declares it.
\<close>

theorem kv_external_key_kept:
  assumes q: "kv_quiet kv txn store" and ap: "applyKVEntries kv txn es (statusOwnedKeys sts) w = ((updated, applyErr), w1)"
    and rm: "deleteRemovedEntries kv txn sts es w1 = ((removeErr, cleaned), w2)"
    and k: "k \<noteq> []" "\<not> statusOwnedKeys sts k" "content (store w) k = Some (v, 0)"
  shows "\<exists>v'. content (store w2) k = Some (v', 0) \<and> (k \<notin> entry_Key ` set es \<longrightarrow> v' = v) \<and>
    \<not> statusOwnedKeys (mergeKVStatuses sts updated cleaned) k"
  using reconcile_key[OF q ap rm k(1)] k(2,3) by (auto split: if_splits)

theorem kv_external_key_kept_witness:
  "\<exists>w2 v'. content (plain_view w2) ''app/a'' = Some (v', 0) \<and>
     \<not> statusOwnedKeys [\<lparr>st_Key = ''app/a'', st_Status = ''synced (not owned: pre-existing key)'', st_Owned = False\<rparr>] ''app/a''"
proof -
  define w :: store where
    "w = [''app/a'' \<mapsto> \<lparr>pair_Key = ''app/a'', pair_Value = ''x'', pair_Flags = 0, pair_ModifyIndex = 1\<rparr>]"
  let ?u = "[\<lparr>st_Key = ''app/a'', st_Status = ''synced (not owned: pre-existing key)'', st_Owned = False\<rparr>]"
  have "fst (applyKVEntries plain_kv_client plain_txn_client [demo_entry] (statusOwnedKeys []) w) = (?u, None)"
    unfolding w_def by code_simp
  then obtain w1 where ap: "applyKVEntries plain_kv_client plain_txn_client [demo_entry] (statusOwnedKeys []) w = ((?u, None), w1)"
    by (metis prod.collapse)
  have rm: "deleteRemovedEntries plain_kv_client plain_txn_client [] [demo_entry] w1 = ((None, {}), w1)"
    by (simp add: deleteRemovedEntries_def removedEntries_def ownedStatusKeys_def deleteKVBatch_def deleteKVBatch_loop.simps)
  have m: "mergeKVStatuses [] ?u {} = ?u" by code_simp
  have "content (plain_view w) ''app/a'' = Some (''x'', 0)" by (simp add: w_def plain_view_def content_def)
  then have "\<exists>v'. content (plain_view w1) ''app/a'' = Some (v', 0) \<and>
      (''app/a'' \<notin> entry_Key ` set [demo_entry] \<longrightarrow> v' = ''x'') \<and>
      \<not> statusOwnedKeys (mergeKVStatuses [] ?u {}) ''app/a''"
    by (intro kv_external_key_kept[OF plain_kv_quiet ap rm]) (simp_all add: statusOwnedKeys_def)
  then show ?thesis unfolding m by blast
qed

subsection \<open>Writes and releases while other clients use Consul\<close>

text \<open>
  What the status of one entry promises after \<open>applyKVEntries\<close>: an empty key and an earlier duplicate are reported
  and not owned; the last entry of a key either was written at one instant of the call, and the status
  tells the ownership computed from the state of that instant, or it reports the error and keeps the
  ownership from before.
\<close>

definition status_promise ::
  "('w \<Rightarrow> store) \<Rightarrow> ('w \<Rightarrow> 'w \<Rightarrow> bool) \<Rightarrow> (string \<Rightarrow> bool) \<Rightarrow> ConsulKVEntry list \<Rightarrow> goerror option \<Rightarrow> 'w \<Rightarrow> 'w \<Rightarrow>
   nat \<Rightarrow> ConsulKVEntry \<Rightarrow> ConsulKVEntryStatus \<Rightarrow> bool"
where
  "status_promise store later ok es err w w' i e st \<longleftrightarrow>
     st_Key st = entry_Key e \<and>
     (if entry_Key e = [] then st_Status st = ''error: key must not be empty'' \<and> \<not> st_Owned st
      else if lastIndex es (entry_Key e) \<noteq> Some i then st_Status st = statusSkippedDuplicate \<and> \<not> st_Owned st
      else written_at store later ok (valid_entries es) w w' e (st_Owned st) \<and>
             st_Status st = (if st_Owned st then ''synced'' else ''synced (not owned: pre-existing key)'') \<or>
           (\<exists>x. err = Some x \<and> st_Status st = ''error: '' @ Error x \<and> st_Owned st = ok (entry_Key e)))"

text \<open>
  C4. On a Consul that other clients use at the same time, every status that \<open>applyKVEntries\<close> returns is true: a
  synced entry was applied atomically from the state of its key at one instant of the call (checks
  and retries included), and an entry that is not written keeps its ownership and reports the error.
\<close>

theorem kv_apply_statuses_true:
  assumes svc: "kv_service kv txn store later winv" and "winv w"
    and run: "applyKVEntries kv txn es ok w = ((sts, err), w')"
  shows "length sts = length es \<and> (\<forall>i < length es. status_promise store later ok es err w w' i (es ! i) (sts ! i))"
proof (rule applyKVEntries_result[OF run])
  fix owned
  assume b: "writeKVBatchWithOwnership kv txn ok (valid_entries es) w = ((err, owned), w')"
    and len: "length sts = length es"
    and st: "\<And>i. i < length es \<Longrightarrow> sts ! i = entry_status es ok err owned i (es ! i)"
  obtain d rest where d: "valid_entries es = d @ rest" "err = None \<longrightarrow> rest = []"
    and prog: "write_progress store later winv ok (valid_entries es) w d owned w'"
    using writeKVBatch_progress[OF svc distinct_valid_entries \<open>winv w\<close> b] by blast
  have dom: "dom owned = entry_Key ` set d" using prog by (simp add: write_progress_def)
  have "status_promise store later ok es err w w' i (es ! i) (sts ! i)" if i: "i < length es" for i
  proof (cases "entry_Key (es ! i) \<noteq> [] \<and> lastIndex es (entry_Key (es ! i)) = Some i")
    case False
    then show ?thesis by (auto simp: status_promise_def st[OF i] entry_status_def)
  next
    case True
    with i have v: "es ! i \<in> set (valid_entries es)" by (auto simp: in_valid_entries)
    show ?thesis
    proof (cases "owned (entry_Key (es ! i))")
      case None
      then have "es ! i \<notin> set d" using dom by blast
      with d v obtain x where "err = Some x" by (cases err) auto
      with True None show ?thesis by (simp add: status_promise_def st[OF i] entry_status_def)
    next
      case (Some b)
      then have "entry_Key (es ! i) \<in> entry_Key ` set d" using dom by blast
      then obtain e where e: "e \<in> set d" "entry_Key e = entry_Key (es ! i)" by auto
      have "e = es ! i"
        using distinct_valid_entries[of es] e v d(1) by (auto simp: distinct_map dest: inj_onD)
      with prog e(1) Some have "written_at store later ok (valid_entries es) w w' (es ! i) b"
        by (auto simp: write_progress_def)
      with True Some show ?thesis by (simp add: status_promise_def st[OF i] entry_status_def)
    qed
  qed
  with len show ?thesis by blast
qed

theorem kv_apply_statuses_true_witness:
  "mem_inv (Map.empty, 0) \<and>
   (\<exists>w'. snd (applyKVEntries mem_kv_client mem_txn_client [demo_entry] (\<lambda>_. False) (Map.empty, 0)) = w' \<and>
     written_at fst mem_later (\<lambda>_. False) [demo_entry] (Map.empty, 0) w' demo_entry True)"
proof -
  have inv: "mem_inv (Map.empty, 0)" by (simp add: mem_inv_def)
  have f: "fst (applyKVEntries mem_kv_client mem_txn_client [demo_entry] (\<lambda>_. False) (Map.empty, 0)) =
      ([\<lparr>st_Key = ''app/a'', st_Status = ''synced'', st_Owned = True\<rparr>], None)" by code_simp
  then obtain w' where run: "applyKVEntries mem_kv_client mem_txn_client [demo_entry] (\<lambda>_. False) (Map.empty, 0) =
      (([\<lparr>st_Key = ''app/a'', st_Status = ''synced'', st_Owned = True\<rparr>], None), w')"
    by (metis prod.collapse)
  have v: "valid_entries [demo_entry] = [demo_entry]" "lastIndex [demo_entry] ''app/a'' = Some 0" by code_simp+
  have k: "entry_Key demo_entry = ''app/a''" by (simp add: demo_entry_def)
  have "written_at fst mem_later (\<lambda>_. False) [demo_entry] (Map.empty, 0) w' demo_entry True"
    using kv_apply_statuses_true[OF mem_kv_service inv run] by (auto simp: status_promise_def k v)
  with inv run show ?thesis by simp
qed

text \<open>
  C5. On a Consul that other clients use at the same time, \<open>deleteKVEntries\<close> writes to Consul only by transactions on keys that
  the statuses own, and stops at the first that is answered with an error. No key is changed by two
  committed operations. The keys it reports are exactly those of a prefix of the owned keys, all of them when there
  is no error: each of them was either absent at an instant of the call and not touched, or changed by one operation,
  which takes the counter that the key had at that instant down by one, and deletes the key when there is no other
  owner. Recording the reported keys with \<open>markReleased\<close> leaves exactly the others to the retry.
\<close>

theorem kv_release_exact:
  assumes svc: "kv_service kv txn store later winv" and "winv w"
    and run: "deleteKVEntries (logged_kv kv) (logged_txn txn) sts (w, []) = ((err, released), (w', calls))"
  shows "\<exists>d rest. ownedStatusKeys sts = d @ rest \<and> released = set d \<and> distinct (d @ rest) \<and> (err = None \<longrightarrow> rest = []) \<and>
    ownedStatusKeys (markReleased sts released) = rest \<and>
    list_all (txn_on (ownedStatusKeys sts)) calls \<and> \<not> list_ex call_failed (butlast calls) \<and>
    distinct (map op_Key (committed calls)) \<and> op_Key ` set (committed calls) \<subseteq> set d \<and>
    (\<forall>k \<in> set d. key_released store later (committed calls) w w' k)"
proof -
  obtain d rest where d: "ownedStatusKeys sts = d @ rest" "err = None \<longrightarrow> rest = []"
    and prog: "release_progress store later winv (ownedStatusKeys sts) w d released (w', calls)"
    and fail: "\<not> list_ex call_failed (butlast calls)"
    using deleteKVBatch_progress[OF svc distinct_ownedStatusKeys \<open>winv w\<close> run[unfolded deleteKVEntries_def], unfolded snd_conv]
    by blast
  have dist: "distinct (d @ rest)" using distinct_ownedStatusKeys[of sts] d(1) by simp
  moreover from this have "filter (\<lambda>k. k \<notin> set d) (d @ rest) = rest" by (auto simp: filter_id_conv)
  ultimately show ?thesis
    using d prog fail by (auto simp: release_progress_def ownedStatusKeys_markReleased)
qed

definition owned_demo :: "ConsulKVEntryStatus list" where
  "owned_demo = [\<lparr>st_Key = ''app/a'', st_Status = ''synced'', st_Owned = True\<rparr>]"

text \<open>A key with two owners, of which one is released.\<close>

definition two_owners :: mem_kv where
  "two_owners = ([''app/a'' \<mapsto> \<lparr>pair_Key = ''app/a'', pair_Value = ''1'', pair_Flags = 2, pair_ModifyIndex = 1\<rparr>], 1)"

theorem kv_release_exact_witness:
  "\<exists>w' calls. deleteKVEntries (logged_kv mem_kv_client) (logged_txn mem_txn_client) owned_demo (two_owners, []) =
       ((None, {''app/a''}), (w', calls)) \<and>
     map (\<lambda>q. (op_Verb q, op_Key q, op_Flags q)) (committed calls) = [(KVCAS, ''app/a'', 1)] \<and>
     key_released fst mem_later (committed calls) two_owners w' ''app/a''"
proof -
  have inv: "mem_inv two_owners" by (auto simp: mem_inv_def two_owners_def split: if_splits)
  have k: "ownedStatusKeys owned_demo = [''app/a'']" by code_simp
  let ?r = "deleteKVEntries (logged_kv mem_kv_client) (logged_txn mem_txn_client) owned_demo (two_owners, [])"
  have "fst ?r = (None, {''app/a''})" by code_simp
  then obtain w' calls where run: "?r = ((None, {''app/a''}), (w', calls))" by (metis prod.collapse)
  have "map (\<lambda>q. (op_Verb q, op_Key q, op_Flags q)) (committed (snd (snd ?r))) = [(KVCAS, ''app/a'', 1)]" by code_simp
  then have c: "map (\<lambda>q. (op_Verb q, op_Key q, op_Flags q)) (committed calls) = [(KVCAS, ''app/a'', 1)]" unfolding run by simp
  from kv_release_exact[OF mem_kv_service inv run] have "key_released fst mem_later (committed calls) two_owners w' ''app/a''"
    by (auto simp: k Cons_eq_append_conv)
  with run c show ?thesis by (intro exI conjI)
qed

subsection \<open>The recorded claims, for any outcome\<close>

text \<open>
  C6. Whatever Consul answers (errors, conflicts, wrong data), a key that a resource owned before a
  reconcile and still declares is owned in the merged statuses, and an owned key that is no longer
  declared stays owned unless its release was committed, provided no key has several statuses.
\<close>

theorem kv_claims_never_lost:
  assumes ap: "applyKVEntries kv txn es (statusOwnedKeys sts) w = ((updated, applyErr), w1)"
    and k: "k \<noteq> []" "statusOwnedKeys sts k" and one: "distinct (map st_Key sts)"
  shows "statusOwnedKeys (mergeKVStatuses sts updated cleaned) k \<longleftrightarrow> k \<in> entry_Key ` set es \<or> k \<notin> cleaned"
proof (rule applyKVEntries_result[OF ap])
  fix owned
  assume b: "writeKVBatchWithOwnership kv txn (statusOwnedKeys sts) (valid_entries es) w = ((applyErr, owned), w1)"
  from writeKVBatch_claims[OF b] k(2) have "owned k \<noteq> Some False" by (auto simp: claims_kept_def)
  then have "statusOwnedKeys updated k \<longleftrightarrow> k \<in> entry_Key ` set es"
    using statusOwnedKeys_apply[OF ap b, of k] k by (auto split: option.splits)
  moreover have "st_Key ` set updated = entry_Key ` set es"
    using arg_cong[OF applyKVEntries_keys[OF ap], of set] by simp
  ultimately show ?thesis
    using k(2) first_owned_distinct[OF one, of k] by (simp add: statusOwnedKeys_merge)
qed

text \<open>A Consul that is not reachable: every call fails.\<close>

definition down_kv_client :: "unit consulKVClient" where
  "down_kv_client =
     \<lparr>kv_Get = (\<lambda>k w. (Inl (NetError ''refused''), w)), kv_Put = (\<lambda>p w. (Inl (NetError ''refused''), w)), kv_CAS = (\<lambda>p w. (Inl (NetError ''refused''), w)),
      kv_Delete = (\<lambda>k w. (Inl (NetError ''refused''), w)), kv_DeleteCAS = (\<lambda>p w. (Inl (NetError ''refused''), w)),
      kv_DeleteTree = (\<lambda>p w. (Inl (NetError ''refused''), w))\<rparr>"

definition down_txn_client :: "unit consulTxnClient" where
  "down_txn_client = \<lparr>txn_Txn = (\<lambda>ops w. (Inl (NetError ''refused''), w))\<rparr>"

theorem kv_claims_never_lost_witness:
  "\<exists>updated err. applyKVEntries down_kv_client down_txn_client [demo_entry] (statusOwnedKeys owned_demo) () =
       ((updated, Some err), ()) \<and>
     statusOwnedKeys (mergeKVStatuses owned_demo updated {}) ''app/a''"
proof -
  obtain updated err where ap: "applyKVEntries down_kv_client down_txn_client [demo_entry]
      (statusOwnedKeys owned_demo) () = ((updated, err), ())" by (metis old.unit.exhaust prod.collapse)
  have "snd (fst (applyKVEntries down_kv_client down_txn_client [demo_entry] (statusOwnedKeys owned_demo) ())) \<noteq> None"
    by code_simp
  with ap obtain e where e: "err = Some e" by auto
  have "statusOwnedKeys (mergeKVStatuses owned_demo updated {}) ''app/a'' \<longleftrightarrow>
      ''app/a'' \<in> entry_Key ` set [demo_entry] \<or> ''app/a'' \<notin> {}"
    by (rule kv_claims_never_lost[OF ap]) (simp_all add: owned_demo_def statusOwnedKeys_def)
  with ap e show ?thesis by auto
qed

text \<open>Without an error the statuses are determined by the entries and the ownership.\<close>

lemma apply_statuses_canonical:
  assumes ap: "applyKVEntries kv txn es ok w = ((sts, None), w')" and i: "i < length es"
  shows "sts ! i = entry_status es (\<lambda>_. False) None (\<lambda>k. Some (statusOwnedKeys sts k)) i (es ! i)"
proof (rule applyKVEntries_result[OF ap])
  fix owned
  assume b: "writeKVBatchWithOwnership kv txn ok (valid_entries es) w = ((None, owned), w')"
    and st: "\<And>i. i < length es \<Longrightarrow> sts ! i = entry_status es ok None owned i (es ! i)"
  have "dom owned = entry_Key ` set (valid_entries es)"
    using writeKVBatch_claims[OF b] by (auto simp: claims_kept_def)
  moreover have "es ! i \<in> set (valid_entries es)"
    if "entry_Key (es ! i) \<noteq> []" "lastIndex es (entry_Key (es ! i)) = Some i"
    using that i by (auto simp: in_valid_entries)
  ultimately have "\<exists>b. owned (entry_Key (es ! i)) = Some b"
    if "entry_Key (es ! i) \<noteq> []" "lastIndex es (entry_Key (es ! i)) = Some i"
    using that by (metis domD imageI)
  moreover have "entry_Key (es ! i) \<in> entry_Key ` set es" using i by auto
  ultimately show ?thesis
    using statusOwnedKeys_apply[OF ap b, of "entry_Key (es ! i)"] unfolding st[OF i]
    by (auto simp: entry_status_def)
qed

lemma write_target_again: "write_target (snd (write_target b v c)) v (Some (fst (write_target b v c))) = write_target b v c"
  by (cases "(b, v, c)" rule: write_target.cases) auto

text \<open>
  C14. Reconciling again is harmless: without other writers, applying the same entries a second time, with
  the ownership that the first time recorded, changes no value and no counter and returns the same
  statuses, whatever duplicates and empty keys the entries have.
\<close>

theorem kv_apply_idempotent:
  assumes q: "kv_quiet kv txn store"
    and ap1: "applyKVEntries kv txn es ok w = ((sts1, err1), w1)"
    and ap2: "applyKVEntries kv txn es (statusOwnedKeys sts1) w1 = ((sts2, err2), w2)"
  shows "sts2 = sts1 \<and> err1 = None \<and> err2 = None \<and> content (store w2) = content (store w1)"
proof -
  note A = applyKVEntries_quiet[OF q ap1] and B = applyKVEntries_quiet[OF q ap2]
  have e: "err1 = None" "err2 = None" by (rule A(1), rule B(1))
  have key: "content (store w2) k = content (store w1) k \<and> statusOwnedKeys sts2 k = statusOwnedKeys sts1 k" for k
  proof (cases "k \<noteq> [] \<and> k \<in> entry_Key ` set es")
    case True
    then obtain i where i: "lastIndex es k = Some i"
      and a: "content (store w1) k = Some (fst (write_target (ok k) (entry_Value (es ! i)) (content (store w) k)))"
        "statusOwnedKeys sts1 k = snd (write_target (ok k) (entry_Value (es ! i)) (content (store w) k))"
      using A(2)[of k] by blast
    from True obtain j where "lastIndex es k = Some j"
      and b: "content (store w2) k = Some (fst (write_target (statusOwnedKeys sts1 k) (entry_Value (es ! j)) (content (store w1) k)))"
        "statusOwnedKeys sts2 k = snd (write_target (statusOwnedKeys sts1 k) (entry_Value (es ! j)) (content (store w1) k))"
      using B(2)[of k] by blast
    with i have "j = i" by simp
    with a b show ?thesis by (simp add: write_target_again)
  next
    case False
    then show ?thesis using A(3)[of k] B(3)[of k] by (auto simp: content_def)
  qed
  have len: "length sts1 = length es" "length sts2 = length es"
    using arg_cong[OF applyKVEntries_keys[OF ap1], of length] arg_cong[OF applyKVEntries_keys[OF ap2], of length]
    by simp_all
  have "sts2 = sts1"
  proof (rule nth_equalityI)
    show "length sts2 = length sts1" using len by simp
    fix i
    assume "i < length sts2"
    with len have i: "i < length es" by simp
    have "statusOwnedKeys sts2 = statusOwnedKeys sts1" using key by blast
    with apply_statuses_canonical[OF ap1[unfolded e] i] apply_statuses_canonical[OF ap2[unfolded e] i]
    show "sts2 ! i = sts1 ! i" by simp
  qed
  moreover have "content (store w2) = content (store w1)" using key by blast
  ultimately show ?thesis using e by blast
qed

theorem kv_apply_idempotent_witness:
  "\<exists>sts w1 w2. applyKVEntries plain_kv_client plain_txn_client [demo_entry] (\<lambda>_. False) Map.empty = ((sts, None), w1) \<and>
     applyKVEntries plain_kv_client plain_txn_client [demo_entry] (statusOwnedKeys sts) w1 = ((sts, None), w2) \<and>
     content (plain_view w2) = content (plain_view w1)"
proof -
  obtain sts1 err1 w1 where 1: "applyKVEntries plain_kv_client plain_txn_client [demo_entry] (\<lambda>_. False) Map.empty =
      ((sts1, err1), w1)" by (metis prod.collapse)
  obtain sts2 err2 w2 where 2: "applyKVEntries plain_kv_client plain_txn_client [demo_entry] (statusOwnedKeys sts1) w1 =
      ((sts2, err2), w2)" by (metis prod.collapse)
  from kv_apply_idempotent[OF plain_kv_quiet 1 2] 1 2 show ?thesis by blast
qed

text \<open>
  C17. \<open>mergeKVStatuses\<close> returns one group of statuses per key, the keys of the existing statuses first and in their
  order, then the new keys in the order of the spec; a declared key has exactly its updated statuses,
  any other key one status that says it was removed.
\<close>

theorem kv_merge_groups:
  "mergeKVStatuses existing updated cleaned =
     concat (map (merged_group existing updated cleaned)
       (first_keys existing {} @ first_keys updated (st_Key ` set existing))) \<and>
   distinct (first_keys existing {} @ first_keys updated (st_Key ` set existing)) \<and>
   set (first_keys existing {} @ first_keys updated (st_Key ` set existing)) =
     st_Key ` set existing \<union> st_Key ` set updated"
  by (auto simp: mergeKVStatuses_eq distinct_first_keys set_first_keys)

subsection \<open>The purge\<close>

text \<open>
  C15. With \<open>purgeOnDelete\<close>, \<open>deleteKVTree\<close> removes nothing but the keys of the statuses and the keys below them, a key
  that only shares the prefix being kept, for any outcome of the calls; without an error all of them
  are gone.
\<close>

theorem kv_purge_scope:
  assumes "tree_service kv store" and "deleteKVTree kv sts w = (err, w')"
  shows "(\<forall>x. store w' x \<noteq> store w x \<longrightarrow> store w' x = None \<and> (\<exists>e \<in> set sts. st_Key e \<noteq> [] \<and> purge_covers (st_Key e) x)) \<and>
    (err = None \<longrightarrow> (\<forall>e \<in> set sts. st_Key e \<noteq> [] \<longrightarrow> (\<forall>x. purge_covers (st_Key e) x \<longrightarrow> store w' x = None)))"
proof -
  have P: "purge_step store (st_Key ` set sts - {} - {[]}) None w err w'"
    by (rule deleteKVTree_loop_spec[OF assms(1) assms(2)[unfolded deleteKVTree_def]])
  have "store w' x = None \<and> (\<exists>e \<in> set sts. st_Key e \<noteq> [] \<and> purge_covers (st_Key e) x)"
    if "store w' x \<noteq> store w x" for x
    using P that unfolding purge_step_def by blast
  moreover have "store w' x = None" if "err = None" "e \<in> set sts" "st_Key e \<noteq> []" "purge_covers (st_Key e) x" for e x
    using P that unfolding purge_step_def by blast
  ultimately show ?thesis by blast
qed

definition purge_demo :: store where
  "purge_demo = (\<lambda>k. if k \<in> {''config/app'', ''config/app/x'', ''config/application''}
     then Some \<lparr>pair_Key = k, pair_Value = ''v'', pair_Flags = 1, pair_ModifyIndex = 1\<rparr> else None)"

theorem kv_purge_scope_witness:
  "\<exists>w'. deleteKVTree plain_kv_client [\<lparr>st_Key = ''config/app'', st_Status = ''synced'', st_Owned = True\<rparr>]
       purge_demo = (None, w') \<and>
     plain_view w' ''config/app/x'' = None \<and> plain_view w' ''config/application'' \<noteq> None"
proof -
  let ?sts = "[\<lparr>st_Key = ''config/app'', st_Status = ''synced'', st_Owned = True\<rparr>]"
  have "fst (deleteKVTree plain_kv_client ?sts purge_demo) = None" by code_simp
  then obtain w' where run: "deleteKVTree plain_kv_client ?sts purge_demo = (None, w')" by (metis prod.collapse)
  have c: "purge_covers ''config/app'' ''config/app/x''" "\<not> purge_covers ''config/app'' ''config/application''"
    by (simp_all add: purge_covers_def strings_HasSuffix_def suffix_def)
  have p: "plain_view purge_demo ''config/application'' \<noteq> None" by (simp add: plain_view_def purge_demo_def)
  note P = kv_purge_scope[OF plain_tree_service run, simplified]
  have "plain_view w' ''config/app/x'' = None" using P c(1) by blast
  moreover have "plain_view w' ''config/application'' = plain_view purge_demo ''config/application''"
    using P c(2) by blast
  ultimately have "plain_view w' ''config/app/x'' = None" "plain_view w' ''config/application'' \<noteq> None"
    using p by simp_all
  with run show ?thesis by blast
qed

subsection \<open>The transactions that are sent\<close>

text \<open>
  A client on a larger world, of which it uses the first part, and a transaction client that keeps in
  the second part the list of the transactions it was asked for.
\<close>

definition recording_kv :: "'w consulKVClient \<Rightarrow> ('w \<times> 'x) consulKVClient" where
  "recording_kv kv =
     \<lparr>kv_Get = (\<lambda>k (w, log). case kv_Get kv k w of (r, w') \<Rightarrow> (r, (w', log))),
      kv_Put = (\<lambda>p (w, log). case kv_Put kv p w of (r, w') \<Rightarrow> (r, (w', log))),
      kv_CAS = (\<lambda>p (w, log). case kv_CAS kv p w of (r, w') \<Rightarrow> (r, (w', log))),
      kv_Delete = (\<lambda>k (w, log). case kv_Delete kv k w of (r, w') \<Rightarrow> (r, (w', log))),
      kv_DeleteCAS = (\<lambda>p (w, log). case kv_DeleteCAS kv p w of (r, w') \<Rightarrow> (r, (w', log))),
      kv_DeleteTree = (\<lambda>p (w, log). case kv_DeleteTree kv p w of (r, w') \<Rightarrow> (r, (w', log)))\<rparr>"

definition recording_txn :: "'w consulTxnClient \<Rightarrow> ('w \<times> KVTxnOp list list) consulTxnClient" where
  "recording_txn txn =
     \<lparr>txn_Txn = (\<lambda>ops (w, log). case txn_Txn txn ops w of (r, w') \<Rightarrow> (r, (w', log @ [ops])))\<rparr>"

text \<open>A transaction Consul accepts the shape of: few operations, and no key twice or empty.\<close>

definition txn_fits :: "KVTxnOp list \<Rightarrow> bool" where
  "txn_fits ops \<longleftrightarrow> length ops \<le> 64 \<and> distinct (map op_Key ops) \<and> [] \<notin> set (map op_Key ops)"

lemma recording_Get:
  assumes "kv_Get (recording_kv kv) k x = (r, y)"
  shows "snd y = snd x"
  using assms by (auto simp: recording_kv_def split: prod.splits)

lemma recording_Txn:
  assumes "txn_Txn (recording_txn txn) ops x = (r, y)"
  shows "snd y = snd x @ [ops]"
  using assms by (auto simp: recording_txn_def split: prod.splits)

lemma writeKVChunk_ops_recording:
  "writeKVChunk_ops (recording_kv kv) ok es x = (r, y) \<Longrightarrow>
     snd y = snd x \<and> (\<forall>ops. r = Inr ops \<longrightarrow> map (op_Key \<circ> fst) ops = map entry_Key es)"
proof (induction es arbitrary: x r y)
  case Nil
  then show ?case by auto
next
  case (Cons e es)
  obtain g x1 where g: "kv_Get (recording_kv kv) (entry_Key e) x = (g, x1)" by (rule prod.exhaust)
  obtain r' x2 where rec: "writeKVChunk_ops (recording_kv kv) ok es x1 = (r', x2)" by (rule prod.exhaust)
  from Cons.IH[OF rec] Cons.prems g rec recording_Get[OF g] show ?case
    by (cases g; cases r') (auto simp: split_beta Let_def)
qed

lemma deleteKVChunk_ops_recording:
  "deleteKVChunk_ops (recording_kv kv) keys x = (r, y) \<Longrightarrow>
     snd y = snd x \<and> (\<forall>ops. r = Inr ops \<longrightarrow> subseq (map op_Key ops) keys)"
proof (induction keys arbitrary: x r y)
  case Nil
  then show ?case by auto
next
  case (Cons k keys)
  obtain g x1 where g: "kv_Get (recording_kv kv) k x = (g, x1)" by (rule prod.exhaust)
  obtain r' x2 where rec: "deleteKVChunk_ops (recording_kv kv) keys x1 = (r', x2)" by (rule prod.exhaust)
  from Cons.IH[OF rec] Cons.prems g rec recording_Get[OF g] show ?case
    by (cases g; cases r') (auto simp: subseq_Cons' split: option.splits if_splits)
qed

lemma writeKVChunk_loop_recording:
  assumes dist: "distinct (map entry_Key es)" and len: "length es \<le> 64" and ne: "[] \<notin> entry_Key ` set es"
  shows "writeKVChunk_loop n (recording_kv kv) (recording_txn txn) ok es owned x = (r, y) \<Longrightarrow>
    Ball (set (snd x)) txn_fits \<Longrightarrow> Ball (set (snd y)) txn_fits"
proof (induction n arbitrary: x)
  case 0
  then show ?case by auto
next
  case (Suc n)
  obtain g x1 where g: "writeKVChunk_ops (recording_kv kv) ok es x = (g, x1)" by (rule prod.exhaust)
  note G = writeKVChunk_ops_recording[OF g]
  show ?case
  proof (cases g)
    case (Inl e)
    with Suc.prems g G show ?thesis by auto
  next
    case (Inr ops)
    obtain t x2 where t: "txn_Txn (recording_txn txn) (map fst ops) x1 = (t, x2)" by (rule prod.exhaust)
    have keys: "map op_Key (map fst ops) = map entry_Key es" using G Inr by simp
    have "txn_fits (map fst ops)"
      unfolding txn_fits_def keys using dist len ne arg_cong[OF keys, of length] by simp
    then have "Ball (set (snd x2)) txn_fits" using recording_Txn[OF t] G Suc.prems(2) by auto
    with Suc.IH[of x2] Suc.prems(1) g Inr t show ?thesis
      by (cases t) (auto split: if_splits)
  qed
qed

lemma subseq_distinct: "subseq xs ys \<Longrightarrow> distinct ys \<Longrightarrow> distinct xs"
  by (auto simp: subseq_conv_nths intro: distinct_nthsI)

lemma subseq_subset: "subseq xs ys \<Longrightarrow> set xs \<subseteq> set ys"
  by (auto simp: subseq_conv_nths dest: in_set_nthsD)

lemma deleteKVChunk_loop_recording:
  assumes dist: "distinct keys" and len: "length keys \<le> 64" and ne: "[] \<notin> set keys"
  shows "deleteKVChunk_loop n (recording_kv kv) (recording_txn txn) keys x = (r, y) \<Longrightarrow>
    Ball (set (snd x)) txn_fits \<Longrightarrow> Ball (set (snd y)) txn_fits"
proof (induction n arbitrary: x)
  case 0
  then show ?case by auto
next
  case (Suc n)
  obtain g x1 where g: "deleteKVChunk_ops (recording_kv kv) keys x = (g, x1)" by (rule prod.exhaust)
  note G = deleteKVChunk_ops_recording[OF g]
  show ?case
  proof (cases g)
    case (Inl e)
    with Suc.prems g G show ?thesis by auto
  next
    case (Inr ops)
    obtain t x2 where t: "txn_Txn (recording_txn txn) ops x1 = (t, x2)" by (rule prod.exhaust)
    have sub: "subseq (map op_Key ops) keys" using G Inr by simp
    have "txn_fits ops"
      using dist len ne list_emb_length[OF sub] subseq_distinct[OF sub] subseq_subset[OF sub]
      by (auto simp: txn_fits_def)
    then have "Ball (set (snd x2)) txn_fits" using recording_Txn[OF t] G Suc.prems(2) by auto
    with Suc.IH[of x2] Suc.prems g G Inr t show ?thesis
      by (cases t) (auto split: if_splits)
  qed
qed

lemma apply_transactions_fit:
  "Ball (set (snd (snd (applyKVEntries (recording_kv kv) (recording_txn txn) es ok (w, []))))) txn_fits"
proof -
  obtain res owned y where b: "writeKVBatchWithOwnership (recording_kv kv) (recording_txn txn) ok (valid_entries es) (w, []) =
      ((res, owned), y)" by (metis prod.collapse)
  have chunk: "Ball (set (snd y)) txn_fits"
    if "Ball (set (snd x)) txn_fits" "length c \<le> txnBatchSize" "\<exists>r. valid_entries es = d @ c @ r"
      "writeKVChunk (recording_kv kv) (recording_txn txn) ok c acc x = (r, y)" for x y c d acc r
  proof -
    have "distinct (map entry_Key c)" using distinct_valid_entries[of es] that(3) by auto
    moreover have "set c \<subseteq> set (valid_entries es)" using that(3) by auto
    then have "[] \<notin> entry_Key ` set c" using valid_entries_nonempty[of _ es] by (metis imageE subset_iff)
    moreover have "length c \<le> 64" using that(2) by (simp add: txnBatchSize_def)
    ultimately show ?thesis
      using writeKVChunk_loop_recording[OF _ _ _ that(4)[unfolded writeKVChunk_def] that(1)] by blast
  qed
  have "case res of None \<Rightarrow> Ball (set (snd y)) txn_fits | Some e \<Rightarrow> \<exists>d rest. valid_entries es = d @ rest \<and> Ball (set (snd y)) txn_fits"
    by (rule write_batch.loop_rule[where R = "\<lambda>d acc x. Ball (set (snd x)) txn_fits",
          OF _ _ _ b[unfolded writeKVBatchWithOwnership_def]])
      (rule chunk; assumption | simp)+
  then have "Ball (set (snd y)) txn_fits" by (cases res) auto
  with b show ?thesis
    by (simp add: applyKVEntries_def)
qed

lemma release_transactions_fit:
  "Ball (set (snd (snd (deleteKVEntries (recording_kv kv) (recording_txn txn) sts (w, []))))) txn_fits"
proof -
  obtain res released y where b: "deleteKVBatch (recording_kv kv) (recording_txn txn) (ownedStatusKeys sts) (w, []) =
      ((res, released), y)" by (metis prod.collapse)
  have chunk: "Ball (set (snd y)) txn_fits"
    if x: "Ball (set (snd x)) txn_fits" and len: "length c \<le> txnBatchSize"
      and ex: "\<exists>r. ownedStatusKeys sts = d @ c @ r" and run: "release_chunk (recording_kv kv) (recording_txn txn) c acc x = (r, y)" for x y c d acc r
  proof -
    obtain rest where rest: "ownedStatusKeys sts = d @ c @ rest" using ex by blast
    have "distinct c" using distinct_ownedStatusKeys[of sts] unfolding rest by simp
    moreover have "set c \<subseteq> {k. k \<noteq> [] \<and> statusOwnedKeys sts k}"
      using set_ownedStatusKeys[of sts] unfolding rest by force
    then have "[] \<notin> set c" by blast
    moreover have "length c \<le> 64" using len by (simp add: txnBatchSize_def)
    moreover obtain r' where "deleteKVChunk (recording_kv kv) (recording_txn txn) c x = (r', y)"
      using run by (auto simp: release_chunk_def split: prod.splits option.splits)
    ultimately show ?thesis
      using deleteKVChunk_loop_recording[OF _ _ _ _ x] unfolding deleteKVChunk_def by blast
  qed
  have "case res of None \<Rightarrow> Ball (set (snd y)) txn_fits | Some e \<Rightarrow> \<exists>d rest. ownedStatusKeys sts = d @ rest \<and> Ball (set (snd y)) txn_fits"
    by (rule release_batch.loop_rule[where R = "\<lambda>d acc x. Ball (set (snd x)) txn_fits",
          OF _ _ _ b[unfolded deleteKVBatch_def]])
      (rule chunk; assumption | simp)+
  then have "Ball (set (snd y)) txn_fits" by (cases res) auto
  with b show ?thesis
    by (simp add: deleteKVEntries_def)
qed

text \<open>
  C16. Whatever Consul answers, every transaction that \<open>applyKVEntries\<close> and \<open>deleteKVEntries\<close> send has at most 64
  operations, on distinct keys that are not empty, for any number of entries and any duplicates.
\<close>

theorem kv_transactions_fit:
  "list_all txn_fits (snd (snd (applyKVEntries (recording_kv kv) (recording_txn txn) es ok (w, [])))) \<and>
   list_all txn_fits (snd (snd (deleteKVEntries (recording_kv kv) (recording_txn txn) sts (w, []))))"
  unfolding list_all_iff by (intro conjI apply_transactions_fit release_transactions_fit)

subsection \<open>Where the counter and the claims disagree\<close>

text \<open>
  C18. A key that a resource owns and that someone deleted meanwhile (the purge of another resource, for
  example) is written again with Flags 0, not 1, and stays owned in the statuses; a second resource
  that declares the key then takes it for an external key and does not own it, so the release of the
  first one deletes a key that the second one declares.
\<close>

theorem kv_recreated_key_uncounted:
  assumes q: "kv_quiet kv txn store" and k: "k \<noteq> []" "k \<in> entry_Key ` set es" "k \<in> entry_Key ` set es2"
    and own: "ok k" "\<not> ok2 k" and absent: "store w k = None"
    and ap1: "applyKVEntries kv txn es ok w = ((sts1, err1), w1)"
    and ap2: "applyKVEntries kv txn es2 ok2 w1 = ((sts2, err2), w2)"
    and rel: "deleteKVEntries kv txn sts1 w2 = ((err3, released), w3)"
  shows "statusOwnedKeys sts1 k \<and> (\<exists>v. content (store w1) k = Some (v, 0)) \<and> \<not> statusOwnedKeys sts2 k \<and>
    store w2 k \<noteq> None \<and> store w3 k = None"
proof -
  have c0: "content (store w) k = None" using absent by (simp add: content_def)
  from applyKVEntries_quiet(2)[OF q ap1 k(1,2)] own(1) c0
  obtain v where c1: "content (store w1) k = Some (v, 0)" and s1: "statusOwnedKeys sts1 k" by auto
  from applyKVEntries_quiet(2)[OF q ap2 k(1,3)] own(2) c1
  obtain v2 where c2: "content (store w2) k = Some (v2, 0)" and s2: "\<not> statusOwnedKeys sts2 k" by auto
  have "content (store w3) k = None" using release_key(2)[OF q rel k(1)] s1 c2 by simp
  with c1 c2 s1 s2 show ?thesis by (auto simp: content_def)
qed

theorem kv_recreated_key_uncounted_witness:
  "\<exists>w1 w2 w3 sts1 sts2. applyKVEntries plain_kv_client plain_txn_client [demo_entry] (\<lambda>_. True) Map.empty = ((sts1, None), w1) \<and>
     applyKVEntries plain_kv_client plain_txn_client [demo_entry] (\<lambda>_. False) w1 = ((sts2, None), w2) \<and>
     plain_view w2 ''app/a'' \<noteq> None \<and> plain_view w3 ''app/a'' = None"
proof -
  obtain sts1 err1 w1 where 1: "applyKVEntries plain_kv_client plain_txn_client [demo_entry] (\<lambda>_. True) Map.empty =
      ((sts1, err1), w1)" by (metis prod.collapse)
  obtain sts2 err2 w2 where 2: "applyKVEntries plain_kv_client plain_txn_client [demo_entry] (\<lambda>_. False) w1 =
      ((sts2, err2), w2)" by (metis prod.collapse)
  obtain err3 rl w3 where 3: "deleteKVEntries plain_kv_client plain_txn_client sts1 w2 = ((err3, rl), w3)"
    by (metis prod.collapse)
  have k: "''app/a'' \<in> entry_Key ` set [demo_entry]" by (simp add: demo_entry_def)
  have "plain_view Map.empty ''app/a'' = None" by (simp add: plain_view_def)
  from kv_recreated_key_uncounted[OF plain_kv_quiet _ k k _ _ this 1 2 3]
  have "plain_view w2 ''app/a'' \<noteq> None \<and> plain_view w3 ''app/a'' = None" by simp
  moreover have "err1 = None" "err2 = None"
    using applyKVEntries_quiet(1)[OF plain_kv_quiet 1] applyKVEntries_quiet(1)[OF plain_kv_quiet 2] by simp_all
  ultimately show ?thesis using 1 2 by blast
qed

text \<open>
  The counter needs the statuses to be stored: when the update of the statuses fails after a key was
  written, the retry does not know that the resource owns the key and counts it a second time. One release
  then leaves a counter above 0, and the key is never deleted.
\<close>

theorem kv_unrecorded_claim_counted_twice:
  assumes q: "kv_quiet kv txn store" and k: "k \<noteq> []" "k \<in> entry_Key ` set es" "\<not> ok k" and absent: "store w k = None"
    and ap1: "applyKVEntries kv txn es ok w = ((sts1, err1), w1)"
    and ap2: "applyKVEntries kv txn es ok w1 = ((sts2, err2), w2)"
    and rel: "deleteKVEntries kv txn sts2 w2 = ((err3, released), w3)"
  shows "\<exists>v. content (store w2) k = Some (v, 2) \<and> content (store w3) k = Some (v, 1)"
proof -
  have "content (store w) k = None" using absent by (simp add: content_def)
  with applyKVEntries_quiet(2)[OF q ap1 k(1,2)] k(3) obtain v where "content (store w1) k = Some (v, 1)" by auto
  with applyKVEntries_quiet(2)[OF q ap2 k(1,2)] k(3) obtain v2 where "content (store w2) k = Some (v2, 2)" "statusOwnedKeys sts2 k" by auto
  with release_key(2)[OF q rel k(1)] show ?thesis by (simp add: word_le_nat_alt)
qed

text \<open>
  C19. A key that is declared twice has the statuses skipped (not owned) and synced (owned), in this order. When
  the key is removed from the spec, the merge looks at the first of them only, so the claim is lost
  even if the release of the key failed and its counter was not taken down.
\<close>

theorem kv_duplicate_claim_lost:
  assumes ap: "applyKVEntries kv txn es ok w = ((sts, err), w')"
    and twice: "i < j" "j < length es" "entry_Key (es ! i) = k" "entry_Key (es ! j) = k"
    and removed: "k \<notin> st_Key ` set updated"
  shows "\<not> statusOwnedKeys (mergeKVStatuses sts updated cleaned) k"
proof -
  have "\<not> first_owned sts k"
  proof
    assume "first_owned sts k"
    then obtain e where "find (\<lambda>e. st_Key e = k) sts = Some e" "st_Owned e"
      by (auto simp: first_owned_def split: option.splits)
    then obtain l where l: "l < length sts" "st_Key (sts ! l) = k" "st_Owned (sts ! l)"
        and first: "\<forall>m < l. st_Key (sts ! m) \<noteq> k"
      by (auto simp: find_Some_iff)
    from applyKVEntries_result[OF ap] obtain owned where len: "length sts = length es"
      and st: "\<And>i. i < length es \<Longrightarrow> sts ! i = entry_status es ok err owned i (es ! i)" by metis
    from l len st have "lastIndex es k = Some l" by (auto simp: entry_status_Owned)
    then have last: "\<forall>m. l < m \<longrightarrow> m < length es \<longrightarrow> entry_Key (es ! m) \<noteq> k" by (simp add: lastIndex_iff)
    have "\<forall>m < l. entry_Key (es ! m) \<noteq> k" using first st l(1) len by auto
    with last twice show False by (metis less_trans linorder_neqE_nat)
  qed
  then show ?thesis using removed by (simp add: statusOwnedKeys_merge)
qed

theorem kv_duplicate_claim_lost_witness:
  "\<exists>sts w'. applyKVEntries plain_kv_client plain_txn_client [demo_entry, demo_entry] (\<lambda>_. False) Map.empty = ((sts, None), w') \<and>
     statusOwnedKeys sts ''app/a'' \<and> \<not> statusOwnedKeys (mergeKVStatuses sts [] {}) ''app/a''"
proof -
  have "let r = fst (applyKVEntries plain_kv_client plain_txn_client [demo_entry, demo_entry] (\<lambda>_. False) Map.empty)
      in statusOwnedKeys (fst r) ''app/a'' \<and> snd r = None" by code_simp
  then obtain sts w' where run: "applyKVEntries plain_kv_client plain_txn_client [demo_entry, demo_entry] (\<lambda>_. False) Map.empty =
      ((sts, None), w')" and own: "statusOwnedKeys sts ''app/a''" by (metis prod.collapse)
  have "\<not> statusOwnedKeys (mergeKVStatuses sts [] {}) ''app/a''"
    by (rule kv_duplicate_claim_lost[OF run, of 0 1]) (simp_all add: demo_entry_def)
  with run own show ?thesis by blast
qed

end
