(* ===== verification/KV_Reconcile.thy ===== *)
theory KV_Reconcile
  imports KV_Properties Kubernetes
begin

text \<open>
  The ConsulKV reconciler (\<^verbatim>\<open>controllers/consulkv_controller.go\<close>, lines 41-183 and 505-536): the reconcile loop with its
  finalizer and deletion branches, the event filters, and the updater of the resource.
\<close>

subsection \<open>The resource\<close>

record ConsulKVSpec =
  kvspec_OperatorNamespace :: string
  kvspec_PurgeOnDelete :: bool
  kvspec_KV :: "ConsulKVEntry list"

record ConsulKVStatus =
  kvst_Entries :: "ConsulKVEntryStatus list"
  kvst_GeneralStatus :: string
  kvst_ManagedBy :: string
  kvst_Conditions :: "Condition list"

record ConsulKV =
  kvcr_Meta :: ObjectMeta
  kvcr_Spec :: ConsulKVSpec
  kvcr_Status :: ConsulKVStatus

text \<open>The reconciler with the clients and settings it uses; \<open>ke_Group\<close> is the group of the API.\<close>

record 'w ConsulKVReconciler =
  ke_lib :: "'w k8sLib"
  ke_Client :: "(ConsulKV, 'w) kubeClient"
  ke_kvClient :: "'w consulKVClient"
  ke_txnClient :: "'w consulTxnClient"
  ke_OwnNamespace :: string
  ke_Strict :: bool
  ke_Group :: string
  ke_periodTime :: int

definition consulKVFinalizer :: "'w ConsulKVReconciler \<Rightarrow> string" where
  "consulKVFinalizer r = ke_Group r @ ''/consulkvconfigurator-controller''"

subsection \<open>The updater\<close>

definition kv_updateWithRetry ::
  "'w ConsulKVReconciler \<Rightarrow> ConsulKV \<Rightarrow> ('w \<Rightarrow> ConsulKV \<Rightarrow> ConsulKV) \<Rightarrow> 'w \<Rightarrow> goerror option \<times> 'w"
where
  "kv_updateWithRetry r cr0 fn =
     lib_RetryOnConflict (ke_lib r)
       (\<lambda>w. case kube_Get (ke_Client r) (meta_Namespace (kvcr_Meta cr0)) (meta_Name (kvcr_Meta cr0)) w of
              (Inl err, w1) \<Rightarrow> (Some err, w1)
            | (Inr cr, w1) \<Rightarrow> kube_Update (ke_Client r) (fn w1 cr) w1)"

definition kv_updateStatusWithRetry ::
  "'w ConsulKVReconciler \<Rightarrow> ConsulKV \<Rightarrow> ('w \<Rightarrow> ConsulKV \<Rightarrow> ConsulKV) \<Rightarrow> 'w \<Rightarrow> goerror option \<times> 'w"
where
  "kv_updateStatusWithRetry r cr0 fn =
     lib_RetryOnConflict (ke_lib r)
       (\<lambda>w. case kube_Get (ke_Client r) (meta_Namespace (kvcr_Meta cr0)) (meta_Name (kvcr_Meta cr0)) w of
              (Inl err, w1) \<Rightarrow> (Some err, w1)
            | (Inr cr, w1) \<Rightarrow> kube_StatusUpdate (ke_Client r) (fn w1 cr) w1)"

definition map_Finalizers :: "(string list \<Rightarrow> string list) \<Rightarrow> ConsulKV \<Rightarrow> ConsulKV" where
  "map_Finalizers f cr = cr\<lparr>kvcr_Meta := (kvcr_Meta cr)\<lparr>meta_Finalizers := f (meta_Finalizers (kvcr_Meta cr))\<rparr>\<rparr>"

definition map_Entries :: "(ConsulKVEntryStatus list \<Rightarrow> ConsulKVEntryStatus list) \<Rightarrow> ConsulKV \<Rightarrow> ConsulKV" where
  "map_Entries f cr = cr\<lparr>kvcr_Status := (kvcr_Status cr)\<lparr>kvst_Entries := f (kvst_Entries (kvcr_Status cr))\<rparr>\<rparr>"

subsection \<open>The reconcile loop\<close>

definition requeue :: "'w ConsulKVReconciler \<Rightarrow> Result" where
  "requeue r = \<lparr>res_RequeueAfter = time_seconds (ke_periodTime r)\<rparr>"

text \<open>The release on deletion: the whole tree, or the owned keys with the committed batches recorded.\<close>

definition kv_release_on_delete :: "'w ConsulKVReconciler \<Rightarrow> ConsulKV \<Rightarrow> 'w \<Rightarrow> goerror option \<times> 'w" where
  "kv_release_on_delete r inst w =
     (if kvspec_PurgeOnDelete (kvcr_Spec inst)
      then deleteKVTree (ke_kvClient r) (kvst_Entries (kvcr_Status inst)) w
      else case deleteKVEntries (ke_kvClient r) (ke_txnClient r) (kvst_Entries (kvcr_Status inst)) w of
             ((deleteErr, released), w1) \<Rightarrow>
               if deleteErr \<noteq> None \<and> released \<noteq> {}
               then (deleteErr, snd (kv_updateStatusWithRetry r inst
                       (\<lambda>_. map_Entries (\<lambda>es. markReleased es released)) w1))
               else (deleteErr, w1))"

definition kv_finalize :: "'w ConsulKVReconciler \<Rightarrow> ConsulKV \<Rightarrow> 'w \<Rightarrow> (Result \<times> goerror option) \<times> 'w" where
  "kv_finalize r inst w =
     (case kv_release_on_delete r inst w of
        (Some deleteErr, w1) \<Rightarrow> ((requeue r, None), w1)
      | (None, w1) \<Rightarrow>
          (case kv_updateWithRetry r inst
                  (\<lambda>_. map_Finalizers (lib_RemoveFinalizer (ke_lib r) (consulKVFinalizer r))) w1 of
             (err, w2) \<Rightarrow> ((noRequeue, err), w2)))"

text \<open>The status that a reconcile writes.\<close>

definition kv_new_status ::
  "'w ConsulKVReconciler \<Rightarrow> ConsulKVEntryStatus list \<Rightarrow> string set \<Rightarrow> goerror option \<Rightarrow> goerror option \<Rightarrow>
   'w \<Rightarrow> ConsulKV \<Rightarrow> ConsulKV"
where
  "kv_new_status r entryStatuses cleanedKeys applyErr removeErr w cr =
     cr\<lparr>kvcr_Status :=
       \<lparr>kvst_Entries = mergeKVStatuses (kvst_Entries (kvcr_Status cr)) entryStatuses cleanedKeys,
        kvst_GeneralStatus = (if applyErr \<noteq> None \<or> removeErr \<noteq> None then ''degraded'' else ''synced''),
        kvst_ManagedBy = ''consul-acl-configurator-operator_'' @ ke_OwnNamespace r,
        kvst_Conditions = setSuccessfulCondition (ke_lib r) w
          (case applyErr of None \<Rightarrow> removeErr | Some e \<Rightarrow> Some e) (meta_Generation (kvcr_Meta cr))
          (kvst_Conditions (kvcr_Status cr))\<rparr>\<rparr>"

definition kv_sync :: "'w ConsulKVReconciler \<Rightarrow> ConsulKV \<Rightarrow> 'w \<Rightarrow> (Result \<times> goerror option) \<times> 'w" where
  "kv_sync r inst w =
     (let entries = kvst_Entries (kvcr_Status inst); spec = kvspec_KV (kvcr_Spec inst) in
      case applyKVEntries (ke_kvClient r) (ke_txnClient r) spec (statusOwnedKeys entries) w of
        ((entryStatuses, applyErr), w1) \<Rightarrow>
          (case deleteRemovedEntries (ke_kvClient r) (ke_txnClient r) entries spec w1 of
             ((removeErr, cleanedKeys), w2) \<Rightarrow>
               (case kv_updateStatusWithRetry r inst (kv_new_status r entryStatuses cleanedKeys applyErr removeErr) w2 of
                  (Some statusErr, w3) \<Rightarrow> ((requeue r, None), w3)
                | (None, w3) \<Rightarrow>
                    if applyErr \<noteq> None \<or> removeErr \<noteq> None then ((requeue r, None), w3)
                    else ((noRequeue, None), w3))))"

definition kv_ensure_finalizer :: "'w ConsulKVReconciler \<Rightarrow> ConsulKV \<Rightarrow> 'w \<Rightarrow> goerror option \<times> 'w" where
  "kv_ensure_finalizer r inst w =
     (if \<not> Contains (consulKVFinalizer r) (meta_Finalizers (kvcr_Meta inst))
      then kv_updateWithRetry r inst
             (\<lambda>_. map_Finalizers (lib_AddFinalizer (ke_lib r) (consulKVFinalizer r))) w
      else (None, w))"

definition KV_Reconcile ::
  "'w ConsulKVReconciler \<Rightarrow> string \<Rightarrow> string \<Rightarrow> 'w \<Rightarrow> (Result \<times> goerror option) \<times> 'w"
where
  "KV_Reconcile r namespace name w =
     (case kube_Get (ke_Client r) namespace name w of
        (Inl err, w1) \<Rightarrow> if IsNotFound err then ((noRequeue, None), w1) else ((noRequeue, Some err), w1)
      | (Inr inst, w1) \<Rightarrow>
          if IsZero (meta_DeletionTimestamp (kvcr_Meta inst)) then
            (case kv_ensure_finalizer r inst w1 of
               (Some err, w2) \<Rightarrow> ((noRequeue, Some err), w2)
             | (None, w2) \<Rightarrow> kv_sync r inst w2)
          else if Contains (consulKVFinalizer r) (meta_Finalizers (kvcr_Meta inst)) then kv_finalize r inst w1
          else ((noRequeue, None), w1))"

subsection \<open>The events\<close>

fun kv_statusPredicate :: "ConsulKV event \<Rightarrow> bool" where
  "kv_statusPredicate (UpdateEvent old new) =
     (meta_Generation (kvcr_Meta old) \<noteq> meta_Generation (kvcr_Meta new))"
| "kv_statusPredicate (DeleteEvent obj deleteStateUnknown) = (\<not> deleteStateUnknown)"
| "kv_statusPredicate _ = True"

definition kv_ownerPredicate :: "'w ConsulKVReconciler \<Rightarrow> ConsulKV event \<Rightarrow> bool" where
  "kv_ownerPredicate r e =
     (let cr = event_object e in
      isOwnedByOperator (kvspec_OperatorNamespace (kvcr_Spec cr)) (meta_Namespace (kvcr_Meta cr))
        (ke_OwnNamespace r) (ke_Strict r))"

definition kv_event_handled :: "'w ConsulKVReconciler \<Rightarrow> ConsulKV event \<Rightarrow> bool" where
  "kv_event_handled r e \<longleftrightarrow> kv_statusPredicate e \<and> kv_ownerPredicate r e"

subsection \<open>A small cluster\<close>

text \<open>
  A world with a Consul without other clients, one ConsulKV resource and the list of the updates it
  received, for the witnesses.
\<close>

type_synonym kv_cluster = "store \<times> (ConsulKV option \<times> ConsulKV list)"

definition cluster_kube :: "(ConsulKV, kv_cluster) kubeClient" where
  "cluster_kube =
     \<lparr>kube_Get = (\<lambda>ns n (s, cr, log).
        (case cr of
           None \<Rightarrow> (Inl (K8sNotFound n), (s, cr, log))
         | Some x \<Rightarrow> (Inr x, (s, cr, log)))),
      kube_List = (\<lambda>ns (s, cr, log). (Inr (case cr of None \<Rightarrow> [] | Some x \<Rightarrow> [x]), (s, cr, log))),
      kube_Update = (\<lambda>x (s, cr, log). (None, (s, Some x, log @ [x]))),
      kube_StatusUpdate = (\<lambda>x (s, cr, log). (None, (s, Some x, log)))\<rparr>"

definition cluster_txn :: "kv_cluster consulTxnClient" where
  "cluster_txn = \<lparr>txn_Txn = (\<lambda>ops (s, x). case txn_Txn plain_txn_client ops s of (r, s') \<Rightarrow> (r, (s', x)))\<rparr>"

definition cluster :: "kv_cluster ConsulKVReconciler" where
  "cluster =
     \<lparr>ke_lib = demo_lib, ke_Client = cluster_kube, ke_kvClient = recording_kv plain_kv_client,
      ke_txnClient = cluster_txn, ke_OwnNamespace = ''consul'', ke_Strict = False,
      ke_Group = ''netcracker.com'', ke_periodTime = 60\<rparr>"

definition cluster_cr :: "int option \<Rightarrow> ConsulKV" where
  "cluster_cr deletion =
     \<lparr>kvcr_Meta = \<lparr>meta_Name = ''kv'', meta_Namespace = ''app'', meta_Generation = 1,
        meta_Finalizers = [''netcracker.com/consulkvconfigurator-controller''], meta_DeletionTimestamp = deletion\<rparr>,
      kvcr_Spec = \<lparr>kvspec_OperatorNamespace = [], kvspec_PurgeOnDelete = False, kvspec_KV = [demo_entry]\<rparr>,
      kvcr_Status = \<lparr>kvst_Entries = [], kvst_GeneralStatus = [], kvst_ManagedBy = [], kvst_Conditions = []\<rparr>\<rparr>"

subsection \<open>A reconcile that reports success\<close>

text \<open>
  C8. With a period of 1 to 9223372036 seconds, a reconcile of a live resource that returns without an error and without a requeue has done all of it:
  the entries were applied and the removed ones released without an error, and the last attempt
  of the status update stored, on the object as read then, the merged entries and the status synced.
\<close>

theorem kv_reconcile_no_silent_failure:
  assumes lib: "k8s_lib_ok (ke_lib r)" and "period_ok (ke_periodTime r)"
    and get: "kube_Get (ke_Client r) namespace name w = (Inr inst, w1)"
    and live: "IsZero (meta_DeletionTimestamp (kvcr_Meta inst))"
    and run: "KV_Reconcile r namespace name w = ((res, None), w')" and "res_RequeueAfter res \<le> 0"
  shows "\<exists>w2 sts w3 cleaned w4 w5 cr w6.
    applyKVEntries (ke_kvClient r) (ke_txnClient r) (kvspec_KV (kvcr_Spec inst))
      (statusOwnedKeys (kvst_Entries (kvcr_Status inst))) w2 = ((sts, None), w3) \<and>
    deleteRemovedEntries (ke_kvClient r) (ke_txnClient r) (kvst_Entries (kvcr_Status inst))
      (kvspec_KV (kvcr_Spec inst)) w3 = ((None, cleaned), w4) \<and>
    kube_Get (ke_Client r) (meta_Namespace (kvcr_Meta inst)) (meta_Name (kvcr_Meta inst)) w5 = (Inr cr, w6) \<and>
    kube_StatusUpdate (ke_Client r) (kv_new_status r sts cleaned None None w6 cr) w6 = (None, w')"
proof -
  have period: "requeue r \<noteq> res" using assms(2,6) time_seconds_ok[OF assms(2)] by (auto simp: requeue_def period_ok_def)
  from run get live obtain w2 where "kv_sync r inst w2 = ((res, None), w')"
    by (auto simp: KV_Reconcile_def split: option.splits prod.splits)
  then obtain sts aerr w3 rerr cleaned w4 where
    ap: "applyKVEntries (ke_kvClient r) (ke_txnClient r) (kvspec_KV (kvcr_Spec inst))
      (statusOwnedKeys (kvst_Entries (kvcr_Status inst))) w2 = ((sts, aerr), w3)"
    and rm: "deleteRemovedEntries (ke_kvClient r) (ke_txnClient r) (kvst_Entries (kvcr_Status inst))
      (kvspec_KV (kvcr_Spec inst)) w3 = ((rerr, cleaned), w4)"
    and errs: "aerr = None" "rerr = None"
    and upd: "kv_updateStatusWithRetry r inst (kv_new_status r sts cleaned aerr rerr) w4 = (None, w')"
    using period by (auto simp: kv_sync_def Let_def split: prod.splits option.splits if_splits)
  obtain w5 where "(case kube_Get (ke_Client r) (meta_Namespace (kvcr_Meta inst)) (meta_Name (kvcr_Meta inst)) w5 of
      (Inl err, w1) \<Rightarrow> (Some err, w1)
    | (Inr cr, w1) \<Rightarrow> kube_StatusUpdate (ke_Client r) (kv_new_status r sts cleaned aerr rerr w1 cr) w1) = (None, w')"
    using retry_runs_final[OF k8s_lib_retry[OF lib upd[unfolded kv_updateStatusWithRetry_def]], of "\<lambda>_. True"] by auto
  then obtain cr w6 where
    "kube_Get (ke_Client r) (meta_Namespace (kvcr_Meta inst)) (meta_Name (kvcr_Meta inst)) w5 = (Inr cr, w6)"
    "kube_StatusUpdate (ke_Client r) (kv_new_status r sts cleaned aerr rerr w6 cr) w6 = (None, w')"
    by (auto split: prod.splits sum.splits)
  with ap rm errs show ?thesis by blast
qed

theorem kv_reconcile_no_silent_failure_witness:
  "\<exists>res w'. KV_Reconcile cluster ''app'' ''kv'' (Map.empty, Some (cluster_cr None), []) = ((res, None), w') \<and>
     res_RequeueAfter res = 0 \<and>
     (\<exists>w5 cr w6 sts cleaned.
        kube_Get cluster_kube ''app'' ''kv'' w5 = (Inr cr, w6) \<and>
        kube_StatusUpdate cluster_kube (kv_new_status cluster sts cleaned None None w6 cr) w6 = (None, w'))"
proof -
  let ?w = "(Map.empty, Some (cluster_cr None), [])"
  have f: "fst (KV_Reconcile cluster ''app'' ''kv'' ?w) = (noRequeue, None)" by code_simp
  then obtain w' where run: "KV_Reconcile cluster ''app'' ''kv'' ?w = ((noRequeue, None), w')" by (metis prod.collapse)
  have lib: "k8s_lib_ok (ke_lib cluster)" by (simp add: cluster_def demo_lib_ok)
  have get: "kube_Get (ke_Client cluster) ''app'' ''kv'' ?w = (Inr (cluster_cr None), ?w)"
    by (simp add: cluster_def cluster_kube_def)
  have "\<exists>w2 sts w3 cleaned w4 w5 cr w6.
    applyKVEntries (ke_kvClient cluster) (ke_txnClient cluster) (kvspec_KV (kvcr_Spec (cluster_cr None)))
      (statusOwnedKeys (kvst_Entries (kvcr_Status (cluster_cr None)))) w2 = ((sts, None), w3) \<and>
    deleteRemovedEntries (ke_kvClient cluster) (ke_txnClient cluster) (kvst_Entries (kvcr_Status (cluster_cr None)))
      (kvspec_KV (kvcr_Spec (cluster_cr None))) w3 = ((None, cleaned), w4) \<and>
    kube_Get (ke_Client cluster) (meta_Namespace (kvcr_Meta (cluster_cr None)))
      (meta_Name (kvcr_Meta (cluster_cr None))) w5 = (Inr cr, w6) \<and>
    kube_StatusUpdate (ke_Client cluster) (kv_new_status cluster sts cleaned None None w6 cr) w6 = (None, w')"
    by (rule kv_reconcile_no_silent_failure[OF lib _ get _ run])
      (simp_all add: cluster_def cluster_cr_def IsZero_def noRequeue_def period_ok_def)
  moreover have "ke_Client cluster = cluster_kube" "meta_Namespace (kvcr_Meta (cluster_cr None)) = ''app''"
    "meta_Name (kvcr_Meta (cluster_cr None)) = ''kv''" by (simp_all add: cluster_def cluster_cr_def)
  ultimately obtain w5 cr w6 sts cleaned where
    "kube_Get cluster_kube ''app'' ''kv'' w5 = (Inr cr, w6)"
    "kube_StatusUpdate cluster_kube (kv_new_status cluster sts cleaned None None w6 cr) w6 = (None, w')" by metis
  moreover have "res_RequeueAfter noRequeue = 0" by (simp add: noRequeue_def)
  ultimately show ?thesis using run by blast
qed

subsection \<open>The updates that are sent\<close>

text \<open>
  An observation that the calls to Consul do not change, for example the requests sent to the API server.
\<close>

definition consul_keeps :: "'w consulKVClient \<Rightarrow> 'w consulTxnClient \<Rightarrow> ('w \<Rightarrow> 'a) \<Rightarrow> bool" where
  "consul_keeps kv txn obs \<longleftrightarrow>
     (\<forall>k w. obs (snd (kv_Get kv k w)) = obs w) \<and> (\<forall>ops w. obs (snd (txn_Txn txn ops w)) = obs w) \<and>
     (\<forall>k w. obs (snd (kv_Delete kv k w)) = obs w) \<and> (\<forall>p w. obs (snd (kv_DeleteTree kv p w)) = obs w)"

lemma consul_keepsD:
  assumes "consul_keeps kv txn obs"
  shows "kv_Get kv k w = (g, w') \<Longrightarrow> obs w' = obs w" and "txn_Txn txn ops w = (t, w') \<Longrightarrow> obs w' = obs w"
    and "kv_Delete kv k w = (u, w') \<Longrightarrow> obs w' = obs w" and "kv_DeleteTree kv k w = (u, w') \<Longrightarrow> obs w' = obs w"
  using assms unfolding consul_keeps_def by (metis snd_conv)+

lemma writeKVChunk_ops_keeps:
  assumes "consul_keeps kv txn obs"
  shows "writeKVChunk_ops kv ok es w = (r, w') \<Longrightarrow> obs w' = obs w"
  by (induction es arbitrary: w r) (auto simp: Let_def split: prod.splits sum.splits dest!: consul_keepsD(1)[OF assms])

lemma writeKVChunk_loop_keeps:
  assumes "consul_keeps kv txn obs"
  shows "writeKVChunk_loop n kv txn ok es owned w = (r, w') \<Longrightarrow> obs w' = obs w"
proof (induction n arbitrary: w)
  case (Suc n)
  then show ?case
    by (auto split: prod.splits sum.splits if_splits
        dest!: writeKVChunk_ops_keeps[OF assms] consul_keepsD(2)[OF assms] Suc.IH)
qed auto

lemma deleteKVChunk_ops_keeps:
  assumes "consul_keeps kv txn obs"
  shows "deleteKVChunk_ops kv keys w = (r, w') \<Longrightarrow> obs w' = obs w"
  by (induction keys arbitrary: w r) (auto simp: Let_def split: prod.splits sum.splits dest!: consul_keepsD(1)[OF assms])

lemma deleteKVChunk_loop_keeps:
  assumes "consul_keeps kv txn obs"
  shows "deleteKVChunk_loop n kv txn keys w = (r, w') \<Longrightarrow> obs w' = obs w"
proof (induction n arbitrary: w)
  case (Suc n)
  then show ?case
    by (auto split: prod.splits sum.splits if_splits
        dest!: deleteKVChunk_ops_keeps[OF assms] consul_keepsD(2)[OF assms] Suc.IH)
qed auto

lemma writeKVBatch_keeps:
  assumes "consul_keeps kv txn obs" and run: "writeKVBatchWithOwnership kv txn ok es w = ((res, owned), w')"
  shows "obs w' = obs w"
proof -
  have "case res of None \<Rightarrow> obs w' = obs w | Some e \<Rightarrow> \<exists>d rest. es = d @ rest \<and> obs w' = obs w"
    by (rule write_batch.loop_rule[where R = "\<lambda>d acc x. obs x = obs w" and F = "\<lambda>d acc x. obs x = obs w",
          OF _ _ _ run[unfolded writeKVBatchWithOwnership_def]])
      (auto simp: writeKVChunk_def dest!: writeKVChunk_loop_keeps[OF assms(1)])
  then show ?thesis by (cases res) auto
qed

lemma deleteKVBatch_keeps:
  assumes "consul_keeps kv txn obs" and run: "deleteKVBatch kv txn keys w = ((res, released), w')"
  shows "obs w' = obs w"
proof -
  have "case res of None \<Rightarrow> obs w' = obs w | Some e \<Rightarrow> \<exists>d rest. keys = d @ rest \<and> obs w' = obs w"
    by (rule release_batch.loop_rule[where R = "\<lambda>d acc x. obs x = obs w" and F = "\<lambda>d acc x. obs x = obs w",
          OF _ _ _ run[unfolded deleteKVBatch_def]])
      (auto simp: release_chunk_def deleteKVChunk_def split: prod.splits option.splits
        dest!: deleteKVChunk_loop_keeps[OF assms(1)])
  then show ?thesis by (cases res) auto
qed

lemma deleteKVTree_loop_keeps:
  assumes "consul_keeps kv txn obs"
  shows "deleteKVTree_loop kv sts seen err w = (r, w') \<Longrightarrow> obs w' = obs w"
  by (induction sts arbitrary: seen err w)
    (auto simp: Let_def purge_prefix_def split: if_splits prod.splits sum.splits
      dest!: consul_keepsD(3)[OF assms] consul_keepsD(4)[OF assms])

lemma kv_operations_keep:
  assumes "consul_keeps kv txn obs"
  shows "applyKVEntries kv txn es ok w = (a, w') \<Longrightarrow> obs w' = obs w"
    and "deleteRemovedEntries kv txn sts es w = (b, w') \<Longrightarrow> obs w' = obs w"
    and "deleteKVEntries kv txn sts w = (b, w') \<Longrightarrow> obs w' = obs w"
    and "deleteKVTree kv sts w = (c, w') \<Longrightarrow> obs w' = obs w"
  using writeKVBatch_keeps[OF assms] deleteKVBatch_keeps[OF assms] deleteKVTree_loop_keeps[OF assms]
  by (cases b; auto simp: applyKVEntries_def deleteRemovedEntries_def deleteKVEntries_def deleteKVTree_def
      split: prod.splits)+

text \<open>The requests to update a resource, as the API server has received them.\<close>

definition update_observer :: "'w ConsulKVReconciler \<Rightarrow> ('w \<Rightarrow> ConsulKV list) \<Rightarrow> bool" where
  "update_observer r updates \<longleftrightarrow>
     consul_keeps (ke_kvClient r) (ke_txnClient r) updates \<and>
     (\<forall>ns n w. updates (snd (kube_Get (ke_Client r) ns n w)) = updates w) \<and>
     (\<forall>x w. updates (snd (kube_StatusUpdate (ke_Client r) x w)) = updates w) \<and>
     (\<forall>x w. updates (snd (kube_Update (ke_Client r) x w)) = updates w @ [x])"

lemma kv_updateStatus_updates:
  assumes lib: "k8s_lib_ok (ke_lib r)" and obs: "update_observer r updates"
    and run: "kv_updateStatusWithRetry r inst fn w = (res, w')"
  shows "updates w' = updates w"
proof (rule retry_runs_invariant[where I = "\<lambda>x. updates x = updates w",
      OF k8s_lib_retry[OF lib run[unfolded kv_updateStatusWithRetry_def]]])
  fix w1 r1 w2
  assume "updates w1 = updates w"
    and "(case kube_Get (ke_Client r) (meta_Namespace (kvcr_Meta inst)) (meta_Name (kvcr_Meta inst)) w1 of
      (Inl err, w1) \<Rightarrow> (Some err, w1) | (Inr cr, w1) \<Rightarrow> kube_StatusUpdate (ke_Client r) (fn w1 cr) w1) = (r1, w2)"
  then show "updates w2 = updates w"
    using obs unfolding update_observer_def by (auto split: prod.splits sum.splits) (metis snd_conv)+
qed simp

lemma kv_update_updates:
  assumes lib: "k8s_lib_ok (ke_lib r)" and obs: "update_observer r updates"
    and run: "kv_updateWithRetry r inst fn w = (res, w')" and P: "\<And>w cr. P (fn w cr)"
  shows "\<exists>new. updates w' = updates w @ new \<and> (\<forall>x \<in> set new. P x)"
proof (rule retry_runs_invariant[where I = "\<lambda>x. \<exists>new. updates x = updates w @ new \<and> (\<forall>x \<in> set new. P x)",
      OF k8s_lib_retry[OF lib run[unfolded kv_updateWithRetry_def]]])
  fix w1 r1 w2
  assume I: "\<exists>new. updates w1 = updates w @ new \<and> (\<forall>x \<in> set new. P x)"
    and f: "(case kube_Get (ke_Client r) (meta_Namespace (kvcr_Meta inst)) (meta_Name (kvcr_Meta inst)) w1 of
      (Inl err, w1) \<Rightarrow> (Some err, w1) | (Inr cr, w1) \<Rightarrow> kube_Update (ke_Client r) (fn w1 cr) w1) = (r1, w2)"
  obtain g w3 where g: "kube_Get (ke_Client r) (meta_Namespace (kvcr_Meta inst)) (meta_Name (kvcr_Meta inst)) w1 = (g, w3)"
    by fastforce
  with obs have "updates w3 = updates w1" unfolding update_observer_def by (metis snd_conv)
  moreover have "updates w2 = updates w3 \<or> (\<exists>cr. updates w2 = updates w3 @ [fn w3 cr])"
    using f g obs unfolding update_observer_def by (auto split: sum.splits) (metis snd_conv)+
  moreover obtain new where "updates w1 = updates w @ new" "\<forall>x \<in> set new. P x" using I by blast
  ultimately consider "updates w2 = updates w @ new"
    | cr where "updates w2 = updates w @ (new @ [fn w3 cr])" by auto
  then show "\<exists>new. updates w2 = updates w @ new \<and> (\<forall>x \<in> set new. P x)"
  proof cases
    case 1
    with \<open>\<forall>x \<in> set new. P x\<close> show ?thesis by blast
  next
    case (2 cr)
    moreover have "\<forall>x \<in> set (new @ [fn w3 cr]). P x" using \<open>\<forall>x \<in> set new. P x\<close> P by simp
    ultimately show ?thesis by blast
  qed
qed simp

lemma kv_ensure_finalizer_updates:
  assumes lib: "k8s_lib_ok (ke_lib r)" and obs: "update_observer r updates" and fin: "kv_ensure_finalizer r inst w1 = (e, w2)"
  shows "\<exists>new. updates w2 = updates w1 @ new \<and> (\<forall>x \<in> set new. consulKVFinalizer r \<in> set (meta_Finalizers (kvcr_Meta x)))"
proof (cases "consulKVFinalizer r \<in> set (meta_Finalizers (kvcr_Meta inst))")
  case True
  with fin show ?thesis by (simp add: kv_ensure_finalizer_def)
next
  case False
  have add: "consulKVFinalizer r \<in> set (meta_Finalizers (kvcr_Meta
      (map_Finalizers (lib_AddFinalizer (ke_lib r) (consulKVFinalizer r)) cr)))" for cr
    using lib by (simp add: map_Finalizers_def k8s_lib_ok_def)
  from False fin have "kv_updateWithRetry r inst
      (\<lambda>_. map_Finalizers (lib_AddFinalizer (ke_lib r) (consulKVFinalizer r))) w1 = (e, w2)"
    by (simp add: kv_ensure_finalizer_def)
  from kv_update_updates[OF lib obs this,
      where P = "\<lambda>x. consulKVFinalizer r \<in> set (meta_Finalizers (kvcr_Meta x))"] add
  show ?thesis by blast
qed

lemma kv_sync_updates:
  assumes lib: "k8s_lib_ok (ke_lib r)" and obs: "update_observer r updates" and "kv_sync r inst w = (x, w')"
  shows "updates w' = updates w"
proof -
  have keeps: "consul_keeps (ke_kvClient r) (ke_txnClient r) updates" using obs by (simp add: update_observer_def)
  show ?thesis
    using assms(3) by (auto simp: kv_sync_def Let_def split: prod.splits option.splits if_splits
      dest!: kv_operations_keep(1,2)[OF keeps] kv_updateStatus_updates[OF lib obs])
qed

text \<open>
  C7. Every update that a reconcile sends without the finalizer comes after a complete release: the resource
  was being deleted and the purge, or the release of all owned keys, ended without an error. A live
  resource, and a deletion whose release failed, never loses the finalizer.
\<close>

theorem kv_finalizer_kept_until_released:
  assumes lib: "k8s_lib_ok (ke_lib r)" and obs: "update_observer r updates"
    and run: "KV_Reconcile r namespace name w = (x, w')"
    and sent: "updates w' = updates w @ new" "cr \<in> set new"
    and gone: "consulKVFinalizer r \<notin> set (meta_Finalizers (kvcr_Meta cr))"
  shows "\<exists>inst w1 w2. kube_Get (ke_Client r) namespace name w = (Inr inst, w1) \<and>
    \<not> IsZero (meta_DeletionTimestamp (kvcr_Meta inst)) \<and>
    (if kvspec_PurgeOnDelete (kvcr_Spec inst)
     then deleteKVTree (ke_kvClient r) (kvst_Entries (kvcr_Status inst)) w1 = (None, w2)
     else \<exists>released. deleteKVEntries (ke_kvClient r) (ke_txnClient r) (kvst_Entries (kvcr_Status inst)) w1 =
            ((None, released), w2))"
proof -
  have keeps: "consul_keeps (ke_kvClient r) (ke_txnClient r) updates" using obs by (simp add: update_observer_def)
  obtain g w1 where g: "kube_Get (ke_Client r) namespace name w = (g, w1)" by fastforce
  have w1: "updates w1 = updates w" using obs g unfolding update_observer_def by (metis snd_conv)
  have changed: "updates w' \<noteq> updates w" using sent by auto
  then obtain inst where inst: "g = Inr inst"
    using run g w1 by (cases g) (auto simp: KV_Reconcile_def split: if_splits)
  show ?thesis
  proof (cases "IsZero (meta_DeletionTimestamp (kvcr_Meta inst))")
    case True
    obtain e w2 where fin: "kv_ensure_finalizer r inst w1 = (e, w2)" by fastforce
    have "updates w' = updates w2"
      using run g inst True fin kv_sync_updates[OF lib obs] by (cases e) (auto simp: KV_Reconcile_def)
    moreover note kv_ensure_finalizer_updates[OF lib obs fin]
    ultimately show ?thesis using sent gone w1 by auto
  next
    case False
    with run g inst changed w1 have "kv_finalize r inst w1 = (x, w')"
      by (auto simp: KV_Reconcile_def split: if_splits)
    moreover obtain e w2 where rel: "kv_release_on_delete r inst w1 = (e, w2)" by fastforce
    moreover have "updates w2 = updates w1"
      using rel by (auto simp: kv_release_on_delete_def split: if_splits prod.splits
          dest!: kv_operations_keep(3,4)[OF keeps])
        (metis kv_updateStatus_updates[OF lib obs] prod.collapse)
    ultimately have "e = None" using changed w1 by (cases e) (auto simp: kv_finalize_def)
    with rel False g inst show ?thesis
      by (auto simp: kv_release_on_delete_def split: if_splits prod.splits)
  qed
qed

lemma cluster_observer: "update_observer cluster (\<lambda>w. snd (snd w))"
  by (auto simp: update_observer_def consul_keeps_def cluster_def cluster_kube_def cluster_txn_def
      recording_kv_def split: prod.splits option.splits)

theorem kv_finalizer_kept_until_released_witness:
  "\<exists>w' cr. KV_Reconcile cluster ''app'' ''kv'' (Map.empty, Some (cluster_cr (Some 5)), []) = ((noRequeue, None), w') \<and>
     snd (snd w') = [cr] \<and> meta_Finalizers (kvcr_Meta cr) = [] \<and>
     (\<exists>released w1 w2. deleteKVEntries (ke_kvClient cluster) (ke_txnClient cluster) [] w1 = ((None, released), w2))"
proof -
  let ?w = "(Map.empty, Some (cluster_cr (Some 5)), [])"
  have f: "fst (KV_Reconcile cluster ''app'' ''kv'' ?w) = (noRequeue, None)" by code_simp
  then obtain w' where run: "KV_Reconcile cluster ''app'' ''kv'' ?w = ((noRequeue, None), w')" by (metis prod.collapse)
  have "map (meta_Finalizers \<circ> kvcr_Meta) (snd (snd (snd (KV_Reconcile cluster ''app'' ''kv'' ?w)))) = [[]]" by code_simp
  then obtain cr where cr: "snd (snd w') = [cr]" "meta_Finalizers (kvcr_Meta cr) = []" using run by auto
  have lib: "k8s_lib_ok (ke_lib cluster)" by (simp add: cluster_def demo_lib_ok)
  have get: "kube_Get (ke_Client cluster) ''app'' ''kv'' ?w = (Inr (cluster_cr (Some 5)), ?w)"
    by (simp add: cluster_def cluster_kube_def)
  have c: "kvst_Entries (kvcr_Status (cluster_cr (Some 5))) = []" "\<not> kvspec_PurgeOnDelete (kvcr_Spec (cluster_cr (Some 5)))"
    by (simp_all add: cluster_cr_def)
  obtain inst w1 w2 where i: "kube_Get (ke_Client cluster) ''app'' ''kv'' ?w = (Inr inst, w1)"
    "if kvspec_PurgeOnDelete (kvcr_Spec inst)
     then deleteKVTree (ke_kvClient cluster) (kvst_Entries (kvcr_Status inst)) w1 = (None, w2)
     else \<exists>released. deleteKVEntries (ke_kvClient cluster) (ke_txnClient cluster) (kvst_Entries (kvcr_Status inst)) w1 =
            ((None, released), w2)"
    using kv_finalizer_kept_until_released[OF lib cluster_observer run, where new = "[cr]" and cr = cr] cr by force
  with get have "inst = cluster_cr (Some 5)" by simp
  with i(2) c obtain released where
    "deleteKVEntries (ke_kvClient cluster) (ke_txnClient cluster) [] w1 = ((None, released), w2)" by auto
  with run cr show ?thesis by blast
qed

end
