(* ===== verification/Operator.thy ===== *)
theory Operator
  imports ACL_Reconcile KV_Reconcile
begin

text \<open>
  The start of the operator: the settings its packages read from the environment (\<^verbatim>\<open>consulacl_controller.go\<close>, \<^verbatim>\<open>acl_api_provider.go\<close>,
  \<^verbatim>\<open>groupversion_info.go\<close>) and \<^verbatim>\<open>main.go\<close>. The manager of controller-runtime is a function from the calls of \<^verbatim>\<open>main\<close> to their errors; \<^verbatim>\<open>main\<close>
  ends the process at the first error. What the flags of the command line are is a parameter.
\<close>

subsection \<open>Settings\<close>

text \<open>\<^verbatim>\<open>strconv.Atoi\<close> with its error dropped: zero for anything but an optional sign and digits, the nearest bound outside of 64 bits.\<close>

definition digits_value :: "string \<Rightarrow> int" where
  "digits_value s = fold (\<lambda>c n. 10 * n + (of_char c - 48)) s 0"

definition atoi_digits :: "string \<Rightarrow> bool" where
  "atoi_digits s \<longleftrightarrow> s \<noteq> [] \<and> list_all (\<lambda>c. 48 \<le> (of_char c :: nat) \<and> (of_char c :: nat) \<le> 57) s"

definition clamp64 :: "int \<Rightarrow> int" where
  "clamp64 n = max (- (2 ^ 63)) (min (2 ^ 63 - 1) n)"

definition strconv_Atoi :: "string \<Rightarrow> int" where
  "strconv_Atoi s =
     (let sign = (case s of c # _ \<Rightarrow> if c = CHR ''-'' then -1 else 1 | [] \<Rightarrow> 1);
          digits = (case s of c # t \<Rightarrow> if c = CHR ''-'' \<or> c = CHR ''+'' then t else s | [] \<Rightarrow> [])
      in if atoi_digits digits then clamp64 (sign * digits_value digits) else 0)"

definition periodTime :: "environ \<Rightarrow> int" where
  "periodTime env = strconv_Atoi (os_Getenv env ''RECONCILE_PERIOD_SECONDS'')"

definition v1_getEnv :: "environ \<Rightarrow> string \<Rightarrow> string \<Rightarrow> string" where
  "v1_getEnv env key fallback = (case env key of Some value \<Rightarrow> value | None \<Rightarrow> fallback)"

definition apiGroup :: "environ \<Rightarrow> string" where
  "apiGroup env = v1_getEnv env ''API_GROUP'' ''netcracker.com''"

definition legacyAuthMethods :: "environ \<Rightarrow> string list" where
  "legacyAuthMethods env = splitList (os_Getenv env ''CONSUL_LEGACY_AUTH_METHODS'')"

definition bootstrapToken :: "(string \<Rightarrow> string result) \<Rightarrow> environ \<Rightarrow> string" where
  "bootstrapToken readFile env =
     GetSecretFromFileOrEnv readFile env ''/etc/secrets/consul-acl-configurator-pod-secrets/CONSUL_ACL_BOOTSTRAP_TOKEN'' ''CONSUL_ACL_BOOTSTRAP_TOKEN''"

text \<open>What \<^verbatim>\<open>makeConsulClient\<close> sets of the configuration of the Consul client; the rest is the default of the library.\<close>

record consulConfig =
  cc_Address :: string
  cc_Scheme :: string
  cc_CAFile :: string
  cc_Token :: string

definition tlsCaCertPath :: string where
  "tlsCaCertPath = ''/consul/tls/ca/tls.crt''"

definition makeConsulClient :: "consulConfig \<Rightarrow> (string \<Rightarrow> bool) \<Rightarrow> (string \<Rightarrow> string result) \<Rightarrow> environ \<Rightarrow> consulConfig" where
  "makeConsulClient defaultConfig exists readFile env =
     (let c = defaultConfig\<lparr>cc_Address := os_Getenv env ''CONSUL_HOST'' @ '':'' @ os_Getenv env ''CONSUL_PORT'',
                            cc_Scheme := os_Getenv env ''CONSUL_SCHEME''\<rparr>;
          c = (if exists tlsCaCertPath then c\<lparr>cc_CAFile := tlsCaCertPath\<rparr> else c)
      in c\<lparr>cc_Token := bootstrapToken readFile env\<rparr>)"

text \<open>The settings of the ACL operations and the reconcilers, on clients of Consul and of the API server.\<close>

definition acl_settings :: "environ \<Rightarrow> 'w consulACLClient \<Rightarrow> (string list \<Rightarrow> string list) \<Rightarrow> 'w aclSettings" where
  "acl_settings env client rng =
     \<lparr>ac_client = client, ac_authMethod = os_Getenv env ''CONSUL_AUTH_METHOD_NAME'', ac_legacyAuthMethods = legacyAuthMethods env,
      ac_range = rng\<rparr>"

definition new_ConsulACLReconciler ::
  "environ \<Rightarrow> string \<Rightarrow> bool \<Rightarrow> 'w k8sLib \<Rightarrow> (ConsulACL, 'w) kubeClient \<Rightarrow> 'w aclSettings \<Rightarrow> (string \<Rightarrow> ACLConfig result) \<Rightarrow>
   'w ConsulACLReconciler"
where
  "new_ConsulACLReconciler env ownNamespace strict lib client E unmarshal =
     \<lparr>ar_lib = lib, ar_Client = client, ar_acl = E, ar_Unmarshal = unmarshal, ar_OwnNamespace = ownNamespace, ar_Strict = strict,
      ar_Group = apiGroup env, ar_periodTime = periodTime env\<rparr>"

definition new_ConsulKVReconciler ::
  "environ \<Rightarrow> string \<Rightarrow> bool \<Rightarrow> 'w k8sLib \<Rightarrow> (ConsulKV, 'w) kubeClient \<Rightarrow> 'w consulKVClient \<Rightarrow> 'w consulTxnClient \<Rightarrow>
   'w ConsulKVReconciler"
where
  "new_ConsulKVReconciler env ownNamespace strict lib client kv txn =
     \<lparr>ke_lib = lib, ke_Client = client, ke_kvClient = kv, ke_txnClient = txn, ke_OwnNamespace = ownNamespace, ke_Strict = strict,
      ke_Group = apiGroup env, ke_periodTime = periodTime env\<rparr>"

subsection \<open>The main function\<close>

record operatorFlags =
  of_metricsAddr :: string
  of_probeAddr :: string
  of_leaderElection :: bool

record managerOptions =
  mo_MetricsAddr :: string
  mo_WebhookPort :: int
  mo_ProbeAddr :: string
  mo_LeaderElection :: bool
  mo_LeaderElectionID :: string
  mo_LeaderElectionNamespace :: string
  mo_ReleaseOnCancel :: bool
  mo_Cache :: mgrOptions

datatype mgrCall =
    NewManager managerOptions
  | SetupWithManager crKind string bool
  | AddHealthzCheck string
  | AddReadyzCheck string
  | AddAuthMethodRunnable
  | StartManager

text \<open>Calls that each end the process with a message when they fail.\<close>

fun run_calls :: "(mgrCall \<Rightarrow> goerror option) \<Rightarrow> (mgrCall \<times> string) list \<Rightarrow> string option \<times> mgrCall list" where
  "run_calls M [] = (None, [])"
| "run_calls M ((c, message) # cs) =
     (case M c of
        Some err \<Rightarrow> (Some message, [c])
      | None \<Rightarrow> (case run_calls M cs of (exit, done) \<Rightarrow> (exit, c # done)))"

definition main_options :: "operatorFlags \<Rightarrow> string \<Rightarrow> string \<Rightarrow> bool \<Rightarrow> managerOptions" where
  "main_options fl ownNamespace watchNamespaces strict =
     \<lparr>mo_MetricsAddr = of_metricsAddr fl, mo_WebhookPort = 9443, mo_ProbeAddr = of_probeAddr fl,
      mo_LeaderElection = of_leaderElection fl, mo_LeaderElectionID = ''consulacls.'' @ ownNamespace @ ''.netcracker.com'',
      mo_LeaderElectionNamespace = ownNamespace, mo_ReleaseOnCancel = True,
      mo_Cache = configureMgrNamespaces \<lparr>cache_ByObject = None, cache_DefaultNamespaces = None\<rparr> watchNamespaces ownNamespace strict\<rparr>"

text \<open>The result is the message the process ends with, if it ends with an error, and the calls it made.\<close>

definition operator_main :: "environ \<Rightarrow> operatorFlags \<Rightarrow> (mgrCall \<Rightarrow> goerror option) \<Rightarrow> string option \<times> mgrCall list" where
  "operator_main env fl M =
     (let ownNamespace = os_Getenv env ''NAMESPACE'' in
      if ownNamespace = [] then (Some ''unable to get the current namespace'', [])
      else case getWatchNamespace env of
        Inl err \<Rightarrow> (Some ''unable to get list of watched namespaces'', [])
      | Inr watchNamespaces \<Rightarrow>
          (case getStrictNamespaceValidation env of
             Inl err \<Rightarrow> (Some ''unable to read STRICT_NAMESPACE_VALIDATION'', [])
           | Inr strict \<Rightarrow>
               run_calls M
                 [(NewManager (main_options fl ownNamespace watchNamespaces strict), ''unable to start manager''),
                  (SetupWithManager ConsulACL_kind ownNamespace strict, ''unable to create controller''),
                  (SetupWithManager ConsulKV_kind ownNamespace strict, ''unable to create controller''),
                  (AddHealthzCheck ''healthz'', ''unable to set up health check''),
                  (AddReadyzCheck ''readyz'', ''unable to set up ready check''),
                  (AddAuthMethodRunnable, ''unable to add the auth method runnable''),
                  (StartManager, ''problem running ConsulACL manager'')]))"

lemma run_calls_ok: "(\<And>c. M c = None) \<Longrightarrow> run_calls M cs = (None, map fst cs)"
  by (induction M cs rule: run_calls.induct) (simp_all split: prod.split)

text \<open>
  The process makes its calls in the fixed order, up to the first that fails, and makes none when its environment is
  incomplete: it starts the manager only when the manager, both controllers with the same namespace and mode, the checks and the auth
  method were set up.
\<close>

lemma run_calls_prefix: "prefix (snd (run_calls M cs)) (map fst cs)"
  by (induction M cs rule: run_calls.induct) (auto split: option.split prod.split)

lemma run_calls_complete:
  assumes "last (map fst cs) \<in> set (snd (run_calls M cs))" and "distinct (map fst cs)"
  shows "snd (run_calls M cs) = map fst cs"
proof -
  obtain zs where z: "map fst cs = snd (run_calls M cs) @ zs" using run_calls_prefix[of M cs] by (auto simp: prefix_def)
  have "zs = []"
  proof (rule ccontr)
    assume "zs \<noteq> []"
    then have "last (map fst cs) \<in> set zs" unfolding z by simp
    then show False using assms unfolding z by auto
  qed
  then show ?thesis using z by simp
qed

theorem start_after_setup:
  assumes "StartManager \<in> set (snd (operator_main env fl M))"
  shows "\<exists>own watch strict. env ''NAMESPACE'' = Some own \<and> own \<noteq> [] \<and> env ''WATCH_NAMESPACE'' = Some watch \<and>
    getStrictNamespaceValidation env = Inr strict \<and>
    snd (operator_main env fl M) =
      [NewManager (main_options fl own watch strict), SetupWithManager ConsulACL_kind own strict,
       SetupWithManager ConsulKV_kind own strict, AddHealthzCheck ''healthz'', AddReadyzCheck ''readyz'', AddAuthMethodRunnable, StartManager]"
proof -
  obtain own where own: "env ''NAMESPACE'' = Some own" "own \<noteq> []"
    using assms by (auto simp: operator_main_def os_Getenv_def Let_def split: option.splits if_splits)
  obtain watch where watch: "env ''WATCH_NAMESPACE'' = Some watch"
    using assms own by (cases "env ''WATCH_NAMESPACE''") (simp_all add: operator_main_def getWatchNamespace_def os_Getenv_def)
  obtain strict where strict: "getStrictNamespaceValidation env = Inr strict"
    using assms own watch by (cases "getStrictNamespaceValidation env") (simp_all add: operator_main_def getWatchNamespace_def os_Getenv_def)
  have main: "operator_main env fl M = run_calls M
      [(NewManager (main_options fl own watch strict), ''unable to start manager''),
       (SetupWithManager ConsulACL_kind own strict, ''unable to create controller''),
       (SetupWithManager ConsulKV_kind own strict, ''unable to create controller''),
       (AddHealthzCheck ''healthz'', ''unable to set up health check''), (AddReadyzCheck ''readyz'', ''unable to set up ready check''),
       (AddAuthMethodRunnable, ''unable to add the auth method runnable''), (StartManager, ''problem running ConsulACL manager'')]"
    using own watch strict by (simp add: operator_main_def getWatchNamespace_def os_Getenv_def)
  from assms have "snd (operator_main env fl M) =
      [NewManager (main_options fl own watch strict), SetupWithManager ConsulACL_kind own strict,
       SetupWithManager ConsulKV_kind own strict, AddHealthzCheck ''healthz'', AddReadyzCheck ''readyz'', AddAuthMethodRunnable, StartManager]"
    unfolding main by (subst run_calls_complete) simp_all
  with own watch strict show ?thesis by blast
qed

subsection \<open>Which operator handles a resource\<close>

text \<open>
  What is documented of the cache of controller-runtime: the configuration of a namespace, or else the one for all namespaces, decides by its
  field selector; a kind without configuration takes the default namespaces, and without these everything is cached.
\<close>

definition selected :: "(string \<rightharpoonup> cacheConfig) \<Rightarrow> string \<Rightarrow> string \<Rightarrow> bool" where
  "selected m operatorNamespace resourceNamespace =
     (case (case m resourceNamespace of Some c \<Rightarrow> Some c | None \<Rightarrow> m []) of
        None \<Rightarrow> False
      | Some None \<Rightarrow> True
      | Some (Some (field, v)) \<Rightarrow> field = ''spec.operatorNamespace'' \<and> operatorNamespace = v)"

definition cache_documented :: "(mgrOptions \<Rightarrow> crKind \<Rightarrow> string \<Rightarrow> string \<Rightarrow> bool) \<Rightarrow> bool" where
  "cache_documented cached \<longleftrightarrow>
     (\<forall>opts kind operatorNamespace resourceNamespace. cached opts kind operatorNamespace resourceNamespace =
        (case (case cache_ByObject opts of None \<Rightarrow> None | Some by \<Rightarrow> by kind) of
           Some m \<Rightarrow> selected m operatorNamespace resourceNamespace
         | None \<Rightarrow> (case cache_DefaultNamespaces opts of None \<Rightarrow> True | Some m \<Rightarrow> selected m operatorNamespace resourceNamespace)))"

text \<open>
  A started operator handles a resource when its manager caches it and the filter of its controller, with the namespace and the mode the
  controller was set up with, lets the creation pass.
\<close>

definition handles_acl ::
  "(mgrOptions \<Rightarrow> crKind \<Rightarrow> string \<Rightarrow> string \<Rightarrow> bool) \<Rightarrow> (string \<Rightarrow> bool \<Rightarrow> 'w ConsulACLReconciler) \<Rightarrow> mgrCall list \<Rightarrow> ConsulACL \<Rightarrow> bool"
where
  "handles_acl cached reconciler calls cr \<longleftrightarrow> StartManager \<in> set calls \<and>
     (\<exists>opts own strict. NewManager opts \<in> set calls \<and> SetupWithManager ConsulACL_kind own strict \<in> set calls \<and>
        cached (mo_Cache opts) ConsulACL_kind (aspec_OperatorNamespace (acr_Spec cr)) (meta_Namespace (acr_Meta cr)) \<and>
        acl_event_handled (reconciler own strict) (CreateEvent cr))"

definition handles_kv ::
  "(mgrOptions \<Rightarrow> crKind \<Rightarrow> string \<Rightarrow> string \<Rightarrow> bool) \<Rightarrow> (string \<Rightarrow> bool \<Rightarrow> 'w ConsulKVReconciler) \<Rightarrow> mgrCall list \<Rightarrow> ConsulKV \<Rightarrow> bool"
where
  "handles_kv cached reconciler calls cr \<longleftrightarrow> StartManager \<in> set calls \<and>
     (\<exists>opts own strict. NewManager opts \<in> set calls \<and> SetupWithManager ConsulKV_kind own strict \<in> set calls \<and>
        cached (mo_Cache opts) ConsulKV_kind (kvspec_OperatorNamespace (kvcr_Spec cr)) (meta_Namespace (kvcr_Meta cr)) \<and>
        kv_event_handled (reconciler own strict) (CreateEvent cr))"

text \<open>The namespace whose operator is responsible for a resource in strict mode.\<close>

definition home :: "string \<Rightarrow> string \<Rightarrow> string" where
  "home operatorNamespace resourceNamespace = (if operatorNamespace \<noteq> [] then operatorNamespace else resourceNamespace)"

lemma isOwnedByOperator_home: "isOwnedByOperator opn res own True \<longleftrightarrow> own = home opn res"
  by (auto simp: isOwnedByOperator_def home_def)

text \<open>In strict mode with a cluster-wide watch an operator caches what it is responsible for.\<close>

lemma strict_cache:
  assumes "cache_documented cached" and "own \<noteq> []"
  shows "cached (mo_Cache (main_options fl own ''*'' True)) kind opn res \<longleftrightarrow> res = own \<or> opn = own"
proof -
  have "strings_TrimSpace ''*'' = ''*''" by code_simp
  then have by_kind: "cache_ByObject (mo_Cache (main_options fl own ''*'' True)) = Some (\<lambda>kind. Some [own \<mapsto> None, [] \<mapsto> Some (''spec.operatorNamespace'', own)])"
    by (auto simp: main_options_def configureMgrNamespaces_def Let_def fun_eq_iff intro: crKind.exhaust)
  have "cached (mo_Cache (main_options fl own ''*'' True)) kind opn res = selected [own \<mapsto> None, [] \<mapsto> Some (''spec.operatorNamespace'', own)] opn res"
    using assms(1) unfolding cache_documented_def by (simp add: by_kind)
  then show ?thesis using assms(2) by (auto simp: selected_def)
qed

definition strict_operator :: "(mgrCall \<Rightarrow> goerror option) \<Rightarrow> operatorFlags \<Rightarrow> environ \<Rightarrow> bool" where
  "strict_operator M fl env \<longleftrightarrow> StartManager \<in> set (snd (operator_main env fl M)) \<and>
     env ''WATCH_NAMESPACE'' = Some ''*'' \<and> getStrictNamespaceValidation env = Inr True"

lemma strict_operator_handles:
  assumes c: "cache_documented cached" and s: "strict_operator M fl env"
  shows "handles_acl cached (\<lambda>own strict. new_ConsulACLReconciler env own strict lib client E unmarshal) (snd (operator_main env fl M)) cr \<longleftrightarrow>
      os_Getenv env ''NAMESPACE'' = home (aspec_OperatorNamespace (acr_Spec cr)) (meta_Namespace (acr_Meta cr))"
    and "handles_kv cached (\<lambda>own strict. new_ConsulKVReconciler env own strict lib' client' kv txn) (snd (operator_main env fl M)) cr' \<longleftrightarrow>
      os_Getenv env ''NAMESPACE'' = home (kvspec_OperatorNamespace (kvcr_Spec cr')) (meta_Namespace (kvcr_Meta cr'))"
proof -
  have "StartManager \<in> set (snd (operator_main env fl M))" using s by (simp add: strict_operator_def)
  then obtain own where own: "os_Getenv env ''NAMESPACE'' = own" "own \<noteq> []"
      and calls: "snd (operator_main env fl M) =
        [NewManager (main_options fl own ''*'' True), SetupWithManager ConsulACL_kind own True,
         SetupWithManager ConsulKV_kind own True, AddHealthzCheck ''healthz'', AddReadyzCheck ''readyz'', AddAuthMethodRunnable, StartManager]"
    using start_after_setup[of env fl M] s by (auto simp: strict_operator_def os_Getenv_def)
  have home_cached: "(res = own \<or> opn = own) \<and> own = home opn res \<longleftrightarrow> own = home opn res" for opn res
    by (auto simp: home_def)
  show "handles_acl cached (\<lambda>own strict. new_ConsulACLReconciler env own strict lib client E unmarshal) (snd (operator_main env fl M)) cr \<longleftrightarrow>
      os_Getenv env ''NAMESPACE'' = home (aspec_OperatorNamespace (acr_Spec cr)) (meta_Namespace (acr_Meta cr))"
    unfolding handles_acl_def calls own(1)
    using home_cached by (simp add: strict_cache[OF c own(2)] acl_event_handled_def isManaged_def
        new_ConsulACLReconciler_def isOwnedByOperator_home ex_bool_eq)
  show "handles_kv cached (\<lambda>own strict. new_ConsulKVReconciler env own strict lib' client' kv txn) (snd (operator_main env fl M)) cr' \<longleftrightarrow>
      os_Getenv env ''NAMESPACE'' = home (kvspec_OperatorNamespace (kvcr_Spec cr')) (meta_Namespace (kvcr_Meta cr'))"
    unfolding handles_kv_def calls own(1)
    using home_cached by (simp add: strict_cache[OF c own(2)] kv_event_handled_def kv_ownerPredicate_def
        new_ConsulKVReconciler_def isOwnedByOperator_home ex_bool_eq)
qed

subsection \<open>Periods\<close>

text \<open>Without a valid \<^verbatim>\<open>RECONCILE_PERIOD_SECONDS\<close> the period is zero, and a failed reconcile is not repeated.\<close>

theorem no_period_no_requeue:
  assumes "\<not> atoi_digits (dropWhile (\<lambda>c. c = CHR ''-'' \<or> c = CHR ''+'') (os_Getenv env ''RECONCILE_PERIOD_SECONDS''))"
  shows "acl_requeue (new_ConsulACLReconciler env own strict lib client E unmarshal) = noRequeue \<and>
    requeue (new_ConsulKVReconciler env own strict lib' client' kv txn) = noRequeue"
proof -
  have "\<not> atoi_digits (c # t)" if "c = CHR ''-'' \<or> c = CHR ''+''" for c t
    using that by (auto simp: atoi_digits_def)
  then have "\<not> atoi_digits (case s of c # t \<Rightarrow> if c = CHR ''-'' \<or> c = CHR ''+'' then t else s | [] \<Rightarrow> [])"
    if "\<not> atoi_digits (dropWhile (\<lambda>c. c = CHR ''-'' \<or> c = CHR ''+'') s)" for s
    using that by (cases s; cases "tl s") (auto split: if_splits)
  from this[OF assms] have "periodTime env = 0"
    by (simp add: periodTime_def strconv_Atoi_def Let_def)
  then show ?thesis
    by (simp add: acl_requeue_def requeue_def new_ConsulACLReconciler_def new_ConsulKVReconciler_def noRequeue_def time_seconds_def)
qed

end
