(* ===== verification/Go_Heap.thy ===== *)
theory Go_Heap
  imports Prelude "HOL-Library.Monad_Syntax"
begin

text \<open>
  The memory that the generated copy functions of the API packages work on. A cell holds an array of one Go type; a
  pointer is a cell with an index, a slice a cell with an offset and a length, and \<^verbatim>\<open>nil\<close> is \<^term>\<open>None\<close>. Cells are
  allocated in the order of their addresses and never freed, as far as a program can tell. A function that
  indexes out of range or meets a cell of another type gives \<^term>\<open>None\<close>.

  The locale \<open>deep_copy\<close> is the contract of a copy function: what the copy reads as, that nothing that
  existed before is changed, and that the copy shares no cell with it. The rules below give the contract for
  the statements that the generator emits: an assignment, the copy of a pointer, \<^verbatim>\<open>make\<close> with \<^verbatim>\<open>copy\<close>,
  \<^verbatim>\<open>make\<close> with a loop over the elements, and the fields of a structure one after another.
\<close>

subsection \<open>Memory\<close>

type_synonym addr = nat

record 'c heap =
  h_cells :: "addr \<rightharpoonup> 'c"
  h_next :: addr

definition wf_heap :: "'c heap \<Rightarrow> bool" where
  "wf_heap h \<longleftrightarrow> (\<forall>a. h_next h \<le> a \<longrightarrow> h_cells h a = None)"

text \<open>A Go type: how an array of it is stored in a cell, and how a cell is read as one.\<close>

record ('c, 'a) goType =
  gt_mk :: "'a list \<Rightarrow> 'c"
  gt_un :: "'c \<Rightarrow> 'a list option"

definition goType_ok :: "('c, 'a) goType \<Rightarrow> bool" where
  "goType_ok t \<longleftrightarrow> (\<forall>xs. gt_un t (gt_mk t xs) = Some xs)"

definition load :: "('c, 'a) goType \<Rightarrow> 'c heap \<Rightarrow> addr \<Rightarrow> 'a list option" where
  "load t h a = Option.bind (h_cells h a) (gt_un t)"

definition alloc :: "('c, 'a) goType \<Rightarrow> 'c heap \<Rightarrow> 'a list \<Rightarrow> 'c heap \<times> addr" where
  "alloc t h xs = (\<lparr>h_cells = (h_cells h)(h_next h \<mapsto> gt_mk t xs), h_next = h_next h + 1\<rparr>, h_next h)"

definition store_cell :: "('c, 'a) goType \<Rightarrow> 'c heap \<Rightarrow> addr \<Rightarrow> 'a list \<Rightarrow> 'c heap" where
  "store_cell t h a xs = h\<lparr>h_cells := (h_cells h)(a \<mapsto> gt_mk t xs)\<rparr>"

text \<open>Pointers and slices; \<^verbatim>\<open>new(T)\<close> is an array of one element.\<close>

type_synonym ptr = "addr \<times> nat"

record slice =
  sl_base :: addr
  sl_off :: nat
  sl_len :: nat

definition nth_elem :: "'a list \<Rightarrow> nat \<Rightarrow> 'a option" where
  "nth_elem xs i = (if i < length xs then Some (xs ! i) else None)"

definition deref :: "('c, 'a) goType \<Rightarrow> 'c heap \<Rightarrow> ptr \<Rightarrow> 'a option" where
  "deref t h p = Option.bind (load t h (fst p)) (\<lambda>xs. nth_elem xs (snd p))"

definition assign :: "('c, 'a) goType \<Rightarrow> 'c heap \<Rightarrow> ptr \<Rightarrow> 'a \<Rightarrow> 'c heap option" where
  "assign t h p x =
     do {
       xs \<leftarrow> load t h (fst p);
       if snd p < length xs then Some (store_cell t h (fst p) (xs[snd p := x])) else None
     }"

definition go_new :: "('c, 'a) goType \<Rightarrow> 'c heap \<Rightarrow> 'a \<Rightarrow> 'c heap \<times> ptr" where
  "go_new t h zero = (let (h, a) = alloc t h [zero] in (h, (a, 0)))"

definition go_make :: "('c, 'a) goType \<Rightarrow> 'c heap \<Rightarrow> 'a \<Rightarrow> nat \<Rightarrow> 'c heap \<times> slice" where
  "go_make t h zero n =
     (let (h, a) = alloc t h (replicate n zero) in (h, \<lparr>sl_base = a, sl_off = 0, sl_len = n\<rparr>))"

definition index :: "slice \<Rightarrow> nat \<Rightarrow> ptr option" where
  "index s i = (if i < sl_len s then Some (sl_base s, sl_off s + i) else None)"

definition slice_elems :: "('c, 'a) goType \<Rightarrow> 'c heap \<Rightarrow> slice \<Rightarrow> 'a list option" where
  "slice_elems t h s =
     do {
       xs \<leftarrow> load t h (sl_base s);
       if sl_off s + sl_len s \<le> length xs then Some (take (sl_len s) (drop (sl_off s) xs)) else None
     }"

text \<open>The predeclared \<^verbatim>\<open>copy\<close>: as many elements as the shorter of the two slices has.\<close>

definition go_copy :: "('c, 'a) goType \<Rightarrow> 'c heap \<Rightarrow> slice \<Rightarrow> slice \<Rightarrow> 'c heap option" where
  "go_copy t h dst src =
     do {
       xs \<leftarrow> slice_elems t h src;
       ds \<leftarrow> slice_elems t h dst;
       ys \<leftarrow> load t h (sl_base dst);
       let n = min (length ds) (length xs);
       Some (store_cell t h (sl_base dst) (take (sl_off dst) ys @ take n xs @ drop (sl_off dst + n) ys))
     }"

subsection \<open>The statements of the generator\<close>

type_synonym ('c, 'a) copier = "'c heap \<Rightarrow> 'a \<Rightarrow> ('c heap \<times> 'a) option"

text \<open>The loop \<^verbatim>\<open>for i := range *in { (*in)[i].DeepCopyInto(&(*out)[i]) }\<close>, from index \<open>i\<close> with \<open>n\<close> rounds to go.\<close>

primrec copy_elems ::
  "('c, 'a) goType \<Rightarrow> ('c, 'a) copier \<Rightarrow> slice \<Rightarrow> slice \<Rightarrow> nat \<Rightarrow> nat \<Rightarrow> 'c heap \<Rightarrow> 'c heap option"
where
  "copy_elems t into in' out i 0 h = Some h"
| "copy_elems t into in' out i (Suc n) h =
     do {
       p \<leftarrow> index in' i;
       x \<leftarrow> deref t h p;
       (h, y) \<leftarrow> into h x;
       q \<leftarrow> index out i;
       h \<leftarrow> assign t h q y;
       copy_elems t into in' out (Suc i) n h
     }"

text \<open>\<^verbatim>\<open>if in.F != nil { *out = make([]T, len(*in)); for ... }\<close>, and the same with \<^verbatim>\<open>copy(*out, *in)\<close>.\<close>

definition copy_each :: "('c, 'a) goType \<Rightarrow> 'a \<Rightarrow> ('c, 'a) copier \<Rightarrow> ('c, slice option) copier" where
  "copy_each t zero into h f =
     (case f of
        None \<Rightarrow> Some (h, None)
      | Some in' \<Rightarrow>
          (let (h, out) = go_make t h zero (sl_len in')
           in do { h \<leftarrow> copy_elems t into in' out 0 (sl_len in') h; Some (h, Some out) }))"

definition copy_flat :: "('c, 'a) goType \<Rightarrow> 'a \<Rightarrow> ('c, slice option) copier" where
  "copy_flat t zero h f =
     (case f of
        None \<Rightarrow> Some (h, None)
      | Some in' \<Rightarrow>
          (let (h, out) = go_make t h zero (sl_len in')
           in do { h \<leftarrow> go_copy t h out in'; Some (h, Some out) }))"

text \<open>\<^verbatim>\<open>if in.F != nil { *out = new(T); **out = **in }\<close>.\<close>

definition copy_ptr :: "('c, 'a) goType \<Rightarrow> 'a \<Rightarrow> ('c, ptr option) copier" where
  "copy_ptr t zero h f =
     (case f of
        None \<Rightarrow> Some (h, None)
      | Some p \<Rightarrow>
          (let (h, q) = go_new t h zero
           in do { x \<leftarrow> deref t h p; h \<leftarrow> assign t h q x; Some (h, Some q) }))"

text \<open>
  \<^verbatim>\<open>func (in *T) DeepCopy() *T\<close>: \<^verbatim>\<open>nil\<close> for \<^verbatim>\<open>nil\<close>, otherwise a new \<^verbatim>\<open>T\<close> that \<^verbatim>\<open>DeepCopyInto\<close> fills.
\<close>

definition DeepCopy :: "('c, 'a) goType \<Rightarrow> 'a \<Rightarrow> ('c, 'a) copier \<Rightarrow> ('c, ptr option) copier" where
  "DeepCopy t zero into h in' =
     (case in' of
        None \<Rightarrow> Some (h, None)
      | Some p \<Rightarrow>
          (let (h, out) = go_new t h zero
           in do { x \<leftarrow> deref t h p; (h, y) \<leftarrow> into h x; h \<leftarrow> assign t h out y; Some (h, Some out) }))"

text \<open>
  A value of an interface type: it is \<^verbatim>\<open>nil\<close> only when it has no dynamic type, so that a \<^verbatim>\<open>nil\<close> pointer in an
  interface is not \<^verbatim>\<open>nil\<close>.
\<close>

datatype 'k iface = NilIface | Iface (iface_type: 'k) (iface_ptr: "ptr option")

text \<open>\<^verbatim>\<open>func (in *T) DeepCopyObject() runtime.Object\<close>.\<close>

definition DeepCopyObject ::
  "'k \<Rightarrow> ('c, ptr option) copier \<Rightarrow> 'c heap \<Rightarrow> ptr option \<Rightarrow> ('c heap \<times> 'k iface) option"
where
  "DeepCopyObject k copy h in' =
     do {
       (h, c) \<leftarrow> copy h in';
       if c \<noteq> None then Some (h, Iface k c) else Some (h, NilIface)
     }"

subsection \<open>Lemmas on the memory\<close>

text \<open>A later memory: everything allocated before is as it was.\<close>

definition h_extends :: "'c heap \<Rightarrow> 'c heap \<Rightarrow> bool" where
  "h_extends h h' \<longleftrightarrow> wf_heap h' \<and> h_next h \<le> h_next h' \<and> (\<forall>a<h_next h. h_cells h' a = h_cells h a)"

lemma h_extends_refl [simp]: "h_extends h h \<longleftrightarrow> wf_heap h"
  by (simp add: h_extends_def)

lemma h_extends_wf: "h_extends h h' \<Longrightarrow> wf_heap h'"
  by (simp add: h_extends_def)

lemma h_extends_next: "h_extends h h' \<Longrightarrow> h_next h \<le> h_next h'"
  by (simp add: h_extends_def)

lemma h_extends_cells: "h_extends h h' \<Longrightarrow> a < h_next h \<Longrightarrow> h_cells h' a = h_cells h a"
  by (simp add: h_extends_def)

lemma h_extends_trans [trans]: "h_extends h h1 \<Longrightarrow> h_extends h1 h2 \<Longrightarrow> h_extends h h2"
  by (simp add: h_extends_def)

lemma load_allocated: "wf_heap h \<Longrightarrow> load t h a = Some xs \<Longrightarrow> a < h_next h"
  by (rule ccontr) (simp add: wf_heap_def load_def)

lemma load_cong: "h_cells h' a = h_cells h a \<Longrightarrow> load t h' a = load t h a"
  by (simp add: load_def)

lemma alloc_extends: "wf_heap h \<Longrightarrow> alloc t h xs = (h', a) \<Longrightarrow> h_extends h h'"
  by (auto simp: alloc_def h_extends_def wf_heap_def)

lemma alloc_fresh: "alloc t h xs = (h', a) \<Longrightarrow> a = h_next h \<and> h_next h' = Suc a"
  by (auto simp: alloc_def)

lemma alloc_load: "goType_ok t \<Longrightarrow> alloc t h xs = (h', a) \<Longrightarrow> load t h' a = Some xs"
  by (auto simp: alloc_def load_def goType_ok_def)

lemma store_cell_load: "goType_ok t \<Longrightarrow> load t (store_cell t h a xs) a = Some xs"
  by (simp add: store_cell_def load_def goType_ok_def)

lemma store_cell_other [simp]: "b \<noteq> a \<Longrightarrow> h_cells (store_cell t h a xs) b = h_cells h b"
  by (simp add: store_cell_def)

lemma store_cell_extends:
  assumes "h_extends h h'" "h_next h \<le> a" "a < h_next h'"
  shows "h_extends h (store_cell t h' a xs)"
  using assms by (auto simp: h_extends_def wf_heap_def store_cell_def)

lemma slice_elems_load:
  assumes "slice_elems t h s = Some xs"
  obtains ys where "load t h (sl_base s) = Some ys" "sl_off s + sl_len s \<le> length ys"
    and "xs = take (sl_len s) (drop (sl_off s) ys)" "length xs = sl_len s"
  using assms by (auto simp: slice_elems_def bind_eq_Some_conv split: if_splits)

lemma slice_elems_cong:
  "h_cells h' (sl_base s) = h_cells h (sl_base s) \<Longrightarrow> slice_elems t h' s = slice_elems t h s"
  by (simp add: slice_elems_def load_def)

lemma slice_elem_deref:
  assumes "slice_elems t h s = Some xs" "i < sl_len s"
  shows "\<exists>p. index s i = Some p \<and> deref t h p = Some (xs ! i)"
proof -
  obtain ys where "load t h (sl_base s) = Some ys" "sl_off s + sl_len s \<le> length ys"
    and "xs = take (sl_len s) (drop (sl_off s) ys)"
    using assms(1) by (rule slice_elems_load)
  then show ?thesis using assms(2) by (simp add: index_def deref_def nth_elem_def)
qed

lemma those_Some_iff: "those xs = Some ys \<longleftrightarrow> xs = map Some ys"
proof (induction xs arbitrary: ys)
  case (Cons x xs)
  show ?case by (cases ys) (auto simp: Cons.IH split: option.splits)
qed auto

lemma those_map_nth:
  "those (map f xs) = Some vs \<longleftrightarrow> length vs = length xs \<and> (\<forall>j<length xs. f (xs ! j) = Some (vs ! j))"
  by (auto simp: those_Some_iff list_eq_iff_nth_eq)

subsection \<open>The contract of a copy function\<close>

locale deep_copy =
  fixes copy :: "('c, 'a) copier"
    and reads :: "'c heap \<Rightarrow> 'a \<Rightarrow> 'v option"
    and reach :: "'c heap \<Rightarrow> 'a \<Rightarrow> addr set"
  assumes reads_frame:
      "reads h x = Some v \<Longrightarrow> (\<And>a. a \<in> reach h x \<Longrightarrow> h_cells h' a = h_cells h a) \<Longrightarrow>
       reads h' x = Some v \<and> reach h' x = reach h x"
    and reach_allocated: "wf_heap h \<Longrightarrow> reads h x = Some v \<Longrightarrow> a \<in> reach h x \<Longrightarrow> a < h_next h"
    and copy_returns:
      "wf_heap h \<Longrightarrow> reads h x = Some v \<Longrightarrow>
       \<exists>h' y. copy h x = Some (h', y) \<and> h_extends h h' \<and> reads h' y = Some v \<and> (\<forall>a\<in>reach h' y. h_next h \<le> a)"
begin

lemma reads_later:
  assumes "wf_heap h" "reads h x = Some v" "h_extends h h'"
  shows "reads h' x = Some v" "reach h' x = reach h x"
  using reads_frame [OF assms(2)] reach_allocated [OF assms(1,2)] h_extends_cells [OF assms(3)] by blast+

lemma copyE:
  assumes "wf_heap h" "reads h x = Some v"
  obtains h' y where "copy h x = Some (h', y)" "h_extends h h'" "reads h' y = Some v"
    and "\<And>a. a \<in> reach h' y \<Longrightarrow> h_next h \<le> a"
  using copy_returns [OF assms] by blast

text \<open>Writes to what existed before do not reach the copy, and writes to what did not leave the original.\<close>

lemma copy_independent:
  assumes "wf_heap h" "reads h x = Some v" "copy h x = Some (h', y)"
    and "\<And>a. h_next h \<le> a \<Longrightarrow> h_cells h2 a = h_cells h' a"
  shows "reads h2 y = Some v"
proof -
  have "reads h' y = Some v" "\<And>a. a \<in> reach h' y \<Longrightarrow> h_next h \<le> a"
    using copy_returns [OF assms(1,2)] assms(3) by auto
  then show ?thesis using reads_frame assms(4) by blast
qed

lemma original_untouched:
  assumes "wf_heap h" "reads h x = Some v" "\<And>a. a < h_next h \<Longrightarrow> h_cells h2 a = h_cells h a"
  shows "reads h2 x = Some v"
  using reads_frame [OF assms(2)] reach_allocated [OF assms(1,2)] assms(3) by blast

end

subsection \<open>What pointers and slices read as\<close>

definition reads_plain :: "'c heap \<Rightarrow> 'a \<Rightarrow> 'a option" where
  "reads_plain h x = Some x"

definition reach_plain :: "'c heap \<Rightarrow> 'a \<Rightarrow> addr set" where
  "reach_plain h x = {}"

definition reads_slice ::
  "('c, 'a) goType \<Rightarrow> ('c heap \<Rightarrow> 'a \<Rightarrow> 'v option) \<Rightarrow> 'c heap \<Rightarrow> slice option \<Rightarrow> 'v list option option"
where
  "reads_slice t reads h f =
     (case f of
        None \<Rightarrow> Some None
      | Some s \<Rightarrow> do { xs \<leftarrow> slice_elems t h s; vs \<leftarrow> those (map (reads h) xs); Some (Some vs) })"

definition reach_slice ::
  "('c, 'a) goType \<Rightarrow> ('c heap \<Rightarrow> 'a \<Rightarrow> addr set) \<Rightarrow> 'c heap \<Rightarrow> slice option \<Rightarrow> addr set"
where
  "reach_slice t reach h f =
     (case f of
        None \<Rightarrow> {}
      | Some s \<Rightarrow>
          insert (sl_base s) (case slice_elems t h s of None \<Rightarrow> {} | Some xs \<Rightarrow> (\<Union>x\<in>set xs. reach h x)))"

definition reads_ptr ::
  "('c, 'a) goType \<Rightarrow> ('c heap \<Rightarrow> 'a \<Rightarrow> 'v option) \<Rightarrow> 'c heap \<Rightarrow> ptr option \<Rightarrow> 'v option option"
where
  "reads_ptr t reads h f =
     (case f of
        None \<Rightarrow> Some None
      | Some p \<Rightarrow> do { x \<leftarrow> deref t h p; v \<leftarrow> reads h x; Some (Some v) })"

definition reach_ptr ::
  "('c, 'a) goType \<Rightarrow> ('c heap \<Rightarrow> 'a \<Rightarrow> addr set) \<Rightarrow> 'c heap \<Rightarrow> ptr option \<Rightarrow> addr set"
where
  "reach_ptr t reach h f =
     (case f of
        None \<Rightarrow> {}
      | Some p \<Rightarrow> insert (fst p) (case deref t h p of None \<Rightarrow> {} | Some x \<Rightarrow> reach h x))"

lemma reads_slice_Some:
  assumes "reads_slice t reads h (Some s) = Some v"
  obtains xs vs where "slice_elems t h s = Some xs" "v = Some vs" "length vs = length xs"
    and "\<And>j. j < length xs \<Longrightarrow> reads h (xs ! j) = Some (vs ! j)"
  using assms by (auto simp: reads_slice_def bind_eq_Some_conv those_map_nth)

lemma reads_ptr_Some:
  assumes "reads_ptr t reads h (Some p) = Some v"
  obtains x w where "deref t h p = Some x" "reads h x = Some w" "v = Some w"
  using assms by (auto simp: reads_ptr_def bind_eq_Some_conv)

lemma deref_load:
  assumes "deref t h p = Some x"
  obtains xs where "load t h (fst p) = Some xs" "snd p < length xs" "x = xs ! snd p"
  using assms by (auto simp: deref_def nth_elem_def bind_eq_Some_conv split: if_splits)

lemma deref_cong: "h_cells h' (fst p) = h_cells h (fst p) \<Longrightarrow> deref t h' p = deref t h p"
  by (simp add: deref_def load_def)

lemma deref_later: "wf_heap h \<Longrightarrow> h_extends h h' \<Longrightarrow> deref t h p = Some x \<Longrightarrow> deref t h' p = Some x"
  by (metis deref_cong deref_load h_extends_cells load_allocated)

lemma slice_elems_later:
  "wf_heap h \<Longrightarrow> h_extends h h' \<Longrightarrow> slice_elems t h s = Some xs \<Longrightarrow> slice_elems t h' s = Some xs"
  by (metis slice_elems_cong slice_elems_load h_extends_cells load_allocated)

lemma go_new_ok:
  assumes "goType_ok t" "wf_heap h" "go_new t h z = (h', q)"
  shows "h_extends h h'" "q = (h_next h, 0)" "h_next h' = Suc (h_next h)" "load t h' (h_next h) = Some [z]"
  using assms alloc_extends [OF assms(2)] alloc_fresh alloc_load [OF assms(1)]
  by (fastforce simp: go_new_def split: prod.splits)+

lemma go_make_ok:
  assumes "goType_ok t" "wf_heap h" "go_make t h z n = (h', s)"
  shows "h_extends h h'" "s = \<lparr>sl_base = h_next h, sl_off = 0, sl_len = n\<rparr>" "h_next h' = Suc (h_next h)"
    and "load t h' (h_next h) = Some (replicate n z)"
  using assms alloc_extends [OF assms(2)] alloc_fresh alloc_load [OF assms(1)]
  by (fastforce simp: go_make_def split: prod.splits)+

subsection \<open>Rules for the generated statements\<close>

context deep_copy
begin

text \<open>The array under construction after some rounds of the loop, for values \<open>vs\<close> of the elements.\<close>

definition copied :: "('c, 'a) goType \<Rightarrow> addr \<Rightarrow> 'v list \<Rightarrow> nat \<Rightarrow> nat \<Rightarrow> 'c heap \<Rightarrow> bool" where
  "copied t a vs i len h \<longleftrightarrow>
     (\<exists>ys. load t h a = Some ys \<and> length ys = len \<and>
        (\<forall>j<i. reads h (ys ! j) = Some (vs ! j) \<and> (\<forall>b\<in>reach h (ys ! j). a < b)))"

lemma copied_step:
  assumes t: "goType_ok t" and h: "wf_heap h" "copied t a vs i len h" "i < len" "a < h_next h"
    and y: "h_extends h h1" "reads h1 y = Some (vs ! i)" "\<And>b. b \<in> reach h1 y \<Longrightarrow> h_next h \<le> b"
  shows "\<exists>h2. assign t h1 (a, i) y = Some h2 \<and> copied t a vs (Suc i) len h2 \<and>
     (\<forall>h0. h_extends h0 h1 \<longrightarrow> h_next h0 \<le> a \<longrightarrow> h_extends h0 h2) \<and> h_next h2 = h_next h1"
proof -
  obtain ys where ys: "load t h a = Some ys" "length ys = len"
    "\<And>j. j < i \<Longrightarrow> reads h (ys ! j) = Some (vs ! j)" "\<And>j b. j < i \<Longrightarrow> b \<in> reach h (ys ! j) \<Longrightarrow> a < b"
    using h(2) unfolding copied_def by blast
  let ?h2 = "store_cell t h1 a (ys[i := y])"
  have ld: "load t h1 a = Some ys"
    using ys(1) load_cong [OF h_extends_cells [OF y(1) h(4)], of t] by simp
  have frame: "reads ?h2 x = Some v \<and> (\<forall>b\<in>reach ?h2 x. a < b)"
    if "reads h1 x = Some v" "\<And>b. b \<in> reach h1 x \<Longrightarrow> a < b" for x v
    using reads_frame [OF that(1), of ?h2] that(2) by force
  have old: "reads ?h2 (ys ! j) = Some (vs ! j) \<and> (\<forall>b\<in>reach ?h2 (ys ! j). a < b)" if j: "j < i" for j
    by (rule frame) (use reads_later [OF h(1) ys(3) [OF j] y(1)] ys(4) [OF j] in simp_all)
  have new: "reads ?h2 y = Some (vs ! i) \<and> (\<forall>b\<in>reach ?h2 y. a < b)"
    by (rule frame [OF y(2)]) (use y(3) h(4) in \<open>meson less_le_trans\<close>)
  have "copied t a vs (Suc i) len ?h2"
    unfolding copied_def
  proof (intro exI conjI allI impI)
    show "load t ?h2 a = Some (ys[i := y])" by (rule store_cell_load [OF t])
    show "length (ys[i := y]) = len" by (simp add: ys(2))
  next
    fix j assume "j < Suc i"
    then consider "j = i" "ys[i := y] ! j = y" | "j < i" "ys[i := y] ! j = ys ! j"
      using h(3) ys(2) by (cases "j = i") auto
    then have "reads ?h2 (ys[i := y] ! j) = Some (vs ! j) \<and> (\<forall>b\<in>reach ?h2 (ys[i := y] ! j). a < b)"
    proof cases
      case 1
      show ?thesis unfolding 1(2) unfolding 1(1) by (rule new)
    next
      case 2
      show ?thesis unfolding 2(2) by (rule old [OF 2(1)])
    qed
    then show "reads ?h2 (ys[i := y] ! j) = Some (vs ! j)" "\<forall>b\<in>reach ?h2 (ys[i := y] ! j). a < b"
      by simp_all
  qed
  moreover have "h_extends h0 ?h2" if "h_extends h0 h1" "h_next h0 \<le> a" for h0
    using store_cell_extends [OF that] h(4) h_extends_next [OF y(1)] by simp
  moreover have "h_next ?h2 = h_next h1" by (simp add: store_cell_def)
  ultimately show ?thesis
    using ld h(3) ys(2) by (auto simp: assign_def)
qed

lemma copy_elems_ok:
  assumes t: "goType_ok t" and h0: "wf_heap h0" "slice_elems t h0 s = Some xs" "length xs = sl_len s"
    and vs: "\<And>j. j < length xs \<Longrightarrow> reads h0 (xs ! j) = Some (vs ! j)"
    and out: "out = \<lparr>sl_base = a, sl_off = 0, sl_len = sl_len s\<rparr>" "h_next h0 \<le> a"
  shows "i + n = sl_len s \<Longrightarrow> h_extends h0 h \<Longrightarrow> a < h_next h \<Longrightarrow> copied t a vs i (sl_len s) h \<Longrightarrow>
     \<exists>h'. copy_elems t copy s out i n h = Some h' \<and> h_extends h0 h' \<and> copied t a vs (sl_len s) (sl_len s) h'"
proof (induction n arbitrary: i h)
  case 0
  then show ?case by simp
next
  case (Suc n)
  have i: "i < sl_len s" using Suc.prems(1) by simp
  have wf: "wf_heap h" by (rule h_extends_wf [OF Suc.prems(2)])
  obtain p where p: "index s i = Some p" "deref t h p = Some (xs ! i)"
    using slice_elem_deref [OF slice_elems_later [OF h0(1) Suc.prems(2) h0(2)] i] by blast
  have "reads h (xs ! i) = Some (vs ! i)"
    using reads_later(1) [OF h0(1) vs Suc.prems(2)] i h0(3) by simp
  then obtain h1 y where y: "copy h (xs ! i) = Some (h1, y)" "h_extends h h1" "reads h1 y = Some (vs ! i)"
    "\<And>b. b \<in> reach h1 y \<Longrightarrow> h_next h \<le> b"
    using copyE [OF wf] by blast
  have "h_extends h0 h1" by (rule h_extends_trans [OF Suc.prems(2) y(2)])
  then obtain h2 where h2: "assign t h1 (a, i) y = Some h2" "copied t a vs (Suc i) (sl_len s) h2"
    "h_extends h0 h2" "h_next h2 = h_next h1"
    using copied_step [OF t wf Suc.prems(4) i Suc.prems(3) y(2,3,4)] out(2) by blast
  have "a < h_next h2" using Suc.prems(3) h_extends_next [OF y(2)] h2(4) by simp
  then obtain h' where "copy_elems t copy s out (Suc i) n h2 = Some h'" "h_extends h0 h'"
    "copied t a vs (sl_len s) (sl_len s) h'"
    using Suc.IH [of "Suc i" h2] Suc.prems(1) h2 by auto
  moreover have "index out i = Some (a, i)" using i by (simp add: out(1) index_def)
  ultimately show ?case using p y(1) h2(1) by simp
qed

lemma reads_slice_frame:
  assumes v: "reads_slice t reads h f = Some v"
    and eq: "\<And>a. a \<in> reach_slice t reach h f \<Longrightarrow> h_cells h' a = h_cells h a"
  shows "reads_slice t reads h' f = Some v \<and> reach_slice t reach h' f = reach_slice t reach h f"
proof (cases f)
  case None
  then show ?thesis using v by (simp add: reads_slice_def reach_slice_def)
next
  case (Some s)
  obtain xs vs where xs: "slice_elems t h s = Some xs" "v = Some vs" "length vs = length xs"
    "\<And>j. j < length xs \<Longrightarrow> reads h (xs ! j) = Some (vs ! j)"
    using v unfolding Some by (rule reads_slice_Some) blast
  have xs': "slice_elems t h' s = Some xs"
    using slice_elems_cong [of h' s h t] eq [of "sl_base s"] xs(1) by (simp add: Some reach_slice_def)
  have el: "reads h' (xs ! j) = Some (vs ! j) \<and> reach h' (xs ! j) = reach h (xs ! j)" if j: "j < length xs" for j
  proof (rule reads_frame [OF xs(4) [OF j]])
    fix b assume "b \<in> reach h (xs ! j)"
    then have "b \<in> reach_slice t reach h f"
      using nth_mem [OF j] by (auto simp: Some reach_slice_def xs(1))
    then show "h_cells h' b = h_cells h b" by (rule eq)
  qed
  then have "(\<Union>x\<in>set xs. reach h' x) = (\<Union>x\<in>set xs. reach h x)"
    by (intro SUP_cong) (auto simp: in_set_conv_nth)
  then show ?thesis
    using xs xs' el by (auto simp: Some reads_slice_def reach_slice_def those_map_nth bind_eq_Some_conv)
qed

lemma reach_slice_allocated:
  assumes h: "wf_heap h" "reads_slice t reads h f = Some v" "a \<in> reach_slice t reach h f"
  shows "a < h_next h"
proof (cases f)
  case None
  then show ?thesis using h(3) by (simp add: reach_slice_def)
next
  case (Some s)
  obtain xs vs where xs: "slice_elems t h s = Some xs" "length vs = length xs"
    "\<And>j. j < length xs \<Longrightarrow> reads h (xs ! j) = Some (vs ! j)"
    using h(2) unfolding Some by (rule reads_slice_Some) blast
  obtain ys where "load t h (sl_base s) = Some ys" using xs(1) by (rule slice_elems_load)
  then have "sl_base s < h_next h" by (rule load_allocated [OF h(1)])
  then show ?thesis
    using h(3) reach_allocated [OF h(1) xs(3)] by (auto simp: Some reach_slice_def xs(1) in_set_conv_nth)
qed

lemma copy_each_deep: "goType_ok t \<Longrightarrow> deep_copy (copy_each t zero copy) (reads_slice t reads) (reach_slice t reach)"
proof (unfold_locales, goal_cases)
  case (1 h x v h')
  then show ?case using reads_slice_frame by blast
next
  case (2 h x v a)
  then show ?case using reach_slice_allocated by blast
next
  case (3 h f v)
  show ?case
  proof (cases f)
    case None
    then show ?thesis using 3 by (simp add: copy_each_def reach_slice_def reads_slice_def)
  next
    case (Some s)
    obtain xs vs where xs: "slice_elems t h s = Some xs" "v = Some vs" "length vs = length xs"
      "\<And>j. j < length xs \<Longrightarrow> reads h (xs ! j) = Some (vs ! j)"
      using 3(3) unfolding Some by (rule reads_slice_Some) blast
    have len: "length xs = sl_len s" using xs(1) by (rule slice_elems_load)
    obtain h1 out where mk: "go_make t h zero (sl_len s) = (h1, out)" by (rule prod.exhaust)
    note mk' = go_make_ok [OF 3(1,2) mk]
    have "copied t (h_next h) vs 0 (sl_len s) h1" by (simp add: copied_def mk'(4))
    then obtain h' where h': "copy_elems t copy s out 0 (sl_len s) h1 = Some h'" "h_extends h h'"
      "copied t (h_next h) vs (sl_len s) (sl_len s) h'"
      using copy_elems_ok [OF 3(1,2) xs(1) len xs(4) mk'(2), of 0 "sl_len s" h1] mk' by auto
    then obtain ys where ys: "load t h' (h_next h) = Some ys" "length ys = sl_len s"
      "\<And>j. j < sl_len s \<Longrightarrow> reads h' (ys ! j) = Some (vs ! j)"
      "\<And>j b. j < sl_len s \<Longrightarrow> b \<in> reach h' (ys ! j) \<Longrightarrow> h_next h < b"
      unfolding copied_def by blast
    have base: "sl_base out = h_next h" by (simp add: mk'(2))
    have el: "slice_elems t h' out = Some ys"
      by (simp add: slice_elems_def mk'(2) ys(1,2) flip: ys(2))
    have "reads_slice t reads h' (Some out) = Some v"
      using el ys(2,3) xs(2,3) len by (auto simp: reads_slice_def those_map_nth bind_eq_Some_conv)
    moreover have "\<forall>a\<in>reach_slice t reach h' (Some out). h_next h \<le> a"
    proof
      fix b assume "b \<in> reach_slice t reach h' (Some out)"
      then have "b = h_next h \<or> (\<exists>j < sl_len s. b \<in> reach h' (ys ! j))"
        using base ys(2) by (auto simp: reach_slice_def el in_set_conv_nth)
      then show "h_next h \<le> b" using ys(4) by force
    qed
    moreover have "copy_each t zero copy h (Some s) = Some (h', Some out)"
      by (simp add: copy_each_def mk h'(1))
    ultimately show ?thesis using h'(2) unfolding Some by blast
  qed
qed

lemma reads_ptr_frame:
  assumes v: "reads_ptr t reads h f = Some v"
    and eq: "\<And>a. a \<in> reach_ptr t reach h f \<Longrightarrow> h_cells h' a = h_cells h a"
  shows "reads_ptr t reads h' f = Some v \<and> reach_ptr t reach h' f = reach_ptr t reach h f"
proof (cases f)
  case None
  then show ?thesis using v by (simp add: reads_ptr_def reach_ptr_def)
next
  case (Some p)
  obtain x w where x: "deref t h p = Some x" "reads h x = Some w" "v = Some w"
    using v unfolding Some by (rule reads_ptr_Some)
  have "deref t h' p = Some x"
    using deref_cong [of h' p h t] eq [of "fst p"] x(1) by (simp add: Some reach_ptr_def)
  moreover have "reads h' x = Some w \<and> reach h' x = reach h x"
    by (rule reads_frame [OF x(2)]) (rule eq, simp add: Some reach_ptr_def x(1))
  ultimately show ?thesis using x by (simp add: Some reads_ptr_def reach_ptr_def)
qed

lemma reach_ptr_allocated:
  assumes h: "wf_heap h" "reads_ptr t reads h f = Some v" "a \<in> reach_ptr t reach h f"
  shows "a < h_next h"
proof (cases f)
  case None
  then show ?thesis using h(3) by (simp add: reach_ptr_def)
next
  case (Some p)
  obtain x w where x: "deref t h p = Some x" "reads h x = Some w"
    using h(2) unfolding Some by (rule reads_ptr_Some)
  obtain xs where "load t h (fst p) = Some xs" using x(1) by (rule deref_load)
  then have "fst p < h_next h" by (rule load_allocated [OF h(1)])
  then show ?thesis
    using h(3) reach_allocated [OF h(1) x(2)] by (auto simp: Some reach_ptr_def x(1))
qed

lemma DeepCopy_deep: "goType_ok t \<Longrightarrow> deep_copy (DeepCopy t zero copy) (reads_ptr t reads) (reach_ptr t reach)"
proof (unfold_locales, goal_cases)
  case (1 h x v h')
  then show ?case using reads_ptr_frame by blast
next
  case (2 h x v a)
  then show ?case using reach_ptr_allocated by blast
next
  case (3 h f v)
  show ?case
  proof (cases f)
    case None
    then show ?thesis using 3 by (simp add: DeepCopy_def reach_ptr_def reads_ptr_def)
  next
    case (Some p)
    obtain x w where x: "deref t h p = Some x" "reads h x = Some w" "v = Some w"
      using 3(3) unfolding Some by (rule reads_ptr_Some)
    obtain h1 q where new: "go_new t h zero = (h1, q)" by (rule prod.exhaust)
    note new' = go_new_ok [OF 3(1,2) new]
    have h1: "wf_heap h1" "reads h1 x = Some w" "deref t h1 p = Some x"
      using h_extends_wf [OF new'(1)] reads_later(1) [OF 3(2) x(2) new'(1)] deref_later [OF 3(2) new'(1) x(1)] by simp_all
    obtain h2 y where y: "copy h1 x = Some (h2, y)" "h_extends h1 h2" "reads h2 y = Some w"
      "\<And>a. a \<in> reach h2 y \<Longrightarrow> h_next h1 \<le> a"
      using copyE [OF h1(1,2)] by blast
    have "copied t (h_next h) [w] 0 1 h1" by (simp add: copied_def new'(4))
    from copied_step [OF 3(1) h1(1) this _ _ y(2) _ y(4)]
    obtain h3 where h3: "assign t h2 (h_next h, 0) y = Some h3" "copied t (h_next h) [w] 1 1 h3" "h_extends h h3"
      using y(3) new'(3) h_extends_trans [OF new'(1) y(2)] by auto
    then obtain ys where ys: "load t h3 (h_next h) = Some ys" "length ys = 1" "reads h3 (ys ! 0) = Some w"
      "\<forall>b\<in>reach h3 (ys ! 0). h_next h < b"
      unfolding copied_def by auto
    have d: "deref t h3 q = Some (ys ! 0)"
      using ys(1,2) by (auto simp: new'(2) deref_def nth_elem_def)
    have "reads_ptr t reads h3 (Some q) = Some v" by (simp add: reads_ptr_def d ys(3) x(3))
    moreover have "\<forall>a\<in>reach_ptr t reach h3 (Some q). h_next h \<le> a"
      using ys(4) d unfolding new'(2) by (auto simp: reach_ptr_def)
    moreover have "DeepCopy t zero copy h (Some p) = Some (h3, Some q)"
      using y(1) h1(3) h3(1) by (simp add: DeepCopy_def new new'(2))
    ultimately show ?thesis using h3(3) unfolding Some by blast
  qed
qed

end

text \<open>An assignment \<^verbatim>\<open>*out = *in\<close> of a structure without pointers and slices.\<close>

definition copy_plain :: "('c, 'a) copier" where
  "copy_plain h x = Some (h, x)"

interpretation plain: deep_copy copy_plain reads_plain reach_plain
  by unfold_locales (simp_all add: copy_plain_def reads_plain_def reach_plain_def)

lemma copy_ptr_DeepCopy: "copy_ptr t zero = DeepCopy t zero copy_plain"
  by (intro ext) (simp add: copy_ptr_def DeepCopy_def copy_plain_def split: option.splits prod.splits)

lemmas copy_ptr_deep = plain.DeepCopy_deep [folded copy_ptr_DeepCopy]

lemma those_plain [simp]: "those (map (reads_plain h) xs) = Some xs"
  by (simp add: those_Some_iff reads_plain_def)

lemma copy_flat_deep:
  "goType_ok t \<Longrightarrow> deep_copy (copy_flat t zero) (reads_slice t reads_plain) (reach_slice t reach_plain)"
proof (unfold_locales, goal_cases)
  case (1 h x v h')
  then show ?case using plain.reads_slice_frame by blast
next
  case (2 h x v a)
  then show ?case using plain.reach_slice_allocated by blast
next
  case (3 h f v)
  show ?case
  proof (cases f)
    case None
    then show ?thesis using 3 by (simp add: copy_flat_def reach_slice_def reads_slice_def)
  next
    case (Some s)
    obtain xs where xs: "slice_elems t h s = Some xs" "v = Some xs"
      using 3(3) unfolding Some reads_slice_def by (auto simp: bind_eq_Some_conv)
    have len: "length xs = sl_len s" using xs(1) by (rule slice_elems_load)
    obtain h1 out where mk: "go_make t h zero (sl_len s) = (h1, out)" by (rule prod.exhaust)
    note mk' = go_make_ok [OF 3(1,2) mk]
    let ?h2 = "store_cell t h1 (h_next h) xs"
    have "slice_elems t h1 out = Some (replicate (sl_len s) zero)"
      by (simp add: slice_elems_def mk'(2,4))
    then have "go_copy t h1 out s = Some ?h2"
      using slice_elems_later [OF 3(2) mk'(1) xs(1)] mk'(2,4) by (simp add: go_copy_def flip: len)
    moreover have el: "slice_elems t ?h2 out = Some xs"
      by (simp add: slice_elems_def store_cell_load [OF 3(1)] mk'(2) flip: len)
    moreover have "h_extends h ?h2" by (rule store_cell_extends [OF mk'(1)]) (simp_all add: mk'(3))
    ultimately show ?thesis
      using mk'(2) by (simp add: Some copy_flat_def mk reads_slice_def reach_slice_def reach_plain_def xs(2))
  qed
qed

text \<open>Two copies one after the other, and the copy of a structure whose fields with references are read by \<open>get\<close>.\<close>

definition copy_pair :: "('c, 'a) copier \<Rightarrow> ('c, 'b) copier \<Rightarrow> ('c, 'a \<times> 'b) copier" where
  "copy_pair c1 c2 h p =
     do { (h, x) \<leftarrow> c1 h (fst p); (h, y) \<leftarrow> c2 h (snd p); Some (h, (x, y)) }"

definition reads_pair ::
  "('c heap \<Rightarrow> 'a \<Rightarrow> 'v option) \<Rightarrow> ('c heap \<Rightarrow> 'b \<Rightarrow> 'w option) \<Rightarrow> 'c heap \<Rightarrow> 'a \<times> 'b \<Rightarrow> ('v \<times> 'w) option"
where
  "reads_pair r1 r2 h p = do { v \<leftarrow> r1 h (fst p); w \<leftarrow> r2 h (snd p); Some (v, w) }"

definition reach_pair ::
  "('c heap \<Rightarrow> 'a \<Rightarrow> addr set) \<Rightarrow> ('c heap \<Rightarrow> 'b \<Rightarrow> addr set) \<Rightarrow> 'c heap \<Rightarrow> 'a \<times> 'b \<Rightarrow> addr set"
where
  "reach_pair s1 s2 h p = s1 h (fst p) \<union> s2 h (snd p)"

definition copy_struct :: "('s \<Rightarrow> 'a) \<Rightarrow> ('a \<Rightarrow> 's \<Rightarrow> 's) \<Rightarrow> ('c, 'a) copier \<Rightarrow> ('c, 's) copier" where
  "copy_struct get put c h x = do { (h, y) \<leftarrow> c h (get x); Some (h, put y x) }"

definition reads_struct ::
  "('s \<Rightarrow> 'a) \<Rightarrow> ('v \<Rightarrow> 's \<Rightarrow> 'sv) \<Rightarrow> ('c heap \<Rightarrow> 'a \<Rightarrow> 'v option) \<Rightarrow> 'c heap \<Rightarrow> 's \<Rightarrow> 'sv option"
where
  "reads_struct get val r h x = do { v \<leftarrow> r h (get x); Some (val v x) }"

definition reach_struct :: "('s \<Rightarrow> 'a) \<Rightarrow> ('c heap \<Rightarrow> 'a \<Rightarrow> addr set) \<Rightarrow> 'c heap \<Rightarrow> 's \<Rightarrow> addr set" where
  "reach_struct get s h x = s h (get x)"

lemma copy_pair_deep:
  assumes d: "deep_copy c1 r1 s1" "deep_copy c2 r2 s2"
  shows "deep_copy (copy_pair c1 c2) (reads_pair r1 r2) (reach_pair s1 s2)"
proof (unfold_locales, goal_cases)
  case (1 h p v h')
  then obtain v1 v2 where v: "r1 h (fst p) = Some v1" "r2 h (snd p) = Some v2" "v = (v1, v2)"
    by (auto simp: reads_pair_def bind_eq_Some_conv)
  have "r1 h' (fst p) = Some v1 \<and> s1 h' (fst p) = s1 h (fst p)"
    by (rule deep_copy.reads_frame [OF d(1) v(1)]) (rule 1(2), simp add: reach_pair_def)
  moreover have "r2 h' (snd p) = Some v2 \<and> s2 h' (snd p) = s2 h (snd p)"
    by (rule deep_copy.reads_frame [OF d(2) v(2)]) (rule 1(2), simp add: reach_pair_def)
  ultimately show ?case using v by (simp add: reads_pair_def reach_pair_def)
next
  case (2 h p v a)
  then obtain v1 v2 where "r1 h (fst p) = Some v1" "r2 h (snd p) = Some v2"
    by (auto simp: reads_pair_def bind_eq_Some_conv)
  then show ?case
    using deep_copy.reach_allocated [OF d(1) 2(1)] deep_copy.reach_allocated [OF d(2) 2(1)] 2(3)
    by (auto simp: reach_pair_def)
next
  case (3 h p v)
  then obtain v1 v2 where v: "r1 h (fst p) = Some v1" "r2 h (snd p) = Some v2" "v = (v1, v2)"
    by (auto simp: reads_pair_def bind_eq_Some_conv)
  obtain h1 x where x: "c1 h (fst p) = Some (h1, x)" "h_extends h h1" "r1 h1 x = Some v1"
    "\<And>a. a \<in> s1 h1 x \<Longrightarrow> h_next h \<le> a"
    using deep_copy.copyE [OF d(1) 3(1) v(1)] by blast
  note h1 = h_extends_wf [OF x(2)] deep_copy.reads_later(1) [OF d(2) 3(1) v(2) x(2)]
  obtain h2 y where y: "c2 h1 (snd p) = Some (h2, y)" "h_extends h1 h2" "r2 h2 y = Some v2"
    "\<And>a. a \<in> s2 h2 y \<Longrightarrow> h_next h1 \<le> a"
    using deep_copy.copyE [OF d(2) h1] by blast
  note x2 = deep_copy.reads_later [OF d(1) h1(1) x(3) y(2)]
  have "\<forall>a\<in>reach_pair s1 s2 h2 (x, y). h_next h \<le> a"
    using x(4) le_trans [OF h_extends_next [OF x(2)] y(4)] by (auto simp: reach_pair_def x2(2))
  moreover have "reads_pair r1 r2 h2 (x, y) = Some v"
    by (simp add: reads_pair_def x2(1) y(3) v(3))
  moreover have "copy_pair c1 c2 h p = Some (h2, (x, y))"
    by (simp add: copy_pair_def x(1) y(1))
  ultimately show ?case using h_extends_trans [OF x(2) y(2)] by blast
qed

lemma copy_struct_deep:
  assumes d: "deep_copy c r s" and struct: "\<And>x y. get (put y x) = y" "\<And>v x y. val v (put y x) = val v x"
  shows "deep_copy (copy_struct get put c) (reads_struct get val r) (reach_struct get s)"
proof (unfold_locales, goal_cases)
  case (1 h x v h')
  then show ?case
    using deep_copy.reads_frame [OF d, where h = h and h' = h' and x = "get x"]
    by (auto simp: reads_struct_def reach_struct_def bind_eq_Some_conv)
next
  case (2 h x v a)
  then show ?case
    using deep_copy.reach_allocated [OF d 2(1)]
    by (auto simp: reads_struct_def reach_struct_def bind_eq_Some_conv)
next
  case (3 h x v)
  then obtain w where w: "r h (get x) = Some w" "v = val w x"
    by (auto simp: reads_struct_def bind_eq_Some_conv)
  obtain h1 y where y: "c h (get x) = Some (h1, y)" "h_extends h h1" "r h1 y = Some w"
    "\<And>a. a \<in> s h1 y \<Longrightarrow> h_next h \<le> a"
    using deep_copy.copyE [OF d 3(1) w(1)] by blast
  then show ?case
    by (auto simp: copy_struct_def reads_struct_def reach_struct_def struct w(2))
qed

lemmas deep_copy_rules = copy_pair_deep copy_flat_deep copy_ptr_deep plain.deep_copy_axioms
  deep_copy.copy_each_deep deep_copy.DeepCopy_deep

end
