(* ===== verification/Deep_Copy.thy ===== *)
theory Deep_Copy
  imports Go_Heap ACL_Reconcile KV_Reconcile
begin

text \<open>
  The copy functions of \<^verbatim>\<open>api/v1/zz_generated.deepcopy.go\<close> over the memory of \<^theory_text>\<open>Go_Heap\<close>, and the types of
  \<^verbatim>\<open>api/v1\<close> as they lie in it. A structure has a type parameter for each field that refers to memory: with
  pointers and slices there it is the structure as stored, with options and lists the value it stands for.
  \<^verbatim>\<open>DeepCopyInto\<close> is the function from \<^verbatim>\<open>*in\<close> to what it leaves in \<^verbatim>\<open>*out\<close>. The metadata and the conditions are
  types of apimachinery; their copy functions and zero values are the fields of \<open>metaLib\<close>, and
  \<open>meta_lib_ok\<close> says that they copy deeply.

  The reconcilers of the other theories take the objects as values. That rests on these functions: the
  cache of the manager hands out deep copies, so that a reconcile which changes the conditions or the entries of
  the object it read does not change the object in the cache.
\<close>

subsection \<open>Types\<close>

record TypeMeta =
  tm_Kind :: string
  tm_APIVersion :: string

record 'a memConsulACLSpec =
  mas_OperatorNamespace :: string
  mas_ACL :: 'a

record 'c memConsulACLStatus =
  mast_PoliciesStatus :: string
  mast_RolesStatus :: string
  mast_BindRulesStatus :: string
  mast_GeneralStatus :: string
  mast_Conditions :: 'c

record 'e memConsulKVSpec =
  mks_OperatorNamespace :: string
  mks_PurgeOnDelete :: bool
  mks_KV :: 'e

record ('e, 'c) memConsulKVStatus =
  mkst_Entries :: 'e
  mkst_GeneralStatus :: string
  mkst_ManagedBy :: string
  mkst_Conditions :: 'c

text \<open>The kinds with metadata, a specification and a status, and their lists.\<close>

record ('m, 's, 't) memObject =
  ob_TypeMeta :: TypeMeta
  ob_ObjectMeta :: 'm
  ob_Spec :: 's
  ob_Status :: 't

record ('l, 'i) memList =
  li_TypeMeta :: TypeMeta
  li_ListMeta :: 'l
  li_Items :: 'i

type_synonym 'm memConsulACL = "('m, ptr option memConsulACLSpec, slice option memConsulACLStatus) memObject"
type_synonym 'm memConsulKV =
  "('m, slice option memConsulKVSpec, (slice option, slice option) memConsulKVStatus) memObject"

text \<open>What a cell of the memory holds; \<^typ>\<open>'x\<close> is whatever the metadata refers to.\<close>

datatype ('m, 'l, 'd, 'x) cell =
    ACLs "ACL list"
  | ConsulACLSpecs "ptr option memConsulACLSpec list"
  | ConsulACLStatuses "slice option memConsulACLStatus list"
  | ConsulACLs "'m memConsulACL list"
  | ConsulACLLists "('l, slice option) memList list"
  | ConsulKVEntries "ConsulKVEntry list"
  | ConsulKVEntryStatuses "ConsulKVEntryStatus list"
  | ConsulKVSpecs "slice option memConsulKVSpec list"
  | ConsulKVStatuses "(slice option, slice option) memConsulKVStatus list"
  | ConsulKVs "'m memConsulKV list"
  | ConsulKVLists "('l, slice option) memList list"
  | Conditions "'d list"
  | Others 'x

definition t_ACL :: "(('m, 'l, 'd, 'x) cell, ACL) goType" where
  "t_ACL = \<lparr>gt_mk = ACLs, gt_un = (\<lambda>c. case c of ACLs xs \<Rightarrow> Some xs | _ \<Rightarrow> None)\<rparr>"

definition t_ConsulACLSpec :: "(('m, 'l, 'd, 'x) cell, ptr option memConsulACLSpec) goType" where
  "t_ConsulACLSpec = \<lparr>gt_mk = ConsulACLSpecs, gt_un = (\<lambda>c. case c of ConsulACLSpecs xs \<Rightarrow> Some xs | _ \<Rightarrow> None)\<rparr>"

definition t_ConsulACLStatus :: "(('m, 'l, 'd, 'x) cell, slice option memConsulACLStatus) goType" where
  "t_ConsulACLStatus =
     \<lparr>gt_mk = ConsulACLStatuses, gt_un = (\<lambda>c. case c of ConsulACLStatuses xs \<Rightarrow> Some xs | _ \<Rightarrow> None)\<rparr>"

definition t_ConsulACL :: "(('m, 'l, 'd, 'x) cell, 'm memConsulACL) goType" where
  "t_ConsulACL = \<lparr>gt_mk = ConsulACLs, gt_un = (\<lambda>c. case c of ConsulACLs xs \<Rightarrow> Some xs | _ \<Rightarrow> None)\<rparr>"

definition t_ConsulACLList :: "(('m, 'l, 'd, 'x) cell, ('l, slice option) memList) goType" where
  "t_ConsulACLList = \<lparr>gt_mk = ConsulACLLists, gt_un = (\<lambda>c. case c of ConsulACLLists xs \<Rightarrow> Some xs | _ \<Rightarrow> None)\<rparr>"

definition t_ConsulKVEntry :: "(('m, 'l, 'd, 'x) cell, ConsulKVEntry) goType" where
  "t_ConsulKVEntry = \<lparr>gt_mk = ConsulKVEntries, gt_un = (\<lambda>c. case c of ConsulKVEntries xs \<Rightarrow> Some xs | _ \<Rightarrow> None)\<rparr>"

definition t_ConsulKVEntryStatus :: "(('m, 'l, 'd, 'x) cell, ConsulKVEntryStatus) goType" where
  "t_ConsulKVEntryStatus =
     \<lparr>gt_mk = ConsulKVEntryStatuses, gt_un = (\<lambda>c. case c of ConsulKVEntryStatuses xs \<Rightarrow> Some xs | _ \<Rightarrow> None)\<rparr>"

definition t_ConsulKVSpec :: "(('m, 'l, 'd, 'x) cell, slice option memConsulKVSpec) goType" where
  "t_ConsulKVSpec = \<lparr>gt_mk = ConsulKVSpecs, gt_un = (\<lambda>c. case c of ConsulKVSpecs xs \<Rightarrow> Some xs | _ \<Rightarrow> None)\<rparr>"

definition t_ConsulKVStatus ::
  "(('m, 'l, 'd, 'x) cell, (slice option, slice option) memConsulKVStatus) goType"
where
  "t_ConsulKVStatus =
     \<lparr>gt_mk = ConsulKVStatuses, gt_un = (\<lambda>c. case c of ConsulKVStatuses xs \<Rightarrow> Some xs | _ \<Rightarrow> None)\<rparr>"

definition t_ConsulKV :: "(('m, 'l, 'd, 'x) cell, 'm memConsulKV) goType" where
  "t_ConsulKV = \<lparr>gt_mk = ConsulKVs, gt_un = (\<lambda>c. case c of ConsulKVs xs \<Rightarrow> Some xs | _ \<Rightarrow> None)\<rparr>"

definition t_ConsulKVList :: "(('m, 'l, 'd, 'x) cell, ('l, slice option) memList) goType" where
  "t_ConsulKVList = \<lparr>gt_mk = ConsulKVLists, gt_un = (\<lambda>c. case c of ConsulKVLists xs \<Rightarrow> Some xs | _ \<Rightarrow> None)\<rparr>"

definition t_Condition :: "(('m, 'l, 'd, 'x) cell, 'd) goType" where
  "t_Condition = \<lparr>gt_mk = Conditions, gt_un = (\<lambda>c. case c of Conditions xs \<Rightarrow> Some xs | _ \<Rightarrow> None)\<rparr>"

lemmas t_defs = t_ACL_def t_ConsulACLSpec_def t_ConsulACLStatus_def t_ConsulACL_def t_ConsulACLList_def
  t_ConsulKVEntry_def t_ConsulKVEntryStatus_def t_ConsulKVSpec_def t_ConsulKVStatus_def t_ConsulKV_def
  t_ConsulKVList_def t_Condition_def

lemma t_ok [simp]:
  "goType_ok t_ACL" "goType_ok t_ConsulACLSpec" "goType_ok t_ConsulACLStatus" "goType_ok t_ConsulACL"
  "goType_ok t_ConsulACLList" "goType_ok t_ConsulKVEntry" "goType_ok t_ConsulKVEntryStatus"
  "goType_ok t_ConsulKVSpec" "goType_ok t_ConsulKVStatus" "goType_ok t_ConsulKV" "goType_ok t_ConsulKVList"
  "goType_ok t_Condition"
  by (simp_all add: t_defs goType_ok_def)

text \<open>Zero values, as \<^verbatim>\<open>new\<close> and \<^verbatim>\<open>make\<close> leave them.\<close>

record ('h, 'm, 'l, 'd) metaLib =
  ml_ObjectMeta_DeepCopyInto :: "'h \<Rightarrow> 'm \<Rightarrow> ('h \<times> 'm) option"
  ml_ListMeta_DeepCopyInto :: "'h \<Rightarrow> 'l \<Rightarrow> ('h \<times> 'l) option"
  ml_Condition_DeepCopyInto :: "'h \<Rightarrow> 'd \<Rightarrow> ('h \<times> 'd) option"
  ml_zeroObjectMeta :: 'm
  ml_zeroListMeta :: 'l
  ml_zeroCondition :: 'd

definition zeroACL :: ACL where
  "zeroACL = \<lparr>acl_Json = [], acl_Name = [], acl_CommonReconcile = [], acl_ExplicitName = False\<rparr>"

definition zeroTypeMeta :: TypeMeta where
  "zeroTypeMeta = \<lparr>tm_Kind = [], tm_APIVersion = []\<rparr>"

definition zeroACLSpec :: "ptr option memConsulACLSpec" where
  "zeroACLSpec = \<lparr>mas_OperatorNamespace = [], mas_ACL = None\<rparr>"

definition zeroACLStatus :: "slice option memConsulACLStatus" where
  "zeroACLStatus =
     \<lparr>mast_PoliciesStatus = [], mast_RolesStatus = [], mast_BindRulesStatus = [], mast_GeneralStatus = [],
      mast_Conditions = None\<rparr>"

definition zeroKVEntry :: ConsulKVEntry where
  "zeroKVEntry = \<lparr>entry_Key = [], entry_Value = []\<rparr>"

definition zeroKVEntryStatus :: ConsulKVEntryStatus where
  "zeroKVEntryStatus = \<lparr>st_Key = [], st_Status = [], st_Owned = False\<rparr>"

definition zeroKVSpec :: "slice option memConsulKVSpec" where
  "zeroKVSpec = \<lparr>mks_OperatorNamespace = [], mks_PurgeOnDelete = False, mks_KV = None\<rparr>"

definition zeroKVStatus :: "(slice option, slice option) memConsulKVStatus" where
  "zeroKVStatus = \<lparr>mkst_Entries = None, mkst_GeneralStatus = [], mkst_ManagedBy = [], mkst_Conditions = None\<rparr>"

definition zeroObject :: "('h, 'm, 'l, 'd) metaLib \<Rightarrow> 's \<Rightarrow> 't \<Rightarrow> ('m, 's, 't) memObject" where
  "zeroObject lib spec status =
     \<lparr>ob_TypeMeta = zeroTypeMeta, ob_ObjectMeta = ml_zeroObjectMeta lib, ob_Spec = spec, ob_Status = status\<rparr>"

definition zeroList :: "('h, 'm, 'l, 'd) metaLib \<Rightarrow> ('l, slice option) memList" where
  "zeroList lib = \<lparr>li_TypeMeta = zeroTypeMeta, li_ListMeta = ml_zeroListMeta lib, li_Items = None\<rparr>"

subsection \<open>Copy functions\<close>

type_synonym ('m, 'l, 'd, 'x) lib1 = "(('m, 'l, 'd, 'x) cell heap, 'm, 'l, 'd) metaLib"

text \<open>The body that the generator emits for every kind with metadata, a specification and a status, and for every list.\<close>

definition copy_object ::
  "('c, 'm) copier \<Rightarrow> ('c, 's) copier \<Rightarrow> ('c, 't) copier \<Rightarrow> ('c, ('m, 's, 't) memObject) copier"
where
  "copy_object meta spec status h in' =
     (let out = in';
          out = out\<lparr>ob_TypeMeta := ob_TypeMeta in'\<rparr>
      in do {
           (h, m) \<leftarrow> meta h (ob_ObjectMeta in');
           (h, s) \<leftarrow> spec h (ob_Spec in');
           (h, t) \<leftarrow> status h (ob_Status in');
           Some (h, out\<lparr>ob_ObjectMeta := m, ob_Spec := s, ob_Status := t\<rparr>)
         })"

definition copy_list :: "('c, 'l) copier \<Rightarrow> ('c, slice option) copier \<Rightarrow> ('c, ('l, slice option) memList) copier" where
  "copy_list meta items h in' =
     (let out = in';
          out = out\<lparr>li_TypeMeta := li_TypeMeta in'\<rparr>
      in do {
           (h, m) \<leftarrow> meta h (li_ListMeta in');
           (h, i) \<leftarrow> items h (li_Items in');
           Some (h, out\<lparr>li_ListMeta := m, li_Items := i\<rparr>)
         })"

definition ACL_DeepCopyInto :: "(('m, 'l, 'd, 'x) cell, ACL) copier" where
  "ACL_DeepCopyInto = copy_plain"

definition ACL_DeepCopy :: "(('m, 'l, 'd, 'x) cell, ptr option) copier" where
  "ACL_DeepCopy = DeepCopy t_ACL zeroACL ACL_DeepCopyInto"

definition ConsulACLSpec_DeepCopyInto :: "(('m, 'l, 'd, 'x) cell, ptr option memConsulACLSpec) copier" where
  "ConsulACLSpec_DeepCopyInto h in' =
     do {
       (h, acl) \<leftarrow> copy_ptr t_ACL zeroACL h (mas_ACL in');
       Some (h, in'\<lparr>mas_ACL := acl\<rparr>)
     }"

definition ConsulACLSpec_DeepCopy :: "(('m, 'l, 'd, 'x) cell, ptr option) copier" where
  "ConsulACLSpec_DeepCopy = DeepCopy t_ConsulACLSpec zeroACLSpec ConsulACLSpec_DeepCopyInto"

definition ConsulACLStatus_DeepCopyInto ::
  "('m, 'l, 'd, 'x) lib1 \<Rightarrow> (('m, 'l, 'd, 'x) cell, slice option memConsulACLStatus) copier"
where
  "ConsulACLStatus_DeepCopyInto lib h in' =
     do {
       (h, conditions) \<leftarrow>
         copy_each t_Condition (ml_zeroCondition lib) (ml_Condition_DeepCopyInto lib) h (mast_Conditions in');
       Some (h, in'\<lparr>mast_Conditions := conditions\<rparr>)
     }"

definition ConsulACLStatus_DeepCopy :: "('m, 'l, 'd, 'x) lib1 \<Rightarrow> (('m, 'l, 'd, 'x) cell, ptr option) copier" where
  "ConsulACLStatus_DeepCopy lib = DeepCopy t_ConsulACLStatus zeroACLStatus (ConsulACLStatus_DeepCopyInto lib)"

definition ConsulACL_DeepCopyInto ::
  "('m, 'l, 'd, 'x) lib1 \<Rightarrow> (('m, 'l, 'd, 'x) cell, 'm memConsulACL) copier"
where
  "ConsulACL_DeepCopyInto lib =
     copy_object (ml_ObjectMeta_DeepCopyInto lib) ConsulACLSpec_DeepCopyInto (ConsulACLStatus_DeepCopyInto lib)"

definition zeroConsulACL :: "('m, 'l, 'd, 'x) lib1 \<Rightarrow> 'm memConsulACL" where
  "zeroConsulACL lib = zeroObject lib zeroACLSpec zeroACLStatus"

definition ConsulACL_DeepCopy :: "('m, 'l, 'd, 'x) lib1 \<Rightarrow> (('m, 'l, 'd, 'x) cell, ptr option) copier" where
  "ConsulACL_DeepCopy lib = DeepCopy t_ConsulACL (zeroConsulACL lib) (ConsulACL_DeepCopyInto lib)"

definition ConsulACLList_DeepCopyInto ::
  "('m, 'l, 'd, 'x) lib1 \<Rightarrow> (('m, 'l, 'd, 'x) cell, ('l, slice option) memList) copier"
where
  "ConsulACLList_DeepCopyInto lib =
     copy_list (ml_ListMeta_DeepCopyInto lib)
       (copy_each t_ConsulACL (zeroConsulACL lib) (ConsulACL_DeepCopyInto lib))"

definition ConsulACLList_DeepCopy :: "('m, 'l, 'd, 'x) lib1 \<Rightarrow> (('m, 'l, 'd, 'x) cell, ptr option) copier" where
  "ConsulACLList_DeepCopy lib = DeepCopy t_ConsulACLList (zeroList lib) (ConsulACLList_DeepCopyInto lib)"

definition ConsulKVEntry_DeepCopyInto :: "(('m, 'l, 'd, 'x) cell, ConsulKVEntry) copier" where
  "ConsulKVEntry_DeepCopyInto = copy_plain"

definition ConsulKVEntry_DeepCopy :: "(('m, 'l, 'd, 'x) cell, ptr option) copier" where
  "ConsulKVEntry_DeepCopy = DeepCopy t_ConsulKVEntry zeroKVEntry ConsulKVEntry_DeepCopyInto"

definition ConsulKVEntryStatus_DeepCopyInto :: "(('m, 'l, 'd, 'x) cell, ConsulKVEntryStatus) copier" where
  "ConsulKVEntryStatus_DeepCopyInto = copy_plain"

definition ConsulKVEntryStatus_DeepCopy :: "(('m, 'l, 'd, 'x) cell, ptr option) copier" where
  "ConsulKVEntryStatus_DeepCopy =
     DeepCopy t_ConsulKVEntryStatus zeroKVEntryStatus ConsulKVEntryStatus_DeepCopyInto"

definition ConsulKVSpec_DeepCopyInto :: "(('m, 'l, 'd, 'x) cell, slice option memConsulKVSpec) copier" where
  "ConsulKVSpec_DeepCopyInto h in' =
     do {
       (h, kv) \<leftarrow> copy_flat t_ConsulKVEntry zeroKVEntry h (mks_KV in');
       Some (h, in'\<lparr>mks_KV := kv\<rparr>)
     }"

definition ConsulKVSpec_DeepCopy :: "(('m, 'l, 'd, 'x) cell, ptr option) copier" where
  "ConsulKVSpec_DeepCopy = DeepCopy t_ConsulKVSpec zeroKVSpec ConsulKVSpec_DeepCopyInto"

definition ConsulKVStatus_DeepCopyInto ::
  "('m, 'l, 'd, 'x) lib1 \<Rightarrow> (('m, 'l, 'd, 'x) cell, (slice option, slice option) memConsulKVStatus) copier"
where
  "ConsulKVStatus_DeepCopyInto lib h in' =
     do {
       (h, entries) \<leftarrow> copy_flat t_ConsulKVEntryStatus zeroKVEntryStatus h (mkst_Entries in');
       (h, conditions) \<leftarrow>
         copy_each t_Condition (ml_zeroCondition lib) (ml_Condition_DeepCopyInto lib) h (mkst_Conditions in');
       Some (h, in'\<lparr>mkst_Entries := entries, mkst_Conditions := conditions\<rparr>)
     }"

definition ConsulKVStatus_DeepCopy :: "('m, 'l, 'd, 'x) lib1 \<Rightarrow> (('m, 'l, 'd, 'x) cell, ptr option) copier" where
  "ConsulKVStatus_DeepCopy lib = DeepCopy t_ConsulKVStatus zeroKVStatus (ConsulKVStatus_DeepCopyInto lib)"

definition ConsulKV_DeepCopyInto ::
  "('m, 'l, 'd, 'x) lib1 \<Rightarrow> (('m, 'l, 'd, 'x) cell, 'm memConsulKV) copier"
where
  "ConsulKV_DeepCopyInto lib =
     copy_object (ml_ObjectMeta_DeepCopyInto lib) ConsulKVSpec_DeepCopyInto (ConsulKVStatus_DeepCopyInto lib)"

definition zeroConsulKV :: "('m, 'l, 'd, 'x) lib1 \<Rightarrow> 'm memConsulKV" where
  "zeroConsulKV lib = zeroObject lib zeroKVSpec zeroKVStatus"

definition ConsulKV_DeepCopy :: "('m, 'l, 'd, 'x) lib1 \<Rightarrow> (('m, 'l, 'd, 'x) cell, ptr option) copier" where
  "ConsulKV_DeepCopy lib = DeepCopy t_ConsulKV (zeroConsulKV lib) (ConsulKV_DeepCopyInto lib)"

definition ConsulKVList_DeepCopyInto ::
  "('m, 'l, 'd, 'x) lib1 \<Rightarrow> (('m, 'l, 'd, 'x) cell, ('l, slice option) memList) copier"
where
  "ConsulKVList_DeepCopyInto lib =
     copy_list (ml_ListMeta_DeepCopyInto lib)
       (copy_each t_ConsulKV (zeroConsulKV lib) (ConsulKV_DeepCopyInto lib))"

definition ConsulKVList_DeepCopy :: "('m, 'l, 'd, 'x) lib1 \<Rightarrow> (('m, 'l, 'd, 'x) cell, ptr option) copier" where
  "ConsulKVList_DeepCopy lib = DeepCopy t_ConsulKVList (zeroList lib) (ConsulKVList_DeepCopyInto lib)"

text \<open>The types that the package adds to the scheme, and the methods the library calls through \<^verbatim>\<open>runtime.Object\<close>.\<close>

datatype knownType = K_ConsulACL | K_ConsulACLList | K_ConsulKV | K_ConsulKVList

definition ConsulACL_DeepCopyObject ::
  "('m, 'l, 'd, 'x) lib1 \<Rightarrow> ('m, 'l, 'd, 'x) cell heap \<Rightarrow> ptr option \<Rightarrow> (('m, 'l, 'd, 'x) cell heap \<times> knownType iface) option"
where
  "ConsulACL_DeepCopyObject lib = DeepCopyObject K_ConsulACL (ConsulACL_DeepCopy lib)"

definition ConsulACLList_DeepCopyObject ::
  "('m, 'l, 'd, 'x) lib1 \<Rightarrow> ('m, 'l, 'd, 'x) cell heap \<Rightarrow> ptr option \<Rightarrow> (('m, 'l, 'd, 'x) cell heap \<times> knownType iface) option"
where
  "ConsulACLList_DeepCopyObject lib = DeepCopyObject K_ConsulACLList (ConsulACLList_DeepCopy lib)"

definition ConsulKV_DeepCopyObject ::
  "('m, 'l, 'd, 'x) lib1 \<Rightarrow> ('m, 'l, 'd, 'x) cell heap \<Rightarrow> ptr option \<Rightarrow> (('m, 'l, 'd, 'x) cell heap \<times> knownType iface) option"
where
  "ConsulKV_DeepCopyObject lib = DeepCopyObject K_ConsulKV (ConsulKV_DeepCopy lib)"

definition ConsulKVList_DeepCopyObject ::
  "('m, 'l, 'd, 'x) lib1 \<Rightarrow> ('m, 'l, 'd, 'x) cell heap \<Rightarrow> ptr option \<Rightarrow> (('m, 'l, 'd, 'x) cell heap \<times> knownType iface) option"
where
  "ConsulKVList_DeepCopyObject lib = DeepCopyObject K_ConsulKVList (ConsulKVList_DeepCopy lib)"

text \<open>A call of \<^verbatim>\<open>DeepCopyObject\<close> on an interface value goes to its dynamic type; on \<^verbatim>\<open>nil\<close> it panics.\<close>

fun Object_DeepCopyObject ::
  "('m, 'l, 'd, 'x) lib1 \<Rightarrow> ('m, 'l, 'd, 'x) cell heap \<Rightarrow> knownType iface \<Rightarrow> (('m, 'l, 'd, 'x) cell heap \<times> knownType iface) option"
where
  "Object_DeepCopyObject lib h NilIface = None"
| "Object_DeepCopyObject lib h (Iface K_ConsulACL p) = ConsulACL_DeepCopyObject lib h p"
| "Object_DeepCopyObject lib h (Iface K_ConsulACLList p) = ConsulACLList_DeepCopyObject lib h p"
| "Object_DeepCopyObject lib h (Iface K_ConsulKV p) = ConsulKV_DeepCopyObject lib h p"
| "Object_DeepCopyObject lib h (Iface K_ConsulKVList p) = ConsulKVList_DeepCopyObject lib h p"

subsection \<open>What the objects read as\<close>

definition reads_object ::
  "('c heap \<Rightarrow> 'm \<Rightarrow> 'mv option) \<Rightarrow> ('c heap \<Rightarrow> 's \<Rightarrow> 'sv option) \<Rightarrow> ('c heap \<Rightarrow> 't \<Rightarrow> 'tv option) \<Rightarrow>
   'c heap \<Rightarrow> ('m, 's, 't) memObject \<Rightarrow> ('mv, 'sv, 'tv) memObject option"
where
  "reads_object rm rs rt =
     reads_struct (\<lambda>x. (ob_ObjectMeta x, ob_Spec x, ob_Status x))
       (\<lambda>v x. \<lparr>ob_TypeMeta = ob_TypeMeta x, ob_ObjectMeta = fst v, ob_Spec = fst (snd v), ob_Status = snd (snd v)\<rparr>)
       (reads_pair rm (reads_pair rs rt))"

definition reach_object ::
  "('c heap \<Rightarrow> 'm \<Rightarrow> addr set) \<Rightarrow> ('c heap \<Rightarrow> 's \<Rightarrow> addr set) \<Rightarrow> ('c heap \<Rightarrow> 't \<Rightarrow> addr set) \<Rightarrow>
   'c heap \<Rightarrow> ('m, 's, 't) memObject \<Rightarrow> addr set"
where
  "reach_object sm ss st =
     reach_struct (\<lambda>x. (ob_ObjectMeta x, ob_Spec x, ob_Status x)) (reach_pair sm (reach_pair ss st))"

definition reads_list ::
  "('c heap \<Rightarrow> 'l \<Rightarrow> 'lv option) \<Rightarrow> ('c heap \<Rightarrow> slice option \<Rightarrow> 'iv option) \<Rightarrow>
   'c heap \<Rightarrow> ('l, slice option) memList \<Rightarrow> ('lv, 'iv) memList option"
where
  "reads_list rl ri =
     reads_struct (\<lambda>x. (li_ListMeta x, li_Items x))
       (\<lambda>v x. \<lparr>li_TypeMeta = li_TypeMeta x, li_ListMeta = fst v, li_Items = snd v\<rparr>) (reads_pair rl ri)"

definition reach_list ::
  "('c heap \<Rightarrow> 'l \<Rightarrow> addr set) \<Rightarrow> ('c heap \<Rightarrow> slice option \<Rightarrow> addr set) \<Rightarrow>
   'c heap \<Rightarrow> ('l, slice option) memList \<Rightarrow> addr set"
where
  "reach_list sl si = reach_struct (\<lambda>x. (li_ListMeta x, li_Items x)) (reach_pair sl si)"

lemma copy_object_deep:
  assumes "deep_copy cm rm sm" "deep_copy cs rs ss" "deep_copy ct rt st"
  shows "deep_copy (copy_object cm cs ct) (reads_object rm rs rt) (reach_object sm ss st)"
proof -
  have "copy_object cm cs ct =
     copy_struct (\<lambda>x. (ob_ObjectMeta x, ob_Spec x, ob_Status x))
       (\<lambda>y x. x\<lparr>ob_ObjectMeta := fst y, ob_Spec := fst (snd y), ob_Status := snd (snd y)\<rparr>)
       (copy_pair cm (copy_pair cs ct))"
    by (intro ext) (simp add: copy_object_def copy_struct_def copy_pair_def case_prod_unfold)
  then show ?thesis
    unfolding reads_object_def reach_object_def
    by (simp only:) (rule copy_struct_deep, intro copy_pair_deep assms, simp_all)
qed

lemma copy_list_deep:
  assumes "deep_copy cl rl sl" "deep_copy ci ri si"
  shows "deep_copy (copy_list cl ci) (reads_list rl ri) (reach_list sl si)"
proof -
  have "copy_list cl ci =
     copy_struct (\<lambda>x. (li_ListMeta x, li_Items x)) (\<lambda>y x. x\<lparr>li_ListMeta := fst y, li_Items := snd y\<rparr>)
       (copy_pair cl ci)"
    by (intro ext) (simp add: copy_list_def copy_struct_def copy_pair_def case_prod_unfold)
  then show ?thesis
    unfolding reads_list_def reach_list_def
    by (simp only:) (rule copy_struct_deep, intro copy_pair_deep assms, simp_all)
qed

text \<open>The specifications have no types of the library.\<close>

definition reads_ACLSpec ::
  "('m, 'l, 'd, 'x) cell heap \<Rightarrow> ptr option memConsulACLSpec \<Rightarrow> ACL option memConsulACLSpec option"
where
  "reads_ACLSpec =
     reads_struct mas_ACL (\<lambda>v x. \<lparr>mas_OperatorNamespace = mas_OperatorNamespace x, mas_ACL = v\<rparr>)
       (reads_ptr t_ACL reads_plain)"

definition reach_ACLSpec :: "('m, 'l, 'd, 'x) cell heap \<Rightarrow> ptr option memConsulACLSpec \<Rightarrow> addr set" where
  "reach_ACLSpec = reach_struct mas_ACL (reach_ptr t_ACL reach_plain)"

definition reads_KVSpec ::
  "('m, 'l, 'd, 'x) cell heap \<Rightarrow> slice option memConsulKVSpec \<Rightarrow> ConsulKVEntry list option memConsulKVSpec option"
where
  "reads_KVSpec =
     reads_struct mks_KV
       (\<lambda>v x. \<lparr>mks_OperatorNamespace = mks_OperatorNamespace x, mks_PurgeOnDelete = mks_PurgeOnDelete x, mks_KV = v\<rparr>)
       (reads_slice t_ConsulKVEntry reads_plain)"

definition reach_KVSpec :: "('m, 'l, 'd, 'x) cell heap \<Rightarrow> slice option memConsulKVSpec \<Rightarrow> addr set" where
  "reach_KVSpec = reach_struct mks_KV (reach_slice t_ConsulKVEntry reach_plain)"

interpretation acl: deep_copy ACL_DeepCopyInto reads_plain reach_plain
  unfolding ACL_DeepCopyInto_def by (rule plain.deep_copy_axioms)

interpretation kv_entry: deep_copy ConsulKVEntry_DeepCopyInto reads_plain reach_plain
  unfolding ConsulKVEntry_DeepCopyInto_def by (rule plain.deep_copy_axioms)

interpretation kv_entry_status: deep_copy ConsulKVEntryStatus_DeepCopyInto reads_plain reach_plain
  unfolding ConsulKVEntryStatus_DeepCopyInto_def by (rule plain.deep_copy_axioms)

lemma ConsulACLSpec_struct:
  "ConsulACLSpec_DeepCopyInto = copy_struct mas_ACL (\<lambda>y x. x\<lparr>mas_ACL := y\<rparr>) (copy_ptr t_ACL zeroACL)"
  by (intro ext) (simp add: ConsulACLSpec_DeepCopyInto_def copy_struct_def)

interpretation acl_spec: deep_copy ConsulACLSpec_DeepCopyInto reads_ACLSpec reach_ACLSpec
  unfolding ConsulACLSpec_struct reads_ACLSpec_def reach_ACLSpec_def
  by (rule copy_struct_deep [OF copy_ptr_deep]) simp_all

lemma ConsulKVSpec_struct:
  "ConsulKVSpec_DeepCopyInto = copy_struct mks_KV (\<lambda>y x. x\<lparr>mks_KV := y\<rparr>) (copy_flat t_ConsulKVEntry zeroKVEntry)"
  by (intro ext) (simp add: ConsulKVSpec_DeepCopyInto_def copy_struct_def)

interpretation kv_spec: deep_copy ConsulKVSpec_DeepCopyInto reads_KVSpec reach_KVSpec
  unfolding ConsulKVSpec_struct reads_KVSpec_def reach_KVSpec_def
  by (rule copy_struct_deep [OF copy_flat_deep]) simp_all

text \<open>What the metadata and the conditions read as, for the copy functions of the library.\<close>

record ('h, 'm, 'l, 'd, 'mv, 'lv, 'dv) metaView =
  mv_reads_meta :: "'h \<Rightarrow> 'm \<Rightarrow> 'mv option"
  mv_reach_meta :: "'h \<Rightarrow> 'm \<Rightarrow> addr set"
  mv_reads_list :: "'h \<Rightarrow> 'l \<Rightarrow> 'lv option"
  mv_reach_list :: "'h \<Rightarrow> 'l \<Rightarrow> addr set"
  mv_reads_condition :: "'h \<Rightarrow> 'd \<Rightarrow> 'dv option"
  mv_reach_condition :: "'h \<Rightarrow> 'd \<Rightarrow> addr set"

definition meta_lib_ok ::
  "('c heap, 'm, 'l, 'd) metaLib \<Rightarrow> ('c heap, 'm, 'l, 'd, 'mv, 'lv, 'dv) metaView \<Rightarrow> bool"
where
  "meta_lib_ok lib V \<longleftrightarrow>
     deep_copy (ml_ObjectMeta_DeepCopyInto lib) (mv_reads_meta V) (mv_reach_meta V) \<and>
     deep_copy (ml_ListMeta_DeepCopyInto lib) (mv_reads_list V) (mv_reach_list V) \<and>
     deep_copy (ml_Condition_DeepCopyInto lib) (mv_reads_condition V) (mv_reach_condition V)"

lemma meta_lib_okD:
  assumes "meta_lib_ok lib V"
  shows "deep_copy (ml_ObjectMeta_DeepCopyInto lib) (mv_reads_meta V) (mv_reach_meta V)"
    and "deep_copy (ml_ListMeta_DeepCopyInto lib) (mv_reads_list V) (mv_reach_list V)"
    and "deep_copy (ml_Condition_DeepCopyInto lib) (mv_reads_condition V) (mv_reach_condition V)"
  using assms by (simp_all add: meta_lib_ok_def)

type_synonym ('m, 'l, 'd, 'x, 'mv, 'lv, 'dv) view1 =
  "(('m, 'l, 'd, 'x) cell heap, 'm, 'l, 'd, 'mv, 'lv, 'dv) metaView"

definition reads_ACLStatus ::
  "('c, 'd) goType \<Rightarrow> ('c heap \<Rightarrow> 'd \<Rightarrow> 'dv option) \<Rightarrow> 'c heap \<Rightarrow>
   slice option memConsulACLStatus \<Rightarrow> 'dv list option memConsulACLStatus option"
where
  "reads_ACLStatus tc rc =
     reads_struct mast_Conditions
       (\<lambda>v x. \<lparr>mast_PoliciesStatus = mast_PoliciesStatus x, mast_RolesStatus = mast_RolesStatus x,
              mast_BindRulesStatus = mast_BindRulesStatus x, mast_GeneralStatus = mast_GeneralStatus x,
              mast_Conditions = v\<rparr>)
       (reads_slice tc rc)"

definition reach_ACLStatus ::
  "('c, 'd) goType \<Rightarrow> ('c heap \<Rightarrow> 'd \<Rightarrow> addr set) \<Rightarrow> 'c heap \<Rightarrow> slice option memConsulACLStatus \<Rightarrow> addr set"
where
  "reach_ACLStatus tc sc = reach_struct mast_Conditions (reach_slice tc sc)"

definition reads_KVStatus ::
  "('c, ConsulKVEntryStatus) goType \<Rightarrow> ('c, 'd) goType \<Rightarrow> ('c heap \<Rightarrow> 'd \<Rightarrow> 'dv option) \<Rightarrow> 'c heap \<Rightarrow>
   (slice option, slice option) memConsulKVStatus \<Rightarrow>
   (ConsulKVEntryStatus list option, 'dv list option) memConsulKVStatus option"
where
  "reads_KVStatus te tc rc =
     reads_struct (\<lambda>x. (mkst_Entries x, mkst_Conditions x))
       (\<lambda>v x. \<lparr>mkst_Entries = fst v, mkst_GeneralStatus = mkst_GeneralStatus x,
              mkst_ManagedBy = mkst_ManagedBy x, mkst_Conditions = snd v\<rparr>)
       (reads_pair (reads_slice te reads_plain) (reads_slice tc rc))"

definition reach_KVStatus ::
  "('c, ConsulKVEntryStatus) goType \<Rightarrow> ('c, 'd) goType \<Rightarrow> ('c heap \<Rightarrow> 'd \<Rightarrow> addr set) \<Rightarrow> 'c heap \<Rightarrow>
   (slice option, slice option) memConsulKVStatus \<Rightarrow> addr set"
where
  "reach_KVStatus te tc sc =
     reach_struct (\<lambda>x. (mkst_Entries x, mkst_Conditions x))
       (reach_pair (reach_slice te reach_plain) (reach_slice tc sc))"

lemma ACLStatus_deep:
  assumes "goType_ok tc" "deep_copy cc rc sc"
    and into: "\<And>h x. into h x =
      do { (h, conditions) \<leftarrow> copy_each tc zc cc h (mast_Conditions x); Some (h, x\<lparr>mast_Conditions := conditions\<rparr>) }"
  shows "deep_copy into (reads_ACLStatus tc rc) (reach_ACLStatus tc sc)"
proof -
  have "into = copy_struct mast_Conditions (\<lambda>y x. x\<lparr>mast_Conditions := y\<rparr>) (copy_each tc zc cc)"
    by (intro ext) (simp add: into copy_struct_def)
  then show ?thesis
    unfolding reads_ACLStatus_def reach_ACLStatus_def
    by (simp only:) (rule copy_struct_deep, intro deep_copy.copy_each_deep assms(1,2), simp_all)
qed

lemma KVStatus_deep:
  assumes "goType_ok te" "goType_ok tc" "deep_copy cc rc sc"
    and into: "\<And>h x. into h x =
      do {
        (h, entries) \<leftarrow> copy_flat te ze h (mkst_Entries x);
        (h, conditions) \<leftarrow> copy_each tc zc cc h (mkst_Conditions x);
        Some (h, x\<lparr>mkst_Entries := entries, mkst_Conditions := conditions\<rparr>)
      }"
  shows "deep_copy into (reads_KVStatus te tc rc) (reach_KVStatus te tc sc)"
proof -
  have "into =
     copy_struct (\<lambda>x. (mkst_Entries x, mkst_Conditions x))
       (\<lambda>y x. x\<lparr>mkst_Entries := fst y, mkst_Conditions := snd y\<rparr>)
       (copy_pair (copy_flat te ze) (copy_each tc zc cc))"
    by (intro ext) (simp add: into copy_struct_def copy_pair_def case_prod_unfold)
  then show ?thesis
    unfolding reads_KVStatus_def reach_KVStatus_def
    by (simp only:) (rule copy_struct_deep,
      intro copy_pair_deep copy_flat_deep deep_copy.copy_each_deep assms(1-3), simp_all)
qed

lemmas ConsulACLStatus_deep = ACLStatus_deep [OF t_ok(12) meta_lib_okD(3) ConsulACLStatus_DeepCopyInto_def]
lemmas ConsulKVStatus_deep = KVStatus_deep [OF t_ok(7) t_ok(12) meta_lib_okD(3) ConsulKVStatus_DeepCopyInto_def]

subsection \<open>The known types\<close>

abbreviation reads_ConsulACL where
  "reads_ConsulACL V \<equiv>
     reads_object (mv_reads_meta V) reads_ACLSpec
       (reads_ACLStatus t_Condition (mv_reads_condition V))"
abbreviation reach_ConsulACL where
  "reach_ConsulACL V \<equiv>
     reach_object (mv_reach_meta V) reach_ACLSpec
       (reach_ACLStatus t_Condition (mv_reach_condition V))"
abbreviation reads_ConsulKV where
  "reads_ConsulKV V \<equiv>
     reads_object (mv_reads_meta V) reads_KVSpec
       (reads_KVStatus t_ConsulKVEntryStatus t_Condition (mv_reads_condition V))"
abbreviation reach_ConsulKV where
  "reach_ConsulKV V \<equiv>
     reach_object (mv_reach_meta V) reach_KVSpec
       (reach_KVStatus t_ConsulKVEntryStatus t_Condition (mv_reach_condition V))"
abbreviation reads_ConsulACLList where
  "reads_ConsulACLList V \<equiv> reads_list (mv_reads_list V) (reads_slice t_ConsulACL (reads_ConsulACL V))"
abbreviation reach_ConsulACLList where
  "reach_ConsulACLList V \<equiv> reach_list (mv_reach_list V) (reach_slice t_ConsulACL (reach_ConsulACL V))"
abbreviation reads_ConsulKVList where
  "reads_ConsulKVList V \<equiv> reads_list (mv_reads_list V) (reads_slice t_ConsulKV (reads_ConsulKV V))"
abbreviation reach_ConsulKVList where
  "reach_ConsulKVList V \<equiv> reach_list (mv_reach_list V) (reach_slice t_ConsulKV (reach_ConsulKV V))"

lemma objects_deep:
  assumes lib: "meta_lib_ok lib V"
  shows "deep_copy (ConsulACL_DeepCopyInto lib) (reads_ConsulACL V) (reach_ConsulACL V)"
    and "deep_copy (ConsulKV_DeepCopyInto lib) (reads_ConsulKV V) (reach_ConsulKV V)"
  unfolding ConsulACL_DeepCopyInto_def ConsulKV_DeepCopyInto_def
  by (intro copy_object_deep meta_lib_okD [OF lib] acl_spec.deep_copy_axioms ConsulACLStatus_deep
      kv_spec.deep_copy_axioms ConsulKVStatus_deep lib)+

lemma lists_deep:
  assumes lib: "meta_lib_ok lib V"
  shows "deep_copy (ConsulACLList_DeepCopyInto lib) (reads_ConsulACLList V) (reach_ConsulACLList V)"
    and "deep_copy (ConsulKVList_DeepCopyInto lib) (reads_ConsulKVList V) (reach_ConsulKVList V)"
  unfolding ConsulACLList_DeepCopyInto_def ConsulKVList_DeepCopyInto_def
  by (intro copy_list_deep meta_lib_okD [OF lib] deep_copy.copy_each_deep objects_deep [OF lib] t_ok)+

lemma DeepCopys_deep:
  assumes lib: "meta_lib_ok lib V"
  shows "deep_copy (ConsulACL_DeepCopy lib) (reads_ptr t_ConsulACL (reads_ConsulACL V))
           (reach_ptr t_ConsulACL (reach_ConsulACL V))"
    and "deep_copy (ConsulACLList_DeepCopy lib) (reads_ptr t_ConsulACLList (reads_ConsulACLList V))
           (reach_ptr t_ConsulACLList (reach_ConsulACLList V))"
    and "deep_copy (ConsulKV_DeepCopy lib) (reads_ptr t_ConsulKV (reads_ConsulKV V))
           (reach_ptr t_ConsulKV (reach_ConsulKV V))"
    and "deep_copy (ConsulKVList_DeepCopy lib) (reads_ptr t_ConsulKVList (reads_ConsulKVList V))
           (reach_ptr t_ConsulKVList (reach_ConsulKVList V))"
  unfolding ConsulACL_DeepCopy_def ConsulACLList_DeepCopy_def ConsulKV_DeepCopy_def ConsulKVList_DeepCopy_def
  by (intro deep_copy.DeepCopy_deep objects_deep [OF lib] lists_deep [OF lib] t_ok)+

text \<open>The value behind an interface, with the dynamic type.\<close>

type_synonym ('mv, 'dv) valConsulACL =
  "('mv, ACL option memConsulACLSpec, 'dv list option memConsulACLStatus) memObject"
type_synonym ('mv, 'dv) valConsulKV =
  "('mv, ConsulKVEntry list option memConsulKVSpec,
    (ConsulKVEntryStatus list option, 'dv list option) memConsulKVStatus) memObject"

datatype ('mv, 'lv, 'dv) objValue =
    V_ConsulACL "('mv, 'dv) valConsulACL option"
  | V_ConsulACLList "('lv, ('mv, 'dv) valConsulACL list option) memList option"
  | V_ConsulKV "('mv, 'dv) valConsulKV option"
  | V_ConsulKVList "('lv, ('mv, 'dv) valConsulKV list option) memList option"

fun Object_reads ::
  "('m, 'l, 'd, 'x, 'mv, 'lv, 'dv) view1 \<Rightarrow> ('m, 'l, 'd, 'x) cell heap \<Rightarrow> knownType iface \<Rightarrow> ('mv, 'lv, 'dv) objValue option"
where
  "Object_reads V h NilIface = None"
| "Object_reads V h (Iface K_ConsulACL p) = map_option V_ConsulACL (reads_ptr t_ConsulACL (reads_ConsulACL V) h p)"
| "Object_reads V h (Iface K_ConsulACLList p) =
     map_option V_ConsulACLList (reads_ptr t_ConsulACLList (reads_ConsulACLList V) h p)"
| "Object_reads V h (Iface K_ConsulKV p) = map_option V_ConsulKV (reads_ptr t_ConsulKV (reads_ConsulKV V) h p)"
| "Object_reads V h (Iface K_ConsulKVList p) =
     map_option V_ConsulKVList (reads_ptr t_ConsulKVList (reads_ConsulKVList V) h p)"

lemma DeepCopyObject_deep:
  assumes d: "deep_copy c (reads_ptr t r) s" and h: "wf_heap h" "reads_ptr t r h (Some p) = Some v"
  shows "\<exists>h' q. DeepCopyObject k c h (Some p) = Some (h', Iface k (Some q)) \<and> h_extends h h' \<and>
     (\<forall>h2. (\<forall>a\<ge>h_next h. h_cells h2 a = h_cells h' a) \<longrightarrow> reads_ptr t r h2 (Some q) = Some v) \<and>
     (\<forall>h2. (\<forall>a<h_next h. h_cells h2 a = h_cells h a) \<longrightarrow> reads_ptr t r h2 (Some p) = Some v)"
proof -
  obtain h' y where y: "c h (Some p) = Some (h', y)" "h_extends h h'" "reads_ptr t r h' y = Some v"
    using deep_copy.copyE [OF d h] by blast
  obtain q where q: "y = Some q"
    using y(3) h(2) by (cases y) (auto simp: reads_ptr_def bind_eq_Some_conv)
  have "DeepCopyObject k c h (Some p) = Some (h', Iface k (Some q))"
    by (simp add: DeepCopyObject_def y(1) q)
  moreover have "reads_ptr t r h2 (Some q) = Some v" if "\<forall>a\<ge>h_next h. h_cells h2 a = h_cells h' a" for h2
    using deep_copy.copy_independent [OF d h y(1)] that unfolding q by simp
  moreover have "reads_ptr t r h2 (Some p) = Some v" if "\<forall>a<h_next h. h_cells h2 a = h_cells h a" for h2
    using deep_copy.original_untouched [OF d h] that by simp
  ultimately show ?thesis using y(2) by blast
qed

lemma DeepCopy_nil: "DeepCopy t zero c h None = Some (h, None)"
  by (simp add: DeepCopy_def)

lemma Object_DeepCopyObject_nil: "Object_DeepCopyObject lib h (Iface k None) = Some (h, NilIface)"
  by (cases k)
    (simp_all add: ConsulACL_DeepCopyObject_def ConsulACLList_DeepCopyObject_def ConsulKV_DeepCopyObject_def
      ConsulKVList_DeepCopyObject_def DeepCopyObject_def ConsulACL_DeepCopy_def ConsulACLList_DeepCopy_def
      ConsulKV_DeepCopy_def ConsulKVList_DeepCopy_def DeepCopy_nil)

lemma Object_DeepCopyObject_deep:
  assumes "meta_lib_ok lib V" "wf_heap h" "Object_reads V h (Iface k (Some p)) = Some v"
  shows "\<exists>h' q. Object_DeepCopyObject lib h (Iface k (Some p)) = Some (h', Iface k (Some q)) \<and> h_extends h h' \<and>
       (\<forall>h2. (\<forall>a\<ge>h_next h. h_cells h2 a = h_cells h' a) \<longrightarrow> Object_reads V h2 (Iface k (Some q)) = Some v) \<and>
       (\<forall>h2. (\<forall>a<h_next h. h_cells h2 a = h_cells h a) \<longrightarrow> Object_reads V h2 (Iface k (Some p)) = Some v)"
proof (cases k)
  case K_ConsulACL
  then obtain w where w: "reads_ptr t_ConsulACL (reads_ConsulACL V) h (Some p) = Some w" "v = V_ConsulACL w"
    using assms(3) by auto
  show ?thesis
    using DeepCopyObject_deep [OF DeepCopys_deep(1) [OF assms(1)] assms(2) w(1), of k]
    by (simp add: K_ConsulACL ConsulACL_DeepCopyObject_def w(2))
next
  case K_ConsulACLList
  then obtain w where w: "reads_ptr t_ConsulACLList (reads_ConsulACLList V) h (Some p) = Some w" "v = V_ConsulACLList w"
    using assms(3) by auto
  show ?thesis
    using DeepCopyObject_deep [OF DeepCopys_deep(2) [OF assms(1)] assms(2) w(1), of k]
    by (simp add: K_ConsulACLList ConsulACLList_DeepCopyObject_def w(2))
next
  case K_ConsulKV
  then obtain w where w: "reads_ptr t_ConsulKV (reads_ConsulKV V) h (Some p) = Some w" "v = V_ConsulKV w"
    using assms(3) by auto
  show ?thesis
    using DeepCopyObject_deep [OF DeepCopys_deep(3) [OF assms(1)] assms(2) w(1), of k]
    by (simp add: K_ConsulKV ConsulKV_DeepCopyObject_def w(2))
next
  case K_ConsulKVList
  then obtain w where w: "reads_ptr t_ConsulKVList (reads_ConsulKVList V) h (Some p) = Some w" "v = V_ConsulKVList w"
    using assms(3) by auto
  show ?thesis
    using DeepCopyObject_deep [OF DeepCopys_deep(4) [OF assms(1)] assms(2) w(1), of k]
    by (simp add: K_ConsulKVList ConsulKVList_DeepCopyObject_def w(2))
qed

text \<open>
  C29. \<^verbatim>\<open>DeepCopyObject\<close> on an object of one of the four known types returns an object of the same type. The copy
  reads as the original, and goes on doing so whatever is written to memory that existed before the
  call; the original goes on reading the same whatever is written to memory that did not, such as the copy. A \<^verbatim>\<open>nil\<close> pointer
  gives the \<^verbatim>\<open>nil\<close> interface, not an interface that holds a \<^verbatim>\<open>nil\<close> pointer.
\<close>

theorem deep_copy_object_independent:
  assumes "meta_lib_ok lib V" "wf_heap h" "Object_reads V h (Iface k (Some p)) = Some v"
  shows "(\<exists>h' q. Object_DeepCopyObject lib h (Iface k (Some p)) = Some (h', Iface k (Some q)) \<and> h_extends h h' \<and>
       (\<forall>h2. (\<forall>a\<ge>h_next h. h_cells h2 a = h_cells h' a) \<longrightarrow> Object_reads V h2 (Iface k (Some q)) = Some v) \<and>
       (\<forall>h2. (\<forall>a<h_next h. h_cells h2 a = h_cells h a) \<longrightarrow> Object_reads V h2 (Iface k (Some p)) = Some v)) \<and>
     Object_DeepCopyObject lib h (Iface k None) = Some (h, NilIface)"
  by (rule conjI [OF Object_DeepCopyObject_deep [OF assms] Object_DeepCopyObject_nil])

text \<open>
  A library whose object metadata is the list of finalizers, in a cell of its own, and a memory with a
  ConsulKV at address 3 that has one entry, no entry statuses and one condition.
\<close>

definition t_strings :: "((slice option, string, Condition, string list) cell, string) goType" where
  "t_strings = \<lparr>gt_mk = Others, gt_un = (\<lambda>c. case c of Others xs \<Rightarrow> Some xs | _ \<Rightarrow> None)\<rparr>"

definition sampleLib :: "(slice option, string, Condition, string list) lib1" where
  "sampleLib =
     \<lparr>ml_ObjectMeta_DeepCopyInto = copy_flat t_strings [], ml_ListMeta_DeepCopyInto = copy_plain,
      ml_Condition_DeepCopyInto = copy_plain, ml_zeroObjectMeta = None, ml_zeroListMeta = [],
      ml_zeroCondition =
        \<lparr>cond_Type = [], cond_Status = [], cond_ObservedGeneration = 0, cond_LastTransitionTime = 0,
         cond_Reason = [], cond_Message = []\<rparr>\<rparr>"

definition sampleView ::
  "(slice option, string, Condition, string list, string list option, string, Condition) view1"
where
  "sampleView =
     \<lparr>mv_reads_meta = reads_slice t_strings reads_plain, mv_reach_meta = reach_slice t_strings reach_plain,
      mv_reads_list = reads_plain, mv_reach_list = reach_plain,
      mv_reads_condition = reads_plain, mv_reach_condition = reach_plain\<rparr>"

definition sampleEntry :: ConsulKVEntry where
  "sampleEntry = \<lparr>entry_Key = ''config/a'', entry_Value = ''1''\<rparr>"

definition sampleCondition :: Condition where
  "sampleCondition =
     \<lparr>cond_Type = ''Successful'', cond_Status = ''True'', cond_ObservedGeneration = 1, cond_LastTransitionTime = 7,
      cond_Reason = ''Reconciled'', cond_Message = []\<rparr>"

definition sampleKV :: "slice option memConsulKV" where
  "sampleKV =
     \<lparr>ob_TypeMeta = \<lparr>tm_Kind = ''ConsulKV'', tm_APIVersion = ''netcracker.com/v1''\<rparr>,
      ob_ObjectMeta = Some \<lparr>sl_base = 0, sl_off = 0, sl_len = 1\<rparr>,
      ob_Spec = \<lparr>mks_OperatorNamespace = [], mks_PurgeOnDelete = True,
                 mks_KV = Some \<lparr>sl_base = 1, sl_off = 0, sl_len = 1\<rparr>\<rparr>,
      ob_Status = \<lparr>mkst_Entries = None, mkst_GeneralStatus = ''success'', mkst_ManagedBy = [],
                   mkst_Conditions = Some \<lparr>sl_base = 2, sl_off = 0, sl_len = 1\<rparr>\<rparr>\<rparr>"

definition sampleHeap :: "(slice option, string, Condition, string list) cell heap" where
  "sampleHeap =
     \<lparr>h_cells = [0 \<mapsto> Others [''finalizer''], 1 \<mapsto> ConsulKVEntries [sampleEntry], 2 \<mapsto> Conditions [sampleCondition],
                 3 \<mapsto> ConsulKVs [sampleKV]],
      h_next = 4\<rparr>"

definition sampleValue :: "(string list option, string, Condition) objValue" where
  "sampleValue = V_ConsulKV (Some
     \<lparr>ob_TypeMeta = \<lparr>tm_Kind = ''ConsulKV'', tm_APIVersion = ''netcracker.com/v1''\<rparr>,
      ob_ObjectMeta = Some [''finalizer''],
      ob_Spec = \<lparr>mks_OperatorNamespace = [], mks_PurgeOnDelete = True, mks_KV = Some [sampleEntry]\<rparr>,
      ob_Status = \<lparr>mkst_Entries = None, mkst_GeneralStatus = ''success'', mkst_ManagedBy = [],
                   mkst_Conditions = Some [sampleCondition]\<rparr>\<rparr>)"

lemma sampleLib_ok: "meta_lib_ok sampleLib sampleView"
  by (simp add: meta_lib_ok_def sampleLib_def sampleView_def copy_flat_deep t_strings_def goType_ok_def
      plain.deep_copy_axioms)

lemma sampleHeap_wf: "wf_heap sampleHeap"
  by (simp add: wf_heap_def sampleHeap_def)

lemma sampleHeap_reads: "Object_reads sampleView sampleHeap (Iface K_ConsulKV (Some (3, 0))) = Some sampleValue"
  by (simp add: reads_ptr_def deref_def load_def nth_elem_def sampleHeap_def t_defs t_strings_def reads_object_def
      reads_struct_def reads_pair_def reads_slice_def slice_elems_def reads_KVSpec_def reads_KVStatus_def sampleKV_def
      sampleView_def sampleValue_def)

theorem deep_copy_object_independent_witness:
  "\<exists>h' q. Object_DeepCopyObject sampleLib sampleHeap (Iface K_ConsulKV (Some (3, 0))) = Some (h', Iface K_ConsulKV (Some q)) \<and>
     Object_reads sampleView (h'\<lparr>h_cells := (h_cells h')(1 \<mapsto> ConsulKVEntries [])\<rparr>) (Iface K_ConsulKV (Some q)) = Some sampleValue"
proof -
  obtain h' q where "Object_DeepCopyObject sampleLib sampleHeap (Iface K_ConsulKV (Some (3, 0))) = Some (h', Iface K_ConsulKV (Some q))"
    and r: "\<And>h2. (\<forall>a\<ge>h_next sampleHeap. h_cells h2 a = h_cells h' a) \<Longrightarrow>
       Object_reads sampleView h2 (Iface K_ConsulKV (Some q)) = Some sampleValue"
    using deep_copy_object_independent [OF sampleLib_ok sampleHeap_wf sampleHeap_reads] by blast
  moreover have "\<forall>a\<ge>h_next sampleHeap.
      h_cells (h'\<lparr>h_cells := (h_cells h')(1 \<mapsto> ConsulKVEntries [])\<rparr>) a = h_cells h' a"
    by (simp add: sampleHeap_def)
  ultimately show ?thesis by blast
qed

end
