(* ===== verification/Deep_Copy_V1alpha1.thy ===== *)
theory Deep_Copy_V1alpha1
  imports Deep_Copy
begin

text \<open>
  The types of \<^verbatim>\<open>api/v1alpha1\<close> and the copy functions of its \<^verbatim>\<open>zz_generated.deepcopy.go\<close>, over the memory of
  \<^theory_text>\<open>Go_Heap\<close> and with the shapes that the version shares with \<^verbatim>\<open>api/v1\<close>. The versions differ in the
  specifications: here the namespace of the operator is a field of \<^verbatim>\<open>ACL\<close> and of \<^verbatim>\<open>ConsulKVConfig\<close>, and the specification of a
  ConsulKV holds a \<^verbatim>\<open>ConsulKVConfig\<close> by value. The operator does not register this version.
\<close>

subsection \<open>Types\<close>

record a1_ACL =
  a1_Json :: string
  a1_Name :: string
  a1_CommonReconcile :: string
  a1_ExplicitName :: bool
  a1_OperatorNamespace :: string

record 'a a1_ConsulACLSpec =
  a1s_ACL :: 'a

record 'e a1_ConsulKVConfig =
  a1c_Entries :: 'e
  a1c_PurgeOnDelete :: bool
  a1c_OperatorNamespace :: string

record 'k a1_ConsulKVSpec =
  a1k_KV :: 'k

text \<open>The entries and the statuses have the fields of \<^verbatim>\<open>api/v1\<close>.\<close>

type_synonym a1_ConsulKVEntry = ConsulKVEntry
type_synonym a1_ConsulKVEntryStatus = ConsulKVEntryStatus
type_synonym 'c a1_ConsulACLStatus = "'c memConsulACLStatus"
type_synonym ('e, 'c) a1_ConsulKVStatus = "('e, 'c) memConsulKVStatus"

type_synonym 'm a1_ConsulACL = "('m, ptr option a1_ConsulACLSpec, slice option a1_ConsulACLStatus) memObject"
type_synonym 'm a1_ConsulKV =
  "('m, slice option a1_ConsulKVConfig a1_ConsulKVSpec, (slice option, slice option) a1_ConsulKVStatus) memObject"

datatype ('m, 'l, 'd, 'x) a1_cell =
    a1_ACLs "a1_ACL list"
  | a1_ConsulACLSpecs "ptr option a1_ConsulACLSpec list"
  | a1_ConsulACLStatuses "slice option a1_ConsulACLStatus list"
  | a1_ConsulACLs "'m a1_ConsulACL list"
  | a1_ConsulACLLists "('l, slice option) memList list"
  | a1_ConsulKVEntries "a1_ConsulKVEntry list"
  | a1_ConsulKVEntryStatuses "a1_ConsulKVEntryStatus list"
  | a1_ConsulKVConfigs "slice option a1_ConsulKVConfig list"
  | a1_ConsulKVSpecs "slice option a1_ConsulKVConfig a1_ConsulKVSpec list"
  | a1_ConsulKVStatuses "(slice option, slice option) a1_ConsulKVStatus list"
  | a1_ConsulKVs "'m a1_ConsulKV list"
  | a1_ConsulKVLists "('l, slice option) memList list"
  | a1_Conditions "'d list"
  | a1_Others 'x

definition t_a1_ACL :: "(('m, 'l, 'd, 'x) a1_cell, a1_ACL) goType" where
  "t_a1_ACL = \<lparr>gt_mk = a1_ACLs, gt_un = (\<lambda>c. case c of a1_ACLs xs \<Rightarrow> Some xs | _ \<Rightarrow> None)\<rparr>"

definition t_a1_ConsulACLSpec :: "(('m, 'l, 'd, 'x) a1_cell, ptr option a1_ConsulACLSpec) goType" where
  "t_a1_ConsulACLSpec = \<lparr>gt_mk = a1_ConsulACLSpecs, gt_un = (\<lambda>c. case c of a1_ConsulACLSpecs xs \<Rightarrow> Some xs | _ \<Rightarrow> None)\<rparr>"

definition t_a1_ConsulACLStatus :: "(('m, 'l, 'd, 'x) a1_cell, slice option a1_ConsulACLStatus) goType" where
  "t_a1_ConsulACLStatus = \<lparr>gt_mk = a1_ConsulACLStatuses, gt_un = (\<lambda>c. case c of a1_ConsulACLStatuses xs \<Rightarrow> Some xs | _ \<Rightarrow> None)\<rparr>"

definition t_a1_ConsulACL :: "(('m, 'l, 'd, 'x) a1_cell, 'm a1_ConsulACL) goType" where
  "t_a1_ConsulACL = \<lparr>gt_mk = a1_ConsulACLs, gt_un = (\<lambda>c. case c of a1_ConsulACLs xs \<Rightarrow> Some xs | _ \<Rightarrow> None)\<rparr>"

definition t_a1_ConsulACLList :: "(('m, 'l, 'd, 'x) a1_cell, ('l, slice option) memList) goType" where
  "t_a1_ConsulACLList = \<lparr>gt_mk = a1_ConsulACLLists, gt_un = (\<lambda>c. case c of a1_ConsulACLLists xs \<Rightarrow> Some xs | _ \<Rightarrow> None)\<rparr>"

definition t_a1_ConsulKVEntry :: "(('m, 'l, 'd, 'x) a1_cell, a1_ConsulKVEntry) goType" where
  "t_a1_ConsulKVEntry = \<lparr>gt_mk = a1_ConsulKVEntries, gt_un = (\<lambda>c. case c of a1_ConsulKVEntries xs \<Rightarrow> Some xs | _ \<Rightarrow> None)\<rparr>"

definition t_a1_ConsulKVEntryStatus :: "(('m, 'l, 'd, 'x) a1_cell, a1_ConsulKVEntryStatus) goType" where
  "t_a1_ConsulKVEntryStatus = \<lparr>gt_mk = a1_ConsulKVEntryStatuses, gt_un = (\<lambda>c. case c of a1_ConsulKVEntryStatuses xs \<Rightarrow> Some xs | _ \<Rightarrow> None)\<rparr>"

definition t_a1_ConsulKVConfig :: "(('m, 'l, 'd, 'x) a1_cell, slice option a1_ConsulKVConfig) goType" where
  "t_a1_ConsulKVConfig = \<lparr>gt_mk = a1_ConsulKVConfigs, gt_un = (\<lambda>c. case c of a1_ConsulKVConfigs xs \<Rightarrow> Some xs | _ \<Rightarrow> None)\<rparr>"

definition t_a1_ConsulKVSpec :: "(('m, 'l, 'd, 'x) a1_cell, slice option a1_ConsulKVConfig a1_ConsulKVSpec) goType" where
  "t_a1_ConsulKVSpec = \<lparr>gt_mk = a1_ConsulKVSpecs, gt_un = (\<lambda>c. case c of a1_ConsulKVSpecs xs \<Rightarrow> Some xs | _ \<Rightarrow> None)\<rparr>"

definition t_a1_ConsulKVStatus :: "(('m, 'l, 'd, 'x) a1_cell, (slice option, slice option) a1_ConsulKVStatus) goType" where
  "t_a1_ConsulKVStatus = \<lparr>gt_mk = a1_ConsulKVStatuses, gt_un = (\<lambda>c. case c of a1_ConsulKVStatuses xs \<Rightarrow> Some xs | _ \<Rightarrow> None)\<rparr>"

definition t_a1_ConsulKV :: "(('m, 'l, 'd, 'x) a1_cell, 'm a1_ConsulKV) goType" where
  "t_a1_ConsulKV = \<lparr>gt_mk = a1_ConsulKVs, gt_un = (\<lambda>c. case c of a1_ConsulKVs xs \<Rightarrow> Some xs | _ \<Rightarrow> None)\<rparr>"

definition t_a1_ConsulKVList :: "(('m, 'l, 'd, 'x) a1_cell, ('l, slice option) memList) goType" where
  "t_a1_ConsulKVList = \<lparr>gt_mk = a1_ConsulKVLists, gt_un = (\<lambda>c. case c of a1_ConsulKVLists xs \<Rightarrow> Some xs | _ \<Rightarrow> None)\<rparr>"

definition t_a1_Condition :: "(('m, 'l, 'd, 'x) a1_cell, 'd) goType" where
  "t_a1_Condition = \<lparr>gt_mk = a1_Conditions, gt_un = (\<lambda>c. case c of a1_Conditions xs \<Rightarrow> Some xs | _ \<Rightarrow> None)\<rparr>"

lemmas a1_t_defs =
  t_a1_ACL_def t_a1_ConsulACLSpec_def t_a1_ConsulACLStatus_def t_a1_ConsulACL_def t_a1_ConsulACLList_def
  t_a1_ConsulKVEntry_def t_a1_ConsulKVEntryStatus_def t_a1_ConsulKVConfig_def t_a1_ConsulKVSpec_def
  t_a1_ConsulKVStatus_def t_a1_ConsulKV_def t_a1_ConsulKVList_def t_a1_Condition_def

lemma a1_t_ok [simp]:
  "goType_ok t_a1_ACL" "goType_ok t_a1_ConsulACLSpec" "goType_ok t_a1_ConsulACLStatus"
  "goType_ok t_a1_ConsulACL" "goType_ok t_a1_ConsulACLList" "goType_ok t_a1_ConsulKVEntry"
  "goType_ok t_a1_ConsulKVEntryStatus" "goType_ok t_a1_ConsulKVConfig" "goType_ok t_a1_ConsulKVSpec"
  "goType_ok t_a1_ConsulKVStatus" "goType_ok t_a1_ConsulKV" "goType_ok t_a1_ConsulKVList"
  "goType_ok t_a1_Condition"
  by (simp_all add: a1_t_defs goType_ok_def)

definition a1_zeroACL :: a1_ACL where
  "a1_zeroACL =
     \<lparr>a1_Json = [], a1_Name = [], a1_CommonReconcile = [], a1_ExplicitName = False, a1_OperatorNamespace = []\<rparr>"

definition a1_zeroACLSpec :: "ptr option a1_ConsulACLSpec" where
  "a1_zeroACLSpec = \<lparr>a1s_ACL = None\<rparr>"

definition a1_zeroKVConfig :: "slice option a1_ConsulKVConfig" where
  "a1_zeroKVConfig = \<lparr>a1c_Entries = None, a1c_PurgeOnDelete = False, a1c_OperatorNamespace = []\<rparr>"

definition a1_zeroKVSpec :: "slice option a1_ConsulKVConfig a1_ConsulKVSpec" where
  "a1_zeroKVSpec = \<lparr>a1k_KV = a1_zeroKVConfig\<rparr>"

subsection \<open>Copy functions\<close>

type_synonym ('m, 'l, 'd, 'x) a1_lib = "(('m, 'l, 'd, 'x) a1_cell heap, 'm, 'l, 'd) metaLib"

definition a1_ACL_DeepCopyInto :: "(('m, 'l, 'd, 'x) a1_cell, a1_ACL) copier" where
  "a1_ACL_DeepCopyInto = copy_plain"

definition a1_ACL_DeepCopy :: "(('m, 'l, 'd, 'x) a1_cell, ptr option) copier" where
  "a1_ACL_DeepCopy = DeepCopy t_a1_ACL a1_zeroACL a1_ACL_DeepCopyInto"

definition a1_ConsulACLSpec_DeepCopyInto :: "(('m, 'l, 'd, 'x) a1_cell, ptr option a1_ConsulACLSpec) copier" where
  "a1_ConsulACLSpec_DeepCopyInto h in' =
     do {
       (h, acl) \<leftarrow> copy_ptr t_a1_ACL a1_zeroACL h (a1s_ACL in');
       Some (h, in'\<lparr>a1s_ACL := acl\<rparr>)
     }"

definition a1_ConsulACLSpec_DeepCopy :: "(('m, 'l, 'd, 'x) a1_cell, ptr option) copier" where
  "a1_ConsulACLSpec_DeepCopy = DeepCopy t_a1_ConsulACLSpec a1_zeroACLSpec a1_ConsulACLSpec_DeepCopyInto"

definition a1_ConsulACLStatus_DeepCopyInto ::
  "('m, 'l, 'd, 'x) a1_lib \<Rightarrow> (('m, 'l, 'd, 'x) a1_cell, slice option a1_ConsulACLStatus) copier"
where
  "a1_ConsulACLStatus_DeepCopyInto lib h in' =
     do {
       (h, conditions) \<leftarrow>
         copy_each t_a1_Condition (ml_zeroCondition lib) (ml_Condition_DeepCopyInto lib) h (mast_Conditions in');
       Some (h, in'\<lparr>mast_Conditions := conditions\<rparr>)
     }"

definition a1_ConsulACLStatus_DeepCopy :: "('m, 'l, 'd, 'x) a1_lib \<Rightarrow> (('m, 'l, 'd, 'x) a1_cell, ptr option) copier" where
  "a1_ConsulACLStatus_DeepCopy lib = DeepCopy t_a1_ConsulACLStatus zeroACLStatus (a1_ConsulACLStatus_DeepCopyInto lib)"

definition a1_ConsulACL_DeepCopyInto :: "('m, 'l, 'd, 'x) a1_lib \<Rightarrow> (('m, 'l, 'd, 'x) a1_cell, 'm a1_ConsulACL) copier" where
  "a1_ConsulACL_DeepCopyInto lib =
     copy_object (ml_ObjectMeta_DeepCopyInto lib) a1_ConsulACLSpec_DeepCopyInto (a1_ConsulACLStatus_DeepCopyInto lib)"

definition a1_zeroConsulACL :: "('m, 'l, 'd, 'x) a1_lib \<Rightarrow> 'm a1_ConsulACL" where
  "a1_zeroConsulACL lib = zeroObject lib a1_zeroACLSpec zeroACLStatus"

definition a1_ConsulACL_DeepCopy :: "('m, 'l, 'd, 'x) a1_lib \<Rightarrow> (('m, 'l, 'd, 'x) a1_cell, ptr option) copier" where
  "a1_ConsulACL_DeepCopy lib = DeepCopy t_a1_ConsulACL (a1_zeroConsulACL lib) (a1_ConsulACL_DeepCopyInto lib)"

definition a1_ConsulACLList_DeepCopyInto ::
  "('m, 'l, 'd, 'x) a1_lib \<Rightarrow> (('m, 'l, 'd, 'x) a1_cell, ('l, slice option) memList) copier"
where
  "a1_ConsulACLList_DeepCopyInto lib =
     copy_list (ml_ListMeta_DeepCopyInto lib)
       (copy_each t_a1_ConsulACL (a1_zeroConsulACL lib) (a1_ConsulACL_DeepCopyInto lib))"

definition a1_ConsulACLList_DeepCopy :: "('m, 'l, 'd, 'x) a1_lib \<Rightarrow> (('m, 'l, 'd, 'x) a1_cell, ptr option) copier" where
  "a1_ConsulACLList_DeepCopy lib = DeepCopy t_a1_ConsulACLList (zeroList lib) (a1_ConsulACLList_DeepCopyInto lib)"

definition a1_ConsulKVEntry_DeepCopyInto :: "(('m, 'l, 'd, 'x) a1_cell, a1_ConsulKVEntry) copier" where
  "a1_ConsulKVEntry_DeepCopyInto = copy_plain"

definition a1_ConsulKVEntry_DeepCopy :: "(('m, 'l, 'd, 'x) a1_cell, ptr option) copier" where
  "a1_ConsulKVEntry_DeepCopy = DeepCopy t_a1_ConsulKVEntry zeroKVEntry a1_ConsulKVEntry_DeepCopyInto"

definition a1_ConsulKVEntryStatus_DeepCopyInto :: "(('m, 'l, 'd, 'x) a1_cell, a1_ConsulKVEntryStatus) copier" where
  "a1_ConsulKVEntryStatus_DeepCopyInto = copy_plain"

definition a1_ConsulKVEntryStatus_DeepCopy :: "(('m, 'l, 'd, 'x) a1_cell, ptr option) copier" where
  "a1_ConsulKVEntryStatus_DeepCopy = DeepCopy t_a1_ConsulKVEntryStatus zeroKVEntryStatus a1_ConsulKVEntryStatus_DeepCopyInto"

definition a1_ConsulKVConfig_DeepCopyInto :: "(('m, 'l, 'd, 'x) a1_cell, slice option a1_ConsulKVConfig) copier" where
  "a1_ConsulKVConfig_DeepCopyInto h in' =
     do {
       (h, entries) \<leftarrow> copy_flat t_a1_ConsulKVEntry zeroKVEntry h (a1c_Entries in');
       Some (h, in'\<lparr>a1c_Entries := entries\<rparr>)
     }"

definition a1_ConsulKVConfig_DeepCopy :: "(('m, 'l, 'd, 'x) a1_cell, ptr option) copier" where
  "a1_ConsulKVConfig_DeepCopy = DeepCopy t_a1_ConsulKVConfig a1_zeroKVConfig a1_ConsulKVConfig_DeepCopyInto"

definition a1_ConsulKVSpec_DeepCopyInto ::
  "(('m, 'l, 'd, 'x) a1_cell, slice option a1_ConsulKVConfig a1_ConsulKVSpec) copier"
where
  "a1_ConsulKVSpec_DeepCopyInto h in' =
     do {
       (h, kv) \<leftarrow> a1_ConsulKVConfig_DeepCopyInto h (a1k_KV in');
       Some (h, in'\<lparr>a1k_KV := kv\<rparr>)
     }"

definition a1_ConsulKVSpec_DeepCopy :: "(('m, 'l, 'd, 'x) a1_cell, ptr option) copier" where
  "a1_ConsulKVSpec_DeepCopy = DeepCopy t_a1_ConsulKVSpec a1_zeroKVSpec a1_ConsulKVSpec_DeepCopyInto"

definition a1_ConsulKVStatus_DeepCopyInto ::
  "('m, 'l, 'd, 'x) a1_lib \<Rightarrow> (('m, 'l, 'd, 'x) a1_cell, (slice option, slice option) a1_ConsulKVStatus) copier"
where
  "a1_ConsulKVStatus_DeepCopyInto lib h in' =
     do {
       (h, entries) \<leftarrow> copy_flat t_a1_ConsulKVEntryStatus zeroKVEntryStatus h (mkst_Entries in');
       (h, conditions) \<leftarrow>
         copy_each t_a1_Condition (ml_zeroCondition lib) (ml_Condition_DeepCopyInto lib) h (mkst_Conditions in');
       Some (h, in'\<lparr>mkst_Entries := entries, mkst_Conditions := conditions\<rparr>)
     }"

definition a1_ConsulKVStatus_DeepCopy :: "('m, 'l, 'd, 'x) a1_lib \<Rightarrow> (('m, 'l, 'd, 'x) a1_cell, ptr option) copier" where
  "a1_ConsulKVStatus_DeepCopy lib = DeepCopy t_a1_ConsulKVStatus zeroKVStatus (a1_ConsulKVStatus_DeepCopyInto lib)"

definition a1_ConsulKV_DeepCopyInto :: "('m, 'l, 'd, 'x) a1_lib \<Rightarrow> (('m, 'l, 'd, 'x) a1_cell, 'm a1_ConsulKV) copier" where
  "a1_ConsulKV_DeepCopyInto lib =
     copy_object (ml_ObjectMeta_DeepCopyInto lib) a1_ConsulKVSpec_DeepCopyInto (a1_ConsulKVStatus_DeepCopyInto lib)"

definition a1_zeroConsulKV :: "('m, 'l, 'd, 'x) a1_lib \<Rightarrow> 'm a1_ConsulKV" where
  "a1_zeroConsulKV lib = zeroObject lib a1_zeroKVSpec zeroKVStatus"

definition a1_ConsulKV_DeepCopy :: "('m, 'l, 'd, 'x) a1_lib \<Rightarrow> (('m, 'l, 'd, 'x) a1_cell, ptr option) copier" where
  "a1_ConsulKV_DeepCopy lib = DeepCopy t_a1_ConsulKV (a1_zeroConsulKV lib) (a1_ConsulKV_DeepCopyInto lib)"

definition a1_ConsulKVList_DeepCopyInto ::
  "('m, 'l, 'd, 'x) a1_lib \<Rightarrow> (('m, 'l, 'd, 'x) a1_cell, ('l, slice option) memList) copier"
where
  "a1_ConsulKVList_DeepCopyInto lib =
     copy_list (ml_ListMeta_DeepCopyInto lib)
       (copy_each t_a1_ConsulKV (a1_zeroConsulKV lib) (a1_ConsulKV_DeepCopyInto lib))"

definition a1_ConsulKVList_DeepCopy :: "('m, 'l, 'd, 'x) a1_lib \<Rightarrow> (('m, 'l, 'd, 'x) a1_cell, ptr option) copier" where
  "a1_ConsulKVList_DeepCopy lib = DeepCopy t_a1_ConsulKVList (zeroList lib) (a1_ConsulKVList_DeepCopyInto lib)"

definition a1_ConsulACL_DeepCopyObject ::
  "('m, 'l, 'd, 'x) a1_lib \<Rightarrow> ('m, 'l, 'd, 'x) a1_cell heap \<Rightarrow> ptr option \<Rightarrow> (('m, 'l, 'd, 'x) a1_cell heap \<times> knownType iface) option"
where
  "a1_ConsulACL_DeepCopyObject lib = DeepCopyObject K_ConsulACL (a1_ConsulACL_DeepCopy lib)"

definition a1_ConsulACLList_DeepCopyObject ::
  "('m, 'l, 'd, 'x) a1_lib \<Rightarrow> ('m, 'l, 'd, 'x) a1_cell heap \<Rightarrow> ptr option \<Rightarrow> (('m, 'l, 'd, 'x) a1_cell heap \<times> knownType iface) option"
where
  "a1_ConsulACLList_DeepCopyObject lib = DeepCopyObject K_ConsulACLList (a1_ConsulACLList_DeepCopy lib)"

definition a1_ConsulKV_DeepCopyObject ::
  "('m, 'l, 'd, 'x) a1_lib \<Rightarrow> ('m, 'l, 'd, 'x) a1_cell heap \<Rightarrow> ptr option \<Rightarrow> (('m, 'l, 'd, 'x) a1_cell heap \<times> knownType iface) option"
where
  "a1_ConsulKV_DeepCopyObject lib = DeepCopyObject K_ConsulKV (a1_ConsulKV_DeepCopy lib)"

definition a1_ConsulKVList_DeepCopyObject ::
  "('m, 'l, 'd, 'x) a1_lib \<Rightarrow> ('m, 'l, 'd, 'x) a1_cell heap \<Rightarrow> ptr option \<Rightarrow> (('m, 'l, 'd, 'x) a1_cell heap \<times> knownType iface) option"
where
  "a1_ConsulKVList_DeepCopyObject lib = DeepCopyObject K_ConsulKVList (a1_ConsulKVList_DeepCopy lib)"

fun a1_Object_DeepCopyObject ::
  "('m, 'l, 'd, 'x) a1_lib \<Rightarrow> ('m, 'l, 'd, 'x) a1_cell heap \<Rightarrow> knownType iface \<Rightarrow> (('m, 'l, 'd, 'x) a1_cell heap \<times> knownType iface) option"
where
  "a1_Object_DeepCopyObject lib h NilIface = None"
| "a1_Object_DeepCopyObject lib h (Iface K_ConsulACL p) = a1_ConsulACL_DeepCopyObject lib h p"
| "a1_Object_DeepCopyObject lib h (Iface K_ConsulACLList p) = a1_ConsulACLList_DeepCopyObject lib h p"
| "a1_Object_DeepCopyObject lib h (Iface K_ConsulKV p) = a1_ConsulKV_DeepCopyObject lib h p"
| "a1_Object_DeepCopyObject lib h (Iface K_ConsulKVList p) = a1_ConsulKVList_DeepCopyObject lib h p"

subsection \<open>The contract\<close>

definition a1_reads_ACLSpec ::
  "('m, 'l, 'd, 'x) a1_cell heap \<Rightarrow> ptr option a1_ConsulACLSpec \<Rightarrow> a1_ACL option a1_ConsulACLSpec option"
where
  "a1_reads_ACLSpec = reads_struct a1s_ACL (\<lambda>v x. \<lparr>a1s_ACL = v\<rparr>) (reads_ptr t_a1_ACL reads_plain)"

definition a1_reach_ACLSpec :: "('m, 'l, 'd, 'x) a1_cell heap \<Rightarrow> ptr option a1_ConsulACLSpec \<Rightarrow> addr set" where
  "a1_reach_ACLSpec = reach_struct a1s_ACL (reach_ptr t_a1_ACL reach_plain)"

definition a1_reads_KVConfig ::
  "('m, 'l, 'd, 'x) a1_cell heap \<Rightarrow> slice option a1_ConsulKVConfig \<Rightarrow> a1_ConsulKVEntry list option a1_ConsulKVConfig option"
where
  "a1_reads_KVConfig =
     reads_struct a1c_Entries
       (\<lambda>v x. \<lparr>a1c_Entries = v, a1c_PurgeOnDelete = a1c_PurgeOnDelete x, a1c_OperatorNamespace = a1c_OperatorNamespace x\<rparr>)
       (reads_slice t_a1_ConsulKVEntry reads_plain)"

definition a1_reach_KVConfig :: "('m, 'l, 'd, 'x) a1_cell heap \<Rightarrow> slice option a1_ConsulKVConfig \<Rightarrow> addr set" where
  "a1_reach_KVConfig = reach_struct a1c_Entries (reach_slice t_a1_ConsulKVEntry reach_plain)"

definition a1_reads_KVSpec ::
  "('m, 'l, 'd, 'x) a1_cell heap \<Rightarrow> slice option a1_ConsulKVConfig a1_ConsulKVSpec \<Rightarrow>
   a1_ConsulKVEntry list option a1_ConsulKVConfig a1_ConsulKVSpec option"
where
  "a1_reads_KVSpec = reads_struct a1k_KV (\<lambda>v x. \<lparr>a1k_KV = v\<rparr>) a1_reads_KVConfig"

definition a1_reach_KVSpec ::
  "('m, 'l, 'd, 'x) a1_cell heap \<Rightarrow> slice option a1_ConsulKVConfig a1_ConsulKVSpec \<Rightarrow> addr set"
where
  "a1_reach_KVSpec = reach_struct a1k_KV a1_reach_KVConfig"

interpretation a1_acl: deep_copy a1_ACL_DeepCopyInto reads_plain reach_plain
  unfolding a1_ACL_DeepCopyInto_def by (rule plain.deep_copy_axioms)

interpretation a1_kv_entry: deep_copy a1_ConsulKVEntry_DeepCopyInto reads_plain reach_plain
  unfolding a1_ConsulKVEntry_DeepCopyInto_def by (rule plain.deep_copy_axioms)

interpretation a1_kv_entry_status: deep_copy a1_ConsulKVEntryStatus_DeepCopyInto reads_plain reach_plain
  unfolding a1_ConsulKVEntryStatus_DeepCopyInto_def by (rule plain.deep_copy_axioms)

lemma a1_structs:
  "a1_ConsulACLSpec_DeepCopyInto = copy_struct a1s_ACL (\<lambda>y x. x\<lparr>a1s_ACL := y\<rparr>) (copy_ptr t_a1_ACL a1_zeroACL)"
  "a1_ConsulKVConfig_DeepCopyInto =
     copy_struct a1c_Entries (\<lambda>y x. x\<lparr>a1c_Entries := y\<rparr>) (copy_flat t_a1_ConsulKVEntry zeroKVEntry)"
  "a1_ConsulKVSpec_DeepCopyInto = copy_struct a1k_KV (\<lambda>y x. x\<lparr>a1k_KV := y\<rparr>) a1_ConsulKVConfig_DeepCopyInto"
  by (intro ext, simp add: a1_ConsulACLSpec_DeepCopyInto_def a1_ConsulKVConfig_DeepCopyInto_def
      a1_ConsulKVSpec_DeepCopyInto_def copy_struct_def)+

interpretation a1_acl_spec: deep_copy a1_ConsulACLSpec_DeepCopyInto a1_reads_ACLSpec a1_reach_ACLSpec
  unfolding a1_structs(1) a1_reads_ACLSpec_def a1_reach_ACLSpec_def
  by (rule copy_struct_deep [OF copy_ptr_deep]) simp_all

interpretation a1_kv_config: deep_copy a1_ConsulKVConfig_DeepCopyInto a1_reads_KVConfig a1_reach_KVConfig
  unfolding a1_structs(2) a1_reads_KVConfig_def a1_reach_KVConfig_def
  by (rule copy_struct_deep [OF copy_flat_deep]) simp_all

interpretation a1_kv_spec: deep_copy a1_ConsulKVSpec_DeepCopyInto a1_reads_KVSpec a1_reach_KVSpec
  unfolding a1_structs(3) a1_reads_KVSpec_def a1_reach_KVSpec_def
  by (rule copy_struct_deep [OF a1_kv_config.deep_copy_axioms]) simp_all

type_synonym ('m, 'l, 'd, 'x, 'mv, 'lv, 'dv) a1_view =
  "(('m, 'l, 'd, 'x) a1_cell heap, 'm, 'l, 'd, 'mv, 'lv, 'dv) metaView"

abbreviation a1_reads_ConsulACL where
  "a1_reads_ConsulACL V \<equiv>
     reads_object (mv_reads_meta V) a1_reads_ACLSpec (reads_ACLStatus t_a1_Condition (mv_reads_condition V))"
abbreviation a1_reach_ConsulACL where
  "a1_reach_ConsulACL V \<equiv>
     reach_object (mv_reach_meta V) a1_reach_ACLSpec (reach_ACLStatus t_a1_Condition (mv_reach_condition V))"
abbreviation a1_reads_ConsulKV where
  "a1_reads_ConsulKV V \<equiv>
     reads_object (mv_reads_meta V) a1_reads_KVSpec
       (reads_KVStatus t_a1_ConsulKVEntryStatus t_a1_Condition (mv_reads_condition V))"
abbreviation a1_reach_ConsulKV where
  "a1_reach_ConsulKV V \<equiv>
     reach_object (mv_reach_meta V) a1_reach_KVSpec
       (reach_KVStatus t_a1_ConsulKVEntryStatus t_a1_Condition (mv_reach_condition V))"
abbreviation a1_reads_ConsulACLList where
  "a1_reads_ConsulACLList V \<equiv> reads_list (mv_reads_list V) (reads_slice t_a1_ConsulACL (a1_reads_ConsulACL V))"
abbreviation a1_reach_ConsulACLList where
  "a1_reach_ConsulACLList V \<equiv> reach_list (mv_reach_list V) (reach_slice t_a1_ConsulACL (a1_reach_ConsulACL V))"
abbreviation a1_reads_ConsulKVList where
  "a1_reads_ConsulKVList V \<equiv> reads_list (mv_reads_list V) (reads_slice t_a1_ConsulKV (a1_reads_ConsulKV V))"
abbreviation a1_reach_ConsulKVList where
  "a1_reach_ConsulKVList V \<equiv> reach_list (mv_reach_list V) (reach_slice t_a1_ConsulKV (a1_reach_ConsulKV V))"

lemmas a1_statuses_deep =
  ACLStatus_deep [OF a1_t_ok(13) meta_lib_okD(3) a1_ConsulACLStatus_DeepCopyInto_def]
  KVStatus_deep [OF a1_t_ok(7) a1_t_ok(13) meta_lib_okD(3) a1_ConsulKVStatus_DeepCopyInto_def]

lemma a1_objects_deep:
  assumes lib: "meta_lib_ok lib V"
  shows "deep_copy (a1_ConsulACL_DeepCopyInto lib) (a1_reads_ConsulACL V) (a1_reach_ConsulACL V)"
    and "deep_copy (a1_ConsulKV_DeepCopyInto lib) (a1_reads_ConsulKV V) (a1_reach_ConsulKV V)"
  unfolding a1_ConsulACL_DeepCopyInto_def a1_ConsulKV_DeepCopyInto_def
  by (intro copy_object_deep meta_lib_okD [OF lib] a1_acl_spec.deep_copy_axioms a1_statuses_deep
      a1_kv_spec.deep_copy_axioms lib)+

lemma a1_lists_deep:
  assumes lib: "meta_lib_ok lib V"
  shows "deep_copy (a1_ConsulACLList_DeepCopyInto lib) (a1_reads_ConsulACLList V) (a1_reach_ConsulACLList V)"
    and "deep_copy (a1_ConsulKVList_DeepCopyInto lib) (a1_reads_ConsulKVList V) (a1_reach_ConsulKVList V)"
  unfolding a1_ConsulACLList_DeepCopyInto_def a1_ConsulKVList_DeepCopyInto_def
  by (intro copy_list_deep meta_lib_okD [OF lib] deep_copy.copy_each_deep a1_objects_deep [OF lib] a1_t_ok)+

lemma a1_DeepCopys_deep:
  assumes lib: "meta_lib_ok lib V"
  shows "deep_copy (a1_ConsulACL_DeepCopy lib) (reads_ptr t_a1_ConsulACL (a1_reads_ConsulACL V))
           (reach_ptr t_a1_ConsulACL (a1_reach_ConsulACL V))"
    and "deep_copy (a1_ConsulACLList_DeepCopy lib) (reads_ptr t_a1_ConsulACLList (a1_reads_ConsulACLList V))
           (reach_ptr t_a1_ConsulACLList (a1_reach_ConsulACLList V))"
    and "deep_copy (a1_ConsulKV_DeepCopy lib) (reads_ptr t_a1_ConsulKV (a1_reads_ConsulKV V))
           (reach_ptr t_a1_ConsulKV (a1_reach_ConsulKV V))"
    and "deep_copy (a1_ConsulKVList_DeepCopy lib) (reads_ptr t_a1_ConsulKVList (a1_reads_ConsulKVList V))
           (reach_ptr t_a1_ConsulKVList (a1_reach_ConsulKVList V))"
  unfolding a1_ConsulACL_DeepCopy_def a1_ConsulACLList_DeepCopy_def a1_ConsulKV_DeepCopy_def
    a1_ConsulKVList_DeepCopy_def
  by (intro deep_copy.DeepCopy_deep a1_objects_deep [OF lib] a1_lists_deep [OF lib] a1_t_ok)+

text \<open>\<^verbatim>\<open>DeepCopyObject\<close> returns an independent copy of each of the four types.\<close>

lemmas a1_ConsulACL_DeepCopyObject_deep =
  DeepCopyObject_deep [OF a1_DeepCopys_deep(1), where k = K_ConsulACL, folded a1_ConsulACL_DeepCopyObject_def]
lemmas a1_ConsulACLList_DeepCopyObject_deep =
  DeepCopyObject_deep [OF a1_DeepCopys_deep(2), where k = K_ConsulACLList, folded a1_ConsulACLList_DeepCopyObject_def]
lemmas a1_ConsulKV_DeepCopyObject_deep =
  DeepCopyObject_deep [OF a1_DeepCopys_deep(3), where k = K_ConsulKV, folded a1_ConsulKV_DeepCopyObject_def]
lemmas a1_ConsulKVList_DeepCopyObject_deep =
  DeepCopyObject_deep [OF a1_DeepCopys_deep(4), where k = K_ConsulKVList, folded a1_ConsulKVList_DeepCopyObject_def]

end
