(* ===== verification/Scheme.thy ===== *)
theory Scheme
  imports Operator Deep_Copy_V1alpha1
begin

text \<open>
  The registration of the API types: \<^verbatim>\<open>api/v1/groupversion_info.go\<close>, \<^verbatim>\<open>api/v1alpha1/groupversion_info.go\<close> and the
  \<^verbatim>\<open>init\<close> function of the operator's \<^verbatim>\<open>main.go\<close>. The scheme and the functions of apimachinery and client-go that fill it are
  parameters; a scheme that records what is added to it is the instance the lemmas are applied to.
\<close>

record groupVersion =
  gv_Group :: string
  gv_Version :: string

text \<open>A type as the scheme sees it: the package that declares it and its name.\<close>

datatype goPackage = Pkg_v1 | Pkg_v1alpha1

type_synonym goStruct = "goPackage \<times> knownType"

record 's schemeLib =
  sch_AddKnownTypes :: "groupVersion \<Rightarrow> goStruct list \<Rightarrow> 's \<Rightarrow> 's"
  sch_AddToGroupVersion :: "groupVersion \<Rightarrow> 's \<Rightarrow> 's"
  sch_clientgo_AddToScheme :: "'s \<Rightarrow> goerror option \<times> 's"

definition v1_GroupVersion :: "environ \<Rightarrow> groupVersion" where
  "v1_GroupVersion env = \<lparr>gv_Group = apiGroup env, gv_Version = ''v1''\<rparr>"

definition v1_addKnownTypes :: "'s schemeLib \<Rightarrow> environ \<Rightarrow> 's \<Rightarrow> goerror option \<times> 's" where
  "v1_addKnownTypes L env scheme =
     (let scheme = sch_AddKnownTypes L (v1_GroupVersion env)
            [(Pkg_v1, K_ConsulACL), (Pkg_v1, K_ConsulACLList), (Pkg_v1, K_ConsulKV), (Pkg_v1, K_ConsulKVList)] scheme;
          scheme = sch_AddToGroupVersion L (v1_GroupVersion env) scheme
      in (None, scheme))"

definition v1alpha1_getEnv :: "environ \<Rightarrow> string \<Rightarrow> string \<Rightarrow> string" where
  "v1alpha1_getEnv env key fallback = (case env key of Some value \<Rightarrow> value | None \<Rightarrow> fallback)"

definition v1alpha1_GroupVersion :: "environ \<Rightarrow> groupVersion" where
  "v1alpha1_GroupVersion env =
     \<lparr>gv_Group = v1alpha1_getEnv env ''API_GROUP'' ''netcracker.com'', gv_Version = ''v1alpha1''\<rparr>"

definition v1alpha1_addKnownTypes :: "'s schemeLib \<Rightarrow> environ \<Rightarrow> 's \<Rightarrow> goerror option \<times> 's" where
  "v1alpha1_addKnownTypes L env scheme =
     (let scheme = sch_AddKnownTypes L (v1alpha1_GroupVersion env)
            [(Pkg_v1alpha1, K_ConsulACL), (Pkg_v1alpha1, K_ConsulACLList), (Pkg_v1alpha1, K_ConsulKV),
             (Pkg_v1alpha1, K_ConsulKVList)] scheme;
          scheme = sch_AddToGroupVersion L (v1alpha1_GroupVersion env) scheme
      in (None, scheme))"

text \<open>\<^verbatim>\<open>init\<close>: \<^verbatim>\<open>utilruntime.Must\<close> ends the process with the error, the value \<^term>\<open>Inl err\<close>.\<close>

definition operator_init :: "'s schemeLib \<Rightarrow> environ \<Rightarrow> 's \<Rightarrow> 's result" where
  "operator_init L env scheme =
     (case sch_clientgo_AddToScheme L scheme of
        (Some err, scheme) \<Rightarrow> Inl err
      | (None, scheme) \<Rightarrow>
          (case v1_addKnownTypes L env scheme of
             (Some err, scheme) \<Rightarrow> Inl err
           | (None, scheme) \<Rightarrow> Inr scheme))"

text \<open>The types of a group and version, for a library that adds what it is given and nothing of the operator's group.\<close>

definition scheme_documented :: "'s schemeLib \<Rightarrow> ('s \<Rightarrow> groupVersion \<Rightarrow> goStruct set) \<Rightarrow> string \<Rightarrow> bool" where
  "scheme_documented L types grp \<longleftrightarrow>
     (\<forall>gv ts s gv'. types (sch_AddKnownTypes L gv ts s) gv' = types s gv' \<union> (if gv' = gv then set ts else {})) \<and>
     (\<forall>gv s. types (sch_AddToGroupVersion L gv s) = types s) \<and>
     (\<forall>s gv. gv_Group gv = grp \<longrightarrow> types (snd (sch_clientgo_AddToScheme L s)) gv = types s gv)"

lemma operator_init_types:
  assumes "scheme_documented L types (apiGroup env)" "\<And>gv. types s gv = {}" "operator_init L env s = Inr s'"
  shows "types s' (v1_GroupVersion env) = {Pkg_v1} \<times> UNIV" "types s' (v1alpha1_GroupVersion env) = {}"
proof -
  obtain s1 where s1: "sch_clientgo_AddToScheme L s = (None, s1)" "s' = snd (v1_addKnownTypes L env s1)"
    using assms(3) by (auto simp: operator_init_def v1_addKnownTypes_def Let_def split: prod.splits option.splits)
  have clientgo: "types s1 gv = {}" if "gv_Group gv = apiGroup env" for gv
    using assms(1,2) s1(1) that unfolding scheme_documented_def by (metis snd_conv)
  have "types s' gv = (if gv = v1_GroupVersion env then {Pkg_v1} \<times> UNIV else {})" if "gv_Group gv = apiGroup env" for gv
    using assms(1) clientgo [OF that] knownType.exhaust
    by (auto simp: s1(2) v1_addKnownTypes_def Let_def scheme_documented_def)
  then show "types s' (v1_GroupVersion env) = {Pkg_v1} \<times> UNIV" "types s' (v1alpha1_GroupVersion env) = {}"
    by (simp_all add: v1_GroupVersion_def v1alpha1_GroupVersion_def apiGroup_def v1_getEnv_def v1alpha1_getEnv_def)
qed

end
