(* ===== verification/Auth_Method.thy ===== *)
theory Auth_Method
  imports ACL_Events
begin

text \<open>
  The auth method of the applications (\<^verbatim>\<open>controllers/consulacl_controller.go\<close>, lines 1208-1373): the issuer is taken from the
  environment or from the OpenID configuration, the method is created or updated in Consul, and a loop
  with growing pauses repeats this until it succeeds. The parser and printer of URLs (\<^verbatim>\<open>net/url\<close>), the HTTP
  client and the decoder of the OpenID configuration are parameters.
\<close>

subsection \<open>JSON encoding\<close>

text \<open>\<^verbatim>\<open>json.Marshal\<close> of a string: quotes, backslashes and control characters are escaped, and the characters that are special in HTML. Strings are valid UTF-8 without the separators U+2028 and U+2029, which \<^verbatim>\<open>encoding/json\<close> rewrites too.\<close>

definition json_char :: "char \<Rightarrow> string" where
  "json_char c =
     (if c = CHR 0x22 then [CHR 0x5C, CHR 0x22]
      else if c = CHR 0x5C then [CHR 0x5C, CHR 0x5C]
      else if c = CHR 0x08 then [CHR 0x5C, CHR ''b'']
      else if c = CHR 0x0C then [CHR 0x5C, CHR ''f'']
      else if c = CHR 0x0A then [CHR 0x5C, CHR ''n'']
      else if c = CHR 0x0D then [CHR 0x5C, CHR ''r'']
      else if c = CHR 0x09 then [CHR 0x5C, CHR ''t'']
      else if (of_char c :: nat) < 32 \<or> c \<in> {CHR ''<'', CHR ''>'', CHR ''&''}
      then [CHR 0x5C, CHR ''u'', CHR ''0'', CHR ''0'', hex_digit (of_char c div 16), hex_digit (of_char c)]
      else [c])"

definition json_string :: "string \<Rightarrow> string" where
  "json_string s = [CHR 0x22] @ concat (map json_char s) @ [CHR 0x22]"

text \<open>Maps are written in the order of their keys.\<close>

fun json_Marshal :: "configValue \<Rightarrow> string" where
  "json_Marshal NullVal = ''null''"
| "json_Marshal (BoolVal b) = (if b then ''true'' else ''false'')"
| "json_Marshal (NumVal n) = n"
| "json_Marshal (StrVal s) = json_string s"
| "json_Marshal (ListVal vs) = ''['' @ strings_Join (map json_Marshal vs) '','' @ '']''"
| "json_Marshal (MapVal kvs) =
     ''{'' @ strings_Join (map snd (sort_key fst (map (\<lambda>(k, v). (k, json_string k @ '':'' @ json_Marshal v)) kvs))) '','' @ ''}''"

subsection \<open>The issuer\<close>

record URL =
  url_Scheme :: string
  url_User :: string
  url_Host :: string
  url_Path :: string
  url_RawPath :: string
  url_ForceQuery :: bool
  url_RawQuery :: string
  url_Fragment :: string

record 'w authEnv =
  ae_client :: "'w consulACLClient"
  ae_env :: environ
  ae_url_Parse :: "string \<Rightarrow> URL result"
  ae_url_String :: "URL \<Rightarrow> string"
  ae_http_Get :: "string \<Rightarrow> 'w \<Rightarrow> (int \<times> string) result \<times> 'w"
  ae_Decode :: "string \<Rightarrow> string result"

definition defaultJWKSURL :: string where
  "defaultJWKSURL = ''http://localhost:8080/openid/v1/jwks''"

definition openIDConfigPath :: string where
  "openIDConfigPath = ''/.well-known/openid-configuration''"

definition maxOpenIDConfigSize :: nat where
  "maxOpenIDConfigSize = 2 ^ 20"

definition openIDConfigURL :: "'w authEnv \<Rightarrow> string \<Rightarrow> string result" where
  "openIDConfigURL A jwksURL =
     (case ae_url_Parse A jwksURL of
        Inl err \<Rightarrow> Inl (WrapError (''invalid JWKS_URL '' @ fmt_q jwksURL @ '': '') err)
      | Inr u \<Rightarrow>
          if url_Scheme u = [] \<or> url_Host u = []
          then Inl (PlainError (''invalid JWKS_URL '' @ fmt_q jwksURL @ '': scheme and host are required''))
          else Inr (ae_url_String A (u\<lparr>url_Path := openIDConfigPath, url_RawPath := [], url_RawQuery := [], url_Fragment := []\<rparr>)))"

definition detectIssuer :: "'w authEnv \<Rightarrow> string \<Rightarrow> 'w \<Rightarrow> string result \<times> 'w" where
  "detectIssuer A jwksURL w =
     (case openIDConfigURL A jwksURL of
        Inl err \<Rightarrow> (Inl err, w)
      | Inr configURL \<Rightarrow>
          (case ae_http_Get A configURL w of
             (Inl err, w1) \<Rightarrow> (Inl (WrapError (''error requesting OpenID configuration '' @ fmt_q configURL @ '': '') err), w1)
           | (Inr (status, body), w1) \<Rightarrow>
               if status \<noteq> 200
               then (Inl (PlainError (''error requesting OpenID configuration '' @ fmt_q configURL @ '': unexpected status '' @ fmt_d status)), w1)
               else (case ae_Decode A (take maxOpenIDConfigSize body) of
                       Inl err \<Rightarrow> (Inl (WrapError (''error parsing OpenID configuration '' @ fmt_q configURL @ '': '') err), w1)
                     | Inr issuer \<Rightarrow>
                         if issuer = []
                         then (Inl (PlainError (''OpenID configuration '' @ fmt_q configURL @ '' has no issuer'')), w1)
                         else (Inr issuer, w1))))"

definition boundIssuerAndAudiences :: "'w authEnv \<Rightarrow> string \<Rightarrow> 'w \<Rightarrow> (string \<times> string list) result \<times> 'w" where
  "boundIssuerAndAudiences A jwksURL w =
     (let issuer = strings_TrimSpace (os_Getenv (ae_env A) ''BOUND_ISSUER'');
          audiences = splitList (os_Getenv (ae_env A) ''BOUND_AUDIENCES'') in
      case (if issuer = [] then detectIssuer A jwksURL w else (Inr issuer, w)) of
        (Inl err, w1) \<Rightarrow> (Inl err, w1)
      | (Inr issuer, w1) \<Rightarrow> (Inr (issuer, if audiences = [] then [issuer] else audiences), w1))"

subsection \<open>The auth method\<close>

definition authMethodUpToDate :: "ACLAuthMethod \<Rightarrow> ACLAuthMethod \<Rightarrow> bool" where
  "authMethodUpToDate existing desired =
     (if am_Type existing \<noteq> am_Type desired \<or> am_Description existing \<noteq> am_Description desired \<or>
         am_MaxTokenTTL existing \<noteq> am_MaxTokenTTL desired
      then False
      else list_all (\<lambda>(key, value). json_Marshal value =
             json_Marshal (case map_of (am_Config existing) key of None \<Rightarrow> NullVal | Some v \<Rightarrow> v)) (am_Config desired))"

definition applicationsTokenTTL :: int where
  "applicationsTokenTTL = 30 * (60 * time_Second)"

definition amName :: string where
  "amName = ''applications-k8s-m2m''"

definition applicationsAuthMethod :: "string \<Rightarrow> string \<Rightarrow> string list \<Rightarrow> ACLAuthMethod" where
  "applicationsAuthMethod jwksURL issuer audiences =
     \<lparr>am_Name = amName, am_Type = ''jwt'', am_Description = ''Auth method for application M2M authentication'',
      am_MaxTokenTTL = applicationsTokenTTL,
      am_Config = [(''JWKSURL'', StrVal jwksURL), (''BoundIssuer'', StrVal issuer),
        (''BoundAudiences'', ListVal (map StrVal audiences)),
        (''ClaimMappings'', MapVal [(''/kubernetes.io/namespace'', StrVal ''namespace''),
          (''/kubernetes.io/serviceaccount/name'', StrVal ''serviceaccount'')])]\<rparr>"

definition writeAuthMethod :: "'w authEnv \<Rightarrow> ACLAuthMethod option \<Rightarrow> ACLAuthMethod \<Rightarrow> 'w \<Rightarrow> goerror option \<times> 'w" where
  "writeAuthMethod A existing am w =
     (case existing of
        None \<Rightarrow>
          (case acl_AuthMethodCreate (ae_client A) am w of
             (Inl err, w1) \<Rightarrow> (Some (WrapError (''error creating auth method '' @ fmt_q amName @ '': '') err), w1)
           | (Inr _, w1) \<Rightarrow> (None, w1))
      | Some e \<Rightarrow>
          if authMethodUpToDate e am then (None, w)
          else (case acl_AuthMethodUpdate (ae_client A) am w of
                  (Inl err, w1) \<Rightarrow> (Some (WrapError (''error updating auth method '' @ fmt_q amName @ '': '') err), w1)
                | (Inr _, w1) \<Rightarrow> (None, w1)))"

definition jwks_url :: "'w authEnv \<Rightarrow> string" where
  "jwks_url A = (let jwksURL = os_Getenv (ae_env A) ''JWKS_URL'' in if jwksURL = [] then defaultJWKSURL else jwksURL)"

definition EnsureApplicationsAuthMethod :: "'w authEnv \<Rightarrow> 'w \<Rightarrow> goerror option \<times> 'w" where
  "EnsureApplicationsAuthMethod A w =
     (case acl_AuthMethodRead (ae_client A) amName w of
        (Inl err, w1) \<Rightarrow> (Some (WrapError (''error reading auth method '' @ fmt_q amName @ '': '') err), w1)
      | (Inr existing, w1) \<Rightarrow>
          (case boundIssuerAndAudiences A (jwks_url A) w1 of
             (Inl err, w2) \<Rightarrow> (Some (WrapError (''error resolving BoundIssuer of auth method '' @ fmt_q amName @ '': '') err), w2)
           | (Inr (issuer, audiences), w2) \<Rightarrow>
               writeAuthMethod A existing (applicationsAuthMethod (jwks_url A) issuer audiences) w2))"

subsection \<open>The retry loop\<close>

text \<open>
  \<open>wait backoff\<close> is the select between the cancelled context and the end of the pause; it tells whether the context
  was cancelled. The loop has no bound, so it runs with fuel and returns the pauses it made; no
  result means that the fuel was not enough.
\<close>

fun EnsureApplicationsAuthMethodWithRetry_loop ::
  "nat \<Rightarrow> 'w authEnv \<Rightarrow> (int \<Rightarrow> 'w \<Rightarrow> bool \<times> 'w) \<Rightarrow> int \<Rightarrow> 'w \<Rightarrow> (int list \<times> 'w) option"
where
  "EnsureApplicationsAuthMethodWithRetry_loop 0 A wait backoff w = None"
| "EnsureApplicationsAuthMethodWithRetry_loop (Suc fuel) A wait backoff w =
     (case EnsureApplicationsAuthMethod A w of
        (Some err, w1) \<Rightarrow>
          (case wait backoff w1 of
             (True, w2) \<Rightarrow> Some ([backoff], w2)
           | (False, w2) \<Rightarrow>
               map_option (\<lambda>(ps, w3). (backoff # ps, w3))
                 (EnsureApplicationsAuthMethodWithRetry_loop fuel A wait
                    (if backoff < 5 * (60 * time_Second) then backoff * 2 else backoff) w2))
      | (None, w1) \<Rightarrow> Some ([], w1))"

definition EnsureApplicationsAuthMethodWithRetry ::
  "nat \<Rightarrow> 'w authEnv \<Rightarrow> (int \<Rightarrow> 'w \<Rightarrow> bool \<times> 'w) \<Rightarrow> 'w \<Rightarrow> (int list \<times> 'w) option"
where
  "EnsureApplicationsAuthMethodWithRetry fuel A wait w =
     EnsureApplicationsAuthMethodWithRetry_loop fuel A wait time_Second w"

subsection \<open>The calls that are sent\<close>

definition traced_auth :: "'w authEnv \<Rightarrow> ('w \<times> aclEvent list) authEnv" where
  "traced_auth A =
     \<lparr>ae_client = traced (ae_client A), ae_env = ae_env A, ae_url_Parse = ae_url_Parse A, ae_url_String = ae_url_String A,
      ae_http_Get = (\<lambda>u x. case ae_http_Get A u (fst x) of (r, w) \<Rightarrow> (r, (w, snd x))), ae_Decode = ae_Decode A\<rparr>"

text \<open>
  The issuer and the audiences that a method is bound to: never empty, the configured ones where there are some, and the issuer
  as the only audience where none is configured.
\<close>

definition bound_to :: "environ \<Rightarrow> string \<Rightarrow> string list \<Rightarrow> bool" where
  "bound_to env issuer audiences \<longleftrightarrow>
     issuer \<noteq> [] \<and> audiences \<noteq> [] \<and> [] \<notin> set audiences \<and>
     (let i = strings_TrimSpace (os_Getenv env ''BOUND_ISSUER''); as = splitList (os_Getenv env ''BOUND_AUDIENCES'') in
      (if i = [] then True else issuer = i) \<and> audiences = (if as = [] then [issuer] else as))"

text \<open>
  The calls and the result, where \<open>w\<close> is the world in which the issuer is looked for. After the read of the method nothing is
  sent when it failed or when no issuer was found; a missing method is created, an outdated one is updated, and one that
  is up to date is left alone. The result is an error unless the last of these calls succeeded.
\<close>

definition ensure_calls :: "'w authEnv \<Rightarrow> 'w \<Rightarrow> aclEvent list \<Rightarrow> goerror option \<Rightarrow> bool" where
  "ensure_calls A w cs err \<longleftrightarrow>
     (\<exists>a. case (a, fst (boundIssuerAndAudiences A (jwks_url A) w)) of
        (Inl e, _) \<Rightarrow> cs = [MethodRead amName a] \<and> err \<noteq> None
      | (Inr _, Inl e) \<Rightarrow> cs = [MethodRead amName a] \<and> err \<noteq> None
      | (Inr existing, Inr (issuer, audiences)) \<Rightarrow>
          let d = applicationsAuthMethod (jwks_url A) issuer audiences in
          bound_to (ae_env A) issuer audiences \<and>
          (case existing of
             None \<Rightarrow> \<exists>r. cs = [MethodRead amName a, MethodCreate d r] \<and> (err = None \<longleftrightarrow> \<not> isl r)
           | Some e \<Rightarrow>
               if authMethodUpToDate e d then cs = [MethodRead amName a] \<and> err = None
               else \<exists>r. cs = [MethodRead amName a, MethodUpdate d r] \<and> (err = None \<longleftrightarrow> \<not> isl r)))"

lemma detectIssuer_issuer: "detectIssuer A u w = (Inr i, w') \<Longrightarrow> i \<noteq> []"
  by (auto simp: detectIssuer_def split: sum.splits prod.splits if_splits)

lemma boundIssuer_bound:
  assumes "boundIssuerAndAudiences A u w = (Inr (i, as), w')"
  shows "bound_to (ae_env A) i as"
proof -
  have "[] \<notin> set (splitList v)" for v by (simp add: splitList_def)
  with assms show ?thesis
    by (auto simp: boundIssuerAndAudiences_def bound_to_def Let_def dest: detectIssuer_issuer split: prod.splits sum.splits if_splits)
qed

lemma traced_auth_simps [simp]:
  "ae_client (traced_auth A) = traced (ae_client A)" "ae_env (traced_auth A) = ae_env A"
  "ae_url_Parse (traced_auth A) = ae_url_Parse A" "ae_url_String (traced_auth A) = ae_url_String A"
  "ae_Decode (traced_auth A) = ae_Decode A" "jwks_url (traced_auth A) = jwks_url A"
  by (simp_all add: traced_auth_def jwks_url_def)

lemma boundIssuer_traced:
  "boundIssuerAndAudiences (traced_auth A) u (w, log) =
     (case boundIssuerAndAudiences A u w of (r, w') \<Rightarrow> (r, (w', log)))"
  by (auto simp: boundIssuerAndAudiences_def detectIssuer_def openIDConfigURL_def traced_auth_def Let_def
      split: sum.splits prod.splits if_splits)

lemma writeAuthMethod_traced:
  "writeAuthMethod (traced_auth A) existing d (w, cs) = (err, y) \<Longrightarrow>
   case existing of
     None \<Rightarrow> \<exists>r. snd y = cs @ [MethodCreate d r] \<and> (err = None \<longleftrightarrow> \<not> isl r)
   | Some e \<Rightarrow>
       if authMethodUpToDate e d then snd y = cs \<and> err = None
       else \<exists>r. snd y = cs @ [MethodUpdate d r] \<and> (err = None \<longleftrightarrow> \<not> isl r)"
  by (auto simp: writeAuthMethod_def traced_def trace_call_def split: option.splits prod.splits sum.splits)

text \<open>
  C30. Whatever Consul and the OpenID endpoint answer, ensuring the auth method makes exactly these calls: it reads the
  method, and after a failed read or without an issuer it sends nothing and returns an error. Otherwise it
  creates a missing method, updates one that is out of date and leaves one that is up to date alone, and it
  returns no error exactly when the write, if there is one, succeeded. What is written is bound to the
  configured or else the detected issuer, which is not empty, and to non-empty audiences.
\<close>

theorem ensure_auth_method_calls:
  "case EnsureApplicationsAuthMethod (traced_auth A) (w, []) of
     (err, y) \<Rightarrow> ensure_calls A (snd (acl_AuthMethodRead (ae_client A) amName w)) (snd y) err"
proof -
  obtain a w1 where rd: "acl_AuthMethodRead (ae_client A) amName w = (a, w1)" by (rule prod.exhaust)
  obtain b w2 where bi: "boundIssuerAndAudiences A (jwks_url A) w1 = (b, w2)" by (rule prod.exhaust)
  obtain err y where run: "EnsureApplicationsAuthMethod (traced_auth A) (w, []) = (err, y)" by (rule prod.exhaust)
  note [simp] = EnsureApplicationsAuthMethod_def traced_def trace_call_def boundIssuer_traced
  have "ensure_calls A w1 (snd y) err"
  proof (cases a)
    case (Inl e)
    with run rd show ?thesis unfolding ensure_calls_def by (intro exI[of _ a]) auto
  next
    case (Inr existing)
    show ?thesis
    proof (cases b)
      case err: (Inl e)
      with run rd bi Inr show ?thesis unfolding ensure_calls_def by (intro exI[of _ a]) auto
    next
      case ok: (Inr p)
      obtain i as where p: "p = (i, as)" by (rule prod.exhaust)
      have "writeAuthMethod (traced_auth A) existing (applicationsAuthMethod (jwks_url A) i as) (w2, [MethodRead amName a]) = (err, y)"
        using run rd bi Inr ok p by simp
      from writeAuthMethod_traced[OF this] show ?thesis
        using boundIssuer_bound[OF bi[unfolded ok p]] bi Inr ok p
        unfolding ensure_calls_def by (intro exI[of _ a]) (auto simp: Let_def split: option.splits if_splits)
    qed
  qed
  with run rd show ?thesis by simp
qed

subsection \<open>A second run\<close>

text \<open>
  What is documented of the auth methods of Consul: a read returns the stored method and changes nothing, a
  create of a new or an update of an existing method that succeeds stores it. The OpenID endpoint answers the same every time
  and does not touch Consul.
\<close>

definition auth_store_ok :: "'w consulACLClient \<Rightarrow> ('w \<Rightarrow> string \<rightharpoonup> ACLAuthMethod) \<Rightarrow> bool" where
  "auth_store_ok c view \<longleftrightarrow>
     (\<forall>n w r w1. acl_AuthMethodRead c n w = (r, w1) \<longrightarrow> view w1 = view w \<and> (\<forall>m. r = Inr m \<longrightarrow> m = view w n)) \<and>
     (\<forall>m w x w1. acl_AuthMethodCreate c m w = (Inr x, w1) \<longrightarrow> view w (am_Name m) = None \<longrightarrow>
        view w1 = (view w)(am_Name m \<mapsto> m)) \<and>
     (\<forall>m w x w1. acl_AuthMethodUpdate c m w = (Inr x, w1) \<longrightarrow> view w (am_Name m) \<noteq> None \<longrightarrow>
        view w1 = (view w)(am_Name m \<mapsto> m))"

definition http_stable :: "'w authEnv \<Rightarrow> ('w \<Rightarrow> string \<rightharpoonup> ACLAuthMethod) \<Rightarrow> (string \<Rightarrow> (int \<times> string) result) \<Rightarrow> bool" where
  "http_stable A view answer \<longleftrightarrow>
     (\<forall>u w r w1. ae_http_Get A u w = (r, w1) \<longrightarrow> r = answer u \<and> view w1 = view w)"

lemma detectIssuer_stable:
  assumes "http_stable A view answer"
  shows "fst (detectIssuer A u w) = fst (detectIssuer A u w') \<and> view (snd (detectIssuer A u w)) = view w"
proof (cases "openIDConfigURL A u")
  case (Inl e)
  then show ?thesis by (simp add: detectIssuer_def)
next
  case (Inr c)
  obtain w1 w2 where "ae_http_Get A c w = (answer c, w1)" "ae_http_Get A c w' = (answer c, w2)" "view w1 = view w"
    using assms unfolding http_stable_def by (metis prod.exhaust)
  with Inr show ?thesis by (simp add: detectIssuer_def split: sum.splits prod.splits)
qed

lemma boundIssuer_stable:
  assumes "http_stable A view answer"
  shows "fst (boundIssuerAndAudiences A u w) = fst (boundIssuerAndAudiences A u w') \<and>
    view (snd (boundIssuerAndAudiences A u w)) = view w"
  using detectIssuer_stable[OF assms, of u w w']
  by (auto simp: boundIssuerAndAudiences_def Let_def split: sum.splits prod.splits)

lemma upToDate_refl: "authMethodUpToDate (applicationsAuthMethod u i as) (applicationsAuthMethod u i as)"
  by (simp add: authMethodUpToDate_def applicationsAuthMethod_def)

lemma ensure_success:
  assumes st: "auth_store_ok (ae_client A) view" and http: "http_stable A view answer"
    and run: "EnsureApplicationsAuthMethod A w = (None, w1)"
  shows "\<exists>i as e. (\<forall>v. fst (boundIssuerAndAudiences A (jwks_url A) v) = Inr (i, as)) \<and> view w1 amName = Some e \<and>
    authMethodUpToDate e (applicationsAuthMethod (jwks_url A) i as)"
proof -
  obtain a wa where rd: "acl_AuthMethodRead (ae_client A) amName w = (a, wa)" by (rule prod.exhaust)
  obtain b wb where bi: "boundIssuerAndAudiences A (jwks_url A) wa = (b, wb)" by (rule prod.exhaust)
  obtain ex i as where ex: "a = Inr ex" and b: "b = Inr (i, as)"
    using run rd bi by (cases a; cases b) (auto simp: EnsureApplicationsAuthMethod_def)
  let ?d = "applicationsAuthMethod (jwks_url A) i as"
  have wr: "writeAuthMethod A ex ?d wb = (None, w1)" using run rd bi ex b by (simp add: EnsureApplicationsAuthMethod_def)
  have ex_view: "ex = view wb amName"
    using st rd ex boundIssuer_stable[OF http, of "jwks_url A" wa] bi unfolding auth_store_ok_def by auto
  have "view w1 amName = Some ?d \<or> (\<exists>e. view w1 amName = Some e \<and> authMethodUpToDate e ?d)"
  proof (cases ex)
    case None
    then obtain x where "acl_AuthMethodCreate (ae_client A) ?d wb = (Inr x, w1)"
      using wr by (auto simp: writeAuthMethod_def split: prod.splits sum.splits)
    moreover have "view wb (am_Name ?d) = None" using None ex_view by (simp add: applicationsAuthMethod_def)
    ultimately have "view w1 = (view wb)(am_Name ?d \<mapsto> ?d)" using st unfolding auth_store_ok_def by blast
    then show ?thesis by (simp add: applicationsAuthMethod_def)
  next
    case (Some e)
    show ?thesis
    proof (cases "authMethodUpToDate e ?d")
      case True
      then show ?thesis using wr Some ex_view by (auto simp: writeAuthMethod_def)
    next
      case False
      then obtain x where "acl_AuthMethodUpdate (ae_client A) ?d wb = (Inr x, w1)"
        using wr Some by (auto simp: writeAuthMethod_def split: prod.splits sum.splits)
      moreover have "view wb (am_Name ?d) \<noteq> None" using Some ex_view by (simp add: applicationsAuthMethod_def)
      ultimately have "view w1 = (view wb)(am_Name ?d \<mapsto> ?d)" using st unfolding auth_store_ok_def by blast
      then show ?thesis by (simp add: applicationsAuthMethod_def)
    qed
  qed
  moreover have "fst (boundIssuerAndAudiences A (jwks_url A) v) = Inr (i, as)" for v
    using boundIssuer_stable[OF http, of "jwks_url A" v wa] bi b by simp
  ultimately show ?thesis using upToDate_refl by blast
qed

text \<open>
  Once the auth method was ensured, running it again writes nothing: the second run only reads the method
  and succeeds, or fails when the read fails.
\<close>

theorem ensure_auth_method_idempotent:
  assumes st: "auth_store_ok (ae_client A) view" and http: "http_stable A view answer"
    and run: "EnsureApplicationsAuthMethod A w = (None, w1)"
    and again: "EnsureApplicationsAuthMethod (traced_auth A) (w1, []) = (r, (w2, log))"
  shows "\<exists>a. log = [MethodRead amName a] \<and> (r = None \<longleftrightarrow> \<not> isl a)"
proof -
  obtain i as e where issuer: "\<And>v. fst (boundIssuerAndAudiences A (jwks_url A) v) = Inr (i, as)"
    and e: "view w1 amName = Some e" "authMethodUpToDate e (applicationsAuthMethod (jwks_url A) i as)"
    using ensure_success[OF st http run] by blast
  obtain a wa where rd: "acl_AuthMethodRead (ae_client A) amName w1 = (a, wa)" by (rule prod.exhaust)
  obtain wb where bi: "boundIssuerAndAudiences A (jwks_url A) wa = (Inr (i, as), wb)" using issuer[of wa] by (metis prod.collapse)
  show ?thesis
  proof (cases a)
    case (Inl err)
    with again rd show ?thesis by (auto simp: EnsureApplicationsAuthMethod_def traced_def trace_call_def)
  next
    case (Inr ex)
    with st rd e(1) have "ex = Some e" unfolding auth_store_ok_def by metis
    with Inr again rd bi e(2) show ?thesis
      by (auto simp: EnsureApplicationsAuthMethod_def traced_def trace_call_def boundIssuer_traced writeAuthMethod_def)
  qed
qed

text \<open>An instance: the in-memory Consul and an OpenID endpoint that answers once the counter of the world is at least \<open>n\<close>.\<close>

definition demo_auth :: "nat \<Rightarrow> aclWorld authEnv" where
  "demo_auth n =
     \<lparr>ae_client = mem_acl, ae_env = Map.empty,
      ae_url_Parse = (\<lambda>s. Inr \<lparr>url_Scheme = ''http'', url_User = [], url_Host = ''localhost:8080'', url_Path = ''/openid/v1/jwks'',
        url_RawPath = [], url_ForceQuery = False, url_RawQuery = [], url_Fragment = []\<rparr>),
      ae_url_String = (\<lambda>u. url_Scheme u @ ''://'' @ url_Host u @ url_Path u),
      ae_http_Get = (\<lambda>u w. if aw_next w < n then (Inl (NetError ''connection refused''), w) else (Inr (200, ''issuer''), w)),
      ae_Decode = (\<lambda>_. Inr ''https://kubernetes.default.svc'')\<rparr>"

definition mem_methods :: "aclWorld \<Rightarrow> string \<rightharpoonup> ACLAuthMethod" where
  "mem_methods w n = find (\<lambda>m. am_Name m = n) (aw_methods w)"

lemma find_snoc: "find P (xs @ [x]) = (case find P xs of None \<Rightarrow> if P x then Some x else None | Some y \<Rightarrow> Some y)"
  by (induction xs) auto

lemma find_replace:
  "find (\<lambda>q. am_Name q = n) (map (\<lambda>q. if am_Name q = am_Name m then m else q) ms) =
     (if n = am_Name m \<and> find (\<lambda>q. am_Name q = n) ms \<noteq> None then Some m else find (\<lambda>q. am_Name q = n) ms)"
  by (induction ms) auto

lemma mem_auth_store: "auth_store_ok mem_acl mem_methods"
  by (auto simp: auth_store_ok_def mem_acl_def mem_methods_def find_snoc find_replace intro!: ext split: option.splits)

theorem ensure_auth_method_idempotent_witness:
  "\<exists>w1 a r y. EnsureApplicationsAuthMethod (demo_auth 0) mem_world = (None, w1) \<and>
     EnsureApplicationsAuthMethod (traced_auth (demo_auth 0)) (w1, []) = (r, y) \<and> snd y = [MethodRead amName a] \<and> (r = None \<longleftrightarrow> \<not> isl a)"
proof -
  have "fst (EnsureApplicationsAuthMethod (demo_auth 0) mem_world) = None"
    by (simp add: EnsureApplicationsAuthMethod_def demo_auth_def mem_world_def mem_acl_def boundIssuerAndAudiences_def os_Getenv_def
        detectIssuer_def openIDConfigURL_def writeAuthMethod_def strings_TrimSpace_def Let_def)
  then obtain w1 where run: "EnsureApplicationsAuthMethod (demo_auth 0) mem_world = (None, w1)" by (metis prod.collapse)
  obtain r w2 log where again: "EnsureApplicationsAuthMethod (traced_auth (demo_auth 0)) (w1, []) = (r, (w2, log))"
    by (rule prod_cases3)
  have st: "auth_store_ok (ae_client (demo_auth 0)) mem_methods" by (simp add: demo_auth_def mem_auth_store)
  have http: "http_stable (demo_auth 0) mem_methods (\<lambda>_. Inr (200, ''issuer''))" by (simp add: http_stable_def demo_auth_def)
  from ensure_auth_method_idempotent[OF st http run again] again run show ?thesis by auto
qed

subsection \<open>The pauses of the retry loop\<close>

definition backoff_at :: "nat \<Rightarrow> int" where
  "backoff_at i = 2 ^ min i 9 * time_Second"

text \<open>The world before the i-th attempt, when the attempts before it failed.\<close>

primrec attempt_world :: "'w authEnv \<Rightarrow> (int \<Rightarrow> 'w \<Rightarrow> bool \<times> 'w) \<Rightarrow> 'w \<Rightarrow> nat \<Rightarrow> 'w" where
  "attempt_world A wait w 0 = w"
| "attempt_world A wait w (Suc i) = snd (wait (backoff_at i) (snd (EnsureApplicationsAuthMethod A (attempt_world A wait w i))))"

definition attempt_fails :: "'w authEnv \<Rightarrow> (int \<Rightarrow> 'w \<Rightarrow> bool \<times> 'w) \<Rightarrow> 'w \<Rightarrow> nat \<Rightarrow> bool" where
  "attempt_fails A wait w i \<longleftrightarrow>
     fst (EnsureApplicationsAuthMethod A (attempt_world A wait w i)) \<noteq> None \<and>
     \<not> fst (wait (backoff_at i) (snd (EnsureApplicationsAuthMethod A (attempt_world A wait w i))))"

lemma backoff_Suc: "(if backoff_at i < 5 * (60 * time_Second) then backoff_at i * 2 else backoff_at i) = backoff_at (Suc i)"
proof (cases "i < 9")
  case True
  then have "i \<in> {0, 1, 2, 3, 4, 5, 6, 7, 8}" by auto
  then show ?thesis by (auto simp: backoff_at_def time_Second_def)
next
  case False
  then show ?thesis by (simp add: backoff_at_def time_Second_def min_def)
qed

lemma retry_loop_from:
  assumes "\<And>j. i \<le> j \<Longrightarrow> j < i + k \<Longrightarrow> attempt_fails A wait w j"
    and "fst (EnsureApplicationsAuthMethod A (attempt_world A wait w (i + k))) = None"
  shows "k < fuel \<Longrightarrow> EnsureApplicationsAuthMethodWithRetry_loop fuel A wait (backoff_at i) (attempt_world A wait w i) =
    Some (map backoff_at [i..<i + k], snd (EnsureApplicationsAuthMethod A (attempt_world A wait w (i + k))))"
  using assms
proof (induction k arbitrary: i fuel)
  case 0
  then obtain f where "fuel = Suc f" by (cases fuel) auto
  with 0(3) show ?case by (auto simp: split_beta split: option.splits)
next
  case (Suc k)
  then obtain f where f: "fuel = Suc f" "k < f" by (cases fuel) auto
  have "attempt_fails A wait w i" using Suc.prems(2) by simp
  then obtain e w1 w2 where run: "EnsureApplicationsAuthMethod A (attempt_world A wait w i) = (Some e, w1)"
    "wait (backoff_at i) w1 = (False, w2)"
    unfolding attempt_fails_def by (metis (full_types) eq_fst_iff not_None_eq prod.collapse)
  then have w2: "w2 = attempt_world A wait w (Suc i)" by simp
  have "EnsureApplicationsAuthMethodWithRetry_loop f A wait (backoff_at (Suc i)) w2 =
      Some (map backoff_at [Suc i..<Suc i + k], snd (EnsureApplicationsAuthMethod A (attempt_world A wait w (Suc i + k))))"
    unfolding w2 by (rule Suc.IH[OF f(2)]) (use Suc.prems in auto)
  moreover have "[i..<i + Suc k] = i # [Suc i..<Suc i + k]" by (simp add: upt_conv_Cons del: upt_Suc)
  ultimately show ?case using run unfolding f(1) EnsureApplicationsAuthMethodWithRetry_loop.simps backoff_Suc
    by (simp del: upt_Suc)
qed

text \<open>
  C31. When the first k attempts fail and the next one succeeds, and the context is not cancelled, the loop
  returns with any fuel above k: it pauses 1, 2, 4 seconds and so on, at most 512 seconds, which is
  far below the range of a duration, and ends in the world of the successful attempt.
\<close>

theorem auth_retry_returns:
  assumes "list_all (attempt_fails A wait w) [0..<k]"
    and "fst (EnsureApplicationsAuthMethod A (attempt_world A wait w k)) = None" and "k < fuel"
  shows "EnsureApplicationsAuthMethodWithRetry fuel A wait w =
      Some (map backoff_at [0..<k], snd (EnsureApplicationsAuthMethod A (attempt_world A wait w k))) \<and>
    list_all (\<lambda>p. time_Second \<le> p \<and> p \<le> 512 * time_Second \<and> p < 2 ^ 63) (map backoff_at [0..<k])"
proof -
  have "EnsureApplicationsAuthMethodWithRetry_loop fuel A wait (backoff_at 0) (attempt_world A wait w 0) =
      Some (map backoff_at [0..<0 + k], snd (EnsureApplicationsAuthMethod A (attempt_world A wait w (0 + k))))"
    by (rule retry_loop_from[OF _ _ assms(3)]) (use assms in \<open>auto simp: list_all_iff\<close>)
  moreover have "backoff_at 0 = time_Second" by (simp add: backoff_at_def)
  moreover have "time_Second \<le> backoff_at i \<and> backoff_at i \<le> 512 * time_Second \<and> backoff_at i < 2 ^ 63" for i
  proof -
    have "(2::int) ^ 0 \<le> 2 ^ min i 9" by (rule power_increasing) auto
    moreover have "(2::int) ^ min i 9 \<le> 2 ^ 9" by (rule power_increasing) auto
    ultimately show ?thesis by (simp add: backoff_at_def time_Second_def)
  qed
  ultimately show ?thesis by (simp add: EnsureApplicationsAuthMethodWithRetry_def list_all_iff)
qed

definition demo_wait :: "int \<Rightarrow> aclWorld \<Rightarrow> bool \<times> aclWorld" where
  "demo_wait p w = (False, w\<lparr>aw_next := aw_next w + 1\<rparr>)"

theorem auth_retry_returns_witness:
  "\<exists>w'. EnsureApplicationsAuthMethodWithRetry 2 (demo_auth 2) demo_wait mem_world = Some ([time_Second], w')"
proof -
  have "fst (EnsureApplicationsAuthMethod (demo_auth 2) w) = None" if "aw_next w = 2" for w
    using that by (simp add: EnsureApplicationsAuthMethod_def demo_auth_def mem_acl_def boundIssuerAndAudiences_def os_Getenv_def
        detectIssuer_def openIDConfigURL_def writeAuthMethod_def strings_TrimSpace_def Let_def split: option.splits)
  moreover have fail: "\<exists>e. EnsureApplicationsAuthMethod (demo_auth 2) mem_world = (Some e, mem_world)"
    by (simp add: EnsureApplicationsAuthMethod_def demo_auth_def mem_world_def mem_acl_def boundIssuerAndAudiences_def os_Getenv_def
        detectIssuer_def openIDConfigURL_def strings_TrimSpace_def splitList_def Let_def)
  then have "attempt_world (demo_auth 2) demo_wait mem_world 1 = mem_world\<lparr>aw_next := 2\<rparr>"
    by (auto simp: demo_wait_def mem_world_def)
  moreover have "list_all (attempt_fails (demo_auth 2) demo_wait mem_world) [0..<1]"
    using fail by (auto simp: attempt_fails_def demo_wait_def)
  ultimately show ?thesis
    using auth_retry_returns[of "demo_auth 2" demo_wait mem_world 1 2] by (simp add: backoff_at_def)
qed

end
