(* ===== verification/Http.thy ===== *)
theory Http
  imports Kubernetes
begin

text \<open>
  What the jobs use of \<^verbatim>\<open>net/http\<close>: requests, responses and a client over a world \<^typ>\<open>'w\<close>. Building a request may fail, and
  reading the body of a response may fail after a part of it. \<open>logged_http\<close> also keeps the requests that were sent.
\<close>

record httpRequest =
  req_Method :: string
  req_URL :: string
  req_Body :: "string option"
  req_Headers :: "(string \<times> string) list"
  req_BasicAuth :: "(string \<times> string) option"

record httpResponse =
  resp_StatusCode :: int
  resp_Status :: string
  resp_Body :: string
  resp_ReadErr :: "goerror option"

record 'w httpClient =
  http_NewRequest :: "string \<Rightarrow> string \<Rightarrow> string option \<Rightarrow> httpRequest result"
  http_Do :: "httpRequest \<Rightarrow> 'w \<Rightarrow> httpResponse result \<times> 'w"

text \<open>\<^verbatim>\<open>http.NewRequest\<close> returns a request with the method, the URL and the body it was given, or an error.\<close>

definition http_ok :: "'w httpClient \<Rightarrow> bool" where
  "http_ok H \<longleftrightarrow> (\<forall>me u b r. http_NewRequest H me u b = Inr r \<longrightarrow>
     req_Method r = me \<and> req_URL r = u \<and> req_Body r = b)"

definition logged_http :: "'w httpClient \<Rightarrow> ('w \<times> httpRequest list) httpClient" where
  "logged_http H =
     \<lparr>http_NewRequest = http_NewRequest H,
      http_Do = (\<lambda>r x. case http_Do H r (fst x) of (a, w) \<Rightarrow> (a, (w, snd x @ [r])))\<rparr>"

lemma logged_http_simps [simp]:
  "http_NewRequest (logged_http H) = http_NewRequest H"
  "http_Do (logged_http H) r x = (fst (http_Do H r (fst x)), (snd (http_Do H r (fst x)), snd x @ [r]))"
  by (simp_all add: logged_http_def split_beta)

end
