(* ===== verification/Remove_Tokens.thy ===== *)
theory Remove_Tokens
  imports Http "HOL-Library.Multiset"
begin

text \<open>
  The job that revokes stale tokens of Consul clients (\<^verbatim>\<open>remove-tokens/remove-tokens.go\<close>): it waits for a leader, lists the
  running pods and the tokens, groups the tokens by pod, and deletes the tokens of pods that are gone
  and all but the latest token of every other pod. The decoders of JSON, \<^verbatim>\<open>url.PathEscape\<close>, the clock and the
  list of pods are parameters; \<^verbatim>\<open>log.Fatal\<close> is the outcome \<open>Fatal\<close>.
\<close>

record Token =
  tok_AccessorID :: string
  tok_Description :: string
  tok_CreateTime :: int

record TokenDescription =
  td_Component :: string
  td_Pod :: string

record Pod =
  pod_Name :: string
  pod_Phase :: string

text \<open>
  The environment of the job. \<open>rt_Sort\<close> is \<^verbatim>\<open>sort.Slice\<close> by descending creation time, which is not stable, and \<open>rt_range\<close> the
  order in which a loop visits the keys of a Go map.
\<close>

record 'w removeEnv =
  rt_http :: "'w httpClient"
  rt_env :: environ
  rt_ReadFile :: "string \<Rightarrow> string result"
  rt_LoadCA :: "string \<Rightarrow> bool"
  rt_PathEscape :: "string \<Rightarrow> string"
  rt_UnmarshalDescription :: "string \<Rightarrow> TokenDescription result"
  rt_UnmarshalTokens :: "string \<Rightarrow> Token list result"
  rt_InClusterConfig :: "string result"
  rt_NewForConfig :: "string \<Rightarrow> unit result"
  rt_NotExist :: "string \<Rightarrow> bool"
  rt_BuildConfigFromFlags :: "string \<Rightarrow> string result"
  rt_ListPods :: "string \<Rightarrow> string \<Rightarrow> 'w \<Rightarrow> Pod list result \<times> 'w"
  rt_Sort :: "Token list \<Rightarrow> Token list"
  rt_range :: "string list \<Rightarrow> string list"
  rt_Now :: "'w \<Rightarrow> int"
  rt_Sleep :: "int \<Rightarrow> 'w \<Rightarrow> 'w"

datatype 'a outcome = Fatal string | Done 'a

subsection \<open>Descriptions\<close>

definition podKey :: "string \<Rightarrow> string" where
  "podKey pod = last (strings_Split pod CHR ''/'')"

definition parseDescription :: "'w removeEnv \<Rightarrow> string \<Rightarrow> TokenDescription option" where
  "parseDescription R desc =
     (if strings_Contains desc ''Bootstrap Token'' \<or> strings_HasPrefix desc ''Bootstrap'' then None
      else case strings_Index desc ''{'' of
             None \<Rightarrow> None
           | Some i \<Rightarrow>
               (case rt_UnmarshalDescription R (drop i desc) of
                  Inl err \<Rightarrow> None
                | Inr td \<Rightarrow> Some td))"

subsection \<open>Environment\<close>

definition removeTokensPodSecretsDir :: string where
  "removeTokensPodSecretsDir = ''/etc/secrets/remove-tokens-pod-secrets''"

definition readConsulToken :: "'w removeEnv \<Rightarrow> string" where
  "readConsulToken R =
     (case rt_ReadFile R (removeTokensPodSecretsDir @ ''/CONSUL_HTTP_TOKEN'') of
        Inr dat \<Rightarrow>
          if strings_TrimSpace dat \<noteq> [] then strings_TrimSpace dat
          else strings_TrimSpace (os_Getenv (rt_env R) ''CONSUL_HTTP_TOKEN'')
      | Inl err \<Rightarrow> strings_TrimSpace (os_Getenv (rt_env R) ''CONSUL_HTTP_TOKEN''))"

definition loadEnv :: "'w removeEnv \<Rightarrow> (string \<times> string \<times> string \<times> string) outcome" where
  "loadEnv R =
     (let host = strings_TrimSpace (os_Getenv (rt_env R) ''CONSUL_HOST'');
          port = strings_TrimSpace (os_Getenv (rt_env R) ''CONSUL_PORT'');
          port = (if port = [] then ''8500'' else port);
          token = readConsulToken R;
          ns = strings_TrimSpace (os_Getenv (rt_env R) ''CONSUL_NAMESPACE'')
      in if host = [] \<or> token = []
         then Fatal ''[ERROR] Missing CONSUL_HOST / Consul ACL token (mounted secret file)''
         else Done (host, port, token, ns))"

text \<open>
  \<^verbatim>\<open>configureHTTP\<close>: the base URL. With TLS a CA file is read; \<open>rt_LoadCA\<close> tells whether its content has a certificate.
\<close>

definition configureHTTP :: "'w removeEnv \<Rightarrow> string \<Rightarrow> string \<Rightarrow> string outcome" where
  "configureHTTP R host port =
     (if strings_ToLower (strings_TrimSpace (os_Getenv (rt_env R) ''CONSUL_USE_TLS'')) = ''true''
      then let caFile = strings_TrimSpace (os_Getenv (rt_env R) ''CONSUL_CACERT_FILE'') in
           if caFile \<noteq> [] then
             (case rt_ReadFile R caFile of
                Inl err \<Rightarrow> Fatal (''Cannot read CA file '' @ caFile @ '': '' @ Error err)
              | Inr pem \<Rightarrow>
                  if \<not> rt_LoadCA R pem then Fatal (''No valid certificates in CA file '' @ caFile)
                  else Done (''https'' @ ''://'' @ host @ '':'' @ port))
           else Done (''https'' @ ''://'' @ host @ '':'' @ port)
      else Done (''http'' @ ''://'' @ host @ '':'' @ port))"

subsection \<open>Pods\<close>

text \<open>The client of the API server is created from the cluster or from a file; \<open>rt_NotExist\<close> is \<^verbatim>\<open>os.IsNotExist\<close> of the stat.\<close>

definition getKubeClient :: "'w removeEnv \<Rightarrow> unit result" where
  "getKubeClient R =
     (case rt_InClusterConfig R of
        Inr cfg \<Rightarrow> rt_NewForConfig R cfg
      | Inl err \<Rightarrow>
          if rt_NotExist R ''kubeconfig'' then Inl (PlainError ''kubeconfig not found in current directory'')
          else (case rt_BuildConfigFromFlags R ''kubeconfig'' of
                  Inl err \<Rightarrow> Inl (PlainError (''cannot load kubeconfig: '' @ Error err))
                | Inr cfg \<Rightarrow> rt_NewForConfig R cfg))"

definition mustGetKubeClient :: "'w removeEnv \<Rightarrow> unit outcome" where
  "mustGetKubeClient R =
     (case getKubeClient R of
        Inl err \<Rightarrow> Fatal (''Cannot create k8s client: '' @ Error err)
      | Inr clientset \<Rightarrow> Done clientset)"

definition getLiveConsulPods :: "'w removeEnv \<Rightarrow> string \<Rightarrow> 'w \<Rightarrow> string set outcome \<times> 'w" where
  "getLiveConsulPods R namespace w =
     (case rt_ListPods R namespace ''app=consul,component=client'' w of
        (Inl err, w1) \<Rightarrow> (Fatal (''Cannot list consul client pods: '' @ Error err), w1)
      | (Inr pods, w1) \<Rightarrow> (Done (set (map pod_Name (filter (\<lambda>p. pod_Phase p = ''Running'') pods))), w1))"

subsection \<open>Requests\<close>

definition with_token :: "string \<Rightarrow> httpRequest \<Rightarrow> httpRequest" where
  "with_token token r = r\<lparr>req_Headers := AList.update ''X-Consul-Token'' token (req_Headers r)\<rparr>"

definition strings_Trim_quotes :: "string \<Rightarrow> string" where
  "strings_Trim_quotes s = rev (dropWhile (\<lambda>c. c = CHR 0x22) (rev (dropWhile (\<lambda>c. c = CHR 0x22) s)))"

definition hasLeader :: "'w removeEnv \<Rightarrow> string \<Rightarrow> string \<Rightarrow> 'w \<Rightarrow> bool \<times> 'w" where
  "hasLeader R urlStr token w =
     (case http_NewRequest (rt_http R) ''GET'' urlStr None of
        Inl err \<Rightarrow> (False, w)
      | Inr req \<Rightarrow>
          (case http_Do (rt_http R) (with_token token req) w of
             (Inl err, w1) \<Rightarrow> (False, w1)
           | (Inr resp, w1) \<Rightarrow>
               if resp_StatusCode resp \<noteq> 200 then (False, w1)
               else (case resp_ReadErr resp of
                       Some err \<Rightarrow> (False, w1)
                     | None \<Rightarrow> (strings_Trim_quotes (strings_TrimSpace (resp_Body resp)) \<noteq> [], w1))))"

definition fetchConsulTokens :: "'w removeEnv \<Rightarrow> string \<Rightarrow> string \<Rightarrow> 'w \<Rightarrow> Token list result \<times> 'w" where
  "fetchConsulTokens R baseURL token w =
     (case http_NewRequest (rt_http R) ''GET'' (baseURL @ ''/v1/acl/tokens'') None of
        Inl err \<Rightarrow> (Inl err, w)
      | Inr req \<Rightarrow>
          (case http_Do (rt_http R) (with_token token req) w of
             (Inl err, w1) \<Rightarrow> (Inl err, w1)
           | (Inr resp, w1) \<Rightarrow>
               if resp_StatusCode resp \<noteq> 200 then (Inl (PlainError (''failed to fetch tokens '' @ resp_Status resp)), w1)
               else (case resp_ReadErr resp of
                       Some err \<Rightarrow> (Inl err, w1)
                     | None \<Rightarrow>
                         (case rt_UnmarshalTokens R (resp_Body resp) of
                            Inl err \<Rightarrow> (Inl (PlainError (''[ERROR] Invalid JSON from Consul: '' @ Error err)), w1)
                          | Inr tokens \<Rightarrow> (Inr tokens, w1)))))"

subsection \<open>The leader\<close>

text \<open>Durations and instants are in nanoseconds.\<close>

definition leaderWaitMax :: int where
  "leaderWaitMax = 3 * (60 * time_Second)"

definition leaderWaitInitial :: int where
  "leaderWaitInitial = 5 * time_Second"

definition leaderWaitMaxDelay :: int where
  "leaderWaitMaxDelay = 30 * time_Second"

definition nextDelay :: "int \<Rightarrow> int" where
  "nextDelay delay = (let delay = delay * 2 in if delay > leaderWaitMaxDelay then leaderWaitMaxDelay else delay)"

text \<open>The loop has fuel, which counts the polls; no result means that it was not enough.\<close>

fun waitForLeader_loop :: "nat \<Rightarrow> 'w removeEnv \<Rightarrow> string \<Rightarrow> string \<Rightarrow> int \<Rightarrow> int \<Rightarrow> 'w \<Rightarrow> (bool \<times> 'w) option" where
  "waitForLeader_loop 0 R urlStr token deadline delay w = None"
| "waitForLeader_loop (Suc fuel) R urlStr token deadline delay w =
     (case hasLeader R urlStr token w of
        (True, w1) \<Rightarrow> Some (True, w1)
      | (False, w1) \<Rightarrow>
          if rt_Now R w1 + delay > deadline then Some (False, w1)
          else waitForLeader_loop fuel R urlStr token deadline (nextDelay delay) (rt_Sleep R delay w1))"

definition waitForLeader :: "nat \<Rightarrow> 'w removeEnv \<Rightarrow> string \<Rightarrow> string \<Rightarrow> 'w \<Rightarrow> (bool \<times> 'w) option" where
  "waitForLeader fuel R baseURL token w =
     waitForLeader_loop fuel R (baseURL @ ''/v1/status/leader'') token (rt_Now R w + leaderWaitMax) leaderWaitInitial w"

subsection \<open>The tokens to delete\<close>

definition client_token :: "'w removeEnv \<Rightarrow> Token \<Rightarrow> string option" where
  "client_token R t =
     (case parseDescription R (tok_Description t) of
        None \<Rightarrow> None
      | Some td \<Rightarrow> if td_Component td \<noteq> ''client'' \<or> td_Pod td = [] then None else Some (podKey (td_Pod td)))"

text \<open>The map of tokens by pod, with the pods in the order of their first token.\<close>

fun groupTokensByPod_from :: "'w removeEnv \<Rightarrow> Token list \<Rightarrow> (string \<times> Token list) list \<Rightarrow> (string \<times> Token list) list" where
  "groupTokensByPod_from R [] m = m"
| "groupTokensByPod_from R (t # ts) m =
     (case client_token R t of
        None \<Rightarrow> groupTokensByPod_from R ts m
      | Some podName \<Rightarrow>
          groupTokensByPod_from R ts
            (AList.update podName ((case map_of m podName of None \<Rightarrow> [] | Some toks \<Rightarrow> toks) @ [t]) m))"

definition groupTokensByPod :: "'w removeEnv \<Rightarrow> Token list \<Rightarrow> (string \<times> Token list) list" where
  "groupTokensByPod R tokens = groupTokensByPod_from R tokens []"

definition pick_pod :: "'w removeEnv \<Rightarrow> string set \<Rightarrow> string \<Rightarrow> Token list \<Rightarrow> string list" where
  "pick_pod R livePods podName toks =
     (if podName \<notin> livePods then map tok_AccessorID toks
      else map tok_AccessorID (drop 1 (rt_Sort R toks)))"

definition pickTokensToDelete :: "'w removeEnv \<Rightarrow> (string \<times> Token list) list \<Rightarrow> string set \<Rightarrow> string list" where
  "pickTokensToDelete R tokensByPod livePods =
     concat (map (\<lambda>podName. pick_pod R livePods podName (case map_of tokensByPod podName of None \<Rightarrow> [] | Some toks \<Rightarrow> toks))
       (rt_range R (map fst tokensByPod)))"

definition deleteToken :: "'w removeEnv \<Rightarrow> string \<Rightarrow> string \<Rightarrow> string \<Rightarrow> 'w \<Rightarrow> 'w" where
  "deleteToken R baseURL token i w =
     (case http_NewRequest (rt_http R) ''DELETE'' (baseURL @ ''/v1/acl/token/'' @ rt_PathEscape R i) None of
        Inl err \<Rightarrow> w
      | Inr req \<Rightarrow> snd (http_Do (rt_http R) (with_token token req) w))"

definition deleteTokens :: "'w removeEnv \<Rightarrow> string \<Rightarrow> string \<Rightarrow> string list \<Rightarrow> 'w \<Rightarrow> 'w" where
  "deleteTokens R baseURL token tokensToDelete w = fold (deleteToken R baseURL token) tokensToDelete w"

subsection \<open>The job\<close>

definition rt_main :: "nat \<Rightarrow> 'w removeEnv \<Rightarrow> 'w \<Rightarrow> (unit outcome \<times> 'w) option" where
  "rt_main fuel R w =
     (case loadEnv R of
        Fatal s \<Rightarrow> Some (Fatal s, w)
      | Done (consulHost, consulPort, consulToken, namespace) \<Rightarrow>
          (case configureHTTP R consulHost consulPort of
             Fatal s \<Rightarrow> Some (Fatal s, w)
           | Done baseURL \<Rightarrow>
             (case mustGetKubeClient R of
                Fatal s \<Rightarrow> Some (Fatal s, w)
              | Done _ \<Rightarrow>
               (case waitForLeader fuel R baseURL consulToken w of
                  None \<Rightarrow> None
                | Some (False, w1) \<Rightarrow> Some (Done (), w1)
                | Some (True, w1) \<Rightarrow>
                    Some (case getLiveConsulPods R namespace w1 of
                       (Fatal s, w2) \<Rightarrow> (Fatal s, w2)
                     | (Done livePods, w2) \<Rightarrow>
                         (case fetchConsulTokens R baseURL consulToken w2 of
                            (Inl err, w3) \<Rightarrow> (Fatal (Error err @ '' Failed fetchConsulTokens''), w3)
                          | (Inr tokens, w3) \<Rightarrow>
                              (Done (), deleteTokens R baseURL consulToken
                                 (pickTokensToDelete R (groupTokensByPod R tokens) livePods) w3)))))))"

subsection \<open>Waiting for the leader\<close>

text \<open>The clock: a sleep lasts at least as long as asked, and requests do not turn it back.\<close>

definition clock_ok :: "'w removeEnv \<Rightarrow> bool" where
  "clock_ok R \<longleftrightarrow> (\<forall>d w. rt_Now R w + d \<le> rt_Now R (rt_Sleep R d w)) \<and>
     (\<forall>r w. rt_Now R w \<le> rt_Now R (snd (http_Do (rt_http R) r w)))"

lemma hasLeader_clock: "clock_ok R \<Longrightarrow> hasLeader R u t w = (b, w1) \<Longrightarrow> rt_Now R w \<le> rt_Now R w1"
  unfolding clock_ok_def hasLeader_def
  by (auto split: sum.splits prod.splits option.splits if_splits) (metis snd_conv order_refl)+

lemma leader_loop_step:
  assumes clock: "clock_ok R"
    and rest: "\<And>w'. rt_Now R w + delay \<le> rt_Now R w' \<Longrightarrow> \<exists>r. waitForLeader_loop fuel R u t deadline (nextDelay delay) w' = Some r"
  shows "\<exists>r. waitForLeader_loop (Suc fuel) R u t deadline delay w = Some r"
proof -
  obtain b w1 where h: "hasLeader R u t w = (b, w1)" by (rule prod.exhaust)
  have "rt_Now R w + delay \<le> rt_Now R (rt_Sleep R delay w1)"
    using hasLeader_clock[OF clock h] clock unfolding clock_ok_def by (meson add_right_mono order_trans)
  from rest[OF this] h show ?thesis by (auto split: bool.splits)
qed

lemmas leader_delays = nextDelay_def leaderWaitInitial_def leaderWaitMaxDelay_def leaderWaitMax_def time_Second_def

lemma leader_loop_late:
  assumes clock: "clock_ok R"
  shows "deadline < rt_Now R w + leaderWaitMaxDelay * int (Suc n) \<Longrightarrow> \<exists>r. waitForLeader_loop (Suc n + k) R u t deadline leaderWaitMaxDelay w = Some r"
proof (induction n arbitrary: w)
  case 0
  obtain b w1 where h: "hasLeader R u t w = (b, w1)" by (rule prod.exhaust)
  with hasLeader_clock[OF clock h] 0 show ?case by (auto split: bool.splits)
next
  case (Suc n)
  have "\<exists>r. waitForLeader_loop (Suc (Suc n + k)) R u t deadline leaderWaitMaxDelay w = Some r"
  proof (rule leader_loop_step[OF clock])
    fix w'
    assume "rt_Now R w + leaderWaitMaxDelay \<le> rt_Now R w'"
    with Suc.prems have "deadline < rt_Now R w' + leaderWaitMaxDelay * int (Suc n)" by (simp add: algebra_simps)
    then show "\<exists>r. waitForLeader_loop (Suc n + k) R u t deadline (nextDelay leaderWaitMaxDelay) w' = Some r"
      using Suc.IH by (simp add: leader_delays)
  qed
  then show ?case by simp
qed

lemma leader_loop_True:
  "waitForLeader_loop fuel R u t deadline delay w = Some (True, w') \<Longrightarrow> \<exists>w1. hasLeader R u t w1 = (True, w')"
  by (induction fuel arbitrary: delay w) (auto split: prod.splits bool.splits if_splits)

text \<open>
  C32. The wait for a leader ends after at most 8 polls, whatever Consul answers, when the clock does not run
  backwards; it reports a leader only when the last poll saw one.
\<close>

theorem wait_for_leader_terminates:
  assumes "clock_ok R" and "8 \<le> fuel"
  shows "\<exists>b w'. waitForLeader fuel R baseURL token w = Some (b, w') \<and>
    (b \<longrightarrow> (\<exists>w1. hasLeader R (baseURL @ ''/v1/status/leader'') token w1 = (True, w')))"
proof -
  let ?u = "baseURL @ ''/v1/status/leader''" and ?d = "rt_Now R w + leaderWaitMax"
  obtain k where "fuel = 8 + k" using assms(2) le_Suc_ex by blast
  then have fuel: "fuel = Suc (Suc (Suc (Suc 4 + k)))" by simp
  have "\<exists>r. waitForLeader_loop fuel R ?u token ?d leaderWaitInitial w = Some r"
    unfolding fuel
  proof (intro leader_loop_step[OF assms(1)])
    fix w1 w2 w3
    assume "rt_Now R w + leaderWaitInitial \<le> rt_Now R w1" "rt_Now R w1 + nextDelay leaderWaitInitial \<le> rt_Now R w2"
      "rt_Now R w2 + nextDelay (nextDelay leaderWaitInitial) \<le> rt_Now R w3"
    then have "?d < rt_Now R w3 + leaderWaitMaxDelay * int (Suc 4)"
      by (simp add: leader_delays)
    from leader_loop_late[OF assms(1) this]
    show "\<exists>r. waitForLeader_loop (Suc 4 + k) R ?u token ?d (nextDelay (nextDelay (nextDelay leaderWaitInitial))) w3 = Some r"
      by (simp add: leader_delays)
  qed
  then show ?thesis unfolding waitForLeader_def using leader_loop_True by fastforce
qed

subsection \<open>The tokens that are deleted\<close>

text \<open>What \<^verbatim>\<open>sort.Slice\<close> promises: a permutation that is sorted by descending creation time.\<close>

definition sort_ok :: "(Token list \<Rightarrow> Token list) \<Rightarrow> bool" where
  "sort_ok srt \<longleftrightarrow> (\<forall>ts. mset (srt ts) = mset ts \<and> sorted_wrt (\<lambda>a b. tok_CreateTime b \<le> tok_CreateTime a) (srt ts))"

definition pod_tokens :: "'w removeEnv \<Rightarrow> Token list \<Rightarrow> string \<Rightarrow> Token list" where
  "pod_tokens R tokens p = filter (\<lambda>t. client_token R t = Some p) tokens"

lemma group_from:
  "map_of (groupTokensByPod_from R ts m) p =
     (if pod_tokens R ts p = [] then map_of m p
      else Some ((case map_of m p of None \<Rightarrow> [] | Some toks \<Rightarrow> toks) @ pod_tokens R ts p))"
  by (induction ts arbitrary: m) (auto simp: pod_tokens_def update_conv' split: option.splits)

lemma group_from_distinct: "distinct (map fst m) \<Longrightarrow> distinct (map fst (groupTokensByPod_from R ts m))"
  by (induction ts arbitrary: m) (auto simp: distinct_update split: option.splits)

lemma group_tokens:
  "map_of (groupTokensByPod R ts) p = (if pod_tokens R ts p = [] then None else Some (pod_tokens R ts p))"
  "distinct (map fst (groupTokensByPod R ts))"
  using group_from[of R ts "[]" p] group_from_distinct[of "[]" R ts] by (simp_all add: groupTokensByPod_def)

lemma group_pods: "p \<in> set (map fst (groupTokensByPod R ts)) \<longleftrightarrow> pod_tokens R ts p \<noteq> []"
  using group_tokens(1)[of R ts p] map_of_eq_None_iff[of "groupTokensByPod R ts" p] by (auto split: if_splits)

lemma pick_set:
  assumes "range_ok (rt_range R)"
  shows "set (pickTokensToDelete R (groupTokensByPod R ts) live) =
    (\<Union>p \<in> {p. pod_tokens R ts p \<noteq> []}. set (pick_pod R live p (pod_tokens R ts p)))"
proof -
  have "set (rt_range R (map fst (groupTokensByPod R ts))) = {p. pod_tokens R ts p \<noteq> []}"
    using assms group_tokens(2)[of R ts] group_pods[of _ R ts] unfolding range_ok_def by blast
  then show ?thesis by (simp add: pickTokensToDelete_def group_tokens)
qed

text \<open>The token that a live pod keeps.\<close>

definition kept_token :: "'w removeEnv \<Rightarrow> Token list \<Rightarrow> string \<Rightarrow> Token" where
  "kept_token R ts p = hd (rt_Sort R (pod_tokens R ts p))"

lemma kept_token_latest:
  assumes "sort_ok (rt_Sort R)" and "pod_tokens R ts p \<noteq> []"
  shows "kept_token R ts p \<in> set (pod_tokens R ts p)"
    and "t \<in> set (pod_tokens R ts p) \<Longrightarrow> tok_CreateTime t \<le> tok_CreateTime (kept_token R ts p)"
    and "distinct (pod_tokens R ts p) \<Longrightarrow> set (drop 1 (rt_Sort R (pod_tokens R ts p))) = set (pod_tokens R ts p) - {kept_token R ts p}"
proof -
  let ?s = "rt_Sort R (pod_tokens R ts p)"
  have m: "mset ?s = mset (pod_tokens R ts p)"
    and sorted: "sorted_wrt (\<lambda>a b. tok_CreateTime b \<le> tok_CreateTime a) ?s"
    using assms(1) unfolding sort_ok_def by blast+
  then have "?s \<noteq> []" using assms(2) by (metis mset.simps(1) mset_zero_iff)
  then obtain x xs where s: "?s = x # xs" by (cases ?s) auto
  have set: "set (pod_tokens R ts p) = insert x (set xs)" using m s by (metis list.simps(15) mset_eq_setD)
  show "kept_token R ts p \<in> set (pod_tokens R ts p)" by (simp add: kept_token_def s set)
  show "tok_CreateTime t \<le> tok_CreateTime (kept_token R ts p)" if "t \<in> set (pod_tokens R ts p)"
    using that sorted set by (auto simp: kept_token_def s)
  show "set (drop 1 ?s) = set (pod_tokens R ts p) - {kept_token R ts p}" if "distinct (pod_tokens R ts p)"
  proof -
    have "distinct ?s" using that m by (metis mset_eq_imp_distinct_iff)
    then show ?thesis by (auto simp: kept_token_def s set)
  qed
qed

text \<open>
  A correct selection: for every pod with tokens, all of them when the pod is gone, and all but one token
  of the latest creation time when it runs; tokens that are not of a client pod are never selected.
\<close>

definition correct_selection :: "'w removeEnv \<Rightarrow> Token list \<Rightarrow> string set \<Rightarrow> string set \<Rightarrow> bool" where
  "correct_selection R ts live ids \<longleftrightarrow>
     (\<exists>kept. ids = tok_AccessorID ` {t \<in> set ts. \<exists>p. client_token R t = Some p \<and> (p \<in> live \<longrightarrow> t \<noteq> kept p)} \<and>
        (\<forall>p \<in> live. pod_tokens R ts p \<noteq> [] \<longrightarrow> kept p \<in> set (pod_tokens R ts p) \<and>
           (\<forall>t \<in> set (pod_tokens R ts p). tok_CreateTime t \<le> tok_CreateTime (kept p)) \<and>
           tok_AccessorID (kept p) \<notin> ids))"

text \<open>
  C33. The selected tokens are exactly those of client pods that are gone and, for every pod that runs, all but
  one of its latest tokens, which is not selected; tokens without a client description (bootstrap
  tokens among them) are never selected.
\<close>

theorem pick_tokens_exact:
  assumes srt: "sort_ok (rt_Sort R)" and rng: "range_ok (rt_range R)" and ids: "distinct (map tok_AccessorID ts)"
  shows "correct_selection R ts live (set (pickTokensToDelete R (groupTokensByPod R ts) live))"
proof -
  let ?ids = "set (pickTokensToDelete R (groupTokensByPod R ts) live)" and ?kept = "kept_token R ts"
  have inj: "inj_on tok_AccessorID (set ts)" and dist: "distinct ts" using ids by (simp_all add: distinct_map)
  have pt: "t \<in> set (pod_tokens R ts p) \<longleftrightarrow> t \<in> set ts \<and> client_token R t = Some p" for t p by (auto simp: pod_tokens_def)
  have "set (pick_pod R live p (pod_tokens R ts p)) =
      tok_AccessorID ` {t \<in> set (pod_tokens R ts p). p \<in> live \<longrightarrow> t \<noteq> ?kept p}" if "pod_tokens R ts p \<noteq> []" for p
    using kept_token_latest(3)[OF srt that] dist by (auto simp: pick_pod_def pod_tokens_def)
  then have eq: "?ids = tok_AccessorID ` {t \<in> set ts. \<exists>p. client_token R t = Some p \<and> (p \<in> live \<longrightarrow> t \<noteq> ?kept p)}"
    unfolding pick_set[OF rng] using pt by (auto simp: image_iff filter_empty_conv pod_tokens_def)
  have "tok_AccessorID (?kept p) \<notin> ?ids" if p: "p \<in> live" "pod_tokens R ts p \<noteq> []" for p
  proof
    assume "tok_AccessorID (?kept p) \<in> ?ids"
    then obtain t q where t: "t \<in> set ts" "client_token R t = Some q" "q \<in> live \<longrightarrow> t \<noteq> ?kept q"
      "tok_AccessorID t = tok_AccessorID (?kept p)" unfolding eq by auto
    have k: "?kept p \<in> set ts" "client_token R (?kept p) = Some p" using kept_token_latest(1)[OF srt p(2)] pt by blast+
    have "t = ?kept p" using inj_onD[OF inj t(4) t(1) k(1)] .
    with t k p show False by simp
  qed
  then show ?thesis
    unfolding correct_selection_def
    by (intro exI[of _ ?kept] conjI[OF eq] ballI impI conjI) (auto intro: kept_token_latest(1,2)[OF srt])
qed

subsection \<open>The requests of the job\<close>

definition logged_rt :: "'w removeEnv \<Rightarrow> ('w \<times> httpRequest list) removeEnv" where
  "logged_rt R =
     \<lparr>rt_http = logged_http (rt_http R), rt_env = rt_env R, rt_ReadFile = rt_ReadFile R, rt_LoadCA = rt_LoadCA R,
      rt_PathEscape = rt_PathEscape R, rt_UnmarshalDescription = rt_UnmarshalDescription R,
      rt_UnmarshalTokens = rt_UnmarshalTokens R, rt_InClusterConfig = rt_InClusterConfig R, rt_NewForConfig = rt_NewForConfig R,
      rt_NotExist = rt_NotExist R, rt_BuildConfigFromFlags = rt_BuildConfigFromFlags R,
      rt_ListPods = (\<lambda>ns l x. case rt_ListPods R ns l (fst x) of (r, w) \<Rightarrow> (r, (w, snd x))),
      rt_Sort = rt_Sort R, rt_range = rt_range R, rt_Now = (\<lambda>x. rt_Now R (fst x)), rt_Sleep = (\<lambda>d x. (rt_Sleep R d (fst x), snd x))\<rparr>"

definition deletions :: "httpRequest list \<Rightarrow> httpRequest list" where
  "deletions log = filter (\<lambda>r. req_Method r = ''DELETE'') log"

text \<open>The requests for a list of tokens; a request that can not be built is skipped.\<close>

definition delete_requests :: "'w removeEnv \<Rightarrow> string \<Rightarrow> string \<Rightarrow> string list \<Rightarrow> httpRequest list" where
  "delete_requests R baseURL token ids =
     concat (map (\<lambda>i. case http_NewRequest (rt_http R) ''DELETE'' (baseURL @ ''/v1/acl/token/'' @ rt_PathEscape R i) None of
        Inl err \<Rightarrow> [] | Inr req \<Rightarrow> [with_token token req]) ids)"

lemma logged_rt_simps:
  "rt_http (logged_rt R) = logged_http (rt_http R)" "rt_env (logged_rt R) = rt_env R" "rt_ReadFile (logged_rt R) = rt_ReadFile R"
  "rt_LoadCA (logged_rt R) = rt_LoadCA R" "rt_PathEscape (logged_rt R) = rt_PathEscape R"
  "rt_UnmarshalDescription (logged_rt R) = rt_UnmarshalDescription R" "rt_UnmarshalTokens (logged_rt R) = rt_UnmarshalTokens R"
  "rt_InClusterConfig (logged_rt R) = rt_InClusterConfig R" "rt_NewForConfig (logged_rt R) = rt_NewForConfig R"
  "rt_NotExist (logged_rt R) = rt_NotExist R" "rt_BuildConfigFromFlags (logged_rt R) = rt_BuildConfigFromFlags R"
  "rt_ListPods (logged_rt R) ns l x = (fst (rt_ListPods R ns l (fst x)), (snd (rt_ListPods R ns l (fst x)), snd x))"
  "rt_Sort (logged_rt R) = rt_Sort R" "rt_range (logged_rt R) = rt_range R"
  "rt_Now (logged_rt R) x = rt_Now R (fst x)" "rt_Sleep (logged_rt R) d x = (rt_Sleep R d (fst x), snd x)"
  by (simp_all add: logged_rt_def split_beta)

lemma logged_rt_pure:
  "loadEnv (logged_rt R) = loadEnv R" "configureHTTP (logged_rt R) = configureHTTP R" "mustGetKubeClient (logged_rt R) = mustGetKubeClient R"
  "pickTokensToDelete (logged_rt R) (groupTokensByPod (logged_rt R) ts) live = pickTokensToDelete R (groupTokensByPod R ts) live"
proof -
  have c: "client_token (logged_rt R) = client_token R"
    unfolding client_token_def parseDescription_def logged_rt_simps by (rule ext) (rule refl)
  have "groupTokensByPod_from (logged_rt R) ts m = groupTokensByPod_from R ts m" for m
    by (induction ts arbitrary: m) (auto simp: c split: option.splits)
  then have g: "groupTokensByPod (logged_rt R) ts = groupTokensByPod R ts" by (simp add: groupTokensByPod_def)
  show "pickTokensToDelete (logged_rt R) (groupTokensByPod (logged_rt R) ts) live = pickTokensToDelete R (groupTokensByPod R ts) live"
    unfolding g pickTokensToDelete_def pick_pod_def logged_rt_simps ..
  show "loadEnv (logged_rt R) = loadEnv R" unfolding loadEnv_def readConsulToken_def logged_rt_simps ..
  show "configureHTTP (logged_rt R) = configureHTTP R"
    unfolding configureHTTP_def logged_rt_simps by (intro ext) (rule refl)
  show "mustGetKubeClient (logged_rt R) = mustGetKubeClient R" unfolding mustGetKubeClient_def getKubeClient_def logged_rt_simps ..
qed

lemma deletions_get: "http_ok H \<Longrightarrow> http_NewRequest H ''GET'' u b = Inr r \<Longrightarrow> deletions [with_token t r] = []"
  by (simp add: http_ok_def deletions_def with_token_def)

lemma deletions_append [simp]: "deletions (a @ b) = deletions a @ deletions b" "deletions [] = []"
  by (simp_all add: deletions_def)

lemma hasLeader_logged:
  assumes "http_ok (rt_http R)" and "hasLeader (logged_rt R) u t x = (b, y)"
  shows "hasLeader R u t (fst x) = (b, fst y) \<and> deletions (snd y) = deletions (snd x)"
proof (cases "http_NewRequest (rt_http R) ''GET'' u None")
  case (Inl e)
  with assms(2) show ?thesis by (simp add: hasLeader_def logged_rt_simps)
next
  case (Inr r)
  obtain a w1 where d: "http_Do (rt_http R) (with_token t r) (fst x) = (a, w1)" by (rule prod.exhaust)
  with assms(2) Inr deletions_get[OF assms(1) Inr, of t] show ?thesis
    by (cases a) (auto simp: hasLeader_def logged_rt_simps split: sum.splits option.splits if_splits)
qed

lemma fetch_logged:
  assumes "http_ok (rt_http R)" and "fetchConsulTokens (logged_rt R) base t x = (b, y)"
  shows "fetchConsulTokens R base t (fst x) = (b, fst y) \<and> deletions (snd y) = deletions (snd x)"
proof (cases "http_NewRequest (rt_http R) ''GET'' (base @ ''/v1/acl/tokens'') None")
  case (Inl e)
  with assms(2) show ?thesis by (simp add: fetchConsulTokens_def logged_rt_simps)
next
  case (Inr r)
  obtain a w1 where d: "http_Do (rt_http R) (with_token t r) (fst x) = (a, w1)" by (rule prod.exhaust)
  with assms(2) Inr deletions_get[OF assms(1) Inr, of t] show ?thesis
    by (cases a) (auto simp: fetchConsulTokens_def logged_rt_simps split: sum.splits option.splits if_splits)
qed

lemma getLive_logged:
  "getLiveConsulPods (logged_rt R) ns x = (b, y) \<Longrightarrow> getLiveConsulPods R ns (fst x) = (b, fst y) \<and> snd y = snd x"
  by (auto simp: getLiveConsulPods_def logged_rt_simps split: sum.splits prod.splits)

lemma leader_loop_logged:
  assumes "http_ok (rt_http R)"
  shows "waitForLeader_loop fuel (logged_rt R) u t deadline delay x = Some (b, y) \<Longrightarrow>
    deletions (snd y) = deletions (snd x) \<and> (b \<longrightarrow> (\<exists>w0. hasLeader R u t w0 = (True, fst y)))"
proof (induction fuel arbitrary: delay x)
  case (Suc fuel)
  obtain b1 x1 where h: "hasLeader (logged_rt R) u t x = (b1, x1)" by (rule prod.exhaust)
  note l = hasLeader_logged[OF assms h]
  show ?case
  proof (cases "b1 \<or> rt_Now R (fst x1) + delay > deadline")
    case True
    with Suc.prems h l show ?thesis by (auto simp: logged_rt_simps split: bool.splits if_splits)
  next
    case False
    with Suc.prems h have "waitForLeader_loop fuel (logged_rt R) u t deadline (nextDelay delay) (rt_Sleep (logged_rt R) delay x1) = Some (b, y)"
      by (simp add: logged_rt_simps)
    from Suc.IH[OF this] l show ?thesis by (simp add: logged_rt_simps)
  qed
qed simp

lemma deleteTokens_logged:
  assumes "http_ok (rt_http R)"
  shows "deletions (snd (deleteTokens (logged_rt R) base t ids x)) = deletions (snd x) @ delete_requests R base t ids"
proof (induction ids arbitrary: x)
  case (Cons i ids)
  have "deletions (snd (deleteToken (logged_rt R) base t i x)) = deletions (snd x) @ delete_requests R base t [i]"
    using assms unfolding http_ok_def
    by (auto simp: deleteToken_def logged_rt_simps deletions_def delete_requests_def with_token_def split: sum.splits)
  with Cons show ?case by (simp add: deleteTokens_def delete_requests_def)
qed (simp add: deleteTokens_def delete_requests_def)

text \<open>
  C34. The job sends a DELETE request only after a poll saw a leader and both lists were read, and then it sends
  exactly one for each selected token, in order; a failed request does not stop the others.
\<close>

theorem remove_tokens_requests:
  assumes http: "http_ok (rt_http R)" and run: "rt_main fuel (logged_rt R) (w, []) = Some (res, (w', log))"
    and some: "deletions log \<noteq> []"
  shows "\<exists>host port token ns base w0 w1 live w2 tokens w3.
    loadEnv R = Done (host, port, token, ns) \<and> configureHTTP R host port = Done base \<and>
    hasLeader R (base @ ''/v1/status/leader'') token w0 = (True, w1) \<and>
    getLiveConsulPods R ns w1 = (Done live, w2) \<and> fetchConsulTokens R base token w2 = (Inr tokens, w3) \<and>
    deletions log = delete_requests R base token (pickTokensToDelete R (groupTokensByPod R tokens) live)"
proof -
  from run some obtain host port token ns base where env: "loadEnv R = Done (host, port, token, ns)" "configureHTTP R host port = Done base"
    by (auto simp: rt_main_def logged_rt_pure deletions_def split: outcome.splits prod.splits)
  then obtain b x1 where wait: "waitForLeader fuel (logged_rt R) base token (w, []) = Some (b, x1)"
    using run some by (auto simp: rt_main_def logged_rt_pure deletions_def split: outcome.splits option.splits)
  note l1 = leader_loop_logged[OF http wait[unfolded waitForLeader_def]]
  have x1: "deletions (snd x1) = []" using l1 by (simp add: deletions_def)
  obtain g x2 where g: "getLiveConsulPods (logged_rt R) ns x1 = (g, x2)" by (rule prod.exhaust)
  obtain f x3 where f: "fetchConsulTokens (logged_rt R) base token x2 = (f, x3)" by (rule prod.exhaust)
  note l2 = getLive_logged[OF g] and l3 = fetch_logged[OF http f]
  have x3: "deletions (snd x3) = []" "deletions (snd x2) = []" using x1 l2 l3 by simp_all
  obtain live tokens where "b" and gf: "g = Done live" "f = Inr tokens"
    and last: "(w', log) = deleteTokens (logged_rt R) base token (pickTokensToDelete R (groupTokensByPod R tokens) live) x3"
    using run some x1 x3 env wait g f
    by (auto simp: rt_main_def logged_rt_pure split: outcome.splits bool.splits sum.splits)
  have "deletions log = delete_requests R base token (pickTokensToDelete R (groupTokensByPod R tokens) live)"
    using deleteTokens_logged[OF http, of base token "pickTokensToDelete R (groupTokensByPod R tokens) live" x3] x3 last[symmetric]
    by simp
  with env l1 l2 l3 \<open>b\<close> gf show ?thesis by blast
qed

subsection \<open>An instance\<close>

text \<open>A world that is the time, a Consul with a leader and three client tokens, and one running pod.\<close>

definition demo_token :: "string \<Rightarrow> string \<Rightarrow> int \<Rightarrow> Token" where
  "demo_token i d t = \<lparr>tok_AccessorID = i, tok_Description = d, tok_CreateTime = t\<rparr>"

definition demo_tokens :: "Token list" where
  "demo_tokens = [demo_token ''a'' ''{live'' 1, demo_token ''b'' ''{live'' 2, demo_token ''c'' ''{dead'' 3, demo_token ''d'' ''Bootstrap Token'' 0]"

definition demo_rt :: "int removeEnv" where
  "demo_rt =
     \<lparr>rt_http = \<lparr>http_NewRequest = (\<lambda>me u b. Inr \<lparr>req_Method = me, req_URL = u, req_Body = b, req_Headers = [], req_BasicAuth = None\<rparr>),
        http_Do = (\<lambda>r w. (Inr \<lparr>resp_StatusCode = 200, resp_Status = ''200 OK'', resp_Body = ''leader'', resp_ReadErr = None\<rparr>, w))\<rparr>,
      rt_env = [''CONSUL_HOST'' \<mapsto> ''consul'', ''CONSUL_HTTP_TOKEN'' \<mapsto> ''secret''],
      rt_ReadFile = (\<lambda>f. Inl (PlainError ''no such file'')), rt_LoadCA = (\<lambda>_. False), rt_PathEscape = (\<lambda>s. s),
      rt_UnmarshalDescription = (\<lambda>s. Inr \<lparr>td_Component = ''client'', td_Pod = ''consul/'' @ tl s\<rparr>),
      rt_UnmarshalTokens = (\<lambda>_. Inr demo_tokens), rt_InClusterConfig = Inr [], rt_NewForConfig = (\<lambda>_. Inr ()),
      rt_NotExist = (\<lambda>_. True), rt_BuildConfigFromFlags = (\<lambda>f. Inr f),
      rt_ListPods = (\<lambda>ns l w. (Inr [\<lparr>pod_Name = ''live'', pod_Phase = ''Running''\<rparr>], w)),
      rt_Sort = sort_key (\<lambda>t. - tok_CreateTime t), rt_range = (\<lambda>ks. ks), rt_Now = (\<lambda>w. w), rt_Sleep = (\<lambda>d w. w + d)\<rparr>"

lemma demo_rt_laws: "clock_ok demo_rt" "sort_ok (rt_Sort demo_rt)" "range_ok (rt_range demo_rt)" "http_ok (rt_http demo_rt)"
proof -
  have "sorted_wrt (\<lambda>a b. tok_CreateTime b \<le> tok_CreateTime a) (sort_key (\<lambda>t. - tok_CreateTime t) ts)" for ts :: "Token list"
    using sorted_sort_key[of "\<lambda>t. - tok_CreateTime t" ts] by (simp add: sorted_map)
  then show "sort_ok (rt_Sort demo_rt)" by (simp add: sort_ok_def demo_rt_def)
qed (auto simp: clock_ok_def range_ok_def http_ok_def demo_rt_def)

theorem wait_for_leader_terminates_witness:
  "\<exists>b w'. waitForLeader 8 demo_rt ''http://consul:8500'' ''secret'' 0 = Some (b, w')"
  using wait_for_leader_terminates[OF demo_rt_laws(1), of 8 "''http://consul:8500''" "''secret''" 0] by auto

theorem pick_tokens_exact_witness:
  "correct_selection demo_rt demo_tokens {''live''} (set (pickTokensToDelete demo_rt (groupTokensByPod demo_rt demo_tokens) {''live''})) \<and>
   pickTokensToDelete demo_rt (groupTokensByPod demo_rt demo_tokens) {''live''} = [''a'', ''c'']"
proof
  show "correct_selection demo_rt demo_tokens {''live''} (set (pickTokensToDelete demo_rt (groupTokensByPod demo_rt demo_tokens) {''live''}))"
    by (rule pick_tokens_exact[OF demo_rt_laws(2,3)]) (simp add: demo_tokens_def demo_token_def)
  show "pickTokensToDelete demo_rt (groupTokensByPod demo_rt demo_tokens) {''live''} = [''a'', ''c'']" by code_simp
qed

theorem remove_tokens_requests_witness:
  "\<exists>res w' log. rt_main 8 (logged_rt demo_rt) (0, []) = Some (res, (w', log)) \<and>
     (\<exists>base token live tokens. map req_URL (deletions log) = [''http://consul:8500/v1/acl/token/a'', ''http://consul:8500/v1/acl/token/c''] \<and>
        deletions log = delete_requests demo_rt base token (pickTokensToDelete demo_rt (groupTokensByPod demo_rt tokens) live))"
proof -
  have "map_option (\<lambda>y. map req_URL (deletions (snd (snd y)))) (rt_main 8 (logged_rt demo_rt) (0, [])) =
      Some [''http://consul:8500/v1/acl/token/a'', ''http://consul:8500/v1/acl/token/c'']" by code_simp
  then obtain res w' log where run: "rt_main 8 (logged_rt demo_rt) (0, []) = Some (res, (w', log))"
    and urls: "map req_URL (deletions log) = [''http://consul:8500/v1/acl/token/a'', ''http://consul:8500/v1/acl/token/c'']"
    by (cases "rt_main 8 (logged_rt demo_rt) (0, [])") auto
  from urls have "deletions log \<noteq> []" by auto
  from remove_tokens_requests[OF demo_rt_laws(4) run this] obtain base token live tokens where
    "deletions log = delete_requests demo_rt base token (pickTokensToDelete demo_rt (groupTokensByPod demo_rt tokens) live)" by blast
  then show ?thesis using run urls by (intro exI conjI)
qed

end
