(* ===== verification/DR_Clients.thy ===== *)
theory DR_Clients
  imports Http
begin

text \<open>
  The clients of the disaster recovery controller (\<^verbatim>\<open>disaster-recovery/clients\<close>): the REST client of the backup daemon, the
  requests for backups and restores, and the scaling of deployments. The API server, the HTTP client,
  the decoders of JSON and durations, and \<^verbatim>\<open>wait.PollUntilContextTimeout\<close> are parameters. The closures that are polled
  assign one variable of the caller, a string, so they run on pairs of the world and that variable.
\<close>

record Scale =
  scale_ResourceVersion :: string
  scale_Replicas :: int

text \<open>The replicas of a specification are a pointer that the API server always sets.\<close>

record Workload =
  wl_Name :: string
  wl_SpecReplicas :: int
  wl_ReadyReplicas :: int
  wl_UpdatedReplicas :: int

record BackupInfo =
  bi_IsGranular :: bool
  bi_DBList :: configValue
  bi_Id :: string
  bi_Failed :: bool
  bi_Locked :: bool
  bi_TS :: int
  bi_SpentTime :: string
  bi_Valid :: bool
  bi_Evictable :: bool
  bi_CustomVars :: "(string \<times> string) list option"

record Status =
  st_Status :: string
  st_Vault :: string
  st_Type :: string
  st_Err :: string
  st_TaskId :: string

text \<open>How the HTTP client is configured: without or with the certificate authority of the daemon.\<close>

datatype clientConfig = PlainClient | TLSClient string

record 'w drEnv =
  dr_http :: "clientConfig \<Rightarrow> 'w httpClient"
  dr_env :: environ
  dr_NotExist :: "string \<Rightarrow> bool"
  dr_ReadFile :: "string \<Rightarrow> string result"
  dr_ParseDuration :: "string \<Rightarrow> int result"
  dr_UnmarshalList :: "string \<Rightarrow> string list result"
  dr_UnmarshalInfo :: "string \<Rightarrow> BackupInfo result"
  dr_UnmarshalStatus :: "string \<Rightarrow> Status result"
  dr_Selector :: "(string \<times> string) list \<Rightarrow> string"
  dr_GetSecret :: "string \<Rightarrow> string \<Rightarrow> 'w \<Rightarrow> (string \<rightharpoonup> string) result \<times> 'w"
  dr_ListDeployments :: "string \<Rightarrow> string \<Rightarrow> 'w \<Rightarrow> Workload list result \<times> 'w"
  dr_GetScale :: "string \<Rightarrow> string \<Rightarrow> 'w \<Rightarrow> Scale result \<times> 'w"
  dr_UpdateScale :: "string \<Rightarrow> string \<Rightarrow> Scale \<Rightarrow> 'w \<Rightarrow> Scale result \<times> 'w"
  dr_GetStatefulSet :: "string \<Rightarrow> string \<Rightarrow> 'w \<Rightarrow> Workload result \<times> 'w"
  dr_Poll :: "int \<Rightarrow> int \<Rightarrow> bool \<Rightarrow> ('w \<times> string \<Rightarrow> (bool \<times> goerror option) \<times> ('w \<times> string)) \<Rightarrow>
    'w \<times> string \<Rightarrow> goerror option \<times> ('w \<times> string)"

subsection \<open>REST client\<close>

record RestClient =
  rc_url :: string
  rc_httpClient :: clientConfig
  rc_credentials :: "string list"

definition NewRestClient :: "string \<Rightarrow> clientConfig \<Rightarrow> string list \<Rightarrow> RestClient" where
  "NewRestClient url httpClient credentials = \<lparr>rc_url = url, rc_httpClient = httpClient, rc_credentials = credentials\<rparr>"

definition prepareRequest :: "RestClient \<Rightarrow> string option \<Rightarrow> httpRequest \<Rightarrow> httpRequest" where
  "prepareRequest rc body request =
     (let request = (if body \<noteq> None
            then request\<lparr>req_Headers := req_Headers request @ [(''Accept'', ''application/json''), (''Content-Type'', ''application/json'')]\<rparr>
            else request)
      in case rc_credentials rc of
           [user, password] \<Rightarrow> request\<lparr>req_BasicAuth := Some (user, password)\<rparr>
         | _ \<Rightarrow> request)"

text \<open>The results are the status code, the body and the error; code 0 and an empty body when there is no response.\<close>

definition SendRequest ::
  "'w drEnv \<Rightarrow> RestClient \<Rightarrow> string \<Rightarrow> string \<Rightarrow> string option \<Rightarrow> 'w \<Rightarrow> (int \<times> string \<times> goerror option) \<times> 'w"
where
  "SendRequest D rc meth path body w =
     (let H = dr_http D (rc_httpClient rc) in
      case http_NewRequest H meth (rc_url rc @ ''/'' @ path) body of
        Inl err \<Rightarrow> ((0, [], Some err), w)
      | Inr request \<Rightarrow>
          (case http_Do H (prepareRequest rc body request) w of
             (Inl err, w1) \<Rightarrow> ((0, [], Some err), w1)
           | (Inr response, w1) \<Rightarrow> ((resp_StatusCode response, resp_Body response, resp_ReadErr response), w1)))"

definition SendRequestWithStatusCodeCheck ::
  "'w drEnv \<Rightarrow> RestClient \<Rightarrow> string \<Rightarrow> string \<Rightarrow> string option \<Rightarrow> 'w \<Rightarrow> (string \<times> goerror option) \<times> 'w"
where
  "SendRequestWithStatusCodeCheck D rc meth path body w =
     (case SendRequest D rc meth path body w of
        ((statusCode, responseBody, err), w1) \<Rightarrow>
          if statusCode \<ge> 500
          then ((responseBody, Some (PlainError (''backup daemon returned ['' @ fmt_d statusCode @ ''] status code: '' @ responseBody))), w1)
          else ((responseBody, err), w1))"

subsection \<open>Backup daemon client\<close>

text \<open>Durations are in seconds.\<close>

definition backupInterval :: int where "backupInterval = 10"
definition defaultBackupTimeout :: int where "defaultBackupTimeout = 180"
definition restoreInterval :: int where "restoreInterval = 10"
definition defaultRestoreTimeout :: int where "defaultRestoreTimeout = 240"

record BackupDaemonClient =
  bdc_noWait :: bool
  bdc_region :: string
  bdc_backupTimeout :: int
  bdc_restoreTimeout :: int
  bdc_restClient :: RestClient

definition NewBackupDaemonClient :: "'w drEnv \<Rightarrow> RestClient \<Rightarrow> bool \<Rightarrow> BackupDaemonClient" where
  "NewBackupDaemonClient D restClient noWait =
     \<lparr>bdc_noWait = noWait, bdc_region = os_Getenv (dr_env D) ''REGION'',
      bdc_backupTimeout =
        (case dr_ParseDuration D (os_Getenv (dr_env D) ''DISASTER_RECOVERY_BACKUP_TIMEOUT'') of
           Inl err \<Rightarrow> defaultBackupTimeout | Inr d \<Rightarrow> d),
      bdc_restoreTimeout =
        (case dr_ParseDuration D (os_Getenv (dr_env D) ''DISASTER_RECOVERY_RESTORE_TIMEOUT'') of
           Inl err \<Rightarrow> defaultRestoreTimeout | Inr d \<Rightarrow> d),
      bdc_restClient = restClient\<rparr>"

definition getBackupsList :: "'w drEnv \<Rightarrow> BackupDaemonClient \<Rightarrow> 'w \<Rightarrow> string list result \<times> 'w" where
  "getBackupsList D bdc w =
     (case SendRequestWithStatusCodeCheck D (bdc_restClient bdc) ''GET'' ''listbackups'' None w of
        ((response, Some err), w1) \<Rightarrow> (Inl err, w1)
      | ((response, None), w1) \<Rightarrow> (dr_UnmarshalList D response, w1))"

definition getBackupInformation :: "'w drEnv \<Rightarrow> BackupDaemonClient \<Rightarrow> string \<Rightarrow> 'w \<Rightarrow> BackupInfo result \<times> 'w" where
  "getBackupInformation D bdc backupID w =
     (case SendRequestWithStatusCodeCheck D (bdc_restClient bdc) ''GET'' (''listbackups/'' @ backupID) None w of
        ((response, Some err), w1) \<Rightarrow> (Inl err, w1)
      | ((response, None), w1) \<Rightarrow> (dr_UnmarshalInfo D response, w1))"

definition getStatus :: "'w drEnv \<Rightarrow> BackupDaemonClient \<Rightarrow> string \<Rightarrow> 'w \<Rightarrow> (Status \<times> int) result \<times> 'w" where
  "getStatus D bdc taskID w =
     (case SendRequest D (bdc_restClient bdc) ''GET'' (''jobstatus/'' @ taskID) None w of
        ((statusCode, response, Some err), w1) \<Rightarrow> (Inl err, w1)
      | ((statusCode, response, None), w1) \<Rightarrow>
          (case dr_UnmarshalStatus D response of
             Inl err \<Rightarrow> (Inl err, w1)
           | Inr status \<Rightarrow> (Inr (status, statusCode), w1)))"

text \<open>The backups that are restored: full, valid, and made in another region.\<close>

definition restorable :: "BackupDaemonClient \<Rightarrow> BackupInfo \<Rightarrow> bool" where
  "restorable bdc backupInfo \<longleftrightarrow>
     bi_DBList backupInfo = StrVal ''full backup'' \<and> bi_Valid backupInfo \<and>
     (case bi_CustomVars backupInfo of
        None \<Rightarrow> False
      | Some vars \<Rightarrow> vars \<noteq> [] \<and> (case map_of vars ''region'' of None \<Rightarrow> [] | Some r \<Rightarrow> r) \<noteq> bdc_region bdc)"

fun getLastFullBackup_loop :: "'w drEnv \<Rightarrow> BackupDaemonClient \<Rightarrow> string list \<Rightarrow> 'w \<Rightarrow> string result \<times> 'w" where
  "getLastFullBackup_loop D bdc [] w = (Inr [], w)"
| "getLastFullBackup_loop D bdc (backup # rest) w =
     (case getBackupInformation D bdc backup w of
        (Inl err, w1) \<Rightarrow> (Inl err, w1)
      | (Inr backupInfo, w1) \<Rightarrow>
          if restorable bdc backupInfo then (Inr backup, w1) else getLastFullBackup_loop D bdc rest w1)"

definition getLastFullBackup :: "'w drEnv \<Rightarrow> BackupDaemonClient \<Rightarrow> 'w \<Rightarrow> string result \<times> 'w" where
  "getLastFullBackup D bdc w =
     (case getBackupsList D bdc w of
        (Inl err, w1) \<Rightarrow> (Inl err, w1)
      | (Inr backupsList, w1) \<Rightarrow> getLastFullBackup_loop D bdc (rev (sort backupsList)) w1)"

definition PerformBackup :: "'w drEnv \<Rightarrow> BackupDaemonClient \<Rightarrow> 'w \<Rightarrow> (string \<times> goerror option) \<times> 'w" where
  "PerformBackup D bdc w =
     (case dr_Poll D backupInterval (bdc_backupTimeout bdc) True
             (\<lambda>(w, vaultID).
                case SendRequestWithStatusCodeCheck D (bdc_restClient bdc) ''POST'' ''backup'' None w of
                  ((response, Some err), w1) \<Rightarrow> ((False, None), (w1, vaultID))
                | ((response, None), w1) \<Rightarrow> ((True, None), (w1, response)))
             (w, []) of
        (err, (w1, vaultID)) \<Rightarrow> ((vaultID, err), w1))"

definition CheckBackupStatus :: "'w drEnv \<Rightarrow> BackupDaemonClient \<Rightarrow> string \<Rightarrow> 'w \<Rightarrow> goerror option \<times> 'w" where
  "CheckBackupStatus D bdc backupID w =
     (case dr_Poll D backupInterval (bdc_backupTimeout bdc) True
             (\<lambda>(w, x).
                case getStatus D bdc backupID w of
                  (Inl err, w1) \<Rightarrow> ((False, None), (w1, x))
                | (Inr (status, _), w1) \<Rightarrow>
                    if strings_ToLower (st_Status status) \<noteq> ''successful'' then ((False, None), (w1, x))
                    else ((True, None), (w1, x)))
             (w, []) of
        (err, (w1, _)) \<Rightarrow> (err, w1))"

definition performRestore :: "'w drEnv \<Rightarrow> BackupDaemonClient \<Rightarrow> string \<Rightarrow> 'w \<Rightarrow> (string \<times> goerror option) \<times> 'w" where
  "performRestore D bdc backupID w =
     (let requestBody = ''{'' @ [CHR 0x22] @ ''vault'' @ [CHR 0x22] @ '': '' @ [CHR 0x22] @ backupID @ [CHR 0x22] @ ''}'' in
      case SendRequestWithStatusCodeCheck D (bdc_restClient bdc) ''POST'' ''restore'' (Some requestBody) w of
        ((response, Some err), w1) \<Rightarrow> (([], Some err), w1)
      | ((response, None), w1) \<Rightarrow> ((response, None), w1))"

definition restore_attempt ::
  "'w drEnv \<Rightarrow> BackupDaemonClient \<Rightarrow> 'w \<times> string \<Rightarrow> (bool \<times> goerror option) \<times> ('w \<times> string)"
where
  "restore_attempt D bdc x =
     (case x of (w, jobID) \<Rightarrow>
      case getLastFullBackup D bdc w of
        (Inl err, w1) \<Rightarrow> ((False, None), (w1, jobID))
      | (Inr backupID, w1) \<Rightarrow>
          if backupID = [] then ((bdc_noWait bdc, None), (w1, jobID))
          else (case performRestore D bdc backupID w1 of
                  ((jobID, Some err), w2) \<Rightarrow> ((False, None), (w2, jobID))
                | ((jobID, None), w2) \<Rightarrow> ((True, None), (w2, jobID))))"

definition RestoreLastFullBackup :: "'w drEnv \<Rightarrow> BackupDaemonClient \<Rightarrow> 'w \<Rightarrow> (string \<times> goerror option) \<times> 'w" where
  "RestoreLastFullBackup D bdc w =
     (case dr_Poll D restoreInterval (bdc_restoreTimeout bdc) True (restore_attempt D bdc) (w, []) of
        (err, (w1, jobID)) \<Rightarrow> ((jobID, err), w1))"

definition CheckRestoreStatus :: "'w drEnv \<Rightarrow> BackupDaemonClient \<Rightarrow> string \<Rightarrow> 'w \<Rightarrow> goerror option \<times> 'w" where
  "CheckRestoreStatus D bdc jobID w =
     (case dr_Poll D restoreInterval (bdc_restoreTimeout bdc) True
             (\<lambda>(w, x).
                case getStatus D bdc jobID w of
                  (Inl err, w1) \<Rightarrow> ((False, None), (w1, x))
                | (Inr (status, statusCode), w1) \<Rightarrow>
                    if strings_ToLower (st_Status status) \<noteq> ''successful'' \<and> statusCode \<noteq> 404 then ((False, None), (w1, x))
                    else ((True, None), (w1, x)))
             (w, []) of
        (err, (w1, _)) \<Rightarrow> (err, w1))"

subsection \<open>Kubernetes client\<close>

definition dr_interval :: int where "dr_interval = 10"
definition dr_timeout :: int where "dr_timeout = 120"

definition GetSecretCredentials :: "'w drEnv \<Rightarrow> string \<Rightarrow> string \<Rightarrow> string list \<Rightarrow> 'w \<Rightarrow> string list \<times> 'w" where
  "GetSecretCredentials D namespace name keys w =
     (case dr_GetSecret D namespace name w of
        (Inl err, w1) \<Rightarrow> ([], w1)
      | (Inr dat, w1) \<Rightarrow> (map (\<lambda>key. case dat key of None \<Rightarrow> [] | Some v \<Rightarrow> v) keys, w1))"

definition IsDeploymentScaledUp :: "'w drEnv \<Rightarrow> string \<Rightarrow> string \<Rightarrow> 'w \<Rightarrow> bool result \<times> 'w" where
  "IsDeploymentScaledUp D namespace name w =
     (case dr_GetScale D namespace name w of
        (Inl err, w1) \<Rightarrow> (Inl err, w1)
      | (Inr scale, w1) \<Rightarrow> (Inr (scale_Replicas scale \<noteq> 0), w1))"

text \<open>\<^verbatim>\<open>isDeploymentReady\<close>, and the same test of \<^verbatim>\<open>isStatefulSetReady\<close>.\<close>

definition isDeploymentReady :: "Workload \<Rightarrow> bool" where
  "isDeploymentReady d \<longleftrightarrow> wl_SpecReplicas d = wl_ReadyReplicas d \<and> wl_SpecReplicas d = wl_UpdatedReplicas d"

definition areDeploymentsReady :: "'w drEnv \<Rightarrow> string \<Rightarrow> (string \<times> string) list \<Rightarrow> 'w \<Rightarrow> bool \<times> 'w" where
  "areDeploymentsReady D namespace labels w =
     (case dr_ListDeployments D namespace (dr_Selector D labels) w of
        (Inl err, w1) \<Rightarrow> (False, w1)
      | (Inr deployments, w1) \<Rightarrow> (list_all isDeploymentReady deployments, w1))"

definition scaleDeployment :: "'w drEnv \<Rightarrow> string \<Rightarrow> string \<Rightarrow> int \<Rightarrow> 'w \<Rightarrow> goerror option \<times> 'w" where
  "scaleDeployment D namespace name replicas w =
     (case dr_GetScale D namespace name w of
        (Inl err, w1) \<Rightarrow> (Some err, w1)
      | (Inr scale, w1) \<Rightarrow>
          (case dr_UpdateScale D namespace name (scale\<lparr>scale_Replicas := replicas\<rparr>) w1 of
             (Inl err, w2) \<Rightarrow> (Some err, w2)
           | (Inr _, w2) \<Rightarrow> (None, w2)))"

definition CheckDeploymentReadiness :: "'w drEnv \<Rightarrow> string \<Rightarrow> (string \<times> string) list \<Rightarrow> 'w \<Rightarrow> goerror option \<times> 'w" where
  "CheckDeploymentReadiness D namespace labels w =
     (case dr_Poll D dr_interval dr_timeout False
             (\<lambda>(w, x). case areDeploymentsReady D namespace labels w of (b, w1) \<Rightarrow> ((b, None), (w1, x))) (w, []) of
        (err, (w1, _)) \<Rightarrow> (err, w1))"

definition ScaleDeploymentWithCheck ::
  "'w drEnv \<Rightarrow> string \<Rightarrow> string \<Rightarrow> int \<Rightarrow> (string \<times> string) list \<Rightarrow> 'w \<Rightarrow> goerror option \<times> 'w"
where
  "ScaleDeploymentWithCheck D namespace name replicas labels w =
     and_then (scaleDeployment D namespace name replicas w) (CheckDeploymentReadiness D namespace labels)"

definition isStatefulSetReady :: "'w drEnv \<Rightarrow> string \<Rightarrow> string \<Rightarrow> 'w \<Rightarrow> bool \<times> 'w" where
  "isStatefulSetReady D namespace name w =
     (case dr_GetStatefulSet D namespace name w of
        (Inl err, w1) \<Rightarrow> (False, w1)
      | (Inr s, w1) \<Rightarrow> (wl_SpecReplicas s = wl_ReadyReplicas s \<and> wl_SpecReplicas s = wl_UpdatedReplicas s, w1))"

definition CheckStatefulSetReadiness :: "'w drEnv \<Rightarrow> string \<Rightarrow> string \<Rightarrow> 'w \<Rightarrow> goerror option \<times> 'w" where
  "CheckStatefulSetReadiness D namespace name w =
     (case dr_Poll D dr_interval dr_timeout True
             (\<lambda>(w, x). case isStatefulSetReady D namespace name w of (b, w1) \<Rightarrow> ((b, None), (w1, x))) (w, []) of
        (err, (w1, _)) \<Rightarrow> (err, w1))"

end
