(* ===== verification/DR_Switchover.thy ===== *)
theory DR_Switchover
  imports DR_Clients
begin

text \<open>
  The switchover function of the disaster recovery controller (\<^verbatim>\<open>disaster-recovery/main.go\<close>). The constants and the
  request of the disaster recovery daemon come from a library and are parameters, as is the converter of
  the config map; a nil pointer that is followed is the result \<open>None\<close>.
\<close>

record drEntity =
  ent_ACTIVE :: string
  ent_STANDBY :: string
  ent_DISABLED :: string
  ent_RUNNING :: string
  ent_FAILED :: string
  ent_DONE :: string

record ConfigMap =
  cm_Namespace :: string
  cm_Data :: "string \<rightharpoonup> string"

record 'obj ControllerRequest =
  crq_Object :: 'obj
  crq_Mode :: string
  crq_NoWait :: "bool option"

record SwitchoverState =
  sw_Mode :: string
  sw_Status :: string
  sw_Comment :: string

definition cm_get :: "ConfigMap \<Rightarrow> string \<Rightarrow> string" where
  "cm_get cm k = (case cm_Data cm k of None \<Rightarrow> [] | Some v \<Rightarrow> v)"

definition certificateFilePath :: string where
  "certificateFilePath = ''/tls/backup/ca.crt''"

definition getBackupDaemonLabels :: "string \<Rightarrow> (string \<times> string) list" where
  "getBackupDaemonLabels backupDaemonName = [(''name'', backupDaemonName), (''component'', ''backup-daemon'')]"

definition getBackupDaemonUrl :: "'w drEnv \<Rightarrow> string \<Rightarrow> string \<Rightarrow> string" where
  "getBackupDaemonUrl D name namespace =
     (if dr_NotExist D certificateFilePath then ''http://'' @ name @ ''-backup-daemon.'' @ namespace @ '':8080''
      else ''https://'' @ name @ ''-backup-daemon.'' @ namespace @ '':8443'')"

definition configureClient :: "'w drEnv \<Rightarrow> clientConfig" where
  "configureClient D =
     (if dr_NotExist D certificateFilePath then PlainClient
      else case dr_ReadFile D certificateFilePath of Inl err \<Rightarrow> PlainClient | Inr caCert \<Rightarrow> TLSClient caCert)"

definition getBackupDaemonClient :: "'w drEnv \<Rightarrow> string \<Rightarrow> string \<Rightarrow> bool \<Rightarrow> 'w \<Rightarrow> BackupDaemonClient \<times> 'w" where
  "getBackupDaemonClient D name namespace noWait w =
     (case GetSecretCredentials D namespace (name @ ''-backup-daemon-secret'') [''username'', ''password''] w of
        (credentials, w1) \<Rightarrow>
          (NewBackupDaemonClient D (NewRestClient (getBackupDaemonUrl D name namespace) (configureClient D) credentials) noWait, w1))"

definition startLastBackupRecovery :: "'w drEnv \<Rightarrow> string \<Rightarrow> BackupDaemonClient \<Rightarrow> string \<Rightarrow> 'w \<Rightarrow> goerror option \<times> 'w" where
  "startLastBackupRecovery D namespace bdc consulFullName w =
     (case RestoreLastFullBackup D bdc w of
        ((jobID, Some err), w1) \<Rightarrow> (Some err, w1)
      | ((jobID, None), w1) \<Rightarrow>
          if jobID \<noteq> []
          then and_then (CheckRestoreStatus D bdc jobID w1) (CheckStatefulSetReadiness D namespace (consulFullName @ ''-server''))
          else (None, w1))"

text \<open>The branch of the mode active: the daemon is scaled up and, unless the site was disabled, a backup is restored.\<close>

definition switch_to_active ::
  "'w drEnv \<Rightarrow> drEntity \<Rightarrow> ConfigMap \<Rightarrow> BackupDaemonClient \<Rightarrow> string \<Rightarrow> 'w \<Rightarrow> goerror option \<times> 'w"
where
  "switch_to_active D T configMap bdc consulFullName w =
     (let name = consulFullName @ ''-backup-daemon''; ns = cm_Namespace configMap in
      and_then (ScaleDeploymentWithCheck D ns name 1 (getBackupDaemonLabels name) w) (\<lambda>w1.
        if cm_get configMap ''status-mode'' \<noteq> ent_DISABLED T then startLastBackupRecovery D ns bdc consulFullName w1
        else (None, w1)))"

text \<open>The branch of the mode standby: a running daemon makes a backup and is scaled down once it is completed.\<close>

definition switch_to_standby ::
  "'w drEnv \<Rightarrow> ConfigMap \<Rightarrow> BackupDaemonClient \<Rightarrow> string \<Rightarrow> 'w \<Rightarrow> goerror option \<times> 'w"
where
  "switch_to_standby D configMap bdc consulFullName w =
     (let name = consulFullName @ ''-backup-daemon''; ns = cm_Namespace configMap in
      case IsDeploymentScaledUp D ns name w of
        (Inl err, w1) \<Rightarrow> (Some err, w1)
      | (Inr isDeploymentScaledUp, w1) \<Rightarrow>
          if isDeploymentScaledUp then
            (case PerformBackup D bdc w1 of
               ((backupID, Some err), w2) \<Rightarrow> (Some err, w2)
             | ((backupID, None), w2) \<Rightarrow>
                 and_then (CheckBackupStatus D bdc backupID w2)
                   (ScaleDeploymentWithCheck D ns name 0 (getBackupDaemonLabels name)))
          else (None, w1))"

definition switch_mode ::
  "'w drEnv \<Rightarrow> drEntity \<Rightarrow> string \<Rightarrow> ConfigMap \<Rightarrow> BackupDaemonClient \<Rightarrow> string \<Rightarrow> 'w \<Rightarrow> goerror option \<times> 'w"
where
  "switch_mode D T mode configMap bdc consulFullName w =
     (if strings_ToLower mode = ent_ACTIVE T then switch_to_active D T configMap bdc consulFullName w
      else if strings_ToLower mode = ent_STANDBY T \<and> strings_ToLower (cm_get configMap ''mode'') \<noteq> ent_DISABLED T
      then switch_to_standby D configMap bdc consulFullName w
      else if strings_ToLower mode = ent_DISABLED T
      then ScaleDeploymentWithCheck D (cm_Namespace configMap) (consulFullName @ ''-backup-daemon'') 0
             (getBackupDaemonLabels (consulFullName @ ''-backup-daemon'')) w
      else (None, w))"

definition switch_needed :: "drEntity \<Rightarrow> string \<Rightarrow> ConfigMap \<Rightarrow> bool" where
  "switch_needed T mode configMap \<longleftrightarrow>
     (cm_get configMap ''status-mode'' \<noteq> [] \<and> cm_get configMap ''status-mode'' \<noteq> mode) \<or>
     cm_get configMap ''status-status'' = ent_RUNNING T \<or> cm_get configMap ''status-status'' = ent_FAILED T"

definition drFunction ::
  "'w drEnv \<Rightarrow> drEntity \<Rightarrow> ('obj \<Rightarrow> ConfigMap result) \<Rightarrow> 'obj ControllerRequest \<Rightarrow> 'w \<Rightarrow> (SwitchoverState result \<times> 'w) option"
where
  "drFunction D T fromUnstructured controllerRequest w =
     (let mode = crq_Mode controllerRequest; consulFullName = os_Getenv (dr_env D) ''CONSUL_FULLNAME'';
          finished = Inr \<lparr>sw_Mode = mode, sw_Status = ent_DONE T, sw_Comment = ''switchover successfully done''\<rparr> in
      case fromUnstructured (crq_Object controllerRequest) of
        Inl err \<Rightarrow> Some (Inl err, w)
      | Inr configMap \<Rightarrow>
          if switch_needed T mode configMap then
            (case CheckStatefulSetReadiness D (cm_Namespace configMap) (consulFullName @ ''-server'') w of
               (Some err, w1) \<Rightarrow> Some (Inl err, w1)
             | (None, w1) \<Rightarrow>
                 (case crq_NoWait controllerRequest of
                    None \<Rightarrow> None
                  | Some noWait \<Rightarrow>
                      (case getBackupDaemonClient D consulFullName (cm_Namespace configMap) noWait w1 of
                         (bdc, w2) \<Rightarrow>
                           Some (case switch_mode D T mode configMap bdc consulFullName w2 of
                              (Some err, w3) \<Rightarrow> (Inl err, w3)
                            | (None, w3) \<Rightarrow> (finished, w3)))))
          else Some (finished, w))"

end
