(* ===== verification/DR_Main.thy ===== *)
theory DR_Main
  imports DR_Switchover
begin

text \<open>
  The start of the disaster recovery daemon: \<^verbatim>\<open>disableWatchListGates\<close> and \<^verbatim>\<open>main\<close> of \<^verbatim>\<open>disaster-recovery/main.go\<close>. The feature
  gates of client-go are a function from features to booleans, the configuration and the server and controller that
  run on it are those of the library \<^verbatim>\<open>qubership-disaster-recovery-daemon\<close>; the calls of the process are its history.
\<close>

type_synonym 'f gates = "'f \<Rightarrow> bool"

definition disableWatchListGates_Enabled :: "'f \<Rightarrow> 'f gates \<Rightarrow> 'f gates" where
  "disableWatchListGates_Enabled watchListClient inner key = (if key = watchListClient then False else inner key)"

datatype logLevel = InfoLevel | DebugLevel

datatype ('f, 'cfg, 'func) drCall =
    ReplaceFeatureGates "'f gates"
  | SetLevel logLevel
  | RunServer 'cfg
  | RunController 'cfg 'func

definition disableWatchListFeatureGate :: "'f \<Rightarrow> 'f gates \<Rightarrow> ('f, 'cfg, 'func) drCall" where
  "disableWatchListFeatureGate watchListClient current =
     ReplaceFeatureGates (disableWatchListGates_Enabled watchListClient current)"

text \<open>\<^verbatim>\<open>log.Fatalln\<close> ends the process with the message; without it the controller runs until it is stopped.\<close>

definition dr_main ::
  "'w drEnv \<Rightarrow> drEntity \<Rightarrow> ('obj \<Rightarrow> ConfigMap result) \<Rightarrow> 'f \<Rightarrow> 'f gates \<Rightarrow> 'cfg result \<Rightarrow>
   string option \<times> ('f, 'cfg, 'obj ControllerRequest \<Rightarrow> 'w \<Rightarrow> (SwitchoverState result \<times> 'w) option) drCall list"
where
  "dr_main D T fromUnstructured watchListClient current newConfig =
     (let level = (if dr_env D ''DEBUG'' \<noteq> None then DebugLevel else InfoLevel);
          started = [disableWatchListFeatureGate watchListClient current, SetLevel level]
      in case newConfig of
           Inl err \<Rightarrow> (Some (Error err), started)
         | Inr cfg \<Rightarrow> (None, started @ [RunServer cfg, RunController cfg (drFunction D T fromUnstructured)]))"

text \<open>The gates in force at a point of the history.\<close>

fun gates_after :: "'f gates \<Rightarrow> ('f, 'cfg, 'func) drCall list \<Rightarrow> 'f gates" where
  "gates_after g [] = g"
| "gates_after g (ReplaceFeatureGates g' # cs) = gates_after g' cs"
| "gates_after g (SetLevel l # cs) = gates_after g cs"
| "gates_after g (RunServer c # cs) = gates_after g cs"
| "gates_after g (RunController c f # cs) = gates_after g cs"

text \<open>
  The controller runs only with a configuration, on the switchover function, and at that time the watch list is off
  and every other feature is as client-go has it.
\<close>

lemma dr_main_controller:
  assumes "dr_main D T conv wl current newConfig = (exit, cs)" "RunController cfg f \<in> set cs"
  shows "newConfig = Inr cfg" "f = drFunction D T conv" "exit = None" "gates_after current cs = current(wl := False)"
  using assms
  by (auto simp: dr_main_def Let_def disableWatchListFeatureGate_def disableWatchListGates_Enabled_def
      fun_upd_def fun_eq_iff split: sum.splits)

end
