(* ===== verification/DR_History.thy ===== *)
theory DR_History
  imports DR_Switchover
begin

text \<open>
  Histories of the disaster recovery controller. A history is a view of the world that every call of the HTTP client and of the
  API server extends by one event, the call with its answer. The lemmas say what a successful operation leaves in the history.
\<close>

datatype drEvent =
    Sent httpRequest "httpResponse result"
  | ScaleRead string string "Scale result"
  | ScaleSet string string Scale "Scale result"
  | DeploymentsRead string string "Workload list result"
  | StatefulSetRead string string "Workload result"
  | SecretRead string string

subsection \<open>Polling\<close>

text \<open>
  What is documented of \<^verbatim>\<open>PollUntilContextTimeout\<close>: the condition runs again and again while it reports neither success nor an
  error; its success ends the poll without an error, its error or the time limit with one. Between two
  runs other parties may change the world, but neither the variable of the caller nor the history.
\<close>

inductive poll_runs ::
  "('x \<Rightarrow> (bool \<times> goerror option) \<times> 'x) \<Rightarrow> ('x \<Rightarrow> 'x \<Rightarrow> bool) \<Rightarrow> 'x \<Rightarrow> goerror option \<Rightarrow> 'x \<Rightarrow> bool" for cond idle
where
  poll_true: "cond x = ((True, None), y) \<Longrightarrow> poll_runs cond idle x None y"
| poll_error: "cond x = ((b, Some e), y) \<Longrightarrow> poll_runs cond idle x (Some e) y"
| poll_false: "cond x = ((False, None), x1) \<Longrightarrow> poll_runs cond idle x1 r y \<Longrightarrow> poll_runs cond idle x r y"
| poll_wait: "idle x x1 \<Longrightarrow> poll_runs cond idle x1 r y \<Longrightarrow> poll_runs cond idle x r y"
| poll_timeout: "poll_runs cond idle x (Some e) x"

text \<open>A successful poll ends with a successful run, started in a state that every earlier run and every pause respects.\<close>

lemma poll_runs_success:
  assumes "poll_runs cond idle x None y" and "R x x"
    and "\<And>z z1. R x z \<Longrightarrow> cond z = ((False, None), z1) \<Longrightarrow> R x z1" and "\<And>z z1. R x z \<Longrightarrow> idle z z1 \<Longrightarrow> R x z1"
  shows "\<exists>z. R x z \<and> cond z = ((True, None), y)"
proof -
  have "\<exists>z. R x z \<and> cond z = ((True, None), y)" if "poll_runs cond idle x0 None y" "R x x0" for x0
    using that
  proof (induction x0 "None :: goerror option" y rule: poll_runs.induct)
    case (poll_true x0 y)
    then show ?case by blast
  next
    case (poll_false x0 x1 y)
    then show ?case using assms(3) by blast
  next
    case (poll_wait x0 x1 y)
    then show ?case using assms(4) by blast
  qed
  then show ?thesis using assms(1,2) by blast
qed

subsection \<open>Environments with a history\<close>

definition idle_keeps :: "('w \<Rightarrow> drEvent list) \<Rightarrow> 'w \<times> string \<Rightarrow> 'w \<times> string \<Rightarrow> bool" where
  "idle_keeps hist x x1 \<longleftrightarrow> snd x1 = snd x \<and> hist (fst x1) = hist (fst x)"

text \<open>The client builds the requests it is asked for, and every call of the environment adds its event to the history.\<close>

definition dr_logged :: "'w drEnv \<Rightarrow> ('w \<Rightarrow> drEvent list) \<Rightarrow> bool" where
  "dr_logged D hist \<longleftrightarrow>
     (\<forall>c. http_ok (dr_http D c)) \<and>
     (\<forall>c q w. hist (snd (http_Do (dr_http D c) q w)) = hist w @ [Sent q (fst (http_Do (dr_http D c) q w))]) \<and>
     (\<forall>ns n w. hist (snd (dr_GetScale D ns n w)) = hist w @ [ScaleRead ns n (fst (dr_GetScale D ns n w))]) \<and>
     (\<forall>ns n s w. hist (snd (dr_UpdateScale D ns n s w)) = hist w @ [ScaleSet ns n s (fst (dr_UpdateScale D ns n s w))]) \<and>
     (\<forall>ns l w. hist (snd (dr_ListDeployments D ns l w)) = hist w @ [DeploymentsRead ns l (fst (dr_ListDeployments D ns l w))]) \<and>
     (\<forall>ns n w. hist (snd (dr_GetStatefulSet D ns n w)) = hist w @ [StatefulSetRead ns n (fst (dr_GetStatefulSet D ns n w))]) \<and>
     (\<forall>ns n w. hist (snd (dr_GetSecret D ns n w)) = hist w @ [SecretRead ns n]) \<and>
     (\<forall>i t imm cond x. poll_runs cond (idle_keeps hist) x (fst (dr_Poll D i t imm cond x)) (snd (dr_Poll D i t imm cond x)))"

lemma dr_logged_request:
  "dr_logged D hist \<Longrightarrow> http_NewRequest (dr_http D c) me u b = Inr q \<Longrightarrow> req_Method q = me \<and> req_URL q = u \<and> req_Body q = b"
proof -
  assume "dr_logged D hist" and q: "http_NewRequest (dr_http D c) me u b = Inr q"
  then have "\<forall>c. http_ok (dr_http D c)" unfolding dr_logged_def by (elim conjE)
  then show ?thesis using q unfolding http_ok_def by blast
qed

lemma dr_logged_http:
  assumes "dr_logged D hist" and "http_Do (dr_http D c) q w = (a, w1)"
  shows "hist w1 = hist w @ [Sent q a]"
proof -
  have "\<forall>c q w. hist (snd (http_Do (dr_http D c) q w)) = hist w @ [Sent q (fst (http_Do (dr_http D c) q w))]"
    using assms(1) unfolding dr_logged_def by (elim conjE)
  from this[rule_format, of c q w] show ?thesis using assms(2) by simp
qed

lemma dr_logged_GetScale:
  assumes "dr_logged D hist" and "dr_GetScale D ns n w = (a, w1)"
  shows "hist w1 = hist w @ [ScaleRead ns n a]"
proof -
  have "\<forall>ns n w. hist (snd (dr_GetScale D ns n w)) = hist w @ [ScaleRead ns n (fst (dr_GetScale D ns n w))]"
    using assms(1) unfolding dr_logged_def by (elim conjE)
  from this[rule_format, of ns n w] show ?thesis using assms(2) by simp
qed

lemma dr_logged_UpdateScale:
  assumes "dr_logged D hist" and "dr_UpdateScale D ns n s w = (a, w1)"
  shows "hist w1 = hist w @ [ScaleSet ns n s a]"
proof -
  have "\<forall>ns n s w. hist (snd (dr_UpdateScale D ns n s w)) = hist w @ [ScaleSet ns n s (fst (dr_UpdateScale D ns n s w))]"
    using assms(1) unfolding dr_logged_def by (elim conjE)
  from this[rule_format, of ns n s w] show ?thesis using assms(2) by simp
qed

lemma dr_logged_ListDeployments:
  assumes "dr_logged D hist" and "dr_ListDeployments D ns l w = (a, w1)"
  shows "hist w1 = hist w @ [DeploymentsRead ns l a]"
proof -
  have "\<forall>ns l w. hist (snd (dr_ListDeployments D ns l w)) = hist w @ [DeploymentsRead ns l (fst (dr_ListDeployments D ns l w))]"
    using assms(1) unfolding dr_logged_def by (elim conjE)
  from this[rule_format, of ns l w] show ?thesis using assms(2) by simp
qed

lemma dr_logged_GetStatefulSet:
  assumes "dr_logged D hist" and "dr_GetStatefulSet D ns n w = (a, w1)"
  shows "hist w1 = hist w @ [StatefulSetRead ns n a]"
proof -
  have "\<forall>ns n w. hist (snd (dr_GetStatefulSet D ns n w)) = hist w @ [StatefulSetRead ns n (fst (dr_GetStatefulSet D ns n w))]"
    using assms(1) unfolding dr_logged_def by (elim conjE)
  from this[rule_format, of ns n w] show ?thesis using assms(2) by simp
qed

lemma dr_logged_GetSecret:
  assumes "dr_logged D hist" and "dr_GetSecret D ns n w = (a, w1)"
  shows "hist w1 = hist w @ [SecretRead ns n]"
proof -
  have "\<forall>ns n w. hist (snd (dr_GetSecret D ns n w)) = hist w @ [SecretRead ns n]"
    using assms(1) unfolding dr_logged_def by (elim conjE)
  from this[rule_format, of ns n w] show ?thesis using assms(2) by simp
qed

text \<open>Between two worlds, events with the given properties happened in this order.\<close>

definition happened :: "('w \<Rightarrow> drEvent list) \<Rightarrow> 'w \<Rightarrow> (drEvent \<Rightarrow> bool) list \<Rightarrow> 'w \<Rightarrow> bool" where
  "happened hist w Ps w1 \<longleftrightarrow>
     (\<exists>hs es. hist w1 = hist w @ hs \<and> subseq es hs \<and> list_all2 (\<lambda>P e. P e) Ps es)"

lemma happened_refl [simp, intro]: "happened hist w [] w"
  by (auto simp: happened_def)

lemma happened_trans [trans]:
  assumes "happened hist w Ps w1" and "happened hist w1 Qs w2"
  shows "happened hist w (Ps @ Qs) w2"
proof -
  obtain hs es hs1 es1 where h: "hist w1 = hist w @ hs" "subseq es hs" "list_all2 (\<lambda>P e. P e) Ps es"
    "hist w2 = hist w1 @ hs1" "subseq es1 hs1" "list_all2 (\<lambda>P e. P e) Qs es1"
    using assms by (auto simp: happened_def)
  show ?thesis unfolding happened_def
    using h by (intro exI[of _ "hs @ hs1"] exI[of _ "es @ es1"]) (simp add: list_emb_append_mono list_all2_appendI)
qed

lemma happened_weaken: "happened hist w Ps w1 \<Longrightarrow> happened hist w [] w1"
  by (auto simp: happened_def)

lemma happened_one: "hist w1 = hist w @ [e] \<Longrightarrow> P e \<Longrightarrow> happened hist w [P] w1"
  unfolding happened_def by (intro exI[of _ "[e]"]) auto

lemma happened_event: "hist w1 = hist w @ [e] \<Longrightarrow> happened hist w [] w1"
  by (auto simp: happened_def)

lemma happened_idle: "happened hist w Ps w1 \<Longrightarrow> hist w2 = hist w1 \<Longrightarrow> happened hist w Ps w2"
  by (simp add: happened_def)

lemma happened_before: "happened hist w [] w1 \<Longrightarrow> happened hist w1 Qs w2 \<Longrightarrow> happened hist w Qs w2"
  using happened_trans[of hist w "[]" w1 Qs w2] by simp

lemma happened_after: "happened hist w Ps w1 \<Longrightarrow> happened hist w1 [] w2 \<Longrightarrow> happened hist w Ps w2"
  using happened_trans[of hist w Ps w1 "[]" w2] by simp

lemma happened_cons: "happened hist w [P] w1 \<Longrightarrow> happened hist w1 Qs w2 \<Longrightarrow> happened hist w (P # Qs) w2"
  using happened_trans[of hist w "[P]" w1 Qs w2] by simp

text \<open>An event with one of two properties has the first or the second.\<close>

lemma happened_split:
  assumes "happened hist w (Ps @ R # Qs) w1" and "\<And>e. R e \<Longrightarrow> P e \<or> Q e"
  shows "happened hist w (Ps @ P # Qs) w1 \<or> happened hist w (Ps @ Q # Qs) w1"
proof -
  obtain hs es where h: "hist w1 = hist w @ hs" "subseq es hs" "list_all2 (\<lambda>P e. P e) (Ps @ R # Qs) es"
    using assms(1) by (auto simp: happened_def)
  then obtain as e bs where es: "es = as @ e # bs" "list_all2 (\<lambda>P e. P e) Ps as" "R e" "list_all2 (\<lambda>P e. P e) Qs bs"
    by (auto simp: list_all2_append1 list_all2_Cons1)
  then have "list_all2 (\<lambda>P e. P e) (Ps @ P # Qs) es \<or> list_all2 (\<lambda>P e. P e) (Ps @ Q # Qs) es"
    using assms(2)[OF es(3)] by (auto simp: list_all2_appendI)
  then show ?thesis using h unfolding happened_def by blast
qed

text \<open>A poll whose runs only extend the history.\<close>

lemma poll_success:
  assumes L: "dr_logged D hist" and p: "dr_Poll D i t imm cond (w, v) = (None, (w1, v1))"
    and c: "\<And>z b r z1. cond z = ((b, r), z1) \<Longrightarrow> happened hist (fst z) [] (fst z1)"
    and V: "V v" "\<And>z z1. V (snd z) \<Longrightarrow> cond z = ((False, None), z1) \<Longrightarrow> V (snd z1)"
  shows "\<exists>w0 v0. happened hist w [] w0 \<and> V v0 \<and> cond (w0, v0) = ((True, None), (w1, v1))"
proof -
  have "poll_runs cond (idle_keeps hist) (w, v) (fst (dr_Poll D i t imm cond (w, v))) (snd (dr_Poll D i t imm cond (w, v)))"
    using L unfolding dr_logged_def by blast
  then have r: "poll_runs cond (idle_keeps hist) (w, v) None (w1, v1)"
    unfolding p fst_conv snd_conv .
  have "\<exists>z. (happened hist (fst (w, v)) [] (fst z) \<and> V (snd z)) \<and> cond z = ((True, None), (w1, v1))"
  proof (rule poll_runs_success[where R = "\<lambda>x z. happened hist (fst x) [] (fst z) \<and> V (snd z)", OF r])
    show "happened hist (fst (w, v)) [] (fst (w, v)) \<and> V (snd (w, v))" using V(1) by simp
  next
    fix z z1
    assume a: "happened hist (fst (w, v)) [] (fst z) \<and> V (snd z)" "cond z = ((False, None), z1)"
    show "happened hist (fst (w, v)) [] (fst z1) \<and> V (snd z1)"
      using a c[OF a(2)] V(2)[OF _ a(2)] by (blast intro: happened_before)
  next
    fix z z1
    assume "happened hist (fst (w, v)) [] (fst z) \<and> V (snd z)" "idle_keeps hist z z1"
    then show "happened hist (fst (w, v)) [] (fst z1) \<and> V (snd z1)"
      by (auto simp: idle_keeps_def intro: happened_idle)
  qed
  then show ?thesis by auto
qed

text \<open>However it ends, such a poll extends the history.\<close>

lemma poll_runs_extends:
  assumes "poll_runs cond (idle_keeps hist) x r y"
    and "\<And>z b r z1. cond z = ((b, r), z1) \<Longrightarrow> happened hist (fst z) [] (fst z1)"
  shows "happened hist (fst x) [] (fst y)"
  using assms(1)
proof (induction rule: poll_runs.induct)
  case (poll_wait x x1 r y)
  then show ?case by (simp add: idle_keeps_def happened_def)
qed (auto dest: assms(2) intro: happened_before)

lemma poll_extends:
  assumes L: "dr_logged D hist" and p: "dr_Poll D i t imm cond x = (r, y)"
    and c: "\<And>z b r z1. cond z = ((b, r), z1) \<Longrightarrow> happened hist (fst z) [] (fst z1)"
  shows "happened hist (fst x) [] (fst y)"
proof (rule poll_runs_extends[OF _ c])
  have "poll_runs cond (idle_keeps hist) x (fst (dr_Poll D i t imm cond x)) (snd (dr_Poll D i t imm cond x))"
    using L unfolding dr_logged_def by blast
  then show "poll_runs cond (idle_keeps hist) x r y" unfolding p fst_conv snd_conv .
qed

end
