(* ===== verification/DR_Properties.thy ===== *)
theory DR_Properties
  imports DR_History
begin

text \<open>
  What the operations of the disaster recovery controller leave in the history, and the properties of the switchover.
\<close>

subsection \<open>Every operation extends the history\<close>

definition extends :: "('w \<Rightarrow> drEvent list) \<Rightarrow> ('w \<Rightarrow> 'a \<times> 'w) \<Rightarrow> bool" where
  "extends hist f \<longleftrightarrow> (\<forall>w a w1. f w = (a, w1) \<longrightarrow> happened hist w [] w1)"

lemma extendsD: "extends hist f \<Longrightarrow> f w = (a, w1) \<Longrightarrow> happened hist w [] w1"
  unfolding extends_def by blast

text \<open>The answer of a request that was sent, read off the history.\<close>

definition answered ::
  "RestClient \<Rightarrow> string \<Rightarrow> string \<Rightarrow> string option \<Rightarrow> (httpResponse \<Rightarrow> bool) \<Rightarrow> drEvent \<Rightarrow> bool"
where
  "answered rc meth path body P e \<longleftrightarrow>
     (\<exists>q r. e = Sent q (Inr r) \<and> req_Method q = meth \<and> req_URL q = rc_url rc @ ''/'' @ path \<and> req_Body q = body \<and> P r)"

lemma prepareRequest_keeps [simp]:
  "req_Method (prepareRequest rc body q) = req_Method q"
  "req_URL (prepareRequest rc body q) = req_URL q"
  "req_Body (prepareRequest rc body q) = req_Body q"
  by (simp_all add: prepareRequest_def Let_def split: list.split)

lemma SendRequest_answered:
  assumes L: "dr_logged D hist" and "SendRequest D rc meth path body w = ((code, response, None), w1)"
  shows "happened hist w [answered rc meth path body (\<lambda>r. resp_StatusCode r = code \<and> resp_Body r = response)] w1"
proof -
  let ?H = "dr_http D (rc_httpClient rc)"
  obtain q r where q: "http_NewRequest ?H meth (rc_url rc @ ''/'' @ path) body = Inr q"
      "http_Do ?H (prepareRequest rc body q) w = (Inr r, w1)" "resp_StatusCode r = code" "resp_Body r = response"
    using assms(2) by (auto simp: SendRequest_def Let_def split: sum.splits prod.splits)
  have "hist w1 = hist w @ [Sent (prepareRequest rc body q) (Inr r)]"
    by (rule dr_logged_http[OF L q(2)])
  moreover have "req_Method q = meth \<and> req_URL q = rc_url rc @ ''/'' @ path \<and> req_Body q = body"
    by (rule dr_logged_request[OF L q(1)])
  ultimately show ?thesis
    using q(3,4) by (intro happened_one) (auto simp: answered_def)
qed

lemma http_Do_extends: "dr_logged D hist \<Longrightarrow> extends hist (http_Do (dr_http D c) q)"
  unfolding extends_def by (blast dest: dr_logged_http intro: happened_event)

lemma SendRequest_extends: "dr_logged D hist \<Longrightarrow> extends hist (SendRequest D rc meth path body)"
  unfolding extends_def[of hist "SendRequest D rc meth path body"]
  by (auto simp: SendRequest_def Let_def split: sum.splits prod.splits dest: extendsD[OF http_Do_extends])

lemma SendRequestWithStatusCodeCheck_extends:
  "dr_logged D hist \<Longrightarrow> extends hist (SendRequestWithStatusCodeCheck D rc meth path body)"
  unfolding extends_def[of hist "SendRequestWithStatusCodeCheck D rc meth path body"]
  by (auto simp: SendRequestWithStatusCodeCheck_def split: prod.splits if_splits dest: extendsD[OF SendRequest_extends])

lemma SendRequestWithStatusCodeCheck_answered:
  assumes "dr_logged D hist" and "SendRequestWithStatusCodeCheck D rc meth path body w = ((response, None), w1)"
  shows "happened hist w [answered rc meth path body (\<lambda>r. resp_StatusCode r < 500 \<and> resp_Body r = response)] w1"
proof -
  obtain code where c: "SendRequest D rc meth path body w = ((code, response, None), w1)" "code < 500"
    using assms(2) by (auto simp: SendRequestWithStatusCodeCheck_def split: prod.splits if_splits)
  have "(\<lambda>r. resp_StatusCode r = code \<and> resp_Body r = response) \<le> (\<lambda>r. resp_StatusCode r < 500 \<and> resp_Body r = response)"
    using c(2) by auto
  then have "answered rc meth path body (\<lambda>r. resp_StatusCode r = code \<and> resp_Body r = response) e \<Longrightarrow>
      answered rc meth path body (\<lambda>r. resp_StatusCode r < 500 \<and> resp_Body r = response) e" for e
    unfolding answered_def by blast
  then show ?thesis
    using SendRequest_answered[OF assms(1) c(1)] by (auto simp: happened_def list_all2_Cons1)
qed

lemma getBackupsList_extends: "dr_logged D hist \<Longrightarrow> extends hist (getBackupsList D bdc)"
  unfolding extends_def[of hist "getBackupsList D bdc"]
  by (auto simp: getBackupsList_def split: prod.splits option.splits dest: extendsD[OF SendRequestWithStatusCodeCheck_extends])

lemma getBackupInformation_extends: "dr_logged D hist \<Longrightarrow> extends hist (getBackupInformation D bdc b)"
  unfolding extends_def[of hist "getBackupInformation D bdc b"]
  by (auto simp: getBackupInformation_def split: prod.splits option.splits dest: extendsD[OF SendRequestWithStatusCodeCheck_extends])

lemma getStatus_extends: "dr_logged D hist \<Longrightarrow> extends hist (getStatus D bdc t)"
  unfolding extends_def[of hist "getStatus D bdc t"]
  by (auto simp: getStatus_def split: prod.splits option.splits sum.splits dest: extendsD[OF SendRequest_extends])

lemma getStatus_answered:
  assumes "dr_logged D hist" and "getStatus D bdc t w = (Inr (status, code), w1)"
  shows "\<exists>response. dr_UnmarshalStatus D response = Inr status \<and>
    happened hist w [answered (bdc_restClient bdc) ''GET'' (''jobstatus/'' @ t) None
      (\<lambda>r. resp_StatusCode r = code \<and> resp_Body r = response)] w1"
proof -
  obtain response where "SendRequest D (bdc_restClient bdc) ''GET'' (''jobstatus/'' @ t) None w = ((code, response, None), w1)"
      "dr_UnmarshalStatus D response = Inr status"
    using assms(2) by (auto simp: getStatus_def split: prod.splits option.splits sum.splits)
  then show ?thesis using SendRequest_answered[OF assms(1)] by blast
qed

lemma getLastFullBackup_loop_extends: "dr_logged D hist \<Longrightarrow> extends hist (getLastFullBackup_loop D bdc bs)"
proof (induction bs)
  case Nil
  then show ?case by (simp add: extends_def)
next
  case (Cons b bs)
  show ?case unfolding extends_def
  proof (intro allI impI)
    fix w a w2
    assume l: "getLastFullBackup_loop D bdc (b # bs) w = (a, w2)"
    obtain i w1 where g: "getBackupInformation D bdc b w = (i, w1)" by (rule prod.exhaust)
    note e = extendsD[OF getBackupInformation_extends[OF Cons.prems] g]
    show "happened hist w [] w2"
      using l g e happened_before[OF e extendsD[OF Cons.IH[OF Cons.prems]]] by (auto split: sum.splits if_splits)
  qed
qed

lemma getLastFullBackup_extends:
  assumes "dr_logged D hist"
  shows "extends hist (getLastFullBackup D bdc)"
  unfolding extends_def
proof (intro allI impI)
  fix w a w2
  assume l: "getLastFullBackup D bdc w = (a, w2)"
  obtain i w1 where g: "getBackupsList D bdc w = (i, w1)" by (rule prod.exhaust)
  note e = extendsD[OF getBackupsList_extends[OF assms] g]
  show "happened hist w [] w2"
    using l g e happened_before[OF e extendsD[OF getLastFullBackup_loop_extends[OF assms]]]
    by (auto simp: getLastFullBackup_def split: sum.splits)
qed

subsection \<open>What a successful operation leaves in the history\<close>

definition sts_ready :: "string \<Rightarrow> string \<Rightarrow> drEvent \<Rightarrow> bool" where
  "sts_ready ns name e \<longleftrightarrow> (\<exists>s. e = StatefulSetRead ns name (Inr s) \<and> isDeploymentReady s)"

definition deployments_ready :: "string \<Rightarrow> string \<Rightarrow> drEvent \<Rightarrow> bool" where
  "deployments_ready ns selector e \<longleftrightarrow> (\<exists>ds. e = DeploymentsRead ns selector (Inr ds) \<and> list_all isDeploymentReady ds)"

definition scaled_to :: "string \<Rightarrow> string \<Rightarrow> int \<Rightarrow> drEvent \<Rightarrow> bool" where
  "scaled_to ns name n e \<longleftrightarrow> (\<exists>s r. e = ScaleSet ns name s (Inr r) \<and> scale_Replicas s = n)"

definition job_successful :: "'w drEnv \<Rightarrow> httpResponse \<Rightarrow> bool" where
  "job_successful D r \<longleftrightarrow>
     (\<exists>status. dr_UnmarshalStatus D (resp_Body r) = Inr status \<and> strings_ToLower (st_Status status) = ''successful'')"

definition restore_body :: "string \<Rightarrow> string" where
  "restore_body b = ''{'' @ [CHR 0x22] @ ''vault'' @ [CHR 0x22] @ '': '' @ [CHR 0x22] @ b @ [CHR 0x22] @ ''}''"

lemma answered_mono: "answered rc meth path body P e \<Longrightarrow> (\<And>r. P r \<Longrightarrow> Q r) \<Longrightarrow> answered rc meth path body Q e"
  unfolding answered_def by blast

lemma happened_mono: "happened hist w [P] w1 \<Longrightarrow> (\<And>e. P e \<Longrightarrow> Q e) \<Longrightarrow> happened hist w [Q] w1"
  by (auto simp: happened_def list_all2_Cons1)

lemma isStatefulSetReady_history:
  assumes L: "dr_logged D hist" and r: "isStatefulSetReady D ns name w = (b, w1)"
  shows "happened hist w (if b then [sts_ready ns name] else []) w1"
proof -
  obtain a w2 where g: "dr_GetStatefulSet D ns name w = (a, w2)" by (rule prod.exhaust)
  have h: "hist w2 = hist w @ [StatefulSetRead ns name a]" by (rule dr_logged_GetStatefulSet[OF L g])
  have b: "w1 = w2" "b = (case a of Inl _ \<Rightarrow> False | Inr s \<Rightarrow> isDeploymentReady s)"
    using r g by (auto simp: isStatefulSetReady_def isDeploymentReady_def split: sum.splits)
  show ?thesis
  proof (cases b)
    case True
    then have "sts_ready ns name (StatefulSetRead ns name a)" using b(2) by (auto simp: sts_ready_def split: sum.splits)
    then show ?thesis using True b(1) happened_one[where hist = hist, OF h] by simp
  next
    case False
    then show ?thesis using b(1) happened_event[where hist = hist, OF h] by simp
  qed
qed

lemma areDeploymentsReady_history:
  assumes L: "dr_logged D hist" and r: "areDeploymentsReady D ns labels w = (b, w1)"
  shows "happened hist w (if b then [deployments_ready ns (dr_Selector D labels)] else []) w1"
proof -
  let ?l = "dr_Selector D labels"
  obtain a w2 where g: "dr_ListDeployments D ns ?l w = (a, w2)" by (rule prod.exhaust)
  have h: "hist w2 = hist w @ [DeploymentsRead ns ?l a]" by (rule dr_logged_ListDeployments[OF L g])
  have b: "w1 = w2" "b = (case a of Inl _ \<Rightarrow> False | Inr ds \<Rightarrow> list_all isDeploymentReady ds)"
    using r g by (auto simp: areDeploymentsReady_def split: sum.splits)
  show ?thesis
  proof (cases b)
    case True
    then have "deployments_ready ns ?l (DeploymentsRead ns ?l a)" using b(2) by (auto simp: deployments_ready_def split: sum.splits)
    then show ?thesis using True b(1) happened_one[where hist = hist, OF h] by simp
  next
    case False
    then show ?thesis using b(1) happened_event[where hist = hist, OF h] by simp
  qed
qed

text \<open>A poll of a test that only reads: it succeeds when the test did.\<close>

lemma poll_test:
  assumes L: "dr_logged D hist"
    and p: "dr_Poll D i t imm (\<lambda>(w, x). case test w of (b, w1) \<Rightarrow> ((b, None), (w1, x))) (w, v) = (None, (w1, v1))"
    and h: "\<And>w b w1. test w = (b, w1) \<Longrightarrow> happened hist w (if b then [P] else []) w1"
  shows "happened hist w [P] w1"
proof -
  have "\<exists>w0 v0. happened hist w [] w0 \<and> True \<and>
      (\<lambda>(w, x). case test w of (b, w1) \<Rightarrow> ((b, None), (w1, x))) (w0, v0) = ((True, None :: goerror option), (w1, v1))"
  proof (rule poll_success[where V = "\<lambda>_. True", OF L p])
    fix z b and r :: "goerror option" and z1
    assume "(\<lambda>(w, x). case test w of (b, w1) \<Rightarrow> ((b, None), (w1, x))) z = ((b, r), z1)"
    then have "test (fst z) = (b, fst z1)" by (auto split: prod.splits)
    from happened_weaken[OF h[OF this]] show "happened hist (fst z) [] (fst z1)" .
  qed simp_all
  then obtain w0 v0 where w: "happened hist w [] w0"
      and "(case test w0 of (b, w1) \<Rightarrow> ((b, None :: goerror option), (w1, v0))) = ((True, None), (w1, v1))" by auto
  then have t: "test w0 = (True, w1)" by (cases "test w0") simp
  have "happened hist w0 [P] w1" using h[OF t] by simp
  with w show ?thesis by (rule happened_before)
qed

lemma CheckStatefulSetReadiness_ready:
  assumes L: "dr_logged D hist" and "CheckStatefulSetReadiness D ns name w = (None, w1)"
  shows "happened hist w [sts_ready ns name] w1"
proof -
  obtain v1 where "dr_Poll D dr_interval dr_timeout True
      (\<lambda>(w, x). case isStatefulSetReady D ns name w of (b, w1) \<Rightarrow> ((b, None), (w1, x))) (w, []) = (None, (w1, v1))"
    using assms(2) by (auto simp: CheckStatefulSetReadiness_def split: prod.splits)
  from poll_test[OF L this isStatefulSetReady_history[OF L]] show ?thesis .
qed

lemma CheckDeploymentReadiness_ready:
  assumes L: "dr_logged D hist" and "CheckDeploymentReadiness D ns labels w = (None, w1)"
  shows "happened hist w [deployments_ready ns (dr_Selector D labels)] w1"
proof -
  obtain v1 where "dr_Poll D dr_interval dr_timeout False
      (\<lambda>(w, x). case areDeploymentsReady D ns labels w of (b, w1) \<Rightarrow> ((b, None), (w1, x))) (w, []) = (None, (w1, v1))"
    using assms(2) by (auto simp: CheckDeploymentReadiness_def split: prod.splits)
  from poll_test[OF L this areDeploymentsReady_history[OF L]] show ?thesis .
qed

lemma scaleDeployment_scaled:
  assumes L: "dr_logged D hist" and s: "scaleDeployment D ns name n w = (None, w2)"
  shows "happened hist w [scaled_to ns name n] w2"
proof -
  obtain sc r w1 where g: "dr_GetScale D ns name w = (Inr sc, w1)"
      and u: "dr_UpdateScale D ns name (sc\<lparr>scale_Replicas := n\<rparr>) w1 = (Inr r, w2)"
    using s by (auto simp: scaleDeployment_def split: sum.splits prod.splits)
  have "happened hist w1 [scaled_to ns name n] w2"
    using dr_logged_UpdateScale[OF L u] by (rule happened_one) (simp add: scaled_to_def)
  moreover have "happened hist w [] w1"
    using dr_logged_GetScale[OF L g] by (rule happened_event)
  ultimately show ?thesis by (rule happened_before[rotated])
qed

lemma ScaleDeploymentWithCheck_scaled:
  assumes L: "dr_logged D hist" and s: "ScaleDeploymentWithCheck D ns name n labels w = (None, w2)"
  shows "happened hist w [scaled_to ns name n, deployments_ready ns (dr_Selector D labels)] w2"
proof -
  obtain w1 where "scaleDeployment D ns name n w = (None, w1)" and c: "CheckDeploymentReadiness D ns labels w1 = (None, w2)"
    using s unfolding ScaleDeploymentWithCheck_def and_then_None by blast
  from happened_cons[OF scaleDeployment_scaled[OF L this(1)] CheckDeploymentReadiness_ready[OF L c]] show ?thesis .
qed

lemma PerformBackup_answered:
  assumes L: "dr_logged D hist" and "PerformBackup D bdc w = ((backupID, None), w1)"
  shows "happened hist w [answered (bdc_restClient bdc) ''POST'' ''backup'' None
    (\<lambda>r. resp_StatusCode r < 500 \<and> resp_Body r = backupID)] w1"
proof -
  let ?send = "SendRequestWithStatusCodeCheck D (bdc_restClient bdc) ''POST'' ''backup'' None"
  let ?cond = "\<lambda>(w, vaultID). case ?send w of
      ((response, Some err), w1) \<Rightarrow> ((False, None :: goerror option), (w1, vaultID))
    | ((response, None), w1) \<Rightarrow> ((True, None), (w1, response))"
  have "dr_Poll D backupInterval (bdc_backupTimeout bdc) True ?cond (w, []) = (None, (w1, backupID))"
    using assms(2) by (auto simp: PerformBackup_def split: prod.splits)
  then have "\<exists>w0 v0. happened hist w [] w0 \<and> True \<and> ?cond (w0, v0) = ((True, None), (w1, backupID))"
  proof (rule poll_success[where V = "\<lambda>_. True", OF L])
    fix z b r z1
    assume "?cond z = ((b, r), z1)"
    then have "snd (?send (fst z)) = fst z1" by (auto split: prod.splits option.splits)
    then show "happened hist (fst z) [] (fst z1)"
      using extendsD[OF SendRequestWithStatusCodeCheck_extends[OF L]] surjective_pairing by metis
  qed simp_all
  then obtain w0 v0 where w: "happened hist w [] w0" and c: "?cond (w0, v0) = ((True, None), (w1, backupID))" by blast
  obtain response err w2 where s: "?send w0 = ((response, err), w2)" by (metis prod.exhaust)
  have t: "?send w0 = ((backupID, None), w1)" using c s by (cases err) auto
  from happened_before[OF w SendRequestWithStatusCodeCheck_answered[OF L t]] show ?thesis .
qed

text \<open>The poll of a job: \<open>accept\<close> is the test of the status and the code.\<close>

lemma poll_job:
  assumes L: "dr_logged D hist"
    and p: "dr_Poll D i t imm (\<lambda>(w, x). case getStatus D bdc job w of
        (Inl err, w1) \<Rightarrow> ((False, None), (w1, x))
      | (Inr (status, code), w1) \<Rightarrow> if accept status code then ((False, None), (w1, x)) else ((True, None), (w1, x)))
      (w, v) = (None, (w1, v1))"
  shows "happened hist w [answered (bdc_restClient bdc) ''GET'' (''jobstatus/'' @ job) None
    (\<lambda>r. \<exists>status. dr_UnmarshalStatus D (resp_Body r) = Inr status \<and> \<not> accept status (resp_StatusCode r))] w1"
proof -
  let ?cond = "\<lambda>(w, x). case getStatus D bdc job w of
        (Inl err, w1) \<Rightarrow> ((False, None :: goerror option), (w1, x))
      | (Inr (status, code), w1) \<Rightarrow> if accept status code then ((False, None), (w1, x)) else ((True, None), (w1, x))"
  have "\<exists>w0 v0. happened hist w [] w0 \<and> True \<and> ?cond (w0, v0) = ((True, None :: goerror option), (w1, v1))"
  proof (rule poll_success[where V = "\<lambda>_. True", OF L p])
    fix z b r z1
    assume "?cond z = ((b, r), z1)"
    then have "snd (getStatus D bdc job (fst z)) = fst z1" by (auto split: prod.splits sum.splits if_splits)
    then show "happened hist (fst z) [] (fst z1)"
      using extendsD[OF getStatus_extends[OF L]] surjective_pairing by metis
  qed simp_all
  then obtain w0 v0 where w: "happened hist w [] w0" and c: "?cond (w0, v0) = ((True, None), (w1, v1))" by blast
  obtain x w2 where s: "getStatus D bdc job w0 = (x, w2)" by (rule prod.exhaust)
  obtain status code where t: "getStatus D bdc job w0 = (Inr (status, code), w1)" and a: "\<not> accept status code"
    using c s by (cases x) (auto split: if_split_asm)
  obtain response where u: "dr_UnmarshalStatus D response = Inr status"
      and h: "happened hist w0 [answered (bdc_restClient bdc) ''GET'' (''jobstatus/'' @ job) None
        (\<lambda>r. resp_StatusCode r = code \<and> resp_Body r = response)] w1"
    using getStatus_answered[OF L t] by blast
  show ?thesis
    by (rule happened_before[OF w happened_mono[OF h]], erule answered_mono) (use u a in auto)
qed

lemma CheckBackupStatus_successful:
  assumes L: "dr_logged D hist" and "CheckBackupStatus D bdc backupID w = (None, w1)"
  shows "happened hist w [answered (bdc_restClient bdc) ''GET'' (''jobstatus/'' @ backupID) None (job_successful D)] w1"
proof -
  obtain v1 where "dr_Poll D backupInterval (bdc_backupTimeout bdc) True (\<lambda>(w, x). case getStatus D bdc backupID w of
        (Inl err, w1) \<Rightarrow> ((False, None), (w1, x))
      | (Inr (status, code), w1) \<Rightarrow>
          if strings_ToLower (st_Status status) \<noteq> ''successful'' then ((False, None), (w1, x)) else ((True, None), (w1, x)))
      (w, []) = (None, (w1, v1))"
    using assms(2) by (auto simp: CheckBackupStatus_def split: prod.splits)
  from poll_job[OF L this] show ?thesis
    by (rule happened_mono) (erule answered_mono, auto simp: job_successful_def)
qed

lemma CheckRestoreStatus_successful:
  assumes L: "dr_logged D hist" and "CheckRestoreStatus D bdc jobID w = (None, w1)"
  shows "happened hist w [answered (bdc_restClient bdc) ''GET'' (''jobstatus/'' @ jobID) None
    (\<lambda>r. job_successful D r \<or> resp_StatusCode r = 404)] w1"
proof -
  obtain v1 where "dr_Poll D restoreInterval (bdc_restoreTimeout bdc) True (\<lambda>(w, x). case getStatus D bdc jobID w of
        (Inl err, w1) \<Rightarrow> ((False, None), (w1, x))
      | (Inr (status, code), w1) \<Rightarrow>
          if strings_ToLower (st_Status status) \<noteq> ''successful'' \<and> code \<noteq> 404 then ((False, None), (w1, x))
          else ((True, None), (w1, x)))
      (w, []) = (None, (w1, v1))"
    using assms(2) by (auto simp: CheckRestoreStatus_def split: prod.splits)
  from poll_job[OF L this] show ?thesis
    by (rule happened_mono) (erule answered_mono, auto simp: job_successful_def)
qed

text \<open>The restore: the last full backup was looked up, and either there is none or its restore was accepted.\<close>

lemma performRestore_extends: "dr_logged D hist \<Longrightarrow> extends hist (performRestore D bdc b)"
  unfolding extends_def[of hist "performRestore D bdc b"]
  by (auto simp: performRestore_def Let_def split: prod.splits option.splits dest: extendsD[OF SendRequestWithStatusCodeCheck_extends])

lemma performRestore_answered:
  assumes L: "dr_logged D hist" and "performRestore D bdc b w = ((jobID, None), w1)"
  shows "happened hist w [answered (bdc_restClient bdc) ''POST'' ''restore'' (Some (restore_body b))
    (\<lambda>r. resp_StatusCode r < 500 \<and> resp_Body r = jobID)] w1"
proof -
  have "SendRequestWithStatusCodeCheck D (bdc_restClient bdc) ''POST'' ''restore'' (Some (restore_body b)) w = ((jobID, None), w1)"
    using assms(2) by (simp add: performRestore_def restore_body_def Let_def split: prod.splits option.splits)
  from SendRequestWithStatusCodeCheck_answered[OF L this] show ?thesis .
qed

lemma restore_attempt_extends:
  assumes L: "dr_logged D hist" and r: "restore_attempt D bdc z = (a, z1)"
  shows "happened hist (fst z) [] (fst z1)"
proof -
  obtain w v where z: "z = (w, v)" by (rule prod.exhaust)
  obtain x w1 where g: "getLastFullBackup D bdc w = (x, w1)" by (rule prod.exhaust)
  note e = extendsD[OF getLastFullBackup_extends[OF L] g]
  show ?thesis
  proof (cases x)
    case (Inl err)
    then show ?thesis using r z g e by (auto simp: restore_attempt_def)
  next
    case (Inr b)
    obtain job er w2 where p: "performRestore D bdc b w1 = ((job, er), w2)" by (metis prod.exhaust)
    show ?thesis using r z g Inr p e happened_before[OF e extendsD[OF performRestore_extends[OF L] p]]
      by (auto simp: restore_attempt_def split: if_splits option.splits)
  qed
qed

text \<open>A run that does not succeed leaves the job empty.\<close>

lemma restore_attempt_false: "restore_attempt D bdc z = ((False, None), z1) \<Longrightarrow> snd z = [] \<Longrightarrow> snd z1 = []"
  by (auto simp: restore_attempt_def performRestore_def Let_def split: prod.splits sum.splits if_splits option.splits)

lemma restore_attempt_true:
  assumes "restore_attempt D bdc (w, []) = ((True, None), (w1, jobID))"
  obtains (none) "getLastFullBackup D bdc w = (Inr [], w1)" "bdc_noWait bdc" "jobID = []"
  | (some) b w2 where "b \<noteq> []" "getLastFullBackup D bdc w = (Inr b, w2)" "performRestore D bdc b w2 = ((jobID, None), w1)"
proof -
  obtain x w2 where g: "getLastFullBackup D bdc w = (x, w2)" by (rule prod.exhaust)
  obtain b where x: "x = Inr b" using assms g by (cases x) (auto simp: restore_attempt_def)
  obtain job er w3 where p: "performRestore D bdc b w2 = ((job, er), w3)" by (metis prod.exhaust)
  show thesis
  proof (cases "b = []")
    case True
    then show thesis using assms g x none by (simp add: restore_attempt_def)
  next
    case False
    then have "er = None \<and> job = jobID \<and> w3 = w1" using assms g x p by (cases er) (simp_all add: restore_attempt_def)
    then show thesis using some False g x p by simp
  qed
qed

text \<open>
  What the recovery of the last backup leaves behind when it reports success. The restore of a backup \<open>b\<close> is confirmed when the daemon accepts
  the request with a code below 400 and names a job, a status of this job is successful, and the servers are ready after it.
\<close>

definition restored ::
  "'w drEnv \<Rightarrow> ('w \<Rightarrow> drEvent list) \<Rightarrow> BackupDaemonClient \<Rightarrow> string \<Rightarrow> string \<Rightarrow> string \<Rightarrow> 'w \<Rightarrow> 'w \<Rightarrow> bool"
where
  "restored D hist bdc ns sts b w w' \<longleftrightarrow>
     (\<exists>jobID. jobID \<noteq> [] \<and> happened hist w
        [answered (bdc_restClient bdc) ''POST'' ''restore'' (Some (restore_body b)) (\<lambda>r. resp_StatusCode r < 400 \<and> resp_Body r = jobID),
         answered (bdc_restClient bdc) ''GET'' (''jobstatus/'' @ jobID) None (job_successful D), sts_ready ns sts] w')"

text \<open>
  It is not confirmed in the three cases that the code takes for a success all the same: the answer names no job, the request is
  rejected with a code from 400 to 499, or the status of the job is answered with code 404.
\<close>

definition unconfirmed ::
  "'w drEnv \<Rightarrow> ('w \<Rightarrow> drEvent list) \<Rightarrow> BackupDaemonClient \<Rightarrow> string \<Rightarrow> string \<Rightarrow> string \<Rightarrow> 'w \<Rightarrow> 'w \<Rightarrow> bool"
where
  "unconfirmed D hist bdc ns sts b w w' \<longleftrightarrow>
     (let restore = answered (bdc_restClient bdc) ''POST'' ''restore'' (Some (restore_body b));
          status = (\<lambda>jobID. answered (bdc_restClient bdc) ''GET'' (''jobstatus/'' @ jobID) None) in
      happened hist w [restore (\<lambda>r. resp_StatusCode r < 500 \<and> resp_Body r = [])] w' \<or>
      (\<exists>jobID. happened hist w
        [restore (\<lambda>r. 400 \<le> resp_StatusCode r \<and> resp_StatusCode r < 500 \<and> resp_Body r = jobID),
         status jobID (\<lambda>r. job_successful D r \<or> resp_StatusCode r = 404), sts_ready ns sts] w') \<or>
      (\<exists>jobID. happened hist w
        [restore (\<lambda>r. resp_StatusCode r < 500 \<and> resp_Body r = jobID), status jobID (\<lambda>r. resp_StatusCode r = 404), sts_ready ns sts] w'))"

lemma restored_or_unconfirmed:
  assumes "happened hist w
     ([answered (bdc_restClient bdc) ''POST'' ''restore'' (Some (restore_body b)) (\<lambda>r. resp_StatusCode r < 500 \<and> resp_Body r = jobID)] @
      (if jobID = [] then []
       else [answered (bdc_restClient bdc) ''GET'' (''jobstatus/'' @ jobID) None (\<lambda>r. job_successful D r \<or> resp_StatusCode r = 404),
             sts_ready ns sts])) w'"
  shows "restored D hist bdc ns sts b w w' \<or> unconfirmed D hist bdc ns sts b w w'"
proof (cases "jobID = []")
  case True
  with assms show ?thesis by (simp add: unconfirmed_def)
next
  case False
  let ?post = "answered (bdc_restClient bdc) ''POST'' ''restore'' (Some (restore_body b))"
  let ?get = "answered (bdc_restClient bdc) ''GET'' (''jobstatus/'' @ jobID) None"
  have h: "happened hist w ([] @ ?post (\<lambda>r. resp_StatusCode r < 500 \<and> resp_Body r = jobID) #
      [?get (\<lambda>r. job_successful D r \<or> resp_StatusCode r = 404), sts_ready ns sts]) w'"
    using assms False by simp
  from happened_split[OF h, of "?post (\<lambda>r. resp_StatusCode r < 400 \<and> resp_Body r = jobID)"
      "?post (\<lambda>r. 400 \<le> resp_StatusCode r \<and> resp_StatusCode r < 500 \<and> resp_Body r = jobID)"]
  consider (accepted) "happened hist w ([?post (\<lambda>r. resp_StatusCode r < 400 \<and> resp_Body r = jobID)] @
        ?get (\<lambda>r. job_successful D r \<or> resp_StatusCode r = 404) # [sts_ready ns sts]) w'"
    | (rejected) "happened hist w [?post (\<lambda>r. 400 \<le> resp_StatusCode r \<and> resp_StatusCode r < 500 \<and> resp_Body r = jobID),
        ?get (\<lambda>r. job_successful D r \<or> resp_StatusCode r = 404), sts_ready ns sts] w'"
    by (fastforce simp: answered_def)
  then show ?thesis
  proof cases
    case accepted
    from happened_split[OF this, of "?get (job_successful D)" "?get (\<lambda>r. resp_StatusCode r = 404)"]
    consider "happened hist w [?post (\<lambda>r. resp_StatusCode r < 400 \<and> resp_Body r = jobID), ?get (job_successful D), sts_ready ns sts] w'"
      | "happened hist w ([] @ ?post (\<lambda>r. resp_StatusCode r < 400 \<and> resp_Body r = jobID) #
          [?get (\<lambda>r. resp_StatusCode r = 404), sts_ready ns sts]) w'"
      by (fastforce simp: answered_def)
    then show ?thesis
    proof cases
      case 1
      with False show ?thesis by (auto simp: restored_def)
    next
      case 2
      from happened_split[OF this, of "?post (\<lambda>r. resp_StatusCode r < 500 \<and> resp_Body r = jobID)"
          "?post (\<lambda>r. resp_StatusCode r < 500 \<and> resp_Body r = jobID)"]
      have "happened hist w [?post (\<lambda>r. resp_StatusCode r < 500 \<and> resp_Body r = jobID), ?get (\<lambda>r. resp_StatusCode r = 404), sts_ready ns sts] w'"
        by (fastforce simp: answered_def)
      then show ?thesis unfolding unconfirmed_def Let_def by blast
    qed
  next
    case rejected
    then show ?thesis unfolding unconfirmed_def Let_def by blast
  qed
qed

definition recovered ::
  "'w drEnv \<Rightarrow> ('w \<Rightarrow> drEvent list) \<Rightarrow> BackupDaemonClient \<Rightarrow> string \<Rightarrow> string \<Rightarrow> 'w \<Rightarrow> 'w \<Rightarrow> bool"
where
  "recovered D hist bdc ns sts w w' \<longleftrightarrow>
     (\<exists>w0 b w1. happened hist w [] w0 \<and> getLastFullBackup D bdc w0 = (Inr b, w1) \<and>
        (if b = [] then bdc_noWait bdc \<and> w' = w1
         else restored D hist bdc ns sts b w1 w' \<or> unconfirmed D hist bdc ns sts b w1 w'))"

lemma startLastBackupRecovery_recovered:
  assumes L: "dr_logged D hist" and r: "startLastBackupRecovery D ns bdc name w = (None, w')"
  shows "recovered D hist bdc ns (name @ ''-server'') w w'"
proof -
  obtain jobID w1 where job: "RestoreLastFullBackup D bdc w = ((jobID, None), w1)"
      and rest: "if jobID \<noteq> [] then and_then (CheckRestoreStatus D bdc jobID w1) (CheckStatefulSetReadiness D ns (name @ ''-server'')) = (None, w')
        else w' = w1"
    using r by (auto simp: startLastBackupRecovery_def split: prod.splits option.splits if_splits)
  have "dr_Poll D restoreInterval (bdc_restoreTimeout bdc) True (restore_attempt D bdc) (w, []) = (None, (w1, jobID))"
    using job by (auto simp: RestoreLastFullBackup_def split: prod.splits)
  then have "\<exists>w0 v0. happened hist w [] w0 \<and> v0 = [] \<and> restore_attempt D bdc (w0, v0) = ((True, None), (w1, jobID))"
    by (rule poll_success[where V = "\<lambda>v. v = []", OF L])
      (erule restore_attempt_extends[OF L], rule refl, erule restore_attempt_false, assumption)
  then obtain w0 where w0: "happened hist w [] w0" "restore_attempt D bdc (w0, []) = ((True, None), (w1, jobID))" by blast
  from w0(2) show ?thesis
  proof (cases rule: restore_attempt_true)
    case none
    then show ?thesis using rest w0(1) unfolding recovered_def
      by (intro exI[of _ w0] exI[of _ "[]"] exI[of _ w1]) simp
  next
    case (some b w2)
    note p = performRestore_answered[OF L some(3)]
    have "happened hist w1 (if jobID = [] then []
        else [answered (bdc_restClient bdc) ''GET'' (''jobstatus/'' @ jobID) None (\<lambda>r. job_successful D r \<or> resp_StatusCode r = 404),
              sts_ready ns (name @ ''-server'')]) w'"
    proof (cases "jobID = []")
      case False
      then obtain w3 where "CheckRestoreStatus D bdc jobID w1 = (None, w3)"
          and s: "CheckStatefulSetReadiness D ns (name @ ''-server'') w3 = (None, w')"
        using rest by (auto simp: and_then_None)
      from happened_cons[OF CheckRestoreStatus_successful[OF L this(1)] CheckStatefulSetReadiness_ready[OF L s]]
      show ?thesis using False by simp
    qed (use rest in simp)
    note h = happened_trans[OF p this]
    show ?thesis unfolding recovered_def
      by (rule exI[of _ w0], rule exI[of _ b], rule exI[of _ w2], intro conjI w0(1) some(2))
        (simp only: some(1) if_False, rule restored_or_unconfirmed[OF h])
  qed
qed

subsection \<open>The switchover\<close>

text \<open>The last event of reading the scale of a deployment.\<close>

definition scale_was :: "string \<Rightarrow> string \<Rightarrow> (int \<Rightarrow> bool) \<Rightarrow> drEvent \<Rightarrow> bool" where
  "scale_was ns name P e \<longleftrightarrow> (\<exists>s. e = ScaleRead ns name (Inr s) \<and> P (scale_Replicas s))"

lemma IsDeploymentScaledUp_scale:
  assumes L: "dr_logged D hist" and s: "IsDeploymentScaledUp D ns name w = (Inr b, w1)"
  shows "happened hist w [scale_was ns name (\<lambda>n. b \<longleftrightarrow> n \<noteq> 0)] w1"
proof -
  obtain sc where g: "dr_GetScale D ns name w = (Inr sc, w1)" and b: "b = (scale_Replicas sc \<noteq> 0)"
    using s by (auto simp: IsDeploymentScaledUp_def split: sum.splits prod.splits)
  show ?thesis using dr_logged_GetScale[OF L g] by (rule happened_one) (simp add: scale_was_def b)
qed

text \<open>A switchover that reports success and had something to do saw the servers ready and ran the branch of its mode.\<close>

lemma drFunction_done:
  assumes L: "dr_logged D hist" and d: "drFunction D T conv req w = Some (Inr st, w')"
    and c: "conv (crq_Object req) = Inr cm" and n: "switch_needed T (crq_Mode req) cm"
  obtains noWait bdc w1 where "crq_NoWait req = Some noWait" "bdc_noWait bdc = noWait" "sw_Status st = ent_DONE T"
    "rc_url (bdc_restClient bdc) = getBackupDaemonUrl D (os_Getenv (dr_env D) ''CONSUL_FULLNAME'') (cm_Namespace cm)"
    "happened hist w [sts_ready (cm_Namespace cm) (os_Getenv (dr_env D) ''CONSUL_FULLNAME'' @ ''-server'')] w1"
    "switch_mode D T (crq_Mode req) cm bdc (os_Getenv (dr_env D) ''CONSUL_FULLNAME'') w1 = (None, w')"
proof -
  let ?name = "os_Getenv (dr_env D) ''CONSUL_FULLNAME''"
  obtain e w1 where r: "CheckStatefulSetReadiness D (cm_Namespace cm) (?name @ ''-server'') w = (e, w1)" by (rule prod.exhaust)
  have e: "e = None" using d c n r by (cases e) (simp_all add: drFunction_def Let_def)
  obtain noWait where nw: "crq_NoWait req = Some noWait"
    using d c n r e by (cases "crq_NoWait req") (simp_all add: drFunction_def Let_def)
  obtain bdc w2 where b: "getBackupDaemonClient D ?name (cm_Namespace cm) noWait w1 = (bdc, w2)" by (rule prod.exhaust)
  obtain e2 w3 where s: "switch_mode D T (crq_Mode req) cm bdc ?name w2 = (e2, w3)" by (rule prod.exhaust)
  have e2: "e2 = None" "w3 = w'" "sw_Status st = ent_DONE T"
    using d c n r e nw b s by (cases e2; auto simp: drFunction_def Let_def)+
  obtain x where x: "dr_GetSecret D (cm_Namespace cm) (?name @ ''-backup-daemon-secret'') w1 = (x, w2)"
    using b by (auto simp: getBackupDaemonClient_def GetSecretCredentials_def split: prod.splits sum.splits)
  have bdc: "bdc_noWait bdc = noWait" "rc_url (bdc_restClient bdc) = getBackupDaemonUrl D ?name (cm_Namespace cm)"
    using b by (auto simp: getBackupDaemonClient_def NewBackupDaemonClient_def NewRestClient_def split: prod.splits)
  have "happened hist w [sts_ready (cm_Namespace cm) (?name @ ''-server'')] w2"
    using happened_after[OF CheckStatefulSetReadiness_ready[OF L r[unfolded e]] happened_event[where hist = hist, OF dr_logged_GetSecret[OF L x]]] .
  with that nw bdc e2 s show thesis by simp
qed

text \<open>
  C35. A switchover to standby that had something to do and reports DONE saw the Consul servers ready and, unless the backup daemon was
  already scaled down, did in this order: it started a backup that the daemon answered with an identifier and no
  server error, it read a job status of this identifier that is successful, it set the replicas of the daemon to zero,
  and it saw its deployments ready. So the daemon is never stopped before the backup is completed.
\<close>

theorem standby_after_backup:
  assumes L: "dr_logged D hist" and d: "drFunction D T conv req w = Some (Inr st, w')"
    and c: "conv (crq_Object req) = Inr cm" and n: "switch_needed T (crq_Mode req) cm"
    and m: "strings_ToLower (crq_Mode req) = ent_STANDBY T" "ent_STANDBY T \<noteq> ent_ACTIVE T"
    and a: "strings_ToLower (cm_get cm ''mode'') \<noteq> ent_DISABLED T"
  shows "sw_Status st = ent_DONE T \<and>
    (\<exists>rc backupID w1.
      rc_url rc = getBackupDaemonUrl D (os_Getenv (dr_env D) ''CONSUL_FULLNAME'') (cm_Namespace cm) \<and>
      happened hist w [sts_ready (cm_Namespace cm) (os_Getenv (dr_env D) ''CONSUL_FULLNAME'' @ ''-server'')] w1 \<and>
      (happened hist w1 [scale_was (cm_Namespace cm) (os_Getenv (dr_env D) ''CONSUL_FULLNAME'' @ ''-backup-daemon'') (\<lambda>n. n = 0)] w' \<or>
       happened hist w1
        [answered rc ''POST'' ''backup'' None (\<lambda>r. resp_StatusCode r < 500 \<and> resp_Body r = backupID),
         answered rc ''GET'' (''jobstatus/'' @ backupID) None (job_successful D),
         scaled_to (cm_Namespace cm) (os_Getenv (dr_env D) ''CONSUL_FULLNAME'' @ ''-backup-daemon'') 0,
         deployments_ready (cm_Namespace cm)
           (dr_Selector D (getBackupDaemonLabels (os_Getenv (dr_env D) ''CONSUL_FULLNAME'' @ ''-backup-daemon'')))] w'))"
proof -
  let ?name = "os_Getenv (dr_env D) ''CONSUL_FULLNAME'' @ ''-backup-daemon''" and ?ns = "cm_Namespace cm"
  obtain noWait bdc w1 where st: "sw_Status st = ent_DONE T"
      and u: "rc_url (bdc_restClient bdc) = getBackupDaemonUrl D (os_Getenv (dr_env D) ''CONSUL_FULLNAME'') ?ns"
      and r: "happened hist w [sts_ready ?ns (os_Getenv (dr_env D) ''CONSUL_FULLNAME'' @ ''-server'')] w1"
      and s: "switch_mode D T (crq_Mode req) cm bdc (os_Getenv (dr_env D) ''CONSUL_FULLNAME'') w1 = (None, w')"
    using drFunction_done[where D = D and hist = hist, OF L d c n] by metis
  have s: "switch_to_standby D cm bdc (os_Getenv (dr_env D) ''CONSUL_FULLNAME'') w1 = (None, w')"
    using s m a by (simp add: switch_mode_def)
  obtain x w2 where x: "IsDeploymentScaledUp D ?ns ?name w1 = (x, w2)" by (rule prod.exhaust)
  obtain up where up: "x = Inr up" using s x by (cases x) (simp_all add: switch_to_standby_def Let_def)
  note sc = IsDeploymentScaledUp_scale[OF L x[unfolded up]]
  show ?thesis
  proof (cases up)
    case False
    then have "w' = w2" using s x up by (simp add: switch_to_standby_def Let_def)
    then have "happened hist w1 [scale_was ?ns ?name (\<lambda>n. n = 0)] w'" using sc False by simp
    then show ?thesis using st u r by blast
  next
    case True
    obtain backupID er w3 where p: "PerformBackup D bdc w2 = ((backupID, er), w3)" by (metis prod.exhaust)
    have er: "er = None" using s x up True p by (cases er) (simp_all add: switch_to_standby_def Let_def)
    obtain w4 where b: "CheckBackupStatus D bdc backupID w3 = (None, w4)"
        and z: "ScaleDeploymentWithCheck D ?ns ?name 0 (getBackupDaemonLabels ?name) w4 = (None, w')"
      using s x up True p er by (auto simp: switch_to_standby_def Let_def and_then_None)
    have "happened hist w1 [] w2" using sc by (rule happened_weaken)
    from happened_before[OF this happened_cons[OF PerformBackup_answered[OF L p[unfolded er]]
      happened_cons[OF CheckBackupStatus_successful[OF L b] ScaleDeploymentWithCheck_scaled[OF L z]]]]
    show ?thesis using st u r by blast
  qed
qed

text \<open>
  C36. What DONE means for a switchover to active that had something to do: the Consul servers were ready, the replicas of the
  backup daemon were set to one and its deployments were ready. A site that was disabled does nothing more. Otherwise the last full backup was
  looked up, and without one the request said not to wait. With one, the daemon was asked to restore exactly this backup, and
  either the restore is confirmed - the request was accepted with a code below 400, it named a job, a status of the job was
  successful and the servers were ready after it - or the outcome is one of the three that the code does not tell from a success:
  the answer below 500 names no job, the request was rejected with a code from 400 to 499, or the status of the job was not found.
\<close>

theorem active_after_restore:
  assumes L: "dr_logged D hist" and d: "drFunction D T conv req w = Some (Inr st, w')"
    and c: "conv (crq_Object req) = Inr cm" and n: "switch_needed T (crq_Mode req) cm"
    and m: "strings_ToLower (crq_Mode req) = ent_ACTIVE T"
  shows "sw_Status st = ent_DONE T \<and>
    (\<exists>bdc w1. crq_NoWait req = Some (bdc_noWait bdc) \<and>
      rc_url (bdc_restClient bdc) = getBackupDaemonUrl D (os_Getenv (dr_env D) ''CONSUL_FULLNAME'') (cm_Namespace cm) \<and>
      happened hist w
        [sts_ready (cm_Namespace cm) (os_Getenv (dr_env D) ''CONSUL_FULLNAME'' @ ''-server''),
         scaled_to (cm_Namespace cm) (os_Getenv (dr_env D) ''CONSUL_FULLNAME'' @ ''-backup-daemon'') 1,
         deployments_ready (cm_Namespace cm)
           (dr_Selector D (getBackupDaemonLabels (os_Getenv (dr_env D) ''CONSUL_FULLNAME'' @ ''-backup-daemon'')))] w1 \<and>
      (if cm_get cm ''status-mode'' = ent_DISABLED T then w' = w1
       else recovered D hist bdc (cm_Namespace cm) (os_Getenv (dr_env D) ''CONSUL_FULLNAME'' @ ''-server'') w1 w'))"
proof -
  let ?full = "os_Getenv (dr_env D) ''CONSUL_FULLNAME''" and ?ns = "cm_Namespace cm"
  let ?name = "?full @ ''-backup-daemon''"
  obtain noWait bdc w0 where st: "crq_NoWait req = Some noWait" "bdc_noWait bdc = noWait" "sw_Status st = ent_DONE T"
      and u: "rc_url (bdc_restClient bdc) = getBackupDaemonUrl D ?full ?ns"
      and r: "happened hist w [sts_ready ?ns (?full @ ''-server'')] w0"
      and s: "switch_mode D T (crq_Mode req) cm bdc ?full w0 = (None, w')"
    using drFunction_done[where D = D and hist = hist, OF L d c n] by metis
  obtain w1 where z: "ScaleDeploymentWithCheck D ?ns ?name 1 (getBackupDaemonLabels ?name) w0 = (None, w1)"
      and rest: "(if cm_get cm ''status-mode'' \<noteq> ent_DISABLED T then startLastBackupRecovery D ?ns bdc ?full w1 else (None, w1)) = (None, w')"
    using s m by (auto simp: switch_mode_def switch_to_active_def Let_def and_then_None)
  note h = happened_cons[OF r ScaleDeploymentWithCheck_scaled[OF L z]]
  have "if cm_get cm ''status-mode'' = ent_DISABLED T then w' = w1 else recovered D hist bdc ?ns (?full @ ''-server'') w1 w'"
    using rest startLastBackupRecovery_recovered[OF L] by (cases "cm_get cm ''status-mode'' = ent_DISABLED T") simp_all
  with st u h show ?thesis by blast
qed

subsection \<open>The last full backup\<close>

text \<open>Reading the information of backups one after the other.\<close>

fun read_all :: "'w drEnv \<Rightarrow> BackupDaemonClient \<Rightarrow> string list \<Rightarrow> 'w \<Rightarrow> BackupInfo list option \<times> 'w" where
  "read_all D bdc [] w = (Some [], w)"
| "read_all D bdc (b # bs) w =
     (case getBackupInformation D bdc b w of
        (Inl err, w1) \<Rightarrow> (None, w1)
      | (Inr i, w1) \<Rightarrow> (case read_all D bdc bs w1 of (None, w2) \<Rightarrow> (None, w2) | (Some is, w2) \<Rightarrow> (Some (i # is), w2)))"

lemma getLastFullBackup_loop_result:
  assumes "getLastFullBackup_loop D bdc bs w = (Inr b, w')"
  shows "(b = [] \<and> (\<exists>is. read_all D bdc bs w = (Some is, w') \<and> list_all (\<lambda>i. \<not> restorable bdc i) is)) \<or>
    (\<exists>pre post is i. bs = pre @ b # post \<and> read_all D bdc (pre @ [b]) w = (Some (is @ [i]), w') \<and>
       list_all (\<lambda>i. \<not> restorable bdc i) is \<and> restorable bdc i)"
  using assms
proof (induction bs arbitrary: w)
  case Nil
  then show ?case by simp
next
  case (Cons c cs)
  obtain x w1 where g: "getBackupInformation D bdc c w = (x, w1)" by (rule prod.exhaust)
  then obtain i where x: "x = Inr i" using Cons.prems by (cases x) simp_all
  show ?case
  proof (cases "restorable bdc i")
    case True
    then have "b = c \<and> w' = w1" using Cons.prems g x by simp
    then show ?thesis using True g x
      by (intro disjI2 exI[of _ "[]"] exI[of _ cs] exI[of _ i]) simp
  next
    case False
    then have "getLastFullBackup_loop D bdc cs w1 = (Inr b, w')" using Cons.prems g x by simp
    from Cons.IH[OF this] consider
        (none) "is" where "b = []" "read_all D bdc cs w1 = (Some is, w')" "list_all (\<lambda>i. \<not> restorable bdc i) is"
      | (some) pre post "is" j where "cs = pre @ b # post" "read_all D bdc (pre @ [b]) w1 = (Some (is @ [j]), w')"
          "list_all (\<lambda>i. \<not> restorable bdc i) is" "restorable bdc j"
      by blast
    then show ?thesis
    proof cases
      case none
      then show ?thesis using g x False by simp
    next
      case some
      then show ?thesis using g x False
        by (intro disjI2 exI[of _ "c # pre"] exI[of _ post] exI[of _ "i # is"] exI[of _ j]) simp
    qed
  qed
qed

text \<open>
  C37. The backup that is restored is the greatest one, in the order of names, that qualifies: either every listed backup was read and none of
  them qualifies, and the result is empty, or the result is listed, all backups before it are greater or equal
  and were read as not restorable, all after it are less or equal, and it was read as a full, valid backup of another region.
\<close>

theorem last_full_backup_greatest:
  assumes "getLastFullBackup D bdc w = (Inr b, w')"
  shows "\<exists>bs w1. getBackupsList D bdc w = (Inr bs, w1) \<and>
    ((b = [] \<and> (\<exists>is. read_all D bdc (rev (sort bs)) w1 = (Some is, w') \<and> list_all (\<lambda>i. \<not> restorable bdc i) is)) \<or>
     (\<exists>pre post is i. rev (sort bs) = pre @ b # post \<and> list_all (\<lambda>c. b \<le> c) pre \<and> list_all (\<lambda>c. c \<le> b) post \<and>
        read_all D bdc (pre @ [b]) w1 = (Some (is @ [i]), w') \<and> list_all (\<lambda>i. \<not> restorable bdc i) is \<and> restorable bdc i))"
proof -
  obtain x w1 where g: "getBackupsList D bdc w = (x, w1)" by (rule prod.exhaust)
  then obtain bs where x: "x = Inr bs" using assms by (cases x) (simp_all add: getLastFullBackup_def)
  have l: "getLastFullBackup_loop D bdc (rev (sort bs)) w1 = (Inr b, w')" using assms g x by (simp add: getLastFullBackup_def)
  have order: "list_all (\<lambda>c. b \<le> c) pre \<and> list_all (\<lambda>c. c \<le> b) post" if "rev (sort bs) = pre @ b # post" for pre post
  proof -
    have "sort bs = rev post @ b # rev pre" using that by (metis append_Cons append_assoc append_Nil rev_append rev_rev_ident rev.simps(2))
    then have "sorted (rev post @ b # rev pre)" by (metis sorted_sort)
    then show ?thesis by (auto simp: sorted_append list_all_iff)
  qed
  from getLastFullBackup_loop_result[OF l] show ?thesis using g x order by blast
qed

subsection \<open>A rejected restore\<close>

text \<open>What is documented of a poll that starts immediately: a first run that succeeds ends it.\<close>

definition poll_immediate :: "'w drEnv \<Rightarrow> bool" where
  "poll_immediate D \<longleftrightarrow> (\<forall>i t cond x y. cond x = ((True, None), y) \<longrightarrow> dr_Poll D i t True cond x = (None, y))"

text \<open>
  C38. A restore that the daemon rejects with a client error is taken for one that was started: when the answer to the restore has a code
  between 400 and 499 and a body, and the status of the job of that name is answered with code 404 and a status,
  whatever it is, the recovery goes on to its last check, of the servers, and succeeds when they are ready.
\<close>

theorem rejected_restore_succeeds:
  assumes p: "poll_immediate D"
    and b: "getLastFullBackup D bdc w = (Inr b, w1)" "b \<noteq> []"
    and r: "SendRequest D (bdc_restClient bdc) ''POST'' ''restore'' (Some (restore_body b)) w1 = ((code, body, None), w2)"
    and c: "400 \<le> code" "code < 500" "body \<noteq> []"
    and s: "SendRequest D (bdc_restClient bdc) ''GET'' (''jobstatus/'' @ body) None w2 = ((404, answer, None), w3)"
      "dr_UnmarshalStatus D answer = Inr status"
  shows "startLastBackupRecovery D ns bdc name w = CheckStatefulSetReadiness D ns (name @ ''-server'') w3"
proof -
  have "performRestore D bdc b w1 = ((body, None), w2)"
    using r c unfolding performRestore_def restore_body_def SendRequestWithStatusCodeCheck_def Let_def by simp
  then have "restore_attempt D bdc (w, []) = ((True, None), (w2, body))" using b by (simp add: restore_attempt_def)
  then have "RestoreLastFullBackup D bdc w = ((body, None), w2)"
    using p unfolding poll_immediate_def RestoreLastFullBackup_def by simp
  moreover have "getStatus D bdc body w2 = (Inr (status, 404), w3)"
    using s by (simp add: getStatus_def)
  then have "CheckRestoreStatus D bdc body w2 = (None, w3)"
    using p unfolding poll_immediate_def CheckRestoreStatus_def by simp
  ultimately show ?thesis using c(3) by (simp add: startLastBackupRecovery_def)
qed

subsection \<open>Examples\<close>

text \<open>
  A daemon with the backups b1 and b2, of which b1 is of another region, and a job for every backup. The world is its own history, and
  a poll runs its condition once.
\<close>

definition demo_daemon :: "string \<Rightarrow> httpRequest \<Rightarrow> httpResponse" where
  "demo_daemon restore q =
     (let path = drop (length ''http://c-backup-daemon.ns:8080/'') (req_URL q);
          ok = (\<lambda>body. \<lparr>resp_StatusCode = 200, resp_Status = ''200 OK'', resp_Body = body, resp_ReadErr = None\<rparr>) in
      if path = ''backup'' then ok ''v1''
      else if path = ''restore'' then (ok restore)\<lparr>resp_StatusCode := (if restore = ''gone'' then 410 else 200)\<rparr>
      else if path = ''jobstatus/gone'' then (ok ''Unknown'')\<lparr>resp_StatusCode := 404\<rparr>
      else if take 9 path = ''jobstatus'' then ok ''Successful''
      else ok path)"

definition demo_info :: "string \<Rightarrow> BackupInfo" where
  "demo_info body =
     \<lparr>bi_IsGranular = False, bi_DBList = StrVal ''full backup'', bi_Id = body, bi_Failed = False, bi_Locked = False, bi_TS = 0,
      bi_SpentTime = [], bi_Valid = True, bi_Evictable = True,
      bi_CustomVars = Some [(''region'', if body = ''listbackups/b1'' then ''left'' else [])]\<rparr>"

definition demo_poll ::
  "int \<Rightarrow> int \<Rightarrow> bool \<Rightarrow> ('w \<times> string \<Rightarrow> (bool \<times> goerror option) \<times> ('w \<times> string)) \<Rightarrow> 'w \<times> string \<Rightarrow> goerror option \<times> ('w \<times> string)"
where
  "demo_poll i t imm cond x =
     (case cond x of
        ((True, None), y) \<Rightarrow> (None, y)
      | ((False, None), y) \<Rightarrow> (Some (PlainError ''deadline''), y)
      | ((b, Some e), y) \<Rightarrow> (Some e, y))"

definition demo_dr :: "string \<Rightarrow> drEvent list drEnv" where
  "demo_dr restore =
     \<lparr>dr_http = (\<lambda>c. \<lparr>http_NewRequest = (\<lambda>me u b. Inr \<lparr>req_Method = me, req_URL = u, req_Body = b, req_Headers = [], req_BasicAuth = None\<rparr>),
        http_Do = (\<lambda>q w. (Inr (demo_daemon restore q), w @ [Sent q (Inr (demo_daemon restore q))]))\<rparr>),
      dr_env = (\<lambda>v. if v = ''CONSUL_FULLNAME'' then Some ''c'' else None), dr_NotExist = (\<lambda>_. True), dr_ReadFile = (\<lambda>_. Inr []),
      dr_ParseDuration = (\<lambda>_. Inl (PlainError ''duration'')), dr_UnmarshalList = (\<lambda>_. Inr [''b1'', ''b2'']),
      dr_UnmarshalInfo = (\<lambda>body. Inr (demo_info body)),
      dr_UnmarshalStatus = (\<lambda>body. Inr \<lparr>st_Status = body, st_Vault = [], st_Type = [], st_Err = [], st_TaskId = []\<rparr>),
      dr_Selector = (\<lambda>_. ''name=c''), dr_GetSecret = (\<lambda>ns n w. (Inl (PlainError ''secret''), w @ [SecretRead ns n])),
      dr_ListDeployments = (\<lambda>ns l w. (Inr [], w @ [DeploymentsRead ns l (Inr [])])),
      dr_GetScale = (\<lambda>ns n w. (Inr \<lparr>scale_ResourceVersion = ''1'', scale_Replicas = 1\<rparr>,
        w @ [ScaleRead ns n (Inr \<lparr>scale_ResourceVersion = ''1'', scale_Replicas = 1\<rparr>)])),
      dr_UpdateScale = (\<lambda>ns n s w. (Inr s, w @ [ScaleSet ns n s (Inr s)])),
      dr_GetStatefulSet = (\<lambda>ns n w. (Inr \<lparr>wl_Name = n, wl_SpecReplicas = 3, wl_ReadyReplicas = 3, wl_UpdatedReplicas = 3\<rparr>,
        w @ [StatefulSetRead ns n (Inr \<lparr>wl_Name = n, wl_SpecReplicas = 3, wl_ReadyReplicas = 3, wl_UpdatedReplicas = 3\<rparr>)])),
      dr_Poll = demo_poll\<rparr>"

definition demo_entity :: drEntity where
  "demo_entity = \<lparr>ent_ACTIVE = ''active'', ent_STANDBY = ''standby'', ent_DISABLED = ''disable'', ent_RUNNING = ''running'',
     ent_FAILED = ''failed'', ent_DONE = ''done''\<rparr>"

definition demo_cm :: "string \<Rightarrow> ConfigMap" where
  "demo_cm mode = \<lparr>cm_Namespace = ''ns'', cm_Data = (\<lambda>k. if k = ''status-mode'' then Some mode else None)\<rparr>"

definition demo_request :: "string \<Rightarrow> unit ControllerRequest" where
  "demo_request mode = \<lparr>crq_Object = (), crq_Mode = mode, crq_NoWait = Some False\<rparr>"

lemma demo_poll_runs: "poll_runs cond (idle_keeps hist) x (fst (demo_poll i t imm cond x)) (snd (demo_poll i t imm cond x))"
proof -
  obtain b r y where c: "cond x = ((b, r), y)" by (metis prod.exhaust)
  show ?thesis
    using c by (cases r; cases b) (auto simp: demo_poll_def intro: poll_true poll_error poll_false[OF _ poll_timeout])
qed

lemma demo_logged: "dr_logged (demo_dr restore) (\<lambda>w. w)"
  unfolding dr_logged_def by (intro conjI) (simp_all add: demo_dr_def http_ok_def demo_poll_runs)

lemma demo_immediate: "poll_immediate (demo_dr restore)"
  by (simp add: poll_immediate_def demo_dr_def demo_poll_def)

definition demo_standby :: "SwitchoverState result \<times> drEvent list" where
  "demo_standby = the (drFunction (demo_dr ''j1'') demo_entity (\<lambda>_. Inr (demo_cm ''active'')) (demo_request ''standby'') [])"

definition demo_active :: "SwitchoverState result \<times> drEvent list" where
  "demo_active = the (drFunction (demo_dr ''j1'') demo_entity (\<lambda>_. Inr (demo_cm ''standby'')) (demo_request ''active'') [])"

definition demo_state :: "string \<Rightarrow> SwitchoverState" where
  "demo_state mode = \<lparr>sw_Mode = mode, sw_Status = ''done'', sw_Comment = ''switchover successfully done''\<rparr>"

definition demo_bdc :: "string \<Rightarrow> BackupDaemonClient" where
  "demo_bdc restore = NewBackupDaemonClient (demo_dr restore) (NewRestClient ''http://c-backup-daemon.ns:8080'' PlainClient []) False"

lemma demo_standby_run:
  "drFunction (demo_dr ''j1'') demo_entity (\<lambda>_. Inr (demo_cm ''active'')) (demo_request ''standby'') [] =
     Some (Inr (demo_state ''standby''), snd demo_standby)"
  by code_simp

lemma demo_active_run:
  "drFunction (demo_dr ''j1'') demo_entity (\<lambda>_. Inr (demo_cm ''standby'')) (demo_request ''active'') [] =
     Some (Inr (demo_state ''active''), snd demo_active)"
  by code_simp

lemma demo_last_backup: "getLastFullBackup (demo_dr restore) (demo_bdc restore) [] = (Inr ''b1'', snd (getLastFullBackup (demo_dr restore) (demo_bdc restore) []))"
  by code_simp

theorem standby_after_backup_witness:
  "sw_Status (demo_state ''standby'') = ent_DONE demo_entity \<and>
    (\<exists>rc backupID w1.
      rc_url rc = getBackupDaemonUrl (demo_dr ''j1'') (os_Getenv (dr_env (demo_dr ''j1'')) ''CONSUL_FULLNAME'') (cm_Namespace (demo_cm ''active'')) \<and>
      happened (\<lambda>w. w) [] [sts_ready (cm_Namespace (demo_cm ''active'')) (os_Getenv (dr_env (demo_dr ''j1'')) ''CONSUL_FULLNAME'' @ ''-server'')] w1 \<and>
      (happened (\<lambda>w. w) w1 [scale_was (cm_Namespace (demo_cm ''active'')) (os_Getenv (dr_env (demo_dr ''j1'')) ''CONSUL_FULLNAME'' @ ''-backup-daemon'') (\<lambda>n. n = 0)] (snd demo_standby) \<or>
       happened (\<lambda>w. w) w1
        [answered rc ''POST'' ''backup'' None (\<lambda>r. resp_StatusCode r < 500 \<and> resp_Body r = backupID),
         answered rc ''GET'' (''jobstatus/'' @ backupID) None (job_successful (demo_dr ''j1'')),
         scaled_to (cm_Namespace (demo_cm ''active'')) (os_Getenv (dr_env (demo_dr ''j1'')) ''CONSUL_FULLNAME'' @ ''-backup-daemon'') 0,
         deployments_ready (cm_Namespace (demo_cm ''active''))
           (dr_Selector (demo_dr ''j1'') (getBackupDaemonLabels (os_Getenv (dr_env (demo_dr ''j1'')) ''CONSUL_FULLNAME'' @ ''-backup-daemon'')))] (snd demo_standby)))"
  by (rule standby_after_backup[OF demo_logged demo_standby_run refl]) code_simp+

theorem active_after_restore_witness:
  "sw_Status (demo_state ''active'') = ent_DONE demo_entity \<and>
    (\<exists>bdc w1. crq_NoWait (demo_request ''active'') = Some (bdc_noWait bdc) \<and>
      rc_url (bdc_restClient bdc) = getBackupDaemonUrl (demo_dr ''j1'') (os_Getenv (dr_env (demo_dr ''j1'')) ''CONSUL_FULLNAME'') (cm_Namespace (demo_cm ''standby'')) \<and>
      happened (\<lambda>w. w) []
        [sts_ready (cm_Namespace (demo_cm ''standby'')) (os_Getenv (dr_env (demo_dr ''j1'')) ''CONSUL_FULLNAME'' @ ''-server''),
         scaled_to (cm_Namespace (demo_cm ''standby'')) (os_Getenv (dr_env (demo_dr ''j1'')) ''CONSUL_FULLNAME'' @ ''-backup-daemon'') 1,
         deployments_ready (cm_Namespace (demo_cm ''standby''))
           (dr_Selector (demo_dr ''j1'') (getBackupDaemonLabels (os_Getenv (dr_env (demo_dr ''j1'')) ''CONSUL_FULLNAME'' @ ''-backup-daemon'')))] w1 \<and>
      (if cm_get (demo_cm ''standby'') ''status-mode'' = ent_DISABLED demo_entity then (snd demo_active) = w1
       else recovered (demo_dr ''j1'') (\<lambda>w. w) bdc (cm_Namespace (demo_cm ''standby'')) (os_Getenv (dr_env (demo_dr ''j1'')) ''CONSUL_FULLNAME'' @ ''-server'') w1 (snd demo_active)))"
  by (rule active_after_restore[OF demo_logged demo_active_run refl]) code_simp+

theorem last_full_backup_greatest_witness:
  "\<exists>bs w1. getBackupsList (demo_dr []) (demo_bdc []) [] = (Inr bs, w1) \<and>
    ((''b1'' = [] \<and> (\<exists>is. read_all (demo_dr []) (demo_bdc []) (rev (sort bs)) w1 = (Some is, (snd (getLastFullBackup (demo_dr []) (demo_bdc []) []))) \<and> list_all (\<lambda>i. \<not> restorable (demo_bdc []) i) is)) \<or>
     (\<exists>pre post is i. rev (sort bs) = pre @ ''b1'' # post \<and> list_all (\<lambda>c. ''b1'' \<le> c) pre \<and> list_all (\<lambda>c. c \<le> ''b1'') post \<and>
        read_all (demo_dr []) (demo_bdc []) (pre @ [''b1'']) w1 = (Some (is @ [i]), (snd (getLastFullBackup (demo_dr []) (demo_bdc []) []))) \<and> list_all (\<lambda>i. \<not> restorable (demo_bdc []) i) is \<and> restorable (demo_bdc []) i))"
  by (rule last_full_backup_greatest[OF demo_last_backup])

theorem rejected_restore_succeeds_witness:
  "fst (startLastBackupRecovery (demo_dr ''gone'') ''ns'' (demo_bdc ''gone'') ''c'' []) = None"
proof -
  let ?D = "demo_dr ''gone''" and ?b = "demo_bdc ''gone''"
  let ?w1 = "snd (getLastFullBackup ?D ?b [])"
  let ?w2 = "snd (SendRequest ?D (bdc_restClient ?b) ''POST'' ''restore'' (Some (restore_body ''b1'')) ?w1)"
  let ?w3 = "snd (SendRequest ?D (bdc_restClient ?b) ''GET'' (''jobstatus/'' @ ''gone'') None ?w2)"
  have r: "SendRequest ?D (bdc_restClient ?b) ''POST'' ''restore'' (Some (restore_body ''b1'')) ?w1 = ((410, ''gone'', None), ?w2)"
    by code_simp
  have j: "SendRequest ?D (bdc_restClient ?b) ''GET'' (''jobstatus/'' @ ''gone'') None ?w2 = ((404, ''Unknown'', None), ?w3)"
    by code_simp
  have u: "dr_UnmarshalStatus ?D ''Unknown'' = Inr \<lparr>st_Status = ''Unknown'', st_Vault = [], st_Type = [], st_Err = [], st_TaskId = []\<rparr>"
    by (simp add: demo_dr_def)
  have "startLastBackupRecovery ?D ''ns'' ?b ''c'' [] = CheckStatefulSetReadiness ?D ''ns'' (''c'' @ ''-server'') ?w3"
    by (rule rejected_restore_succeeds[OF demo_immediate demo_last_backup _ r _ _ _ j u]) simp_all
  moreover have "fst (CheckStatefulSetReadiness ?D ''ns'' (''c'' @ ''-server'') ?w3) = None" by code_simp
  ultimately show ?thesis by simp
qed

end
