(* ===== verification/Rest_Configurator.thy ===== *)
theory Rest_Configurator
  imports Kubernetes
begin

text \<open>
  The HTTP server that starts a common reconciliation (\<^verbatim>\<open>rest-acl-configurator/cmd/main.go\<close>). The API server, the configuration of its clients, the
  JWT parser, the flag parser, \<^verbatim>\<open>filepath.Join\<close> and the clock are parameters. A call may panic, with a runtime error or a text, or end the process;
  the state of the process is the path of the configuration, whether its flag is defined, and the world.
  The handlers that log and compress pass everything on and are left out.
\<close>

subsection \<open>Panics and responses\<close>

datatype goPanic = RuntimeError string | PanicText string

datatype 'a outcome = Returned 'a | Panicked goPanic | Exited

fun obind :: "'a outcome \<times> 's \<Rightarrow> ('a \<Rightarrow> 's \<Rightarrow> 'b outcome \<times> 's) \<Rightarrow> 'b outcome \<times> 's" where
  "obind (Returned a, s) f = f a s"
| "obind (Panicked p, s) f = (Panicked p, s)"
| "obind (Exited, s) f = (Exited, s)"

text \<open>
  The response writer of \<^verbatim>\<open>net/http\<close>: the first \<^verbatim>\<open>WriteHeader\<close> fixes the code, a \<^verbatim>\<open>Write\<close> before it fixes code 200, and a later
  \<^verbatim>\<open>WriteHeader\<close> is ignored.
\<close>

record responseWriter =
  rw_ContentType :: string
  rw_Code :: "int option"
  rw_Body :: string

definition WriteHeader :: "int \<Rightarrow> responseWriter \<Rightarrow> responseWriter" where
  "WriteHeader code rw = (case rw_Code rw of None \<Rightarrow> rw\<lparr>rw_Code := Some code\<rparr> | Some _ \<Rightarrow> rw)"

definition rw_Write :: "string \<Rightarrow> responseWriter \<Rightarrow> responseWriter" where
  "rw_Write s rw = (let rw = WriteHeader 200 rw in rw\<lparr>rw_Body := rw_Body rw @ s\<rparr>)"

definition http_Error :: "string \<Rightarrow> int \<Rightarrow> responseWriter \<Rightarrow> responseWriter" where
  "http_Error msg code rw = rw_Write (msg @ [CHR 0x0A]) (WriteHeader code (rw\<lparr>rw_ContentType := ''text/plain; charset=utf-8''\<rparr>))"

record httpCall =
  call_Method :: string
  call_Path :: string
  call_Authorization :: string

subsection \<open>Environment\<close>

record GroupVersionResource =
  gvr_Group :: string
  gvr_Version :: string
  gvr_Resource :: string

type_synonym unstructured = "(string \<times> configValue) list"

record ('c, 'w) restEnv =
  re_env :: environ
  re_Program :: string
  re_Join :: "string \<Rightarrow> string"
  re_FlagParse :: "string \<Rightarrow> string option"
  re_InClusterConfig :: "'c result"
  re_BuildConfig :: "string \<Rightarrow> 'c result"
  re_NewDynamic :: "'c \<Rightarrow> goerror option"
  re_NewClientset :: "'c \<Rightarrow> goerror option"
  re_ReviewToken :: "'c \<Rightarrow> string \<Rightarrow> 'w \<Rightarrow> bool result \<times> 'w"
  re_Claims :: "string \<Rightarrow> string \<rightharpoonup> configValue"
  re_Second :: "'w \<Rightarrow> int"
  re_Nanosecond :: "'w \<Rightarrow> int"
  re_List :: "'c \<Rightarrow> GroupVersionResource \<Rightarrow> 'w \<Rightarrow> unstructured list result \<times> 'w"
  re_Update :: "'c \<Rightarrow> GroupVersionResource \<Rightarrow> string \<Rightarrow> unstructured \<Rightarrow> 'w \<Rightarrow> goerror option \<times> 'w"

record 'w restProc =
  rp_kubeconfig :: string
  rp_flag :: bool
  rp_world :: 'w

definition rest_getEnv :: "environ \<Rightarrow> string \<Rightarrow> string \<Rightarrow> string" where
  "rest_getEnv env key fallback = (case env key of Some value \<Rightarrow> value | None \<Rightarrow> fallback)"

definition deploymentRes :: "environ \<Rightarrow> GroupVersionResource" where
  "deploymentRes env = \<lparr>gvr_Group = rest_getEnv env ''API_GROUP'' ''netcracker.com'', gvr_Version = ''v1'', gvr_Resource = ''consulacls''\<rparr>"

definition prepareAllowNamespacesList :: "environ \<Rightarrow> string list" where
  "prepareAllowNamespacesList env = strings_Split (os_Getenv env ''ALLOWED_NAMESPACES'') (CHR '','')"

definition homeDir :: "environ \<Rightarrow> string" where
  "homeDir env = (let h = os_Getenv env ''HOME'' in if h \<noteq> [] then h else os_Getenv env ''USERPROFILE'')"

text \<open>
  \<open>re_Join\<close> is \<^verbatim>\<open>filepath.Join(home, ".kube", "config")\<close>. Defining a flag twice panics with a text; \<^verbatim>\<open>flag.Parse\<close> takes
  the default to the value of the flag or ends the process.
\<close>

definition getKubeConfig :: "('c, 'w) restEnv \<Rightarrow> 'w restProc \<Rightarrow> string outcome \<times> 'w restProc" where
  "getKubeConfig E p =
     (if rp_kubeconfig p \<noteq> [] then (Returned (rp_kubeconfig p), p)
      else if rp_flag p then (Panicked (PanicText (re_Program E @ '' flag redefined: kubeconfig'')), p)
      else let home = homeDir (re_env E) in
        (case re_FlagParse E (if home \<noteq> [] then re_Join E home else []) of
           None \<Rightarrow> (Exited, p\<lparr>rp_flag := True\<rparr>)
         | Some v \<Rightarrow> (Returned v, p\<lparr>rp_kubeconfig := v, rp_flag := True\<rparr>)))"

definition getConfigurationForKubernetesClient :: "('c, 'w) restEnv \<Rightarrow> 'w restProc \<Rightarrow> 'c outcome \<times> 'w restProc" where
  "getConfigurationForKubernetesClient E p =
     (let isClusterConfig = os_Getenv (re_env E) ''IS_CLUSTER_CONFIG'';
          done = (\<lambda>r p. case r of Inl err \<Rightarrow> (Exited, p) | Inr config \<Rightarrow> (Returned config, p)) in
      if isClusterConfig = [] \<or> isClusterConfig = ''true'' then done (re_InClusterConfig E) p
      else obind (getKubeConfig E p) (\<lambda>kubeconfig. done (re_BuildConfig E kubeconfig)))"

definition makeClient :: "('c, 'w) restEnv \<Rightarrow> 'w restProc \<Rightarrow> 'c outcome \<times> 'w restProc" where
  "makeClient E p = obind (getConfigurationForKubernetesClient E p) (\<lambda>config p.
     case re_NewDynamic E config of None \<Rightarrow> (Returned config, p) | Some err \<Rightarrow> (Exited, p))"

definition makeKubeClient :: "('c, 'w) restEnv \<Rightarrow> 'w restProc \<Rightarrow> 'c outcome \<times> 'w restProc" where
  "makeKubeClient E p = obind (getConfigurationForKubernetesClient E p) (\<lambda>config p.
     case re_NewClientset E config of None \<Rightarrow> (Returned config, p) | Some err \<Rightarrow> (Exited, p))"

subsection \<open>Authentication\<close>

definition extractToken :: "httpCall \<Rightarrow> string" where
  "extractToken r =
     (let strArr = strings_Split (call_Authorization r) (CHR '' '') in if length strArr = 2 then strArr ! 1 else [])"

fun isNamespaceAllowed :: "string list \<Rightarrow> string \<Rightarrow> bool" where
  "isNamespaceAllowed [] namespace = False"
| "isNamespaceAllowed (item # items) namespace = (if namespace = item then True else isNamespaceAllowed items namespace)"

text \<open>The parser fills the claims and its error is only logged; a claim that is not a string fails the type assertion.\<close>

definition namespaceClaim :: string where
  "namespaceClaim = ''kubernetes.io/serviceaccount/namespace''"

definition checkAuthorization :: "('c, 'w) restEnv \<Rightarrow> string \<Rightarrow> bool outcome" where
  "checkAuthorization E tokenString =
     (let allowNamespaces = prepareAllowNamespacesList (re_env E) in
      if allowNamespaces = [[]] then Returned True
      else case re_Claims E tokenString namespaceClaim of
             Some (StrVal namespace) \<Rightarrow> Returned (isNamespaceAllowed allowNamespaces namespace)
           | _ \<Rightarrow> Panicked (RuntimeError ''interface conversion''))"

definition checkAuth :: "('c, 'w) restEnv \<Rightarrow> string \<Rightarrow> 'w restProc \<Rightarrow> bool outcome \<times> 'w restProc" where
  "checkAuth E token p = obind (makeKubeClient E p) (\<lambda>clientSet p.
     case re_ReviewToken E clientSet token (rp_world p) of
       (Inl err, w) \<Rightarrow> (Returned False, p\<lparr>rp_world := w\<rparr>)
     | (Inr authenticated, w) \<Rightarrow>
         (if authenticated then checkAuthorization E token else Returned False, p\<lparr>rp_world := w\<rparr>))"

subsection \<open>Reconciliation\<close>

definition getCommonReconcileMessage :: "('c, 'w) restEnv \<Rightarrow> 'w \<Rightarrow> string" where
  "getCommonReconcileMessage E w = ''Common reconciliation at '' @ fmt_d (re_Second E w) @ ''-'' @ fmt_d (re_Nanosecond E w)"

text \<open>The field \<^verbatim>\<open>spec.acl.commonReconcile\<close> of an object is set.\<close>

definition set_commonReconcile :: "string \<Rightarrow> unstructured \<Rightarrow> unstructured \<Rightarrow> unstructured \<Rightarrow> unstructured" where
  "set_commonReconcile message obj spec acl =
     AList.update ''spec'' (MapVal (AList.update ''acl'' (MapVal (AList.update ''commonReconcile'' (StrVal message) acl)) spec)) obj"

definition reconcileObject ::
  "('c, 'w) restEnv \<Rightarrow> 'c \<Rightarrow> string \<Rightarrow> unstructured \<Rightarrow> 'w restProc \<Rightarrow> bool outcome \<times> 'w restProc"
where
  "reconcileObject E client message obj p =
     (case map_of obj ''spec'' of
        Some (MapVal spec) \<Rightarrow>
          (case map_of spec ''acl'' of
             Some (MapVal acl) \<Rightarrow>
               (case re_Update E client (deploymentRes (re_env E)) [] (set_commonReconcile message obj spec acl) (rp_world p) of
                  (err, w) \<Rightarrow> (Returned (err = None), p\<lparr>rp_world := w\<rparr>))
           | _ \<Rightarrow> (Returned False, p))
      | _ \<Rightarrow> (Panicked (RuntimeError ''interface conversion''), p))"

fun reconcileObjects ::
  "('c, 'w) restEnv \<Rightarrow> 'c \<Rightarrow> string \<Rightarrow> unstructured list \<Rightarrow> bool \<Rightarrow> 'w restProc \<Rightarrow> bool outcome \<times> 'w restProc"
where
  "reconcileObjects E client message [] result p = (Returned result, p)"
| "reconcileObjects E client message (obj # objs) result p =
     obind (reconcileObject E client message obj p) (\<lambda>ok. reconcileObjects E client message objs (result \<and> ok))"

definition changeReconcileSpecField :: "('c, 'w) restEnv \<Rightarrow> 'w restProc \<Rightarrow> bool outcome \<times> 'w restProc" where
  "changeReconcileSpecField E p = obind (makeClient E p) (\<lambda>client p.
     let message = getCommonReconcileMessage E (rp_world p) in
     case re_List E client (deploymentRes (re_env E)) (rp_world p) of
       (Inl err, w) \<Rightarrow> (Returned False, p\<lparr>rp_world := w\<rparr>)
     | (Inr objs, w) \<Rightarrow> reconcileObjects E client message objs True (p\<lparr>rp_world := w\<rparr>))"

subsection \<open>Handlers\<close>

text \<open>A handler works on the response and the process; after a panic the response is what was written before it.\<close>

type_synonym ('c, 'w) handler = "httpCall \<Rightarrow> responseWriter \<times> 'w restProc \<Rightarrow> unit outcome \<times> (responseWriter \<times> 'w restProc)"

definition on_process :: "('p \<Rightarrow> 'a outcome \<times> 'p) \<Rightarrow> 'r \<times> 'p \<Rightarrow> 'a outcome \<times> ('r \<times> 'p)" where
  "on_process f s = (case f (snd s) of (a, p) \<Rightarrow> (a, (fst s, p)))"

definition respond :: "string \<Rightarrow> int \<Rightarrow> responseWriter \<times> 'p \<Rightarrow> unit outcome \<times> (responseWriter \<times> 'p)" where
  "respond body code s = (Returned (), (WriteHeader code (rw_Write body (fst s)), snd s))"

definition handlerFunc :: "('c, 'w) restEnv \<Rightarrow> ('c, 'w) handler" where
  "handlerFunc E r s =
     obind (on_process (checkAuth E (extractToken r)) s) (\<lambda>authenticated s.
       if \<not> authenticated then respond ''Access denied'' 401 s
       else obind (on_process (changeReconcileSpecField E) s) (\<lambda>ok s.
         if \<not> ok then respond ''Some errors occurred during reconciliation'' 504 s
         else respond ''Reconciliation done!'' 200 s))"

text \<open>The deferred function handles a panic with a text; any other value fails its type assertion, which panics again.\<close>

definition JsonContentType :: "('c, 'w) handler \<Rightarrow> ('c, 'w) handler" where
  "JsonContentType h r s =
     (case h r ((fst s)\<lparr>rw_ContentType := ''application/json''\<rparr>, snd s) of
        (Panicked (PanicText err), (rw, p)) \<Rightarrow> (Returned (), (http_Error err 400 rw, p))
      | (Panicked (RuntimeError err), (rw, p)) \<Rightarrow> (Panicked (RuntimeError ''interface conversion''), (rw, p))
      | x \<Rightarrow> x)"

text \<open>For a clean path the router answers 404 when it is unknown and 405 for another method.\<close>

definition healthz :: "('c, 'w) handler" where
  "healthz r s = (Returned (), (rw_Write ''ok'' (WriteHeader 200 (fst s)), snd s))"

definition route :: "('c, 'w) restEnv \<Rightarrow> ('c, 'w) handler" where
  "route E r s =
     (if call_Path r \<noteq> ''/reconcile'' \<and> call_Path r \<noteq> ''/healthz''
      then (Returned (), (http_Error ''404 page not found'' 404 (fst s), snd s))
      else if call_Method r \<noteq> ''GET'' then (Returned (), (WriteHeader 405 (fst s), snd s))
      else if call_Path r = ''/reconcile'' then handlerFunc E r s
      else healthz r s)"

definition AdapterMainHandler :: "('c, 'w) restEnv \<Rightarrow> ('c, 'w) handler" where
  "AdapterMainHandler E = JsonContentType (route E)"

text \<open>
  The server sends the response of a handler that returns, with code 200 when none was written; after a panic it closes the connection.
\<close>

definition http_serve :: "('c, 'w) handler \<Rightarrow> httpCall \<Rightarrow> 'w restProc \<Rightarrow> responseWriter option \<times> 'w restProc" where
  "http_serve h r p =
     (case h r (\<lparr>rw_ContentType = [], rw_Code = None, rw_Body = []\<rparr>, p) of
        (Returned _, (rw, p1)) \<Rightarrow> (Some (WriteHeader 200 rw), p1)
      | (_, (rw, p1)) \<Rightarrow> (None, p1))"

subsection \<open>Who may start a reconciliation\<close>

definition token_allowed :: "('c, 'w) restEnv \<Rightarrow> string \<Rightarrow> bool" where
  "token_allowed E token \<longleftrightarrow>
     prepareAllowNamespacesList (re_env E) = [[]] \<or>
     (\<exists>ns. re_Claims E token namespaceClaim = Some (StrVal ns) \<and> ns \<in> set (prepareAllowNamespacesList (re_env E)))"

lemma isNamespaceAllowed_iff: "isNamespaceAllowed items ns \<longleftrightarrow> ns \<in> set items"
  by (induction items) auto

lemma checkAuthorization_iff: "checkAuthorization E token = Returned True \<longleftrightarrow> token_allowed E token"
  by (auto simp: checkAuthorization_def token_allowed_def isNamespaceAllowed_iff Let_def split: option.splits configValue.splits)

lemma checkAuthorization_other:
  "\<not> token_allowed E token \<Longrightarrow>
     checkAuthorization E token = Returned False \<or> checkAuthorization E token = Panicked (RuntimeError ''interface conversion'')"
  by (auto simp: checkAuthorization_def token_allowed_def isNamespaceAllowed_iff Let_def split: option.splits configValue.splits)

text \<open>The request that starts a reconciliation.\<close>

definition reconcile_call :: "string \<Rightarrow> httpCall" where
  "reconcile_call authorization = \<lparr>call_Method = ''GET'', call_Path = ''/reconcile'', call_Authorization = authorization\<rparr>"

lemma route_reconcile: "route E (reconcile_call a) = handlerFunc E (reconcile_call a)"
  by (rule ext) (simp add: route_def reconcile_call_def)

lemma respond_code: "fst s = rw \<Longrightarrow> rw_Code rw = None \<Longrightarrow>
  respond body code s = (Returned (), (rw\<lparr>rw_Code := Some 200, rw_Body := rw_Body rw @ body\<rparr>, snd s))"
  by (simp add: respond_def rw_Write_def WriteHeader_def Let_def)

text \<open>
  C39. A request whose token the API server does not confirm, or whose namespace claim is not in the list of allowed namespaces, changes
  nothing: the only call is the review of the token. When a response is sent it is the denial, and no response is sent when the claim
  is missing or is not a string.
\<close>

theorem denied_request_changes_nothing:
  assumes c: "makeKubeClient E p = (Returned c, p1)"
    and r: "re_ReviewToken E c (extractToken (reconcile_call a)) (rp_world p1) = (review, w1)"
    and d: "\<not> (review = Inr True \<and> token_allowed E (extractToken (reconcile_call a)))"
  shows "snd (http_serve (AdapterMainHandler E) (reconcile_call a) p) = p1\<lparr>rp_world := w1\<rparr> \<and>
    (case fst (http_serve (AdapterMainHandler E) (reconcile_call a) p) of None \<Rightarrow> True | Some rw \<Rightarrow> rw_Body rw = ''Access denied'')"
proof -
  let ?t = "extractToken (reconcile_call a)"
  have "checkAuth E ?t p = (Returned False, p1\<lparr>rp_world := w1\<rparr>) \<or>
      checkAuth E ?t p = (Panicked (RuntimeError ''interface conversion''), p1\<lparr>rp_world := w1\<rparr>)"
    using c r d checkAuthorization_other[of E ?t] by (cases review) (auto simp: checkAuth_def)
  then show ?thesis
    by (elim disjE) (simp_all add: http_serve_def AdapterMainHandler_def JsonContentType_def route_reconcile handlerFunc_def on_process_def
      respond_code WriteHeader_def)
qed

subsection \<open>Which codes are sent\<close>

definition redefined :: "('c, 'w) restEnv \<Rightarrow> string" where
  "redefined E = re_Program E @ '' flag redefined: kubeconfig''"

text \<open>The only panic with a text is the second definition of the flag.\<close>

definition text_panics :: "('c, 'w) restEnv \<Rightarrow> 'a outcome \<times> 's \<Rightarrow> bool" where
  "text_panics E x \<longleftrightarrow> (\<forall>t. fst x = Panicked (PanicText t) \<longrightarrow> t = redefined E)"

lemma text_panics_returned [simp]: "text_panics E (Returned a, s)" "text_panics E (Exited, s)" "text_panics E (Panicked (RuntimeError e), s)"
  by (simp_all add: text_panics_def)

lemma text_panics_obind: "text_panics E x \<Longrightarrow> (\<And>a s. text_panics E (f a s)) \<Longrightarrow> text_panics E (obind x f)"
  by (cases "(x, f)" rule: obind.cases) (simp_all add: text_panics_def)

lemma text_panics_config: "text_panics E (getConfigurationForKubernetesClient E p)"
  unfolding getConfigurationForKubernetesClient_def Let_def
  by (auto intro!: text_panics_obind split: sum.split)
    (auto simp: getKubeConfig_def text_panics_def redefined_def Let_def split: option.splits)

lemma text_panics_clients: "text_panics E (makeClient E p)" "text_panics E (makeKubeClient E p)"
  unfolding makeClient_def makeKubeClient_def by (auto intro!: text_panics_obind text_panics_config split: option.split)

lemma text_panics_checkAuth: "text_panics E (checkAuth E token p)"
proof -
  have "text_panics E (checkAuthorization E token, q)" for q :: "'w restProc"
    by (auto simp: checkAuthorization_def text_panics_def Let_def split: option.splits configValue.splits)
  then show ?thesis
    unfolding checkAuth_def by (auto intro!: text_panics_obind text_panics_clients split: prod.split sum.split)
qed

lemma text_panics_objects: "text_panics E (reconcileObjects E client message objs result p)"
proof (induction objs arbitrary: result p)
  case (Cons obj objs)
  have "text_panics E (reconcileObject E client message obj p)"
    by (auto simp: reconcileObject_def split: option.split configValue.split prod.split)
  then show ?case using Cons by (simp add: text_panics_obind)
qed simp

lemma text_panics_change: "text_panics E (changeReconcileSpecField E p)"
  unfolding changeReconcileSpecField_def Let_def
  by (auto intro!: text_panics_obind text_panics_clients text_panics_objects split: prod.split sum.split)

text \<open>What the handler leaves in an empty response.\<close>

definition handled :: "('c, 'w) restEnv \<Rightarrow> responseWriter \<Rightarrow> unit outcome \<times> (responseWriter \<times> 'p) \<Rightarrow> bool" where
  "handled E rw x \<longleftrightarrow>
     (case x of
        (Returned _, (rw1, _)) \<Rightarrow> \<exists>body. body \<in> {''Access denied'', ''Some errors occurred during reconciliation'', ''Reconciliation done!''} \<and>
          rw1 = rw\<lparr>rw_Code := Some 200, rw_Body := body\<rparr>
      | (Panicked (PanicText t), (rw1, _)) \<Rightarrow> t = redefined E \<and> rw1 = rw
      | _ \<Rightarrow> True)"

lemma handled_obind:
  assumes "text_panics E (f (snd s))" and "fst s = rw" and "\<And>a q. handled E rw (g a (rw, q))"
  shows "handled E rw (obind (on_process f s) g)"
  using assms by (cases "f (snd s)"; cases "fst (f (snd s))")
    (auto simp: on_process_def handled_def text_panics_def split: goPanic.split)

lemma handlerFunc_handled:
  assumes "rw_Code rw = None" and "rw_Body rw = []"
  shows "handled E rw (handlerFunc E r (rw, p))"
proof -
  have "handled E rw (respond body code (rw, q))"
    if "body \<in> {''Access denied'', ''Some errors occurred during reconciliation'', ''Reconciliation done!''}" for body code and q :: "'b restProc"
    using that assms by (auto simp: handled_def respond_code)
  then show ?thesis
    unfolding handlerFunc_def
    by (auto intro!: handled_obind text_panics_checkAuth text_panics_change)
qed

text \<open>
  Every response to a request for a reconciliation has code 200 and one of three bodies, or code 400 and the text of the panic when the flag of
  the configuration is defined a second time. The codes 401 of a denied request and 504 of a failed reconciliation are
  set after the body and never sent.
\<close>

theorem reconcile_response_code:
  "case fst (http_serve (AdapterMainHandler E) (reconcile_call a) p) of
     None \<Rightarrow> True
   | Some rw \<Rightarrow>
       rw_Code rw = Some 200 \<and> rw_Body rw \<in> {''Access denied'', ''Some errors occurred during reconciliation'', ''Reconciliation done!''} \<or>
       rw_Code rw = Some 400 \<and> rw_Body rw = redefined E @ [CHR 0x0A]"
proof -
  let ?rw = "\<lparr>rw_ContentType = ''application/json'', rw_Code = None, rw_Body = []\<rparr>"
  obtain x rw p1 where h: "handlerFunc E (reconcile_call a) (?rw, p) = (x, (rw, p1))" by (rule prod_cases3)
  have "handled E ?rw (x, (rw, p1))" using handlerFunc_handled[of ?rw E "reconcile_call a" p] h by simp
  then show ?thesis
    using h by (cases x)
      (auto simp: handled_def http_serve_def AdapterMainHandler_def JsonContentType_def route_reconcile http_Error_def rw_Write_def
        WriteHeader_def Let_def split: goPanic.splits)
qed

subsection \<open>What a reconciliation updates\<close>

text \<open>The objects are updated one after the other, each with only \<^verbatim>\<open>spec.acl.commonReconcile\<close> changed, and no update fails.\<close>

inductive updated_all :: "('c, 'w) restEnv \<Rightarrow> 'c \<Rightarrow> string \<Rightarrow> unstructured list \<Rightarrow> 'w \<Rightarrow> 'w \<Rightarrow> bool" for E client message where
  updated_none: "updated_all E client message [] w w"
| updated_next: "map_of obj ''spec'' = Some (MapVal spec) \<Longrightarrow> map_of spec ''acl'' = Some (MapVal acl) \<Longrightarrow>
    re_Update E client (deploymentRes (re_env E)) [] (set_commonReconcile message obj spec acl) w = (None, w1) \<Longrightarrow>
    updated_all E client message objs w1 w2 \<Longrightarrow> updated_all E client message (obj # objs) w w2"

text \<open>Setting the field changes no other field of the object, its specification or its ACL.\<close>

lemma set_commonReconcile_fields:
  assumes "map_of obj ''spec'' = Some (MapVal spec)" and "map_of spec ''acl'' = Some (MapVal acl)"
  obtains spec1 acl1 where "map_of (set_commonReconcile message obj spec acl) = (map_of obj)(''spec'' \<mapsto> MapVal spec1)"
    "map_of spec1 = (map_of spec)(''acl'' \<mapsto> MapVal acl1)" "map_of acl1 = (map_of acl)(''commonReconcile'' \<mapsto> StrVal message)"
  unfolding set_commonReconcile_def by (metis update_conv')

lemma reconcileObject_true:
  assumes "reconcileObject E client message obj p = (Returned True, p1)"
  obtains spec acl where "map_of obj ''spec'' = Some (MapVal spec)" "map_of spec ''acl'' = Some (MapVal acl)"
    "re_Update E client (deploymentRes (re_env E)) [] (set_commonReconcile message obj spec acl) (rp_world p) = (None, rp_world p1)"
  using assms by (auto simp: reconcileObject_def split: option.splits configValue.splits prod.splits)

lemma reconcileObjects_result:
  "reconcileObjects E client message objs result p = (Returned True, p1) \<Longrightarrow>
     result \<and> updated_all E client message objs (rp_world p) (rp_world p1)"
proof (induction objs arbitrary: result p)
  case Nil
  then show ?case by (auto intro: updated_none)
next
  case (Cons obj objs)
  obtain x p2 where o: "reconcileObject E client message obj p = (x, p2)" by (rule prod.exhaust)
  obtain b where x: "x = Returned b" using Cons.prems o by (cases x) simp_all
  have ih: "(result \<and> b) \<and> updated_all E client message objs (rp_world p2) (rp_world p1)"
    using Cons.prems o x by (intro Cons.IH) simp
  then have o: "reconcileObject E client message obj p = (Returned True, p2)" using o x by simp
  from o show ?case by (rule reconcileObject_true) (use ih in \<open>auto intro: updated_next\<close>)
qed

text \<open>
  A reconciliation that reports success listed the resources and updated every one of them: each has an ACL specification, each was written
  back with only the field \<^verbatim>\<open>commonReconcile\<close> set to the message of this run, and no write failed.
\<close>

theorem reconcile_success_updates_all:
  assumes "changeReconcileSpecField E p = (Returned True, p')"
  shows "\<exists>client p1 objs w1. makeClient E p = (Returned client, p1) \<and>
    re_List E client (deploymentRes (re_env E)) (rp_world p1) = (Inr objs, w1) \<and>
    updated_all E client (getCommonReconcileMessage E (rp_world p1)) objs w1 (rp_world p')"
proof -
  obtain x p1 where m: "makeClient E p = (x, p1)" by (rule prod.exhaust)
  obtain client where x: "x = Returned client" using assms m by (cases x) (simp_all add: changeReconcileSpecField_def)
  obtain l w1 where l: "re_List E client (deploymentRes (re_env E)) (rp_world p1) = (l, w1)" by (rule prod.exhaust)
  obtain objs where o: "l = Inr objs" using assms m x l by (cases l) (simp_all add: changeReconcileSpecField_def Let_def)
  have "reconcileObjects E client (getCommonReconcileMessage E (rp_world p1)) objs True (p1\<lparr>rp_world := w1\<rparr>) = (Returned True, p')"
    using assms m x l o by (simp add: changeReconcileSpecField_def Let_def)
  from reconcileObjects_result[OF this] m x l o show ?thesis by auto
qed

definition update_needs_namespace :: "('c, 'w) restEnv \<Rightarrow> bool" where
  "update_needs_namespace E \<longleftrightarrow> (\<forall>c g obj w. fst (re_Update E c g [] obj w) \<noteq> None)"

text \<open>
  C40. The updates name no namespace. When the API server has no path for the update of a namespaced resource without its namespace, so that
  every such update fails, a reconciliation with at least one resource never reports success.
\<close>

theorem reconcile_without_namespace_fails:
  assumes u: "update_needs_namespace E" and m: "makeClient E p = (Returned client, p1)"
    and l: "re_List E client (deploymentRes (re_env E)) (rp_world p1) = (Inr (obj # objs), w1)"
  shows "fst (changeReconcileSpecField E p) \<noteq> Returned True"
proof
  let ?run = "reconcileObjects E client (getCommonReconcileMessage E (rp_world p1)) (obj # objs) True (p1\<lparr>rp_world := w1\<rparr>)"
  assume "fst (changeReconcileSpecField E p) = Returned True"
  then have "fst ?run = Returned True" using m l by (simp add: changeReconcileSpecField_def Let_def)
  then have "?run = (Returned True, snd ?run)" by (metis prod.collapse)
  from reconcileObjects_result[OF this]
  have "updated_all E client (getCommonReconcileMessage E (rp_world p1)) (obj # objs) w1 (rp_world (snd ?run))" by simp
  then show False
  proof cases
    case (updated_next spec acl w2)
    then show False using u unfolding update_needs_namespace_def by (metis fst_conv)
  qed
qed

subsection \<open>Examples\<close>

text \<open>An API server with one resource that confirms the token t; the world counts its updates, which fail when \<open>strict\<close>.\<close>

definition demo_rest :: "bool \<Rightarrow> (unit, nat) restEnv" where
  "demo_rest strict =
     \<lparr>re_env = (\<lambda>v. if v = ''ALLOWED_NAMESPACES'' then Some ''a,b'' else None), re_Program = ''rest'', re_Join = (\<lambda>h. h), re_FlagParse = Some,
      re_InClusterConfig = Inr (), re_BuildConfig = (\<lambda>_. Inr ()), re_NewDynamic = (\<lambda>_. None), re_NewClientset = (\<lambda>_. None),
      re_ReviewToken = (\<lambda>_ t w. (Inr (t = ''t''), w)),
      re_Claims = (\<lambda>t k. if k = namespaceClaim then Some (StrVal ''c'') else None),
      re_Second = (\<lambda>_. 1), re_Nanosecond = (\<lambda>_. 2),
      re_List = (\<lambda>_ _ w. (Inr [[(''spec'', MapVal [(''acl'', MapVal [])])]], w)),
      re_Update = (\<lambda>_ _ ns obj w. if strict \<and> ns = [] then (Some (K8sNotFound ''consulacls''), w) else (None, Suc w))\<rparr>"

definition demo_proc :: "nat restProc" where
  "demo_proc = \<lparr>rp_kubeconfig = [], rp_flag = False, rp_world = 0\<rparr>"

lemma demo_clients:
  "makeClient (demo_rest strict) demo_proc = (Returned (), demo_proc)"
  "makeKubeClient (demo_rest strict) demo_proc = (Returned (), demo_proc)"
  by (simp_all add: makeClient_def makeKubeClient_def getConfigurationForKubernetesClient_def demo_rest_def os_Getenv_def Let_def)

theorem denied_request_changes_nothing_witness:
  "snd (http_serve (AdapterMainHandler (demo_rest False)) (reconcile_call ''Bearer t'') demo_proc) = demo_proc \<and>
   (case fst (http_serve (AdapterMainHandler (demo_rest False)) (reconcile_call ''Bearer t'') demo_proc) of
      None \<Rightarrow> True | Some rw \<Rightarrow> rw_Body rw = ''Access denied'')"
proof -
  have "re_ReviewToken (demo_rest False) () (extractToken (reconcile_call ''Bearer t'')) (rp_world demo_proc) = (Inr True, 0)"
    by code_simp
  moreover have "\<not> token_allowed (demo_rest False) (extractToken (reconcile_call ''Bearer t''))"
    by (simp add: token_allowed_def demo_rest_def prepareAllowNamespacesList_def os_Getenv_def)
  ultimately show ?thesis
    using denied_request_changes_nothing[OF demo_clients(2)] by (simp add: demo_proc_def)
qed

theorem reconcile_success_updates_all_witness:
  "\<exists>client p1 objs w1. makeClient (demo_rest False) demo_proc = (Returned client, p1) \<and>
    re_List (demo_rest False) client (deploymentRes (re_env (demo_rest False))) (rp_world p1) = (Inr objs, w1) \<and>
    updated_all (demo_rest False) client (getCommonReconcileMessage (demo_rest False) (rp_world p1)) objs w1 1"
proof -
  have "changeReconcileSpecField (demo_rest False) demo_proc = (Returned True, demo_proc\<lparr>rp_world := 1\<rparr>)" by code_simp
  from reconcile_success_updates_all[OF this] show ?thesis by simp
qed

theorem reconcile_without_namespace_fails_witness:
  "fst (changeReconcileSpecField (demo_rest True) demo_proc) \<noteq> Returned True"
proof (rule reconcile_without_namespace_fails[OF _ demo_clients(1)])
  show "update_needs_namespace (demo_rest True)" by (simp add: update_needs_namespace_def demo_rest_def)
  show "re_List (demo_rest True) () (deploymentRes (re_env (demo_rest True))) (rp_world demo_proc) =
      (Inr [[(''spec'', MapVal [(''acl'', MapVal [])])]], 0)"
    by (simp add: demo_rest_def demo_proc_def)
qed

end
