(* ===== verification/Spec2Isabelle.thy ===== *)
theory Spec2Isabelle
  imports ACL_Properties ACL_Descriptions ACL_Calls ACL_Registry Scheme Auth_Method Remove_Tokens DR_Main DR_Properties Rest_Configurator
begin

text \<open>
  \<^bold>\<open>Qubership Consul: the Go programs around a Consul cluster.\<close>

  The repository deploys Consul to Kubernetes and adds four Go programs, which are the subject of this library.

  \<^item> The \<^emph>\<open>ACL configurator operator\<close> (\<^verbatim>\<open>acl-configurator/consul-acl-configurator-operator\<close>) reconciles two kinds of
    custom resources. A ConsulACL resource declares policies, roles and binding rules as JSON; several resources, also of
    different namespaces, may declare one entity by its exact name, and the owners are kept in the description of the entity.
    A ConsulKV resource declares keys; several resources may declare one key, and the Flags of the key count
    its owners. At start the operator also ensures the JWT auth method of the applications.
  \<^item> The \<^emph>\<open>REST server\<close> (\<^verbatim>\<open>acl-configurator/rest-acl-configurator\<close>) touches every ConsulACL resource on request, so that the
    operator reconciles it.
  \<^item> The \<^emph>\<open>token removal job\<close> (\<^verbatim>\<open>remove-tokens\<close>) deletes ACL tokens of client pods that are gone.
  \<^item> The \<^emph>\<open>disaster recovery controller\<close> (\<^verbatim>\<open>disaster-recovery\<close>) switches a site to active, standby or disabled: it scales the backup
    daemon and makes or restores a backup.

  \<^bold>\<open>Method.\<close> A Go function of these programs is an executable HOL function with the branches and early returns of the source; logging is
  left out. Consul, the Kubernetes API server, HTTP, the clock, files and libraries are records of functions over a world
  \<^typ>\<open>'w\<close>, so that a theorem holds for any answers, errors included. What the code relies on of them is a named predicate
  (\<open>kv_service\<close>, \<open>kv_sequential\<close>, \<open>kv_quiet\<close>, \<open>k8s_lib_ok\<close>, \<open>consul_acl_ok\<close>, \<open>answers_true\<close>, \<open>meta_lib_ok\<close>, \<open>auth_store_ok\<close>, \<open>http_ok\<close>, \<open>dr_logged\<close> and others), a hypothesis of the theorems that need it, and an
  example at the end of the theory satisfies it. Many properties are about the calls: a client that also keeps
  a log of its calls (\<open>logged\<close> in \<open>ACL_Trace\<close>, \<open>traced\<close> in \<open>ACL_Events\<close> with failed reads and all answers, \<open>logged_kv\<close> in \<open>KV_Release\<close>, \<open>logged_http\<close> in \<open>Http\<close>, the history of \<open>DR_History\<close>) takes the place of the
  original. An error is a value of \<open>goerror\<close>, a chain as in Go, so that \<^verbatim>\<open>errors.As\<close> and \<^verbatim>\<open>errors.Is\<close> are functions; a followed nil
  pointer is \<open>None\<close>, and the REST server has the panics of Go as outcomes. Counters are 64-bit words.

  \<^bold>\<open>Theories.\<close>

  \<^item> \<open>Prelude\<close>: strings, formatting, errors, JSON values and effects of Go.
  \<^item> \<open>Owners\<close> (\<^verbatim>\<open>consulacl_controller.go\<close>, \<^verbatim>\<open>parseOwners\<close> to \<^verbatim>\<open>withOwnerAdded\<close>): the owner list in a description. The locales \<open>owner_codec\<close> and
    \<open>owner_registry\<close> are its contracts: reading back what was written, and the refinement of the set of holders by one declaration or release.
  \<^item> \<open>Kubernetes\<close> (\<^verbatim>\<open>util\<close>, \<^verbatim>\<open>ownership.go\<close>, the configuration of namespaces in \<^verbatim>\<open>main.go\<close>): metadata, conditions, updates with retry, the
    namespaces an operator watches; in strict mode a resource has one operator.
  \<^item> \<open>KV_Client\<close>, \<open>KV_Chunk\<close>, \<open>KV_Batch\<close>, \<open>KV_Status\<close>, \<open>KV_Release\<close>, \<open>KV_Sequential\<close>, \<open>KV_Refcount\<close>, \<open>KV_Properties\<close>, \<open>KV_Reconcile\<close> (\<^verbatim>\<open>consulkv_controller.go\<close>): check-and-set
    transactions, their batches (locale \<open>batch_loop\<close>) and statuses; what a release commits while others use Consul (\<open>KV_Release\<close>); what the
    operations do when they follow each other and calls may fail (\<open>KV_Sequential\<close>); the step relation of many resources with the
    invariant that Flags count the owners (\<open>KV_Refcount\<close>), and the reconcile loop with its finalizer.
  \<^item> \<open>ACL_Types\<close>, \<open>ACL_Trace\<close>, \<open>ACL_Release\<close>, \<open>ACL_Safety\<close>, \<open>ACL_Apply\<close>, \<open>ACL_Writes\<close>, \<open>ACL_Events\<close>, \<open>ACL_Calls\<close>, \<open>ACL_Reconcile\<close>, \<open>ACL_Properties\<close> (\<^verbatim>\<open>consulacl_controller.go\<close>, \<^verbatim>\<open>acl_api_provider.go\<close>): entities and
    names, the release of shared entities (locale \<open>entity_release\<close>), what clean-up and deletion may delete, what applying a
    resource reports (\<open>ACL_Writes\<close>) and exactly which calls it makes for each of the answers (\<open>ACL_Calls\<close>), the protection of siblings, the finalizer, and that no transient failure is lost.
  \<^item> \<open>ACL_Keeps\<close>, \<open>ACL_Ownership\<close>, \<open>ACL_Registry\<close>, \<open>ACL_Descriptions\<close>: the reconcile of a ConsulACL resource as a whole. \<open>ACL_Keeps\<close> has the rules for what
    every operation keeps and composes them to the reconcile; with them, a shared policy or role stays with a namespace whatever the
    reconciles of other namespaces do (\<open>others_reconcile\<close>), the owners of a policy are exactly its holders over any history of the operations that
    declare and release it (\<open>policy_history\<close>), and every description sent to Consul is canonical. Specifications with IDs are outside these
    two results, because such a policy loses its owners (\<open>ACL_Calls\<close>). Reconciles run one
    after the other there, as the single worker of a controller runs them; each may fail at any call.
  \<^item> \<open>Operator\<close> (\<^verbatim>\<open>main.go\<close>, \<^verbatim>\<open>acl_api_provider.go\<close>, the settings of the packages): the start of the operator, what its manager caches, which
    resources its controllers take.
  \<^item> \<open>Go_Heap\<close>, \<open>Deep_Copy\<close>, \<open>Deep_Copy_V1alpha1\<close> (\<^verbatim>\<open>api/v1\<close>, \<^verbatim>\<open>api/v1alpha1\<close>): the API types in a memory with pointers and slices, and the generated
    copy functions. The locale \<open>deep_copy\<close> is their contract, with a rule for each statement of the generator; a copy has the value of the
    original and shares no memory with it. That is what lets the other theories take the objects that the cache hands out as values.
  \<^item> \<open>Scheme\<close> (\<^verbatim>\<open>groupversion_info.go\<close>, \<^verbatim>\<open>init\<close> of \<^verbatim>\<open>main.go\<close>): the registered types; the operator knows those of \<^verbatim>\<open>v1\<close> only.
  \<^item> \<open>Auth_Method\<close> (\<^verbatim>\<open>consulacl_controller.go\<close>, lines 1208-1373): the auth method of the applications.
  \<^item> \<open>Http\<close>, \<open>Remove_Tokens\<close> (\<^verbatim>\<open>remove-tokens.go\<close>): which tokens are selected and which requests are sent.
  \<^item> \<open>DR_Clients\<close>, \<open>DR_Switchover\<close>, \<open>DR_Main\<close>, \<open>DR_History\<close>, \<open>DR_Properties\<close> (\<^verbatim>\<open>disaster-recovery\<close>): the start of the daemon, what happened, in which order, when a switchover reports
    DONE, including the restores that are not confirmed, and which backup is restored.
  \<^item> \<open>Rest_Configurator\<close> (\<^verbatim>\<open>rest-acl-configurator/cmd/main.go\<close>): who may start a reconciliation, what it updates, which codes are sent.

  \<^bold>\<open>Loops and fuel.\<close> Loops over slices are structural recursion. The retries of a check-and-set batch have the constant
  \<open>casMaxRetries\<close> of the source as their measure, updates of resources the retry function of the library. The wait for a leader runs on fuel: 8
  polls are proved to be enough, because the delays start at 5 seconds, double up to 30 seconds and the time limit is 3 minutes. The retry of the auth
  method has no bound in the source; with any fuel above the number of failed attempts it returns. \<^verbatim>\<open>PollUntilContextTimeout\<close> of the disaster
  recovery controller is a parameter with the documented behaviour \<open>poll_runs\<close>.

  \<^bold>\<open>What the model showed.\<close> A key that its owner lost to a purge is created again without its count; the claim of a key that was
  declared twice can be lost; a key is counted twice when the status of its first write is not stored; a policy with an ID loses its other
  owners; an existing binding rule is updated, not created again as documented; a rejected restore counts as done; the REST server never
  sends its error codes, closes the connection where it means to answer 400, and updates resources without their namespace;
  without a valid period a failed reconcile is not repeated; and the operator namespace of a v1alpha1 resource binds nothing.

  The theorem of this theory composes the parts of the operator: the start, the cache, the event filters and the ownership rule.

  \<^bold>\<open>Not modelled.\<close> The inside of the libraries: the controller manager, the clients of Consul and Kubernetes, the daemon that calls the
  switchover function, the HTTP server, the metadata types of apimachinery; interleavings of the calls of two reconciles; logging
  and metrics; Helm charts, the scripts of the backup daemon and the tests, which are not Go programs of the system.
\<close>

section \<open>Properties of the operators of a cluster\<close>

text \<open>
  C13. Operators that run in different namespaces, in strict mode and with a cluster-wide watch, share the resources of the cluster without
  overlap: a ConsulACL and a ConsulKV resource whose responsible namespace (the named one, or else its own) has
  an operator is cached and taken by exactly one of them, so no two operators write one resource and none is left out.
\<close>

theorem strict_operators_partition:
  assumes c: "cache_documented cached" and s: "list_all (strict_operator M fl) envs"
    and d: "distinct (map (\<lambda>env. os_Getenv env ''NAMESPACE'') envs)"
    and a: "home (aspec_OperatorNamespace (acr_Spec cr)) (meta_Namespace (acr_Meta cr)) \<in> set (map (\<lambda>env. os_Getenv env ''NAMESPACE'') envs)"
    and k: "home (kvspec_OperatorNamespace (kvcr_Spec cr')) (meta_Namespace (kvcr_Meta cr')) \<in> set (map (\<lambda>env. os_Getenv env ''NAMESPACE'') envs)"
  shows "(\<exists>!i. i < length envs \<and> handles_acl cached
      (\<lambda>own strict. new_ConsulACLReconciler (envs ! i) own strict lib client E unmarshal) (snd (operator_main (envs ! i) fl M)) cr) \<and>
    (\<exists>!i. i < length envs \<and> handles_kv cached
      (\<lambda>own strict. new_ConsulKVReconciler (envs ! i) own strict lib' client' kv txn) (snd (operator_main (envs ! i) fl M)) cr')"
proof -
  let ?ns = "map (\<lambda>env. os_Getenv env ''NAMESPACE'') envs"
  have op: "strict_operator M fl (envs ! i)" if "i < length envs" for i
    using s that by (simp add: list_all_length)
  have one: "\<exists>!i. i < length envs \<and> os_Getenv (envs ! i) ''NAMESPACE'' = n" if m: "n \<in> set ?ns" for n
  proof -
    obtain i where "i < length envs" "os_Getenv (envs ! i) ''NAMESPACE'' = n" using m by (auto simp: in_set_conv_nth)
    moreover have "j = i" if "j < length envs" "os_Getenv (envs ! j) ''NAMESPACE'' = n" for j
      using d that calculation nth_eq_iff_index_eq[of ?ns j i] by simp
    ultimately show ?thesis by blast
  qed
  from one[OF a] one[OF k] show ?thesis
    by (simp add: strict_operator_handles[OF c op] cong: conj_cong)
qed

text \<open>Two operators, in the namespaces a and b.\<close>

definition demo_env :: "string \<Rightarrow> environ" where
  "demo_env ns = [''NAMESPACE'' \<mapsto> ns, ''WATCH_NAMESPACE'' \<mapsto> ''*'', ''STRICT_NAMESPACE_VALIDATION'' \<mapsto> ''true'']"

definition demo_flags :: operatorFlags where
  "demo_flags = \<lparr>of_metricsAddr = '':8080'', of_probeAddr = '':8081'', of_leaderElection = True\<rparr>"

definition demo_cached :: "mgrOptions \<Rightarrow> crKind \<Rightarrow> string \<Rightarrow> string \<Rightarrow> bool" where
  "demo_cached opts kind opn res =
     (case (case cache_ByObject opts of None \<Rightarrow> None | Some by \<Rightarrow> by kind) of
        Some m \<Rightarrow> selected m opn res
      | None \<Rightarrow> (case cache_DefaultNamespaces opts of None \<Rightarrow> True | Some m \<Rightarrow> selected m opn res))"

lemma demo_operator: "ns \<noteq> [] \<Longrightarrow> strict_operator (\<lambda>_. None) demo_flags (demo_env ns)"
proof -
  assume ns: "ns \<noteq> []"
  have t: "strings_TrimSpace ''true'' = ''true''" by code_simp
  have "getStrictNamespaceValidation (demo_env ns) = Inr True"
    by (simp add: getStrictNamespaceValidation_def demo_env_def strconv_ParseBool_def t)
  then show ?thesis
    using ns by (simp add: strict_operator_def operator_main_def demo_env_def os_Getenv_def getWatchNamespace_def)
qed

lemma demo_namespace: "os_Getenv (demo_env ns) ''NAMESPACE'' = ns"
  by (simp add: demo_env_def os_Getenv_def)

theorem strict_operators_partition_witness:
  "\<exists>!i. i < length [demo_env ''a'', demo_env ''b''] \<and> handles_kv demo_cached
     (\<lambda>own strict. new_ConsulKVReconciler ([demo_env ''a'', demo_env ''b''] ! i) own strict
        (ke_lib cluster) cluster_kube (ke_kvClient cluster) (ke_txnClient cluster))
     (snd (operator_main ([demo_env ''a'', demo_env ''b''] ! i) demo_flags (\<lambda>_. None)))
     ((cluster_cr None)\<lparr>kvcr_Spec := (kvcr_Spec (cluster_cr None))\<lparr>kvspec_OperatorNamespace := ''b''\<rparr>\<rparr>)"
  by (rule strict_operators_partition[where
      cr = "(demo_cr ''app'' ''ok'' None)\<lparr>acr_Spec := (acr_Spec (demo_cr ''app'' ''ok'' None))\<lparr>aspec_OperatorNamespace := ''a''\<rparr>\<rparr>", THEN conjunct2])
    (simp_all add: cache_documented_def demo_cached_def demo_operator demo_namespace home_def)

end
